(* ===== verification/Prelude.thy ===== *)
theory Prelude
  imports Main "HOL-Library.Char_ord" "HOL-Library.List_Lexorder" "HOL-Library.Sublist"
begin

text \<open>
  Shared ground of the development: the named collections, Rust's string operations on
  lists of characters, decimal rendering, saturating \<open>usize\<close> arithmetic and the
  round-trip interface \<open>codec\<close>.

  A Rust string is a list of \<open>char\<close>, one per Unicode scalar value; the model covers the
  scalars below U+0100, and \<open>utf8_bytes\<close> gives the bytes of such a string where the code
  looks at bytes. A \<open>usize\<close> is a natural number; where the code saturates at
  \<open>usize::MAX\<close> the model does too.
\<close>

named_theorems model_defs \<open>definitions that unfold one level of the model\<close>
named_theorems str_simps \<open>rewriting of the string operations\<close>

section \<open>Machine sizes\<close>

definition usize_max :: nat where
  "usize_max = 2 ^ 64 - 1"

definition saturating_add :: "nat \<Rightarrow> nat \<Rightarrow> nat" where
  "saturating_add a b = min (a + b) usize_max"

definition saturating_sub :: "nat \<Rightarrow> nat \<Rightarrow> nat" where
  "saturating_sub a b = a - b"

lemma saturating_add_le: "saturating_add a b \<le> usize_max"
  by (simp add: saturating_add_def)

lemma saturating_add_exact: "a + b \<le> usize_max \<Longrightarrow> saturating_add a b = a + b"
  by (simp add: saturating_add_def)

section \<open>Lists and options\<close>

fun find_first :: "('a \<Rightarrow> bool) \<Rightarrow> 'a list \<Rightarrow> 'a option" where
  "find_first p [] = None"
| "find_first p (x # xs) = (if p x then Some x else find_first p xs)"

lemma find_first_SomeD: "find_first p xs = Some x \<Longrightarrow> x \<in> set xs \<and> p x"
  by (induction xs) (auto split: if_splits)

lemma find_first_None_iff: "find_first p xs = None \<longleftrightarrow> (\<forall>x \<in> set xs. \<not> p x)"
  by (induction xs) auto

lemma find_first_Some_ex: "(\<exists>x. find_first p xs = Some x) \<longleftrightarrow> (\<exists>x \<in> set xs. p x)"
  by (induction xs) auto

lemma find_first_distinct_key:
  "distinct (map f xs) \<Longrightarrow> x \<in> set xs \<Longrightarrow> find_first (\<lambda>y. f y = f x) xs = Some x"
proof (induction xs)
  case (Cons y ys)
  then show ?case by (cases "f y = f x") (auto simp: rev_image_eqI)
qed simp

lemma map_of_in_set: "map_of kvs k = Some v \<Longrightarrow> (k, v) \<in> set kvs"
  by (rule map_of_SomeD)

section \<open>Strings\<close>

definition starts_with :: "string \<Rightarrow> string \<Rightarrow> bool" where
  "starts_with s p \<longleftrightarrow> take (length p) s = p"

definition ends_with :: "string \<Rightarrow> string \<Rightarrow> bool" where
  "ends_with s p \<longleftrightarrow> length p \<le> length s \<and> drop (length s - length p) s = p"

fun str_contains :: "string \<Rightarrow> string \<Rightarrow> bool" where
  "str_contains [] p = (p = [])"
| "str_contains (c # cs) p = (starts_with (c # cs) p \<or> str_contains cs p)"

text \<open>Rust's \<open>char::is_whitespace\<close> on scalars below U+0100.\<close>

definition is_whitespace :: "char \<Rightarrow> bool" where
  "is_whitespace c \<longleftrightarrow> (let n = (of_char c :: nat) in
     9 \<le> n \<and> n \<le> 13 \<or> n = 32 \<or> n = 133 \<or> n = 160)"

definition is_ascii_alphanumeric :: "char \<Rightarrow> bool" where
  "is_ascii_alphanumeric c \<longleftrightarrow> (let n = (of_char c :: nat) in
     48 \<le> n \<and> n \<le> 57 \<or> 65 \<le> n \<and> n \<le> 90 \<or> 97 \<le> n \<and> n \<le> 122)"

definition to_ascii_lower :: "char \<Rightarrow> char" where
  "to_ascii_lower c = (let n = (of_char c :: nat) in
     if 65 \<le> n \<and> n \<le> 90 then char_of (n + 32) else c)"

definition to_ascii_lowercase :: "string \<Rightarrow> string" where
  "to_ascii_lowercase s = map to_ascii_lower s"

definition trim_matches :: "(char \<Rightarrow> bool) \<Rightarrow> string \<Rightarrow> string" where
  "trim_matches p s = rev (dropWhile p (rev (dropWhile p s)))"

definition trim :: "string \<Rightarrow> string" where
  "trim s = trim_matches is_whitespace s"

text \<open>\<open>split_on c s\<close> is \<open>s.split(c)\<close>: never empty, separators removed.\<close>

fun split_on :: "char \<Rightarrow> string \<Rightarrow> string list" where
  "split_on c [] = [[]]"
| "split_on c (x # xs) =
     (if x = c then [] # split_on c xs
      else case split_on c xs of
             [] \<Rightarrow> [[x]]
           | w # ws \<Rightarrow> (x # w) # ws)"

text \<open>\<open>split_whitespace\<close>: the maximal runs of characters that are not white space.\<close>

fun split_ws_acc :: "string \<Rightarrow> string \<Rightarrow> string list" where
  "split_ws_acc acc [] = (if acc = [] then [] else [acc])"
| "split_ws_acc acc (x # xs) =
     (if is_whitespace x
      then (if acc = [] then split_ws_acc [] xs else acc # split_ws_acc [] xs)
      else split_ws_acc (acc @ [x]) xs)"

definition split_whitespace :: "string \<Rightarrow> string list" where
  "split_whitespace s = split_ws_acc [] s"

fun join :: "string \<Rightarrow> string list \<Rightarrow> string" where
  "join sep [] = []"
| "join sep [x] = x"
| "join sep (x # y # zs) = x @ sep @ join sep (y # zs)"

text \<open>\<open>str::lines\<close>: a carriage return goes with the newline after it.\<close>

definition strip_cr :: "string \<Rightarrow> string" where
  "strip_cr s = (if s \<noteq> [] \<and> last s = CHR 0x0D then butlast s else s)"

definition lines_of :: "string \<Rightarrow> string list" where
  "lines_of s = (let parts = split_on (CHR 0x0A) s
     in map strip_cr (butlast parts) @ (if last parts = [] then [] else [last parts]))"

text \<open>The UTF-8 bytes of a string of scalars below U+0100.\<close>

definition utf8_char :: "char \<Rightarrow> nat list" where
  "utf8_char c = (let n = of_char c in
     if n < 128 then [n] else [192 + n div 64, 128 + n mod 64])"

definition utf8_bytes :: "string \<Rightarrow> nat list" where
  "utf8_bytes s = concat (map utf8_char s)"

lemma starts_with_append [simp, str_simps]: "starts_with (p @ s) p"
  by (simp add: starts_with_def)

lemma starts_with_iff: "starts_with s p \<longleftrightarrow> (\<exists>t. s = p @ t)"
  unfolding starts_with_def by (metis append_eq_conv_conj append_take_drop_id)

lemma ends_with_iff: "ends_with s p \<longleftrightarrow> (\<exists>t. s = t @ p)"
  unfolding ends_with_def by (metis append_eq_conv_conj append_take_drop_id
      diff_diff_cancel diff_le_self length_append length_drop le_add2 add_diff_cancel_right')

lemma str_contains_iff: "str_contains s p \<longleftrightarrow> (\<exists>u v. s = u @ p @ v)"
proof (induction s)
  case (Cons c cs)
  show ?case
  proof
    assume "str_contains (c # cs) p"
    then consider "starts_with (c # cs) p" | "str_contains cs p" by auto
    then show "\<exists>u v. c # cs = u @ p @ v"
    proof cases
      case 1
      then show ?thesis by (metis append_Nil starts_with_iff)
    next
      case 2
      then show ?thesis using Cons.IH by (metis append_Cons)
    qed
  next
    assume "\<exists>u v. c # cs = u @ p @ v"
    then obtain u v where eq: "c # cs = u @ p @ v" by blast
    show "str_contains (c # cs) p"
    proof (cases u)
      case Nil
      with eq have "starts_with (c # cs) p" by (simp add: starts_with_iff)
      then show ?thesis by simp
    next
      case (Cons d ds)
      with eq have "cs = ds @ p @ v" by simp
      then show ?thesis using Cons.IH by auto
    qed
  qed
qed simp

lemma split_on_nonempty [simp]: "split_on c s \<noteq> []"
  by (induction s) (auto split: list.splits)

lemma split_on_no_sep: "c \<notin> set s \<Longrightarrow> split_on c s = [s]"
  by (induction s) auto

lemma split_on_append_sep: "c \<notin> set s \<Longrightarrow> split_on c (s @ c # t) = s # split_on c t"
  by (induction s) auto

lemma join_split_on: "join [c] (split_on c s) = s"
proof (induction s)
  case (Cons x xs)
  obtain w ws where w: "split_on c xs = w # ws"
    using split_on_nonempty by (meson neq_Nil_conv)
  show ?case
  proof (cases ws)
    case Nil
    with Cons w show ?thesis by auto
  next
    case (Cons v vs)
    with Cons.IH w show ?thesis by auto
  qed
qed simp

lemma split_on_parts_no_sep: "w \<in> set (split_on c s) \<Longrightarrow> c \<notin> set w"
proof (induction s arbitrary: w)
  case (Cons x xs)
  then show ?case
    by (cases "split_on c xs") (auto split: if_splits)
qed simp

section \<open>Decimal and hexadecimal rendering\<close>

definition digit_char :: "nat \<Rightarrow> char" where
  "digit_char d = (if d < 10 then char_of (48 + d) else char_of (87 + d))"

fun dec :: "nat \<Rightarrow> string" where
  "dec n = (if n < 10 then [digit_char n] else dec (n div 10) @ [digit_char (n mod 10)])"

declare dec.simps [simp del]

lemma of_char_digit: "d < 16 \<Longrightarrow> (of_char (digit_char d) :: nat) = (if d < 10 then 48 + d else 87 + d)"
  by (simp add: digit_char_def)

lemma digit_char_inj: "a < 16 \<Longrightarrow> b < 16 \<Longrightarrow> digit_char a = digit_char b \<Longrightarrow> a = b"
proof -
  assume ab: "a < 16" "b < 16" and eq: "digit_char a = digit_char b"
  then have "(of_char (digit_char a) :: nat) = of_char (digit_char b)" by simp
  with ab show "a = b" by (auto simp: of_char_digit split: if_splits)
qed

lemma dec_nonempty [simp]: "dec n \<noteq> []"
  by (subst dec.simps) simp

lemma dec_small: "n < 10 \<Longrightarrow> dec n = [digit_char n]"
  by (subst dec.simps) simp

lemma dec_big: "\<not> n < 10 \<Longrightarrow> dec n = dec (n div 10) @ [digit_char (n mod 10)]"
  by (subst dec.simps) simp

lemma dec_inj: "dec m = dec n \<Longrightarrow> m = n"
proof (induction m arbitrary: n rule: dec.induct)
  case (1 m)
  show ?case
  proof (cases "m < 10")
    case True
    note m = this
    show ?thesis
    proof (cases "n < 10")
      case True
      with m "1.prems" have "digit_char m = digit_char n" by (simp add: dec_small)
      with m True show ?thesis by (auto intro: digit_char_inj)
    next
      case False
      with m "1.prems" show ?thesis using dec_nonempty [of "n div 10"]
        by (auto simp: dec_small dec_big)
    qed
  next
    case False
    note m = this
    show ?thesis
    proof (cases "n < 10")
      case True
      with m "1.prems" show ?thesis by (simp add: dec_small dec_big)
    next
      case False
      with m "1.prems" have "dec (m div 10) = dec (n div 10)"
        and "digit_char (m mod 10) = digit_char (n mod 10)"
        by (simp_all add: dec_big)
      moreover have "m mod 10 < 16" "n mod 10 < 16" by (auto intro: less_trans [of _ 10])
      ultimately have "m div 10 = n div 10" "m mod 10 = n mod 10"
        using "1.IH" [OF m] digit_char_inj by blast+
      then show ?thesis by (metis div_mult_mod_eq)
    qed
  qed
qed

lemma dec_alnum: "c \<in> set (dec n) \<Longrightarrow> is_ascii_alphanumeric c"
proof (induction n rule: dec.induct)
  case (1 n)
  have d: "is_ascii_alphanumeric (digit_char (k mod 10))" for k
  proof -
    have "k mod 10 < 10" by simp
    then have "(of_char (digit_char (k mod 10)) :: nat) = 48 + k mod 10"
      by (subst of_char_digit) auto
    moreover have "k mod 10 \<le> 9" using \<open>k mod 10 < 10\<close> by linarith
    ultimately show ?thesis by (simp add: is_ascii_alphanumeric_def)
  qed
  show ?case
  proof (cases "n < 10")
    case True
    then have "c = digit_char (n mod 10)" using "1.prems" by (simp add: dec_small)
    then show ?thesis using d by simp
  next
    case False
    with 1 d show ?thesis by (auto simp: dec_big)
  qed
qed

lemma dec_length_le: "n < 10 ^ k \<Longrightarrow> 0 < k \<Longrightarrow> length (dec n) \<le> k"
proof (induction k arbitrary: n)
  case (Suc k)
  show ?case
  proof (cases "n < 10")
    case False
    then have "0 < k" using Suc.prems by (cases k) auto
    moreover have "n div 10 < 10 ^ k" using Suc.prems by (simp add: less_mult_imp_div_less mult.commute)
    ultimately have "length (dec (n div 10)) \<le> k" using Suc.IH by blast
    with False show ?thesis by (simp add: dec_big)
  qed (simp add: dec_small)
qed simp

section \<open>Round trips as an interface\<close>

text \<open>
  A rendering with a parser that reads it back on the values a component accepts. The
  provider proves the one law; clients get injectivity and that rendered values are
  distinct exactly when the values are.
\<close>

locale codec =
  fixes enc :: "'a \<Rightarrow> 'b"
    and dcd :: "'b \<Rightarrow> 'a option"
    and valid :: "'a \<Rightarrow> bool"
  assumes dcd_enc: "valid x \<Longrightarrow> dcd (enc x) = Some x"
begin

lemma enc_inj: "valid x \<Longrightarrow> valid y \<Longrightarrow> enc x = enc y \<longleftrightarrow> x = y"
  by (metis dcd_enc option.inject)

lemma enc_inj_on: "inj_on enc {x. valid x}"
  by (rule inj_onI) (simp add: enc_inj)

lemma enc_distinct:
  assumes "\<And>x. x \<in> set xs \<Longrightarrow> valid x"
  shows "distinct (map enc xs) \<longleftrightarrow> distinct xs"
  using assms by (auto simp: distinct_map intro!: inj_on_subset [OF enc_inj_on])

lemma dcd_map: "(\<And>x. x \<in> set xs \<Longrightarrow> valid x) \<Longrightarrow> map (dcd \<circ> enc) xs = map Some xs"
  by (simp add: dcd_enc)

end

end
