(* ===== verification/Json.thy ===== *)
theory Json
  imports Prelude
begin

text \<open>
  The JSON values the program exchanges with models, tools and policies
  (\<open>serde_json::Value\<close>). An object is the list of its entries in iteration order; the map
  of \<open>serde_json\<close> iterates in key order, which \<open>json_wf\<close> states. A number is kept as the
  text \<open>Number::to_string\<close> gives for it: the modelled code does nothing else with a number.
  Parsing and printing JSON are parameters of the definitions that use them.
\<close>

datatype json =
    VNull
  | VBool bool
  | VNumber string
  | VString string
  | VArray "json list"
  | VObject "(string \<times> json) list"

fun as_str :: "json \<Rightarrow> string option" where
  "as_str (VString s) = Some s"
| "as_str _ = None"

fun as_bool :: "json \<Rightarrow> bool option" where
  "as_bool (VBool b) = Some b"
| "as_bool _ = None"

fun as_array :: "json \<Rightarrow> json list option" where
  "as_array (VArray xs) = Some xs"
| "as_array _ = None"

fun as_object :: "json \<Rightarrow> (string \<times> json) list option" where
  "as_object (VObject kvs) = Some kvs"
| "as_object _ = None"

text \<open>\<open>Value::get\<close> with a string index: \<open>None\<close> on anything but an object.\<close>

fun json_get :: "json \<Rightarrow> string \<Rightarrow> json option" where
  "json_get (VObject kvs) k = map_of kvs k"
| "json_get _ k = None"

fun json_wf :: "json \<Rightarrow> bool" where
  "json_wf (VArray xs) = list_all json_wf xs"
| "json_wf (VObject kvs) = (sorted_wrt (<) (map fst kvs) \<and> list_all (\<lambda>kv. json_wf (snd kv)) kvs)"
| "json_wf _ = True"

lemma size_map_of [termination_simp]:
  "map_of kvs k = Some v \<Longrightarrow> size v < Suc (size_list (size_prod (\<lambda>_. 0) size) kvs)"
  by (induction kvs) (auto split: if_splits)

lemma size_json_get: "json_get j k = Some v \<Longrightarrow> size v < size j"
  by (cases j) (auto dest: size_map_of)

lemma as_object_iff: "as_object j = Some kvs \<longleftrightarrow> j = VObject kvs"
  by (cases j) auto

lemma as_array_iff: "as_array j = Some xs \<longleftrightarrow> j = VArray xs"
  by (cases j) auto

lemma as_str_iff: "as_str j = Some s \<longleftrightarrow> j = VString s"
  by (cases j) auto

lemma as_bool_iff: "as_bool j = Some b \<longleftrightarrow> j = VBool b"
  by (cases j) auto

lemmas json_access_iff = as_object_iff as_array_iff as_str_iff as_bool_iff

section \<open>Numbers in JSON\<close>

text \<open>\<open>Value::as_u64\<close>: the text of a number is a run of digits that fits.\<close>

definition digit_value :: "char \<Rightarrow> nat" where
  "digit_value c = of_char c - 48"

definition nat_of_dec :: "string \<Rightarrow> nat" where
  "nat_of_dec s = foldl (\<lambda>n c. 10 * n + digit_value c) 0 s"

definition is_dec_digit :: "char \<Rightarrow> bool" where
  "is_dec_digit c \<longleftrightarrow> 48 \<le> (of_char c :: nat) \<and> (of_char c :: nat) \<le> 57"

fun as_u64 :: "json \<Rightarrow> nat option" where
  "as_u64 (VNumber s) =
     (if s \<noteq> [] \<and> list_all is_dec_digit s \<and> nat_of_dec s \<le> usize_max then Some (nat_of_dec s) else None)"
| "as_u64 _ = None"

definition json_nat :: "nat \<Rightarrow> json" where
  "json_nat n = VNumber (dec n)"

lemma dec_digits: "list_all is_dec_digit (dec n)"
proof (induction n rule: dec.induct)
  case (1 n)
  have digit: "is_dec_digit (digit_char (n mod 10))"
    by (simp add: is_dec_digit_def of_char_digit)
  show ?case
  proof (cases "n < 10")
    case True
    with digit show ?thesis by (simp add: dec_small)
  next
    case False
    with 1 digit show ?thesis by (simp add: dec_big)
  qed
qed

lemma nat_of_dec_dec [simp]: "nat_of_dec (dec n) = n"
proof (induction n rule: dec.induct)
  case (1 n)
  have digit: "digit_value (digit_char (n mod 10)) = n mod 10"
    by (simp add: digit_value_def of_char_digit)
  show ?case
  proof (cases "n < 10")
    case True
    then show ?thesis using digit by (simp add: dec_small nat_of_dec_def)
  next
    case False
    with 1 digit show ?thesis by (simp add: dec_big nat_of_dec_def)
  qed
qed

lemma as_u64_json_nat [simp]: "n \<le> usize_max \<Longrightarrow> as_u64 (json_nat n) = Some n"
  by (simp add: json_nat_def dec_digits)

section \<open>Derived encodings\<close>

text \<open>A derived \<open>Deserialize\<close>, field by field: required, with a default, or optional.\<close>

definition get_field :: "(json \<Rightarrow> 'a option) \<Rightarrow> string \<Rightarrow> json \<Rightarrow> 'a option" where
  "get_field f k j = Option.bind (json_get j k) f"

definition get_field_or :: "'a \<Rightarrow> (json \<Rightarrow> 'a option) \<Rightarrow> string \<Rightarrow> json \<Rightarrow> 'a option" where
  "get_field_or d f k j = (case json_get j k of None \<Rightarrow> Some d | Some v \<Rightarrow> f v)"

definition nullable :: "(json \<Rightarrow> 'a option) \<Rightarrow> json \<Rightarrow> 'a option option" where
  "nullable f v = (if v = VNull then Some None else map_option Some (f v))"

definition u32_of :: "json \<Rightarrow> nat option" where
  "u32_of v = (case as_u64 v of None \<Rightarrow> None | Some n \<Rightarrow> if n < 2 ^ 32 then Some n else None)"

definition json_option :: "('a \<Rightarrow> json) \<Rightarrow> 'a option \<Rightarrow> json" where
  "json_option f r = (case r of None \<Rightarrow> VNull | Some x \<Rightarrow> f x)"

lemma nullable_option:
  assumes "\<And>x. r = Some x \<Longrightarrow> f (g x) = Some x \<and> g x \<noteq> VNull"
  shows "nullable f (json_option g r) = Some r"
  using assms by (cases r) (simp_all add: nullable_def json_option_def)

lemma one_le_usize [simp]: "Suc 0 \<le> usize_max"
  by (simp add: usize_max_def)

end
