(* ===== verification/Tool_Identity.thy ===== *)
theory Tool_Identity
  imports Json "HOL-Library.Product_Lexorder"
begin

text \<open>
  Tool identity and tool failures: \<open>gestalt-core/src/tool_descriptor.rs\<close> (namespaces,
  canonical ids with their text form, annotations with provenance, descriptors) and
  \<open>tool_failure.rs\<close> (the failure classes and reports), with \<open>RiskLevel\<close> of
  \<open>tool.rs\<close>. The lemmas: the text form of an id reads back exactly when no part
  contains a colon, whatever parses prints back to the same text, trust is granted to
  built-in annotations only, and transient and pre-execution failures are disjoint.
\<close>

section \<open>Risk levels\<close>

datatype risk_level = Low | Medium | High | Critical

fun risk_rank :: "risk_level \<Rightarrow> nat" where
  "risk_rank Low = 0"
| "risk_rank Medium = 1"
| "risk_rank High = 2"
| "risk_rank Critical = 3"

lemma risk_rank_inj: "risk_rank a = risk_rank b \<Longrightarrow> a = b"
  by (cases a; cases b) auto

text \<open>The derived \<open>Ord\<close> of the enum: declaration order.\<close>

instantiation risk_level :: linorder
begin

definition less_eq_risk_level :: "risk_level \<Rightarrow> risk_level \<Rightarrow> bool" where
  "less_eq_risk_level a b = (risk_rank a \<le> risk_rank b)"

definition less_risk_level :: "risk_level \<Rightarrow> risk_level \<Rightarrow> bool" where
  "less_risk_level a b = (risk_rank a < risk_rank b)"

instance
  by standard (auto simp: less_eq_risk_level_def less_risk_level_def intro: risk_rank_inj)

end

lemmas risk_order_simps [simp] = less_eq_risk_level_def less_risk_level_def

section \<open>Namespaces and canonical ids\<close>

datatype tool_namespace = BuiltIn | Extension string | Mcp string

record canonical_tool_id =
  id_namespace :: tool_namespace
  id_name :: string

fun namespace_key :: "tool_namespace \<Rightarrow> nat \<times> string" where
  "namespace_key BuiltIn = (0, [])"
| "namespace_key (Extension i) = (1, i)"
| "namespace_key (Mcp i) = (2, i)"

lemma namespace_key_inj: "namespace_key a = namespace_key b \<Longrightarrow> a = b"
  by (cases a; cases b) auto

instantiation tool_namespace :: linorder
begin

definition less_eq_tool_namespace :: "tool_namespace \<Rightarrow> tool_namespace \<Rightarrow> bool" where
  "less_eq_tool_namespace a b = (namespace_key a \<le> namespace_key b)"

definition less_tool_namespace :: "tool_namespace \<Rightarrow> tool_namespace \<Rightarrow> bool" where
  "less_tool_namespace a b = (namespace_key a < namespace_key b)"

instance
  by standard
    (auto simp: less_eq_tool_namespace_def less_tool_namespace_def intro: namespace_key_inj)

end

definition cid_key :: "canonical_tool_id \<Rightarrow> tool_namespace \<times> string" where
  "cid_key i = (id_namespace i, id_name i)"

lemma cid_key_inj: "cid_key a = cid_key b \<Longrightarrow> a = b"
  by (simp add: cid_key_def)

fun namespace_to_string :: "tool_namespace \<Rightarrow> string" where
  "namespace_to_string BuiltIn = ''builtin''"
| "namespace_to_string (Extension i) = ''extension:'' @ i"
| "namespace_to_string (Mcp i) = ''mcp:'' @ i"

definition cid_to_string :: "canonical_tool_id \<Rightarrow> string" where
  "cid_to_string cid = (case id_namespace cid of
       BuiltIn \<Rightarrow> ''builtin:'' @ id_name cid
     | Extension i \<Rightarrow> ''extension:'' @ i @ '':'' @ id_name cid
     | Mcp i \<Rightarrow> ''mcp:'' @ i @ '':'' @ id_name cid)"

definition cid_from_str :: "string \<Rightarrow> string + canonical_tool_id" where
  "cid_from_str s = (let parts = split_on CHR '':'' s in
     if parts = [] then Inl ''Empty canonical ID''
     else if parts ! 0 = ''builtin'' then
       (if length parts \<noteq> 2 then Inl (''Invalid builtin ID format: '' @ s)
        else Inr \<lparr>id_namespace = BuiltIn, id_name = parts ! 1\<rparr>)
     else if parts ! 0 = ''extension'' then
       (if length parts \<noteq> 3 then Inl (''Invalid extension ID format: '' @ s)
        else Inr \<lparr>id_namespace = Extension (parts ! 1), id_name = parts ! 2\<rparr>)
     else if parts ! 0 = ''mcp'' then
       (if length parts \<noteq> 3 then Inl (''Invalid mcp ID format: '' @ s)
        else Inr \<lparr>id_namespace = Mcp (parts ! 1), id_name = parts ! 2\<rparr>)
     else Inl (''Unknown namespace prefix: '' @ parts ! 0))"

fun namespace_parts :: "tool_namespace \<Rightarrow> string list" where
  "namespace_parts BuiltIn = []"
| "namespace_parts (Extension i) = [i]"
| "namespace_parts (Mcp i) = [i]"

definition cid_colon_free :: "canonical_tool_id \<Rightarrow> bool" where
  "cid_colon_free cid \<longleftrightarrow>
     CHR '':'' \<notin> set (id_name cid) \<and> (\<forall>i \<in> set (namespace_parts (id_namespace cid)). CHR '':'' \<notin> set i)"

lemma cid_from_to_string: "cid_colon_free cid \<Longrightarrow> cid_from_str (cid_to_string cid) = Inr cid"
proof -
  assume free: "cid_colon_free cid"
  obtain ns nm where cid: "cid = \<lparr>id_namespace = ns, id_name = nm\<rparr>" by (cases cid) auto
  show ?thesis
  proof (cases ns)
    case BuiltIn
    then show ?thesis using free cid split_on_append_sep [of "CHR '':''" "''builtin''" nm]
      by (simp add: cid_from_str_def cid_to_string_def cid_colon_free_def split_on_no_sep)
  next
    case (Extension i)
    then show ?thesis using free cid split_on_append_sep [of "CHR '':''" "''extension''" "i @ '':'' @ nm"]
      by (simp add: cid_from_str_def cid_to_string_def cid_colon_free_def split_on_no_sep
          split_on_append_sep)
  next
    case (Mcp i)
    then show ?thesis using free cid split_on_append_sep [of "CHR '':''" "''mcp''" "i @ '':'' @ nm"]
      by (simp add: cid_from_str_def cid_to_string_def cid_colon_free_def split_on_no_sep
          split_on_append_sep)
  qed
qed

lemma length_two: "length xs = 2 \<longleftrightarrow> (\<exists>a b. xs = [a, b])"
  by (auto simp: numeral_2_eq_2 length_Suc_conv)

lemma length_three: "length xs = 3 \<longleftrightarrow> (\<exists>a b c. xs = [a, b, c])"
  by (auto simp: numeral_3_eq_3 length_Suc_conv)

lemma cid_from_str_Inr:
  assumes "cid_from_str s = Inr cid"
  shows "cid_to_string cid = s \<and> cid_colon_free cid"
proof -
  let ?parts = "split_on CHR '':'' s"
  have s: "join '':'' ?parts = s" by (rule join_split_on)
  have free: "\<forall>w \<in> set ?parts. CHR '':'' \<notin> set w" using split_on_parts_no_sep by blast
  consider b where "?parts = [''builtin'', b]" "cid = \<lparr>id_namespace = BuiltIn, id_name = b\<rparr>"
    | i b where "?parts = [''extension'', i, b]" "cid = \<lparr>id_namespace = Extension i, id_name = b\<rparr>"
    | i b where "?parts = [''mcp'', i, b]" "cid = \<lparr>id_namespace = Mcp i, id_name = b\<rparr>"
    using assms
    by (auto simp: cid_from_str_def Let_def length_two length_three split: if_splits)
  then show ?thesis
    using s free by cases (auto simp: cid_to_string_def cid_colon_free_def)
qed

text \<open>The id text form as a codec on the ids without colons.\<close>

interpretation cid_codec: codec cid_to_string
    "\<lambda>s. case cid_from_str s of Inl e \<Rightarrow> None | Inr c \<Rightarrow> Some c" cid_colon_free
  by unfold_locales (simp add: cid_from_to_string)

section \<open>Annotations\<close>

datatype annotation_source = BuiltInTrusted | ExtensionDeclared | McpDeclared | UserOverride

record tool_annotation =
  ann_key :: string
  ann_value :: string
  ann_source :: annotation_source

type_synonym tool_annotations = "tool_annotation list"

definition annotations_get :: "tool_annotations \<Rightarrow> string \<Rightarrow> tool_annotation option" where
  "annotations_get anns key = find_first (\<lambda>a. ann_key a = key) anns"

definition get_trusted_bool :: "tool_annotations \<Rightarrow> string \<Rightarrow> bool" where
  "get_trusted_bool anns key = (case annotations_get anns key of
       None \<Rightarrow> False
     | Some a \<Rightarrow> ann_source a = BuiltInTrusted \<and> ann_value a = ''true'')"

definition get_bool_advisory :: "tool_annotations \<Rightarrow> string \<Rightarrow> bool" where
  "get_bool_advisory anns key = (case annotations_get anns key of
       None \<Rightarrow> False | Some a \<Rightarrow> ann_value a = ''true'')"

lemma trusted_bool_sound:
  "get_trusted_bool anns key \<Longrightarrow>
     \<exists>a \<in> set anns. ann_key a = key \<and> ann_source a = BuiltInTrusted \<and> ann_value a = ''true''"
  by (auto simp: get_trusted_bool_def annotations_get_def split: option.splits
      dest: find_first_SomeD)

lemma trusted_implies_advisory: "get_trusted_bool anns key \<Longrightarrow> get_bool_advisory anns key"
  by (auto simp: get_trusted_bool_def get_bool_advisory_def split: option.splits)

section \<open>Descriptors\<close>

datatype provider_tool_format = FormatText | FormatJson

record response_shape_rules =
  summarize_output :: bool
  output_format_template :: "string option"

record tool_response_contract =
  rc_format :: provider_tool_format
  shape_rules :: "response_shape_rules option"

record tool_retry_policy =
  max_retries :: nat
  backoff_ms :: nat

record tool_retention =
  clearable :: bool
  reconstructible :: bool
  retain_errors :: bool

record tool_descriptor =
  td_id :: canonical_tool_id
  td_description :: string
  td_schema :: json
  td_risk :: risk_level
  td_annotations :: tool_annotations
  td_response_contract :: tool_response_contract
  td_retry_policy :: "tool_retry_policy option"
  td_retention :: "tool_retention option"

section \<open>Failures\<close>

datatype tool_failure_kind =
    ToolNotFound | InvalidArguments | SchemaMismatch | DuplicateCallId | DisallowedNamespace
  | FailTimeout | PolicyDenied | ApprovalDenied | FailExecutionFailed | FailUnknown

definition is_transient :: "tool_failure_kind \<Rightarrow> bool" where
  "is_transient k \<longleftrightarrow> k = FailTimeout"

fun is_pre_execution :: "tool_failure_kind \<Rightarrow> bool" where
  "is_pre_execution FailTimeout = False"
| "is_pre_execution FailExecutionFailed = False"
| "is_pre_execution _ = True"

fun failure_label :: "tool_failure_kind \<Rightarrow> string" where
  "failure_label ToolNotFound = ''ToolNotFound''"
| "failure_label InvalidArguments = ''InvalidArguments''"
| "failure_label SchemaMismatch = ''SchemaMismatch''"
| "failure_label DuplicateCallId = ''DuplicateCallId''"
| "failure_label DisallowedNamespace = ''DisallowedNamespace''"
| "failure_label FailTimeout = ''Timeout''"
| "failure_label PolicyDenied = ''PolicyDenied''"
| "failure_label ApprovalDenied = ''ApprovalDenied''"
| "failure_label FailExecutionFailed = ''ExecutionFailed''"
| "failure_label FailUnknown = ''Unknown''"

record tool_error_report =
  er_kind :: tool_failure_kind
  er_message :: string
  er_repair :: "string option"

definition error_report :: "tool_failure_kind \<Rightarrow> string \<Rightarrow> tool_error_report" where
  "error_report k m = \<lparr>er_kind = k, er_message = m, er_repair = None\<rparr>"

definition with_repair :: "tool_error_report \<Rightarrow> string \<Rightarrow> tool_error_report" where
  "with_repair r g = r\<lparr>er_repair := Some g\<rparr>"

definition render_for_model :: "tool_error_report \<Rightarrow> string" where
  "render_for_model r = (case er_repair r of
       Some g \<Rightarrow> ''['' @ failure_label (er_kind r) @ ''] '' @ er_message r @ [CHR 0x0A] @ ''repair: '' @ g
     | None \<Rightarrow> ''['' @ failure_label (er_kind r) @ ''] '' @ er_message r)"

lemma failure_label_inj: "failure_label a = failure_label b \<longleftrightarrow> a = b"
  by (cases a; cases b) auto

lemma transient_not_pre_execution: "is_transient k \<Longrightarrow> \<not> is_pre_execution k"
  by (simp add: is_transient_def)

lemma er_kind_with_repair [simp]: "er_kind (with_repair r g) = er_kind r"
  by (simp add: with_repair_def)

lemma er_kind_error_report [simp]: "er_kind (error_report k m) = k"
  by (simp add: error_report_def)

section \<open>Properties\<close>

text \<open>Parsing a tool id and rendering it are inverse: a text parses to an id exactly when
  it is the id's rendering and no part of the id contains a colon. So every accepted text is
  canonical, and exactly the ids without colons survive a round trip.\<close>

theorem canonical_id_roundtrip:
  "cid_from_str s = Inr cid \<longleftrightarrow> cid_to_string cid = s \<and> cid_colon_free cid"
  using cid_from_str_Inr cid_from_to_string by blast

end
