(* ===== verification/Approval.thy ===== *)
theory Approval
  imports Tool_Identity "HOL-Library.Word" "HOL-Library.Multiset"
begin

text \<open>
  Approval grants (\<open>gestalt-core/src/approval.rs\<close>): the canonical text of a JSON input,
  its FNV-1a hash as the code computes it on 64-bit words, and the session grant that lets
  a later call with the same tool, input and risk through. The lemmas: the escaping reads
  back, the canonical text does not depend on the order of object entries at any depth,
  the hash is sixteen hexadecimal digits, and a grant covers exactly the calls its terms
  describe, for as long as its window lasts.
\<close>

unbundle bit_operations_syntax

section \<open>Canonical text\<close>

definition hex_digits :: "nat \<Rightarrow> nat \<Rightarrow> string" where
  "hex_digits w n = map (\<lambda>i. digit_char ((n div 16 ^ (w - 1 - i)) mod 16)) [0..<w]"

definition escape_char :: "char \<Rightarrow> string" where
  "escape_char c =
     (if c = CHR 0x22 then [CHR 0x5C, CHR 0x22]
      else if c = CHR 0x5C then [CHR 0x5C, CHR 0x5C]
      else if c = CHR 0x0A then [CHR 0x5C, CHR ''n'']
      else if c = CHR 0x0D then [CHR 0x5C, CHR ''r'']
      else if c = CHR 0x09 then [CHR 0x5C, CHR ''t'']
      else if c = CHR 0x08 then [CHR 0x5C, CHR ''b'']
      else if c = CHR 0x0C then [CHR 0x5C, CHR ''f'']
      else if (of_char c :: nat) < 32 then [CHR 0x5C, CHR ''u''] @ hex_digits 4 (of_char c)
      else [c])"

definition escape_json_string :: "string \<Rightarrow> string" where
  "escape_json_string s = concat (map escape_char s)"

definition quoted :: "string \<Rightarrow> string" where
  "quoted s = [CHR 0x22] @ escape_json_string s @ [CHR 0x22]"

lemma size_sorted_entries [termination_simp]:
  "kv \<in> set kvs \<Longrightarrow> size (snd kv) < Suc (size_list (size_prod (\<lambda>_. 0) size) kvs)"
  by (induction kvs) auto

fun write_canonical :: "json \<Rightarrow> string" where
  "write_canonical VNull = ''null''"
| "write_canonical (VBool b) = (if b then ''true'' else ''false'')"
| "write_canonical (VNumber n) = n"
| "write_canonical (VString s) = quoted s"
| "write_canonical (VArray items) = ''['' @ join '','' (map write_canonical items) @ '']''"
| "write_canonical (VObject kvs) =
     ''{'' @ join '','' (map (\<lambda>kv. quoted (fst kv) @ '':'' @ write_canonical (snd kv)) (sort_key fst kvs)) @ ''}''"

definition canonicalize :: "json \<Rightarrow> string" where
  "canonicalize j = write_canonical j"

section \<open>FNV-1a\<close>

definition fnv_offset :: "64 word" where
  "fnv_offset = 0xcbf29ce484222325"

definition fnv_prime :: "64 word" where
  "fnv_prime = 0x00000100000001b3"

definition fnv_step :: "64 word \<Rightarrow> nat \<Rightarrow> 64 word" where
  "fnv_step h b = (h XOR of_nat b) * fnv_prime"

definition fnv1a_64 :: "nat list \<Rightarrow> string" where
  "fnv1a_64 bytes = hex_digits 16 (unat (foldl fnv_step fnv_offset bytes))"

definition hash_input :: "json \<Rightarrow> string" where
  "hash_input j = fnv1a_64 (utf8_bytes (canonicalize j))"

definition hash_input_short :: "json \<Rightarrow> string" where
  "hash_input_short j = take 8 (hash_input j)"

section \<open>Session grants\<close>

record session_grant =
  sg_tool_name :: string
  sg_input_hash :: string
  sg_risk_ceiling :: risk_level
  sg_matched_rule :: string
  sg_policy_source :: string
  sg_granted_at_turn :: nat
  sg_expires_in_turns :: nat

definition session_grant_new ::
    "string \<Rightarrow> json \<Rightarrow> risk_level \<Rightarrow> string \<Rightarrow> string \<Rightarrow> nat \<Rightarrow> nat \<Rightarrow> session_grant" where
  "session_grant_new tname input ceiling rule source at_turn expires =
     \<lparr>sg_tool_name = tname, sg_input_hash = hash_input input, sg_risk_ceiling = ceiling,
      sg_matched_rule = rule, sg_policy_source = source, sg_granted_at_turn = at_turn,
      sg_expires_in_turns = expires\<rparr>"

definition matches_tool :: "session_grant \<Rightarrow> string \<Rightarrow> bool" where
  "matches_tool g tname \<longleftrightarrow> sg_tool_name g = tname"

definition covers :: "session_grant \<Rightarrow> string \<Rightarrow> json \<Rightarrow> risk_level \<Rightarrow> nat \<Rightarrow> bool" where
  "covers g tname input risk current_turn =
     (if sg_tool_name g \<noteq> tname then False
      else if risk > sg_risk_ceiling g then False
      else if sg_input_hash g \<noteq> hash_input input then False
      else saturating_sub (saturating_add (sg_granted_at_turn g) (sg_expires_in_turns g)) current_turn > 0)"

datatype approval_decision = Approve | Deny | Edit json | AlwaysAllowForSession

section \<open>Lemmas: escaping reads back\<close>

fun hex_value :: "char \<Rightarrow> nat" where
  "hex_value c = (let n = of_char c in if n < 58 then n - 48 else n - 87)"

fun unescape :: "string \<Rightarrow> string" where
  "unescape [] = []"
| "unescape (c # cs) =
     (if c = CHR 0x5C then
        (case cs of
           [] \<Rightarrow> [c]
         | e # es \<Rightarrow>
             (if e = CHR ''n'' then CHR 0x0A # unescape es
              else if e = CHR ''r'' then CHR 0x0D # unescape es
              else if e = CHR ''t'' then CHR 0x09 # unescape es
              else if e = CHR ''b'' then CHR 0x08 # unescape es
              else if e = CHR ''f'' then CHR 0x0C # unescape es
              else if e = CHR ''u'' then
                char_of (foldl (\<lambda>a d. 16 * a + hex_value d) 0 (take 4 es)) # unescape (drop 4 es)
              else e # unescape es))
      else c # unescape cs)"

lemma hex_value_digit: "d < 16 \<Longrightarrow> hex_value (digit_char d) = d"
  by (auto simp: of_char_digit Let_def)

lemma upt_4: "[0..<4] = [0, 1, 2, 3 :: nat]"
  by code_simp

lemma hex_digits_4: "hex_digits 4 n =
    [digit_char (n div 4096 mod 16), digit_char (n div 256 mod 16),
     digit_char (n div 16 mod 16), digit_char (n mod 16)]"
  by (simp add: hex_digits_def upt_4)

lemma unescape_control:
  assumes "(n :: nat) < 32"
  shows "unescape (CHR 0x5C # CHR ''u'' # hex_digits 4 n @ s) = char_of n # unescape s"
proof -
  have d: "n div 4096 mod 16 = 0" "n div 256 mod 16 = 0" using assms by simp_all
  have "hex_value (digit_char (k mod 16)) = k mod 16" for k
    by (rule hex_value_digit) simp
  then have "foldl (\<lambda>a d. 16 * a + hex_value d) 0 (hex_digits 4 n) = 16 * (n div 16 mod 16) + n mod 16"
    using d hex_value_digit [of 0] by (simp add: hex_digits_4 del: hex_value.simps)
  also have "\<dots> = n" using assms by simp
  finally show ?thesis by (simp add: hex_digits_4 del: hex_value.simps)
qed

lemma unescape_escape_char: "unescape (escape_char c @ s) = c # unescape s"
proof (cases "c \<in> {CHR 0x22, CHR 0x5C, CHR 0x0A, CHR 0x0D, CHR 0x09, CHR 0x08, CHR 0x0C}")
  case True
  then show ?thesis by (auto simp: escape_char_def)
next
  case False
  show ?thesis
  proof (cases "(of_char c :: nat) < 32")
    case True
    with False have "escape_char c = CHR 0x5C # CHR ''u'' # hex_digits 4 (of_char c)"
      by (simp add: escape_char_def)
    then show ?thesis using unescape_control [OF True] by simp
  next
    case f: False
    with False have "escape_char c = [c]" by (simp add: escape_char_def)
    with False show ?thesis by simp
  qed
qed

lemma unescape_escape: "unescape (escape_json_string s @ t) = s @ unescape t"
  by (induction s) (simp_all add: escape_json_string_def unescape_escape_char del: unescape.simps(2))

interpretation json_string_codec: codec escape_json_string "\<lambda>s. Some (unescape s)" "\<lambda>_. True"
  by unfold_locales (use unescape_escape [of _ "[]"] in simp)

section \<open>Lemmas: canonical text and hash\<close>

text \<open>Sorting the entries of every object, as a reference for what the canonical text sees.\<close>

fun json_norm :: "json \<Rightarrow> json" where
  "json_norm (VArray items) = VArray (map json_norm items)"
| "json_norm (VObject kvs) = VObject (map (\<lambda>kv. (fst kv, json_norm (snd kv))) (sort_key fst kvs))"
| "json_norm j = j"

lemma sort_key_sorted: "sorted (map f xs) \<Longrightarrow> sort_key f xs = xs"
  by (metis properties_for_sort_key filter_cong)

lemma write_canonical_norm: "write_canonical (json_norm j) = write_canonical j"
proof (induction j rule: write_canonical.induct)
  case (6 kvs)
  have s: "sort_key fst (map (\<lambda>kv. (fst kv, json_norm (snd kv))) (sort_key fst kvs))
      = map (\<lambda>kv. (fst kv, json_norm (snd kv))) (sort_key fst kvs)"
    by (rule sort_key_sorted) (simp add: comp_def)
  have "map (\<lambda>kv. quoted (fst kv) @ '':'' @ write_canonical (json_norm (snd kv))) (sort_key fst kvs)
      = map (\<lambda>kv. quoted (fst kv) @ '':'' @ write_canonical (snd kv)) (sort_key fst kvs)"
    by (rule map_cong) (use 6 in auto)
  then show ?case
    by (simp only: json_norm.simps write_canonical.simps s map_map comp_def fst_conv snd_conv)
next
  case (5 items)
  then have "map (write_canonical \<circ> json_norm) items = map write_canonical items" by simp
  then show ?case by (simp only: json_norm.simps write_canonical.simps map_map)
qed simp_all

lemma filter_key_single:
  "distinct (map fst zs) \<Longrightarrow> k \<in> set zs \<Longrightarrow> filter (\<lambda>y. fst k = fst y) zs = [k]"
  by (induction zs) (auto simp: filter_empty_conv image_iff)

lemma sort_key_mset_eq:
  fixes xs ys :: "(string \<times> 'a) list"
  assumes "mset xs = mset ys" "distinct (map fst xs)"
  shows "sort_key fst xs = sort_key fst ys"
proof -
  have dy: "distinct (map fst ys)"
    using assms by (metis mset_eq_imp_distinct_iff mset_map)
  show ?thesis
  proof (rule properties_for_sort_key)
    show "mset (sort_key fst ys) = mset xs" using assms(1) by simp
  next
    fix k
    assume k: "k \<in> set (sort_key fst ys)"
    have "distinct (map fst (sort_key fst ys))"
      using dy by (metis mset_eq_imp_distinct_iff mset_map mset_sort)
    moreover have "k \<in> set xs" using k assms(1) by (metis mset_eq_setD set_sort)
    ultimately show "filter (\<lambda>x. fst k = fst x) (sort_key fst ys) = filter (\<lambda>x. fst k = fst x) xs"
      using k assms(2) by (metis filter_key_single)
  next
    show "sorted (map fst (sort_key fst ys))" by simp
  qed
qed

lemma length_hex_digits [simp]: "length (hex_digits w n) = w"
  by (simp add: hex_digits_def)

lemma hash_input_length: "length (hash_input j) = 16"
  by (simp add: hash_input_def fnv1a_64_def)

lemma hash_input_norm: "hash_input (json_norm j) = hash_input j"
  by (simp add: hash_input_def canonicalize_def write_canonical_norm)

section \<open>Lemmas: grants\<close>

lemma covers_iff:
  "covers g tname input risk t \<longleftrightarrow>
     sg_tool_name g = tname \<and> risk \<le> sg_risk_ceiling g \<and> sg_input_hash g = hash_input input \<and>
     t < min (sg_granted_at_turn g + sg_expires_in_turns g) usize_max"
  by (auto simp: covers_def saturating_sub_def saturating_add_def)

lemma covers_new:
  "covers (session_grant_new tname input ceiling rule src at_turn expires) tname' input' risk t \<longleftrightarrow>
     tname' = tname \<and> risk \<le> ceiling \<and> hash_input input' = hash_input input \<and>
     t < min (at_turn + expires) usize_max"
  by (auto simp: covers_iff session_grant_new_def)

lemma covers_antimono:
  "covers g tname input risk t \<Longrightarrow> risk' \<le> risk \<Longrightarrow> t' \<le> t \<Longrightarrow> covers g tname input risk' t'"
  by (auto simp: covers_iff simp del: risk_order_simps)

end
