(* ===== verification/Tool_Names.thy ===== *)
theory Tool_Names
  imports Tool_Identity
begin

text \<open>
  Provider-facing tool names (\<open>gestalt-core/src/tool_name_mapping.rs\<close>): the base name
  of a canonical id, the suffix resolution that makes the names of a catalogue distinct,
  and the mapping handed to the provider. The lemmas: base names use the safe alphabet and
  fit the length cap, the search for a free suffix terminates, the resolved names are
  pairwise distinct for every input, and resolution keeps the input order.
\<close>

section \<open>Base names\<close>

definition max_provider_name_len :: nat where
  "max_provider_name_len = 64"

definition safe_char :: "char \<Rightarrow> char" where
  "safe_char c = (if is_ascii_alphanumeric c then c else CHR ''_'')"

definition sanitize_char :: "char \<Rightarrow> char" where
  "sanitize_char c =
     (if is_ascii_alphanumeric c \<or> c = CHR ''_'' \<or> c = CHR ''-'' then c else CHR ''_'')"

definition generate_provider_name :: "canonical_tool_id \<Rightarrow> string" where
  "generate_provider_name cid =
     (let raw = (case id_namespace cid of
           BuiltIn \<Rightarrow> id_name cid
         | Extension i \<Rightarrow> ''ext_'' @ map safe_char i @ ''_'' @ map safe_char (id_name cid)
         | Mcp i \<Rightarrow> ''mcp_'' @ map safe_char i @ ''_'' @ map safe_char (id_name cid));
         sanitized = map sanitize_char raw
      in if length (utf8_bytes sanitized) \<le> max_provider_name_len then sanitized
         else take max_provider_name_len sanitized)"

definition name_char_ok :: "char \<Rightarrow> bool" where
  "name_char_ok c \<longleftrightarrow> is_ascii_alphanumeric c \<or> c = CHR ''_'' \<or> c = CHR ''-''"

lemma sanitize_char_ok [simp]: "name_char_ok (sanitize_char c)"
  by (simp add: sanitize_char_def name_char_ok_def)

lemma name_char_ascii: "name_char_ok c \<Longrightarrow> (of_char c :: nat) < 128"
  by (auto simp: name_char_ok_def is_ascii_alphanumeric_def Let_def)

lemma utf8_bytes_ascii:
  "(\<And>c. c \<in> set s \<Longrightarrow> (of_char c :: nat) < 128) \<Longrightarrow> length (utf8_bytes s) = length s"
  by (induction s) (auto simp: utf8_bytes_def utf8_char_def Let_def)

lemma utf8_bytes_sanitized: "length (utf8_bytes (map sanitize_char s)) = length s"
  by (subst utf8_bytes_ascii) (auto intro: name_char_ascii)

lemma generate_provider_name_len: "length (generate_provider_name cid) \<le> max_provider_name_len"
  by (auto simp: generate_provider_name_def Let_def utf8_bytes_sanitized)

lemma generate_provider_name_chars:
  "c \<in> set (generate_provider_name cid) \<Longrightarrow> name_char_ok c"
  by (auto simp: generate_provider_name_def Let_def split: if_splits dest!: in_set_takeD)

section \<open>Suffixed names\<close>

definition truncate_for_suffix :: "string \<Rightarrow> nat \<Rightarrow> string" where
  "truncate_for_suffix base suffix_len =
     (let allowed = saturating_sub max_provider_name_len suffix_len
      in if length base \<le> allowed then base else take allowed base)"

definition suffix_of :: "nat \<Rightarrow> string" where
  "suffix_of n = CHR ''_'' # dec n"

definition suffixed :: "string \<Rightarrow> nat \<Rightarrow> string" where
  "suffixed base n = truncate_for_suffix base (length (utf8_bytes (suffix_of n))) @ suffix_of n"

lemma suffix_of_ascii: "c \<in> set (suffix_of n) \<Longrightarrow> name_char_ok c"
  by (auto simp: suffix_of_def name_char_ok_def dest: dec_alnum)

lemma utf8_suffix: "length (utf8_bytes (suffix_of n)) = length (suffix_of n)"
  by (rule utf8_bytes_ascii) (auto dest: suffix_of_ascii intro: name_char_ascii)

lemma underscore_not_in_dec: "CHR ''_'' \<notin> set (dec n)"
proof
  assume "CHR ''_'' \<in> set (dec n)"
  then have "is_ascii_alphanumeric CHR ''_''" by (rule dec_alnum)
  then show False by (simp add: is_ascii_alphanumeric_def)
qed

lemma append_sep_inj:
  assumes "c \<notin> set y" "c \<notin> set y'" "x @ c # y = x' @ c # y'"
  shows "y = y'"
proof -
  have "takeWhile (\<lambda>d. d \<noteq> c) (rev (x @ c # y)) = rev y"
    using assms(1) by (simp add: takeWhile_append)
  moreover have "takeWhile (\<lambda>d. d \<noteq> c) (rev (x' @ c # y')) = rev y'"
    using assms(2) by (simp add: takeWhile_append)
  ultimately show ?thesis using assms(3) by simp
qed

lemma suffixed_inj: "suffixed b m = suffixed b' n \<Longrightarrow> m = n"
  by (auto simp: suffixed_def suffix_of_def intro!: dec_inj
      dest!: append_sep_inj [OF underscore_not_in_dec underscore_not_in_dec])

lemma suffixed_len:
  "length (suffix_of n) \<le> max_provider_name_len \<Longrightarrow> length (suffixed b n) \<le> max_provider_name_len"
  by (auto simp: suffixed_def truncate_for_suffix_def saturating_sub_def utf8_suffix Let_def)

lemma suffixed_chars:
  "(\<And>c. c \<in> set b \<Longrightarrow> name_char_ok c) \<Longrightarrow> c \<in> set (suffixed b n) \<Longrightarrow> name_char_ok c"
  by (auto simp: suffixed_def truncate_for_suffix_def Let_def dest: in_set_takeD suffix_of_ascii
      split: if_splits)

text \<open>
  The defensive loop: try \<open>_n\<close>, \<open>_n+1\<close>, \dots until the name is unused. Distinct
  counters give distinct names and only finitely many are used, so it stops.
\<close>

lemma finite_suffixed_used: "finite {m. suffixed base m \<in> set used}"
proof -
  have "inj (suffixed base)" by (rule injI) (rule suffixed_inj)
  then show ?thesis using finite_vimageI [of "set used" "suffixed base"] by (simp add: vimage_def)
qed

function free_suffix :: "string \<Rightarrow> string list \<Rightarrow> nat \<Rightarrow> string" where
  "free_suffix base used n =
     (let alt = suffixed base n in if alt \<notin> set used then alt else free_suffix base used (n + 1))"
  by pat_completeness auto

termination
proof (relation "measure (\<lambda>(base, used, n). card {m. n \<le> m \<and> suffixed base m \<in> set used})")
  fix base :: string and used :: "string list" and n alt
  assume alt: "alt = suffixed base n" "\<not> alt \<notin> set used"
  have fin: "finite {m. n \<le> m \<and> suffixed base m \<in> set used}"
    by (rule finite_subset [OF _ finite_suffixed_used [of base used]]) auto
  have "n \<in> {m. n \<le> m \<and> suffixed base m \<in> set used}" using alt by simp
  then have "{m. n + 1 \<le> m \<and> suffixed base m \<in> set used} \<subset> {m. n \<le> m \<and> suffixed base m \<in> set used}"
    by (intro psubsetI subsetI) (auto simp: set_eq_iff intro: exI [of _ n])
  then have "card {m. n + 1 \<le> m \<and> suffixed base m \<in> set used}
      < card {m. n \<le> m \<and> suffixed base m \<in> set used}"
    by (rule psubset_card_mono [OF fin])
  then show "((base, used, n + 1), base, used, n)
      \<in> measure (\<lambda>(base, used, n). card {m. n \<le> m \<and> suffixed base m \<in> set used})"
    by simp
qed simp

declare free_suffix.simps [simp del]

lemma free_suffix_props:
  "free_suffix base used n \<notin> set used \<and>
   (\<exists>k \<ge> n. free_suffix base used n = suffixed base k \<and> (\<forall>j. n \<le> j \<and> j < k \<longrightarrow> suffixed base j \<in> set used))"
proof (induction base used n rule: free_suffix.induct)
  case (1 base used n)
  show ?case
  proof (cases "suffixed base n \<in> set used")
    case True
    then have step: "free_suffix base used n = free_suffix base used (n + 1)"
      by (subst free_suffix.simps) (simp add: Let_def)
    have ih: "free_suffix base used (n + 1) \<notin> set used"
      "\<exists>k\<ge>n + 1. free_suffix base used (n + 1) = suffixed base k \<and>
         (\<forall>j. n + 1 \<le> j \<and> j < k \<longrightarrow> suffixed base j \<in> set used)"
      using "1.IH" [OF refl] True by blast+
    then obtain k where k: "n + 1 \<le> k" "free_suffix base used (n + 1) = suffixed base k"
      "\<forall>j. n + 1 \<le> j \<and> j < k \<longrightarrow> suffixed base j \<in> set used" by blast
    have "\<forall>j. n \<le> j \<and> j < k \<longrightarrow> suffixed base j \<in> set used"
      using k(3) True by (metis Suc_eq_plus1 not_less_eq_eq order_antisym)
    then show ?thesis using step ih(1) k by (metis add_leE)
  next
    case False
    then show ?thesis by (subst (1 2) free_suffix.simps) (auto simp: Let_def)
  qed
qed

lemma free_suffix_bound:
  "\<exists>k. n \<le> k \<and> k \<le> n + length used \<and> free_suffix base used n = suffixed base k"
proof -
  obtain k where k: "n \<le> k" "free_suffix base used n = suffixed base k"
    "\<forall>j. n \<le> j \<and> j < k \<longrightarrow> suffixed base j \<in> set used"
    using free_suffix_props by blast
  have "suffixed base ` {n..<k} \<subseteq> set used" using k(3) by auto
  moreover have "inj_on (suffixed base) {n..<k}" by (rule inj_onI) (rule suffixed_inj)
  ultimately have "k - n \<le> card (set used)"
    by (metis List.finite_set card_atLeastLessThan card_image card_mono)
  also have "\<dots> \<le> length used" by (rule card_length)
  finally show ?thesis using k by (intro exI [of _ k]) auto
qed

section \<open>Resolution of a catalogue\<close>

text \<open>\<open>entry(k).or_insert(0) += 1\<close> on a map of counters, and its value with a default.\<close>

definition bump :: "(string \<rightharpoonup> nat) \<Rightarrow> string \<Rightarrow> (string \<rightharpoonup> nat)" where
  "bump m k = m(k \<mapsto> (case m k of None \<Rightarrow> 0 | Some n \<Rightarrow> n) + 1)"

definition count_or :: "nat \<Rightarrow> (string \<rightharpoonup> nat) \<Rightarrow> string \<Rightarrow> nat" where
  "count_or d m k = (case m k of None \<Rightarrow> d | Some n \<Rightarrow> n)"

definition base_counts :: "canonical_tool_id list \<Rightarrow> (string \<rightharpoonup> nat)" where
  "base_counts ids = foldl (\<lambda>m i. bump m (generate_provider_name i)) Map.empty ids"

definition pick_name :: "string list \<Rightarrow> nat \<Rightarrow> string \<Rightarrow> nat \<Rightarrow> string" where
  "pick_name used collision_total base occurrence =
     (let candidate = (if collision_total = 1 \<or> occurrence = 1 then base else suffixed base occurrence)
      in if candidate \<in> set used then free_suffix base used occurrence else candidate)"

fun resolve_loop :: "(string \<rightharpoonup> nat) \<Rightarrow> (string \<rightharpoonup> nat) \<Rightarrow> string list
    \<Rightarrow> canonical_tool_id list \<Rightarrow> (canonical_tool_id \<times> string) list" where
  "resolve_loop counts seen used [] = []"
| "resolve_loop counts seen used (i # rest) =
     (let base = generate_provider_name i;
          occurrence = count_or 0 seen base + 1;
          final_name = pick_name used (count_or 1 counts base) base occurrence
      in (i, final_name) # resolve_loop counts (bump seen base) (used @ [final_name]) rest)"

definition resolve_provider_names :: "canonical_tool_id list \<Rightarrow> (canonical_tool_id \<times> string) list" where
  "resolve_provider_names ids = resolve_loop (base_counts ids) Map.empty [] ids"

lemma pick_name_fresh: "pick_name used t base occ \<notin> set used"
  using free_suffix_props by (auto simp: pick_name_def Let_def)

lemma resolve_loop_ids: "map fst (resolve_loop a b u ids) = ids"
  by (induction a b u ids rule: resolve_loop.induct) (simp_all add: Let_def)

lemma resolve_loop_fresh:
  "distinct (map snd (resolve_loop a b u ids)) \<and>
   set (map snd (resolve_loop a b u ids)) \<inter> set u = {}"
proof (induction a b u ids rule: resolve_loop.induct)
  case (2 a b u i rest)
  let ?n = "pick_name u (count_or 1 a (generate_provider_name i)) (generate_provider_name i)
      (count_or 0 b (generate_provider_name i) + 1)"
  have "?n \<notin> set u" by (rule pick_name_fresh)
  with 2 [OF refl refl refl] show ?case by (auto simp: Let_def)
qed simp

lemma count_bump_le: "(\<And>k. count_or 0 m k \<le> n) \<Longrightarrow> count_or 0 (bump m b) k \<le> Suc n"
  by (auto simp: count_or_def bump_def split: option.splits) (metis le_SucI option.simps(5))+

lemma pick_name_form:
  "pick_name used t base occ = base \<or>
   (\<exists>k. occ \<le> k \<and> k \<le> occ + length used \<and> pick_name used t base occ = suffixed base k)"
  using free_suffix_bound [of occ used base] by (auto simp: pick_name_def Let_def)

lemma resolve_loop_form:
  assumes "(i, n) \<in> set (resolve_loop a b u ids)" and "\<And>k. count_or 0 b k \<le> length u"
  shows "n = generate_provider_name i \<or>
    (\<exists>k. k \<le> 1 + 2 * (length u + length ids) \<and> n = suffixed (generate_provider_name i) k)"
  using assms
proof (induction a b u ids rule: resolve_loop.induct)
  case (2 a b u j rest)
  let ?base = "generate_provider_name j"
  let ?n = "pick_name u (count_or 1 a ?base) ?base (count_or 0 b ?base + 1)"
  consider "i = j" "n = ?n" | "(i, n) \<in> set (resolve_loop a (bump b ?base) (u @ [?n]) rest)"
    using "2.prems"(1) by (auto simp: Let_def)
  then show ?case
  proof cases
    case 1
    show ?thesis
    proof (cases "n = ?base")
      case False
      then obtain k where k: "k \<le> count_or 0 b ?base + 1 + length u" "n = suffixed ?base k"
        using pick_name_form [of u "count_or 1 a ?base" ?base "count_or 0 b ?base + 1"] 1 by auto
      then have "k \<le> 1 + 2 * (length u + length (j # rest))"
        using "2.prems"(2) [of ?base] by simp
      with k 1 show ?thesis by blast
    qed (simp add: 1)
  next
    case 2
    have "count_or 0 (bump b ?base) k \<le> length (u @ [?n])" for k
      using count_bump_le [of b "length u"] "2.prems"(2) by simp
    from "2.IH" [OF refl refl refl 2 this] show ?thesis by auto
  qed
qed simp

lemma resolve_name_form:
  assumes "(i, n) \<in> set (resolve_provider_names ids)"
  shows "n = generate_provider_name i \<or>
    (\<exists>k \<le> 1 + 2 * length ids. n = suffixed (generate_provider_name i) k)"
proof -
  have "count_or 0 Map.empty k \<le> length ([] :: string list)" for k by (simp add: count_or_def)
  from resolve_loop_form [OF assms [unfolded resolve_provider_names_def] this] show ?thesis by auto
qed

lemma resolve_loop_length: "length (resolve_loop a b u ids) = length ids"
  using resolve_loop_ids [of a b u ids] by (metis length_map)

section \<open>The mapping\<close>

record tool_name_mapping =
  internal_id :: canonical_tool_id
  provider_name :: string
  display_name :: string
  descriptor_hash :: string
  input_schema :: "json option"
  strict :: "bool option"

definition mapping_new :: "canonical_tool_id \<Rightarrow> string \<Rightarrow> string \<Rightarrow> tool_name_mapping" where
  "mapping_new cid dname h = \<lparr>internal_id = cid, provider_name = generate_provider_name cid,
     display_name = dname, descriptor_hash = h, input_schema = None, strict = None\<rparr>"

text \<open>\<open>collect()\<close> into a \<open>HashMap\<close> keeps the last name of a repeated id; the loop
  then removes an id from the map at its first use and falls back to the base name.\<close>

fun assign_names :: "(canonical_tool_id \<rightharpoonup> string) \<Rightarrow> (canonical_tool_id \<times> string \<times> string) list
    \<Rightarrow> tool_name_mapping list" where
  "assign_names by_id [] = []"
| "assign_names by_id ((cid, dname, h) # rest) =
     (let pname = (case by_id cid of Some n \<Rightarrow> n | None \<Rightarrow> generate_provider_name cid)
      in \<lparr>internal_id = cid, provider_name = pname, display_name = dname, descriptor_hash = h,
          input_schema = None, strict = None\<rparr> # assign_names (by_id(cid := None)) rest)"

definition build_mapping_with_resolution ::
    "(canonical_tool_id \<times> string \<times> string) list \<Rightarrow> tool_name_mapping list" where
  "build_mapping_with_resolution tools =
     (let resolved = resolve_provider_names (map fst tools)
      in assign_names (map_of (rev resolved)) tools)"

lemma assign_names_ids: "map internal_id (assign_names m tools) = map fst tools"
  by (induction m tools rule: assign_names.induct) (auto simp: Let_def fun_upd_def)

lemma assign_names_distinct:
  assumes "distinct (map fst tools)" and "\<And>c. c \<in> fst ` set tools \<Longrightarrow> m c \<noteq> None"
  shows "map (\<lambda>t. Some (provider_name t)) (assign_names m tools) = map (\<lambda>t. m (fst t)) tools"
  using assms
proof (induction m tools rule: assign_names.induct)
  case (2 m cid dname h rest)
  have ext: "(m(cid := None)) c = m c" if "c \<in> fst ` set rest" for c using that "2.prems"(1) by auto
  have "map (\<lambda>t. Some (provider_name t)) (assign_names (m(cid := None)) rest)
      = map (\<lambda>t. (m(cid := None)) (fst t)) rest"
    using "2.IH" [OF refl] "2.prems" ext by (auto simp: fun_upd_def)
  also have "\<dots> = map (\<lambda>t. m (fst t)) rest" by (rule map_cong [OF refl ext]) (rule imageI)
  finally show ?case using "2.prems"(2) [of cid] by (auto simp: Let_def simp del: fun_upd_apply)
qed simp

lemma map_of_rev_distinct: "distinct (map fst kvs) \<Longrightarrow> map_of (rev kvs) = map_of kvs"
proof (rule ext)
  fix k
  assume d: "distinct (map fst kvs)"
  then have "distinct (map fst (rev kvs))" by (simp add: rev_map [symmetric])
  moreover have "map_of (rev kvs) k = None" if "map_of kvs k = None"
    using that by (simp add: map_of_eq_None_iff)
  ultimately show "map_of (rev kvs) k = map_of kvs k"
    by (cases "map_of kvs k") (auto dest!: map_of_SomeD)
qed

lemma build_mapping_names:
  assumes "distinct (map fst tools)"
  shows "map provider_name (build_mapping_with_resolution tools)
    = map snd (resolve_provider_names (map fst tools))"
proof -
  let ?r = "resolve_provider_names (map fst tools)"
  have fst_r: "map fst ?r = map fst tools"
    by (simp add: resolve_provider_names_def resolve_loop_ids)
  have m: "map_of (rev ?r) = map_of ?r"
    using assms by (intro map_of_rev_distinct) (simp add: fst_r)
  have dom: "map_of ?r c \<noteq> None" if "c \<in> fst ` set tools" for c
    using that fst_r by (metis list.set_map map_of_eq_None_iff)
  have "map (\<lambda>t. Some (provider_name t)) (build_mapping_with_resolution tools)
      = map (\<lambda>t. map_of ?r (fst t)) tools"
    using assign_names_distinct [OF assms, of "map_of ?r"] dom m
    by (simp add: build_mapping_with_resolution_def Let_def)
  also have "\<dots> = map (map_of ?r) (map fst ?r)" unfolding fst_r by (simp add: comp_def)
  also have "\<dots> = map (\<lambda>p. Some (snd p)) ?r"
    unfolding map_map by (rule map_cong) (auto intro!: map_of_is_SomeI simp: fst_r assms)
  finally have "map Some (map provider_name (build_mapping_with_resolution tools)) = map Some (map snd ?r)"
    by (simp add: comp_def)
  then show ?thesis by (subst (asm) inj_map_eq_map) simp_all
qed

section \<open>Properties\<close>

lemma resolved_name_ok:
  assumes "(i, n) \<in> set (resolve_provider_names ids)" "length ids < 2 ^ 63"
  shows "length n \<le> max_provider_name_len \<and> (\<forall>c \<in> set n. name_char_ok c)"
proof -
  consider "n = generate_provider_name i"
    | k where "k \<le> 1 + 2 * length ids" "n = suffixed (generate_provider_name i) k"
    using resolve_name_form [OF assms(1)] by blast
  then show ?thesis
  proof cases
    case 1
    then show ?thesis using generate_provider_name_len generate_provider_name_chars by blast
  next
    case 2
    have "k < 10 ^ 20" using 2(1) assms(2) by simp
    then have "length (dec k) \<le> 20" by (rule dec_length_le) simp
    then have "length (suffix_of k) \<le> max_provider_name_len"
      by (simp add: suffix_of_def max_provider_name_len_def)
    then show ?thesis using 2(2) suffixed_len suffixed_chars generate_provider_name_chars by blast
  qed
qed

text \<open>C38: resolving a catalogue of ids gives every id one name, in the order of the ids, and
  the names are pairwise distinct, at most 64 long and made of letters, digits, underscores
  and hyphens, whatever the ids contain and however many of their base names collide. (The
  length of a Rust vector is below 2^63.)\<close>

theorem provider_names_valid:
  assumes "length ids < 2 ^ 63"
  shows "map fst (resolve_provider_names ids) = ids \<and>
    distinct (map snd (resolve_provider_names ids)) \<and>
    (\<forall>(i, n) \<in> set (resolve_provider_names ids).
       length n \<le> max_provider_name_len \<and> (\<forall>c \<in> set n. name_char_ok c))"
  using resolved_name_ok [OF _ assms] resolve_loop_fresh
  by (auto simp: resolve_provider_names_def resolve_loop_ids)

theorem provider_names_valid_witness:
  "distinct (map snd (resolve_provider_names
      [\<lparr>id_namespace = BuiltIn, id_name = ''a.b''\<rparr>, \<lparr>id_namespace = BuiltIn, id_name = ''a/b''\<rparr>]))"
  using provider_names_valid [of "[\<lparr>id_namespace = BuiltIn, id_name = ''a.b''\<rparr>, \<lparr>id_namespace = BuiltIn, id_name = ''a/b''\<rparr>]"]
  by simp

text \<open>The mapping built for a catalogue whose ids are pairwise distinct keeps the order of
  the catalogue and gives the entries the resolved names, which are pairwise distinct.\<close>

theorem mapping_names_distinct:
  assumes "distinct (map fst tools)"
  shows "map internal_id (build_mapping_with_resolution tools) = map fst tools \<and>
    map provider_name (build_mapping_with_resolution tools) =
      map snd (resolve_provider_names (map fst tools)) \<and>
    distinct (map provider_name (build_mapping_with_resolution tools))"
proof (intro conjI)
  show names: "map provider_name (build_mapping_with_resolution tools) =
      map snd (resolve_provider_names (map fst tools))"
    by (rule build_mapping_names [OF assms])
  show "distinct (map provider_name (build_mapping_with_resolution tools))"
    unfolding names resolve_provider_names_def using resolve_loop_fresh by blast
  show "map internal_id (build_mapping_with_resolution tools) = map fst tools"
    by (simp add: build_mapping_with_resolution_def assign_names_ids Let_def)
qed

theorem mapping_names_distinct_witness:
  "distinct (map provider_name (build_mapping_with_resolution
     [(\<lparr>id_namespace = BuiltIn, id_name = ''a''\<rparr>, ''A'', ''h''),
      (\<lparr>id_namespace = BuiltIn, id_name = ''b''\<rparr>, ''B'', ''h'')]))"
  by (rule conjunct2 [THEN conjunct2, OF mapping_names_distinct]) simp

text \<open>A catalogue that lists an id three times gets two entries with the same provider
  name: the resolver tells the three apart, but the map from ids to names keeps only one of
  its names and later uses of the id fall back to the base name. The documentation of
  \<open>build_mapping_with_resolution\<close> promises collision-safe names.\<close>

theorem mapping_repeated_id:
  "\<not> distinct (map provider_name (build_mapping_with_resolution
     [(\<lparr>id_namespace = BuiltIn, id_name = ''a''\<rparr>, ''A'', ''h''),
      (\<lparr>id_namespace = BuiltIn, id_name = ''a''\<rparr>, ''A'', ''h''),
      (\<lparr>id_namespace = BuiltIn, id_name = ''a''\<rparr>, ''A'', ''h'')]))"
  by code_simp

end
