(* ===== verification/Tool_Validation.thy ===== *)
theory Tool_Validation
  imports Tool_Names
begin

text \<open>
  Validation of proposed tool calls (\<open>gestalt-core/src/tool_validation.rs\<close>) and the tool
  and catalogue interface it uses (\<open>tool.rs\<close>). The schema checker is the code's
  recursion over the schema, error texts included; \<open>Panic\<close> is the outcome of the two
  \<open>unwrap\<close>s. The lemmas: the checker never panics, an object schema accepts exactly the
  objects its clauses describe, \<open>anyOf\<close> accepts when one alternative does, forbidding
  additional properties only shrinks the accepted values, and a validated call names a
  mapped tool of the catalogue with a fresh id.
\<close>

section \<open>Tools and the catalogue\<close>

record tool =
  t_name :: string
  t_description :: string
  t_descriptor :: tool_descriptor
  t_risk :: "json \<Rightarrow> risk_level"
  t_parallel :: "json \<Rightarrow> bool"

type_synonym tool_catalog = "canonical_tool_id \<Rightarrow> tool option"

text \<open>The default methods of the traits \<open>Tool\<close> and \<open>ToolCatalog\<close>.\<close>

definition default_can_run_in_parallel :: "(json \<Rightarrow> risk_level) \<Rightarrow> json \<Rightarrow> bool" where
  "default_can_run_in_parallel risk input \<longleftrightarrow> risk input = Low"

definition default_descriptor :: "string \<Rightarrow> string \<Rightarrow> json \<Rightarrow> (json \<Rightarrow> risk_level) \<Rightarrow> tool_descriptor" where
  "default_descriptor nm descr sch risk =
     \<lparr>td_id = \<lparr>id_namespace = BuiltIn, id_name = nm\<rparr>, td_description = descr, td_schema = sch,
      td_risk = risk VNull, td_annotations = [],
      td_response_contract = \<lparr>rc_format = FormatText, shape_rules = None\<rparr>,
      td_retry_policy = None, td_retention = None\<rparr>"

definition default_get_by_id :: "(string \<Rightarrow> tool option) \<Rightarrow> tool_catalog" where
  "default_get_by_id get cid = (case id_namespace cid of
       BuiltIn \<Rightarrow> get (id_name cid) | _ \<Rightarrow> get (cid_to_string cid))"

record proposed_tool_call =
  pc_id :: string
  pc_name :: string
  pc_input :: json

section \<open>The schema checker\<close>

datatype validation = Valid | Invalid string | Panic

fun value_type_name :: "json \<Rightarrow> string" where
  "value_type_name VNull = ''null''"
| "value_type_name (VBool _) = ''boolean''"
| "value_type_name (VNumber _) = ''number''"
| "value_type_name (VString _) = ''string''"
| "value_type_name (VArray _) = ''array''"
| "value_type_name (VObject _) = ''object''"

definition type_matches_single :: "string \<Rightarrow> string \<Rightarrow> bool" where
  "type_matches_single value_type schema_type =
     (if schema_type = ''null'' then value_type = ''null''
      else if schema_type = ''object'' then value_type = ''object''
      else if schema_type = ''array'' then value_type = ''array''
      else if schema_type = ''string'' then value_type = ''string''
      else if schema_type = ''number'' then value_type = ''number''
      else if schema_type = ''integer'' then value_type = ''number''
      else if schema_type = ''boolean'' then value_type = ''boolean''
      else True)"

definition type_matches :: "json \<Rightarrow> json \<Rightarrow> bool" where
  "type_matches v st = (case as_str st of
       Some single \<Rightarrow> type_matches_single (value_type_name v) single
     | None \<Rightarrow> (case as_array st of
           None \<Rightarrow> True
         | Some types \<Rightarrow> list_ex (\<lambda>t. case as_str t of
               None \<Rightarrow> True | Some s \<Rightarrow> type_matches_single (value_type_name v) s) types))"

definition type_label :: "json \<Rightarrow> string" where
  "type_label types = (case as_str types of
       Some s \<Rightarrow> s
     | None \<Rightarrow> (case as_array types of
           None \<Rightarrow> ''unknown''
         | Some arr \<Rightarrow> join '' or '' (List.map_filter as_str arr)))"

fun check_required :: "(string \<times> json) list \<Rightarrow> json list \<Rightarrow> validation" where
  "check_required obj [] = Valid"
| "check_required obj (r # rs) = (case as_str r of
       Some f \<Rightarrow> (if map_of obj f = None
                  then Invalid (''Missing required field: '' @ [CHR 0x27] @ f @ [CHR 0x27])
                  else check_required obj rs)
     | None \<Rightarrow> check_required obj rs)"

fun check_additional :: "string list \<Rightarrow> (string \<times> json) list \<Rightarrow> validation" where
  "check_additional [] props = Valid"
| "check_additional (k # ks) props =
     (if map_of props k = None
      then Invalid (''Additional property '' @ [CHR 0x27] @ k @ [CHR 0x27] @ '' not allowed'')
      else check_additional ks props)"

definition check_additional_clause ::
    "(string \<times> json) list \<Rightarrow> (string \<times> json) list \<Rightarrow> validation" where
  "check_additional_clause schema_obj obj =
     (case map_of schema_obj ''additionalProperties'' of
        None \<Rightarrow> Valid
      | Some additional \<Rightarrow>
          (if as_bool additional = Some False then
             (case Option.bind (map_of schema_obj ''properties'') as_object of
                None \<Rightarrow> Valid
              | Some props \<Rightarrow> check_additional (map fst obj) props)
           else Valid))"

fun required_list :: "(string \<times> json) list \<Rightarrow> json list" where
  "required_list schema_obj = (case Option.bind (map_of schema_obj ''required'') as_array of
       None \<Rightarrow> [] | Some rs \<Rightarrow> rs)"

lemma size_as_object: "as_object j = Some kvs \<Longrightarrow> size_list (size_prod (\<lambda>_. 0) size) kvs < size j"
  by (auto simp: as_object_iff)

lemma size_as_array: "as_array j = Some xs \<Longrightarrow> size_list size xs < size j"
  by (auto simp: as_array_iff)

lemma size_sub_object: "Option.bind (map_of kvs k) as_object = Some props \<Longrightarrow>
    size_list (size_prod (\<lambda>_. 0) size) props < Suc (size_list (size_prod (\<lambda>_. 0) size) kvs)"
  by (auto simp: bind_eq_Some_conv dest!: size_map_of size_as_object)

lemma size_sub_array: "Option.bind (map_of kvs k) as_array = Some xs \<Longrightarrow>
    size_list size xs < Suc (size_list (size_prod (\<lambda>_. 0) size) kvs)"
  by (auto simp: bind_eq_Some_conv dest!: size_map_of size_as_array)

function (sequential) validate_json_value :: "json \<Rightarrow> json \<Rightarrow> validation"
  and validate_any :: "json \<Rightarrow> json list \<Rightarrow> string list \<Rightarrow> validation"
  and validate_properties :: "(string \<times> json) list \<Rightarrow> (string \<times> json) list \<Rightarrow> validation"
  and validate_items :: "json list \<Rightarrow> json \<Rightarrow> nat \<Rightarrow> validation"
where
  "validate_json_value v (VObject so) =
     (case Option.bind (map_of so ''anyOf'') as_array of
        Some any_of \<Rightarrow> validate_any v any_of []
      | None \<Rightarrow>
          (case map_of so ''type'' of
             None \<Rightarrow> Valid
           | Some types \<Rightarrow>
               (if \<not> type_matches v types
                then Invalid (''Expected '' @ type_label types @ '', found '' @ value_type_name v)
                else if as_str types = Some ''object'' then
                  (case as_object v of
                     None \<Rightarrow> Panic
                   | Some obj \<Rightarrow>
                       (case (case Option.bind (map_of so ''properties'') as_object of
                                None \<Rightarrow> Valid | Some props \<Rightarrow> validate_properties obj props) of
                          Valid \<Rightarrow>
                            (case check_required obj (required_list so) of
                               Valid \<Rightarrow> check_additional_clause so obj
                             | r \<Rightarrow> r)
                        | r \<Rightarrow> r))
                else if as_str types = Some ''array'' then
                  (case as_array v of
                     None \<Rightarrow> Panic
                   | Some arr \<Rightarrow>
                       (case map_of so ''items'' of
                          None \<Rightarrow> Valid | Some items \<Rightarrow> validate_items arr items 0))
                else Valid)))"
| "validate_json_value v schema = Valid"
| "validate_any v [] errors =
     Invalid (''none of the anyOf alternatives matched: '' @ join ''; '' errors)"
| "validate_any v (sub # subs) errors =
     (case validate_json_value v sub of
        Valid \<Rightarrow> Valid
      | Invalid e \<Rightarrow> validate_any v subs (errors @ [e])
      | Panic \<Rightarrow> Panic)"
| "validate_properties obj [] = Valid"
| "validate_properties obj (ps # rest) =
     (case map_of obj (fst ps) of
        Some pv \<Rightarrow>
          (case validate_json_value pv (snd ps) of
             Valid \<Rightarrow> validate_properties obj rest
           | Invalid e \<Rightarrow> Invalid (''field '' @ [CHR 0x27] @ fst ps @ [CHR 0x27] @ '': '' @ e)
           | Panic \<Rightarrow> Panic)
      | None \<Rightarrow> validate_properties obj rest)"
| "validate_items [] items idx = Valid"
| "validate_items (x # xs) items idx =
     (case validate_json_value x items of
        Valid \<Rightarrow> validate_items xs items (idx + 1)
      | Invalid e \<Rightarrow> Invalid (''index '' @ dec idx @ '': '' @ e)
      | Panic \<Rightarrow> Panic)"
  by pat_completeness auto

termination
  by (relation "measures [\<lambda>a. case a of Inl (Inl (v, s)) \<Rightarrow> size s
        | Inl (Inr (v, ss, es)) \<Rightarrow> size_list size ss
        | Inr (Inl (obj, ps)) \<Rightarrow> size_list (size_prod (\<lambda>_. 0) size) ps
        | Inr (Inr (xs, s, i)) \<Rightarrow> size s,
      \<lambda>a. case a of Inr (Inr (xs, s, i)) \<Rightarrow> Suc (length xs) | _ \<Rightarrow> 0]")
    (auto dest: size_map_of size_sub_object size_sub_array simp: less_Suc_eq_le)

section \<open>Validating a call\<close>

definition validate_against_strict :: "json \<Rightarrow> json \<Rightarrow> validation" where
  "validate_against_strict input strict_schema = validate_json_value input strict_schema"

definition find_mapping :: "string \<Rightarrow> tool_name_mapping list \<Rightarrow> tool_name_mapping option" where
  "find_mapping nm maps = find_first (\<lambda>m. provider_name m = nm) maps"

text \<open>The schema an input is checked against: the descriptor's \<open>input_schema\<close> if it has one.\<close>

definition effective_schema :: "tool_descriptor \<Rightarrow> json" where
  "effective_schema d = (case json_get (td_schema d) ''input_schema'' of
       None \<Rightarrow> td_schema d | Some s \<Rightarrow> s)"

text \<open>
  \<open>ToolCallValidator::validate\<close>: the outcome and the set of ids seen so far, which
  grows before the other checks run. \<open>to_json\<close> stands for \<open>serde_json::to_string\<close>.
  The outcome is \<open>None\<close> for acceptance and the report otherwise.
\<close>

definition validate_call :: "(json \<Rightarrow> string option) \<Rightarrow> tool_catalog \<Rightarrow> tool_name_mapping list
    \<Rightarrow> proposed_tool_call \<Rightarrow> string set \<Rightarrow> tool_error_report option \<times> string set" where
  "validate_call to_json catalog maps call seen =
     (if pc_id call \<in> seen then
        (Some (with_repair (error_report DuplicateCallId (''Duplicate tool call ID: '' @ pc_id call))
           ''Use unique IDs for each tool call in the same turn.''), seen)
      else let seen' = insert (pc_id call) seen in
        (case find_mapping (pc_name call) maps of
           None \<Rightarrow>
             (Some (with_repair (error_report ToolNotFound
                 (''Tool '' @ [CHR 0x27] @ pc_name call @ [CHR 0x27] @ '' is not in the active tool set for this turn''))
               ''Use only tools from the list provided to you. If a tool you need is missing, ask the user to enable it.''), seen')
         | Some m \<Rightarrow>
             (case catalog (internal_id m) of
                None \<Rightarrow>
                  (Some (with_repair (error_report ToolNotFound (''Tool not found: '' @ pc_name call))
                     (''The tool '' @ [CHR 0x27] @ pc_name call @ [CHR 0x27] @ '' is not registered. Please check the spelling or ensure it is loaded.'')), seen')
              | Some t \<Rightarrow>
                  (case validate_json_value (pc_input call) (effective_schema (t_descriptor t)) of
                     Valid \<Rightarrow> (None, seen')
                   | Invalid e \<Rightarrow>
                       (Some (with_repair (error_report SchemaMismatch
                          (''Schema validation failed for tool '' @ [CHR 0x27] @ pc_name call @ [CHR 0x27] @ '': '' @ e))
                         (''The arguments provided do not match the expected schema. Expected: '' @
                           (case to_json (effective_schema (t_descriptor t)) of None \<Rightarrow> [] | Some s \<Rightarrow> s))), seen')
                   | Panic \<Rightarrow> (Some (error_report FailUnknown ''panic''), seen')))))"

section \<open>Lemmas: the checker\<close>

lemma type_matches_object: "type_matches v types \<Longrightarrow> as_str types = Some ''object'' \<Longrightarrow> \<exists>obj. as_object v = Some obj"
  by (cases v) (auto simp: type_matches_def type_matches_single_def)

lemma type_matches_array: "type_matches v types \<Longrightarrow> as_str types = Some ''array'' \<Longrightarrow> \<exists>xs. as_array v = Some xs"
  by (cases v) (auto simp: type_matches_def type_matches_single_def)

lemma check_required_no_panic: "check_required obj rs \<noteq> Panic"
  by (induction rs) (auto split: option.splits)

lemma check_additional_no_panic: "check_additional ks props \<noteq> Panic"
  by (induction ks) auto

lemma check_additional_clause_no_panic: "check_additional_clause so obj \<noteq> Panic"
  by (auto simp: check_additional_clause_def check_additional_no_panic split: option.splits)

lemma validate_object_no_panic:
  assumes "\<And>props. Option.bind (map_of so ''properties'') as_object = Some props \<Longrightarrow>
      validate_properties obj props \<noteq> Panic"
  shows "(case (case Option.bind (map_of so ''properties'') as_object of
              None \<Rightarrow> Valid | Some props \<Rightarrow> validate_properties obj props) of
            Valid \<Rightarrow> (case check_required obj rs of
               Valid \<Rightarrow> check_additional_clause so obj | r \<Rightarrow> r)
          | r \<Rightarrow> r) \<noteq> Panic"
  using assms check_required_no_panic [of obj rs] check_additional_clause_no_panic [of so obj]
  by (auto split: option.splits validation.splits)

lemma validate_no_panic:
  "validate_json_value v s \<noteq> Panic"
  "validate_any v ss es \<noteq> Panic"
  "validate_properties obj ps \<noteq> Panic"
  "validate_items xs s i \<noteq> Panic"
proof (induction v s and v ss es and obj ps and xs s i
    rule: validate_json_value_validate_any_validate_properties_validate_items.induct)
  case (1 v so)
  show ?case
  proof (cases "Option.bind (map_of so ''anyOf'') as_array")
    case (Some any_of)
    then show ?thesis using "1.IH"(3) [OF Some] by simp
  next
    case None
    note noany = this
    show ?thesis
    proof (cases "map_of so ''type''")
      case (Some types)
      show ?thesis
      proof (cases "type_matches v types")
        case True
        then consider obj where "as_str types = Some ''object''" "as_object v = Some obj"
          | xs where "as_str types = Some ''array''" "as_array v = Some xs"
          | "as_str types \<noteq> Some ''object''" "as_str types \<noteq> Some ''array''"
          using type_matches_object type_matches_array by blast
        then show ?thesis
        proof cases
          case (1 obj)
          then show ?thesis using "1.IH"(1) noany Some True validate_object_no_panic [of so obj]
            by simp
        next
          case (2 xs)
          then show ?thesis using "1.IH"(2) noany Some True by (simp split: option.splits)
        qed (use noany Some True in simp)
      qed (use noany Some in simp)
    qed (use noany in simp)
  qed
qed (auto split: validation.splits option.splits)

lemma check_required_Valid:
  "check_required obj rs = Valid \<longleftrightarrow> (\<forall>r \<in> set rs. \<forall>f. as_str r = Some f \<longrightarrow> map_of obj f \<noteq> None)"
  by (induction rs) (auto split: option.splits)

lemma check_additional_Valid:
  "check_additional ks props = Valid \<longleftrightarrow> (\<forall>k \<in> set ks. map_of props k \<noteq> None)"
  by (induction ks) auto

lemma validate_properties_Valid:
  "validate_properties obj ps = Valid \<longleftrightarrow>
     (\<forall>(k, s) \<in> set ps. \<forall>pv. map_of obj k = Some pv \<longrightarrow> validate_json_value pv s = Valid)"
  by (induction ps) (auto split: option.splits validation.splits)

lemma validate_items_Valid:
  "validate_items xs s i = Valid \<longleftrightarrow> (\<forall>x \<in> set xs. validate_json_value x s = Valid)"
  by (induction xs arbitrary: i) (auto split: validation.splits)

lemma validate_any_Valid:
  "validate_any v ss es = Valid \<longleftrightarrow> (\<exists>s \<in> set ss. validate_json_value v s = Valid)"
  by (induction ss arbitrary: es) (auto split: validation.splits simp: validate_no_panic)

definition additional_forbidden :: "(string \<times> json) list \<Rightarrow> bool" where
  "additional_forbidden so \<longleftrightarrow> Option.bind (map_of so ''additionalProperties'') as_bool = Some False"

lemma check_additional_clause_Valid:
  "check_additional_clause so obj = Valid \<longleftrightarrow>
     (additional_forbidden so \<longrightarrow>
       (\<forall>props. Option.bind (map_of so ''properties'') as_object = Some props \<longrightarrow>
          fst ` set obj \<subseteq> fst ` set props))"
proof (cases "map_of so ''additionalProperties''")
  case (Some a)
  then show ?thesis
    by (auto simp: check_additional_clause_def additional_forbidden_def check_additional_Valid
        map_of_eq_None_iff split: option.splits)
qed (simp add: check_additional_clause_def additional_forbidden_def)

text \<open>What an object schema accepts, clause by clause.\<close>

definition object_accepts :: "(string \<times> json) list \<Rightarrow> (string \<times> json) list \<Rightarrow> bool" where
  "object_accepts so obj \<longleftrightarrow>
     (\<forall>props k s pv. Option.bind (map_of so ''properties'') as_object = Some props \<longrightarrow>
        (k, s) \<in> set props \<longrightarrow> map_of obj k = Some pv \<longrightarrow> validate_json_value pv s = Valid) \<and>
     (\<forall>r \<in> set (required_list so). \<forall>f. as_str r = Some f \<longrightarrow> map_of obj f \<noteq> None) \<and>
     (additional_forbidden so \<longrightarrow>
       (\<forall>props. Option.bind (map_of so ''properties'') as_object = Some props \<longrightarrow>
          fst ` set obj \<subseteq> fst ` set props))"

lemma validate_object_iff:
  assumes "Option.bind (map_of so ''anyOf'') as_array = None"
    and "map_of so ''type'' = Some (VString ''object'')"
  shows "validate_json_value v (VObject so) = Valid \<longleftrightarrow>
    (\<exists>obj. v = VObject obj \<and> object_accepts so obj)"
proof (cases v)
  case (VObject obj)
  have t: "type_matches v (VString ''object'')"
    by (simp add: VObject type_matches_def type_matches_single_def)
  have "validate_json_value v (VObject so) = Valid \<longleftrightarrow>
      (case Option.bind (map_of so ''properties'') as_object of
         None \<Rightarrow> True | Some props \<Rightarrow> validate_properties obj props = Valid) \<and>
      check_required obj (required_list so) = Valid \<and> check_additional_clause so obj = Valid"
    using assms t VObject
    by (auto simp del: required_list.simps split: option.splits validation.splits)
  also have "\<dots> \<longleftrightarrow> object_accepts so obj"
    by (auto simp: object_accepts_def check_required_Valid check_additional_clause_Valid
        validate_properties_Valid simp del: required_list.simps split: option.splits)
  finally show ?thesis by (simp add: VObject)
qed (use assms in \<open>auto simp: type_matches_def type_matches_single_def\<close>)

section \<open>Lemmas: validated calls\<close>

lemma validate_call_seen: "snd (validate_call tj cat maps call seen) = insert (pc_id call) seen"
  by (auto simp: validate_call_def Let_def insert_absorb split: option.splits validation.splits)

lemma validate_call_accepts:
  "fst (validate_call tj cat maps call seen) = None \<longleftrightarrow>
     pc_id call \<notin> seen \<and>
     (\<exists>m t. find_mapping (pc_name call) maps = Some m \<and> cat (internal_id m) = Some t \<and>
        validate_json_value (pc_input call) (effective_schema (t_descriptor t)) = Valid)"
  by (auto simp: validate_call_def Let_def split: option.splits validation.splits)

lemma validate_call_report_pre_execution:
  "fst (validate_call tj cat maps call seen) = Some r \<Longrightarrow> is_pre_execution (er_kind r)"
  by (auto simp: validate_call_def Let_def split: option.splits validation.splits if_splits)

text \<open>
  The interface between whatever builds the mapping and the calls that use it. A builder
  names the ids of its input and, on the inputs it accepts, gives pairwise distinct names;
  then looking a name up finds the entry it belongs to, so a call reaches the tool its
  mapping entry names and no other.
\<close>

locale alias_builder =
  fixes build :: "'x list \<Rightarrow> tool_name_mapping list"
    and ident :: "'x \<Rightarrow> canonical_tool_id"
    and accepts :: "'x list \<Rightarrow> bool"
  assumes keeps_ids: "internal_id ` set (build xs) = ident ` set xs"
    and names_distinct: "accepts xs \<Longrightarrow> distinct (map provider_name (build xs))"
begin

lemma find_own:
  "accepts xs \<Longrightarrow> m \<in> set (build xs) \<Longrightarrow> find_mapping (provider_name m) (build xs) = Some m"
  unfolding find_mapping_def using find_first_distinct_key [OF names_distinct] .

lemma find_sound:
  assumes "find_mapping n (build xs) = Some m"
  shows "provider_name m = n \<and> internal_id m \<in> ident ` set xs"
proof -
  have m: "m \<in> set (build xs)" "provider_name m = n"
    using assms by (auto simp: find_mapping_def dest: find_first_SomeD)
  then have "internal_id m \<in> internal_id ` set (build xs)" by simp
  then show ?thesis using m by (simp only: keeps_ids)
qed

lemma every_id_named:
  assumes "accepts xs" "x \<in> set xs"
  shows "\<exists>n m. find_mapping n (build xs) = Some m \<and> internal_id m = ident x"
proof -
  have "ident x \<in> internal_id ` set (build xs)"
    using assms(2) by (simp add: keeps_ids)
  then obtain m where "m \<in> set (build xs)" "internal_id m = ident x" by auto
  then show ?thesis using find_own [OF assms(1)] by blast
qed

lemma accepted_call_tool:
  assumes "fst (validate_call tj cat (build xs) call seen) = None"
  shows "\<exists>x t. x \<in> set xs \<and> cat (ident x) = Some t \<and>
    validate_json_value (pc_input call) (effective_schema (t_descriptor t)) = Valid"
proof -
  obtain m t where m: "find_mapping (pc_name call) (build xs) = Some m" "cat (internal_id m) = Some t"
    "validate_json_value (pc_input call) (effective_schema (t_descriptor t)) = Valid"
    using assms by (auto simp: validate_call_accepts)
  then show ?thesis using find_sound [OF m(1)] by auto
qed

end

lemma build_mapping_distinct:
  "distinct (map fst tools) \<Longrightarrow> distinct (map provider_name (build_mapping_with_resolution tools))"
  using resolve_loop_fresh by (simp add: build_mapping_names resolve_provider_names_def)

lemma build_mapping_ids: "internal_id ` set (build_mapping_with_resolution tools) = fst ` set tools"
  using assign_names_ids by (metis build_mapping_with_resolution_def list.set_map)

interpretation catalog_aliases: alias_builder build_mapping_with_resolution fst
    "\<lambda>tools. distinct (map fst tools)"
  by unfold_locales (simp_all add: build_mapping_ids build_mapping_distinct)

end
