(* ===== verification/Core_Types.thy ===== *)
theory Core_Types
  imports Approval Tool_Validation
begin

text \<open>
  The data the core crate passes around: execution modes, policy requests and decisions,
  messages, errors, token budgets, context state and the agent events
  (\<open>gestalt-core/src\<close>: \<open>session.rs\<close>, \<open>policy.rs\<close>, \<open>message.rs\<close>,
  \<open>error.rs\<close>, \<open>context.rs\<close>, \<open>provider.rs\<close>, \<open>model.rs\<close>, \<open>session_queue.rs\<close>,
  \<open>event.rs\<close>). Floating-point fields are kept as the bits of the number: no modelled
  code computes with them. Paths are their text.
\<close>

type_synonym f32 = "32 word"
type_synonym f64 = "64 word"

section \<open>Enumerations\<close>

datatype execution_mode = ModeConfirm | ModeYolo | ModeHuman | ModeDryRun | ModeReplay

datatype policy_status = Allowed | Confirm | Denied

datatype stop_reason =
    EndTurn | ToolUse | MaxOutput | ContentFiltered | MaxTurns | BudgetExhausted
  | StopPolicyViolation | StopProviderError | HookBlocked

datatype verification_status = VPassed | VFailed | VWarning | VSkipped

datatype approval_outcome = OutApprove | OutDeny | OutEdit | OutAlwaysAllow

datatype finding_severity = SevError | SevWarning | SevInfo

record verification_finding =
  vf_severity :: finding_severity
  vf_message :: string
  vf_location :: "string option"

section \<open>Errors\<close>

datatype provider_error =
    UnknownProvider string | AuthFailed string | RateLimit "nat option"
  | ContextTooLong nat nat | InvalidModel string | ProviderTimeout | StreamInterrupted
  | MalformedToolCall string | UnsupportedCapability string | UnexpectedResponse string
  | Transport string

datatype tool_error =
    TeNotFound string | TeInvalidInput string string | TeExecutionFailed string
  | TeTimeout string nat | TeOutputTooLarge string nat | TePathNotAllowed string
  | TeNetworkDenied string | TeDenied string

datatype policy_error = InvalidPolicy string | PeDenied string | PeIo string

datatype context_error =
    InvalidBudget string | PipelineFailed string | CtxExhausted string | DurabilityFailed string

datatype config_error =
    MissingField string | UnknownKey string | InvalidValue string string
  | FeatureDisabled string string | UnsupportedLegacyConfig string string string
  | MissingVersion | InvalidVersion | UnsupportedVersion nat

datatype trace_error = WriteFailed string | ReadFailed string | InvalidFormat nat string

datatype approval_error = ApRejected string | ApIo string

text \<open>The error of every fallible operation; \<open>HPanic\<close> is a Rust panic, with its message.\<close>

datatype harness_error =
    HProvider provider_error | HTool tool_error | HPolicy policy_error | HContext context_error
  | HConfig config_error | HTrace trace_error | HApproval approval_error | HCancelled
  | HPanic string

fun is_recoverable :: "harness_error \<Rightarrow> bool" where
  "is_recoverable (HProvider (RateLimit _)) = True"
| "is_recoverable (HProvider (ContextTooLong _ _)) = True"
| "is_recoverable (HProvider StreamInterrupted) = True"
| "is_recoverable (HTool (TeTimeout _ _)) = True"
| "is_recoverable (HTool (TeOutputTooLarge _ _)) = True"
| "is_recoverable _ = False"

section \<open>Policy requests and decisions\<close>

record policy_request =
  pr_tool_call_id :: string
  pr_tool_name :: string
  pr_namespace :: tool_namespace
  pr_annotations :: tool_annotations
  pr_input :: json
  pr_risk :: risk_level
  pr_mode :: execution_mode
  pr_working_dir :: string
  pr_workspace_root :: "string option"
  pr_user_approved :: bool

record policy_decision =
  pd_status :: policy_status
  pd_reason :: "string option"
  pd_source :: string

definition decision_allowed :: "string option \<Rightarrow> policy_decision" where
  "decision_allowed reason = \<lparr>pd_status = Allowed, pd_reason = reason, pd_source = []\<rparr>"

definition decision_confirm :: "string \<Rightarrow> string \<Rightarrow> policy_decision" where
  "decision_confirm reason source = \<lparr>pd_status = Confirm, pd_reason = Some reason, pd_source = source\<rparr>"

definition decision_denied :: "string \<Rightarrow> string \<Rightarrow> policy_decision" where
  "decision_denied reason source = \<lparr>pd_status = Denied, pd_reason = Some reason, pd_source = source\<rparr>"

definition is_allowed :: "policy_decision \<Rightarrow> bool" where
  "is_allowed d \<longleftrightarrow> pd_status d = Allowed"

section \<open>Messages\<close>

datatype message_source = SrcUser | SrcOperator | SrcAutomation | SrcFollowUp

record queued_session_message =
  qm_id :: string
  qm_content :: string
  qm_source :: message_source
  qm_idempotency_key :: "string option"
  qm_injected_at_turn :: "nat option"

record message_metadata =
  mm_source :: "message_source option"
  mm_queued_message_id :: "string option"
  mm_injected_at_turn :: "nat option"

datatype content_trust = Trusted | Untrusted

record blob_source =
  bs_media_type :: string
  bs_data :: string

datatype content_block =
    CbText string
  | CbThinking string
  | CbImage blob_source
  | CbDocument blob_source "string option" content_trust
  | CbToolUse string string json

text \<open>\<open>MToolResult tool_use_id content is_error failure tool_name output_hash artifact_refs\<close>\<close>

datatype message =
    MSystem string
  | MUser "content_block list" "message_metadata option"
  | MAssistant "content_block list"
  | MToolResult string string bool "tool_error_report option" "string option" "string option"
      "string list option"

section \<open>Context state\<close>

record message_id =
  mi_session :: string
  mi_namespace :: string
  mi_sequence :: nat

record session_message =
  sm_id :: message_id
  sm_message :: message
  sm_metadata :: "message_metadata option"

record history_range =
  hr_start :: nat
  hr_end :: nat

definition hr_len :: "history_range \<Rightarrow> nat" where
  "hr_len r = saturating_sub (hr_end r) (hr_start r)"

definition hr_is_empty :: "history_range \<Rightarrow> bool" where
  "hr_is_empty r \<longleftrightarrow> hr_start r \<ge> hr_end r"

definition hr_contains :: "history_range \<Rightarrow> nat \<Rightarrow> bool" where
  "hr_contains r i \<longleftrightarrow> i \<ge> hr_start r \<and> i < hr_end r"

record artifact_ref =
  ar_run_id :: string
  ar_relative_path :: string
  ar_content_hash :: string

record compaction_checkpoint_ref =
  cc_checkpoint_id :: string
  cc_source_range :: history_range
  cc_source_hash :: string
  cc_artifact :: "artifact_ref option"

record prompt_snapshot_ref =
  ps_snapshot_hash :: string
  ps_prefix_hash :: string
  ps_artifact :: "artifact_ref option"

record cleared_tool_result_ref =
  ct_tool_use_id :: string
  ct_message_id :: message_id
  ct_output_hash :: string
  ct_artifact :: "artifact_ref option"

record context_projection_state =
  cs_active_checkpoint :: "compaction_checkpoint_ref option"
  cs_cleared :: "string \<rightharpoonup> cleared_tool_result_ref"
  cs_prompt_snapshot :: "prompt_snapshot_ref option"
  cs_context_epoch :: nat
  cs_policy_fingerprint :: "string option"

datatype 'a state_update = Unchanged | SetTo 'a | Clear

record context_state_delta =
  dl_active_checkpoint :: "compaction_checkpoint_ref state_update"
  dl_cleared :: "cleared_tool_result_ref list"
  dl_cleared_remove :: "string list"
  dl_prompt_snapshot :: "prompt_snapshot_ref state_update"
  dl_context_epoch :: "nat option"
  dl_policy_fingerprint :: "string option"

record token_budget =
  tb_model_limit :: nat
  tb_reserved_output :: nat
  tb_used_system :: nat
  tb_used_history :: nat
  tb_used_sources :: nat
  tb_used_tools :: nat
  tb_used_memory :: nat
  tb_minimum_turn_budget :: nat

record context_source_ref =
  src_kind :: string
  src_path_or_label :: string
  src_trust :: string
  src_token_estimate :: nat
  src_included :: bool
  src_authority :: "string option"

record context_omission =
  om_kind :: string
  om_path_or_label :: string
  om_trust :: string
  om_reason :: string
  om_token_estimate :: nat
  om_authority :: "string option"

section \<open>Prompt segments and cache plans\<close>

datatype prompt_assembly_strategy = StratDynamic | StratSnapshot

datatype prompt_segment_kind = SegConversation | SegSnapshot | SegDynamic | SegEphemeral

datatype context_stability = SessionStatic | ActivationStatic | TurnDynamic | StabEphemeral

record prompt_segment =
  seg_kind :: prompt_segment_kind
  seg_stability :: context_stability
  seg_hash :: string
  seg_message_count :: nat

record prompt_cache_plan =
  cp_strategy :: prompt_assembly_strategy
  cp_snapshot_hash :: string
  cp_prefix_hash :: string
  cp_prefix_message_count :: nat
  cp_segments :: "prompt_segment list"

record context_packet =
  pk_messages :: "message list"
  pk_packet_hash :: string
  pk_pipeline_version :: string
  pk_tokenizer_id :: string
  pk_token_estimate :: nat
  pk_sources :: "context_source_ref list"
  pk_omissions :: "context_omission list"
  pk_message_hashes :: "string list"
  pk_strategy :: prompt_assembly_strategy
  pk_snapshot_hash :: "string option"
  pk_cache_prefix_hash :: "string option"
  pk_segments :: "prompt_segment list"
  pk_cache_plan :: "prompt_cache_plan option"
  pk_prompt_source :: "string option"

section \<open>Models and provider requests\<close>

datatype api_format = AnthropicMessages | OpenAiChatCompletions | OpenAiResponses

datatype prompt_cache_mode = CacheNone | CacheAutomatic | CacheExplicit | CacheProviderDependent

datatype reasoning_effort = ReNone | ReLow | ReMedium | ReHigh | ReXhigh

datatype text_verbosity = TvNone | TvLow | TvMedium | TvHigh

record model_selection =
  ms_provider_id :: string
  ms_model_id :: string
  ms_variant :: "string option"

record model_capabilities =
  mc_streaming :: bool
  mc_tools :: bool
  mc_vision :: bool
  mc_json_mode :: bool
  mc_reasoning :: bool
  mc_prompt_cache :: prompt_cache_mode

record resolved_model_snapshot =
  rm_selection :: model_selection
  rm_api_format :: api_format
  rm_display_name :: "string option"
  rm_max_context_tokens :: nat
  rm_max_output_tokens :: nat
  rm_capabilities :: model_capabilities

record provider_tool_schema =
  pt_name :: string
  pt_description :: string
  pt_input_schema :: json
  pt_strict :: "bool option"

record provider_request =
  rq_model :: string
  rq_messages :: "message list"
  rq_tools :: "provider_tool_schema list"
  rq_tool_name_map :: "tool_name_mapping list"
  rq_max_tokens :: nat
  rq_temperature :: "f32 option"
  rq_top_p :: "f32 option"
  rq_stop_sequences :: "string list"
  rq_cache_plan :: "prompt_cache_plan option"
  rq_metadata :: json
  rq_reasoning_effort :: "reasoning_effort option"
  rq_text_verbosity :: "text_verbosity option"

text \<open>
  \<open>Provider::adapt_tools\<close>: the schemas and the mapping of a catalogue, in the order of
  the canonical ids. \<open>desc_hash\<close> stands for the SHA-256 of the serialised descriptor.
\<close>

definition adapt_tools :: "(tool_descriptor \<Rightarrow> string) \<Rightarrow> tool_descriptor list
    \<Rightarrow> provider_tool_schema list \<times> tool_name_mapping list" where
  "adapt_tools desc_hash tools =
     (let sorted_tools = sort_key (\<lambda>t. cid_key (td_id t)) tools;
          resolved = resolve_provider_names (map td_id sorted_tools);
          pairs = zip sorted_tools resolved
      in (map (\<lambda>(t, c, n). \<lparr>pt_name = n, pt_description = td_description t,
              pt_input_schema = (case json_get (td_schema t) ''input_schema'' of
                  Some s \<Rightarrow> s | None \<Rightarrow> td_schema t), pt_strict = None\<rparr>) pairs,
          map (\<lambda>(t, c, n). \<lparr>internal_id = td_id t, provider_name = n,
              display_name = id_name (td_id t), descriptor_hash = desc_hash t,
              input_schema = None, strict = None\<rparr>) pairs))"

lemma length_resolve: "length (resolve_provider_names ids) = length ids"
  by (simp add: resolve_provider_names_def resolve_loop_length)

lemma adapt_tools_names:
  "map provider_name (snd (adapt_tools h tools)) =
     map snd (resolve_provider_names (map td_id (sort_key (\<lambda>t. cid_key (td_id t)) tools)))"
proof -
  let ?s = "sort_key (\<lambda>t. cid_key (td_id t)) tools"
  let ?r = "resolve_provider_names (map td_id ?s)"
  have "map provider_name (snd (adapt_tools h tools)) = map snd (map snd (zip ?s ?r))"
    by (simp add: adapt_tools_def Let_def split_beta comp_def)
  also have "map snd (zip ?s ?r) = ?r" by (simp add: length_resolve)
  finally show ?thesis .
qed

lemma adapt_tools_distinct: "distinct (map provider_name (snd (adapt_tools h tools)))"
  using resolve_loop_fresh by (simp add: adapt_tools_names resolve_provider_names_def)

lemma adapt_tools_ids:
  "map internal_id (snd (adapt_tools h tools)) = map td_id (sort_key (\<lambda>t. cid_key (td_id t)) tools)"
proof -
  let ?s = "sort_key (\<lambda>t. cid_key (td_id t)) tools"
  let ?r = "resolve_provider_names (map td_id ?s)"
  have "map internal_id (snd (adapt_tools h tools)) = map td_id (map fst (zip ?s ?r))"
    by (simp add: adapt_tools_def Let_def split_beta comp_def)
  also have "map fst (zip ?s ?r) = ?s" by (simp add: length_resolve)
  finally show ?thesis .
qed

interpretation provider_aliases: alias_builder "\<lambda>tools. snd (adapt_tools h tools)" td_id "\<lambda>_. True"
proof unfold_locales
  fix xs
  have "set (map internal_id (snd (adapt_tools h xs))) = td_id ` set xs"
    by (simp only: adapt_tools_ids) simp
  then show "internal_id ` set (snd (adapt_tools h xs)) = td_id ` set xs" by simp
qed (rule adapt_tools_distinct)

section \<open>Properties\<close>

lemma adapt_tools_schemas:
  "map pt_name (fst (adapt_tools h tools)) = map provider_name (snd (adapt_tools h tools))"
  by (simp add: adapt_tools_def Let_def split_beta comp_def)

text \<open>Adapting a catalogue for a provider yields one schema and one mapping entry per tool,
  in the order of the canonical ids; the two lists carry the same names, and the names are
  pairwise distinct even if the catalogue repeats an id.\<close>

theorem adapted_catalogue:
  "map internal_id (snd (adapt_tools h tools)) = map td_id (sort_key (\<lambda>t. cid_key (td_id t)) tools) \<and>
   map pt_name (fst (adapt_tools h tools)) = map provider_name (snd (adapt_tools h tools)) \<and>
   distinct (map provider_name (snd (adapt_tools h tools)))"
  by (intro conjI adapt_tools_ids adapt_tools_schemas adapt_tools_distinct)

text \<open>A call that validation accepts against the mapping a provider was given reaches a tool
  of the adapted catalogue: its name is that tool's and no other's, and its input conforms
  to the schema of the tool registered under that id.\<close>

theorem accepted_call_reaches_tool:
  assumes "fst (validate_call to_json catalog (snd (adapt_tools h tools)) call seen) = None"
  shows "\<exists>d t. d \<in> set tools \<and> catalog (td_id d) = Some t \<and>
    validate_json_value (pc_input call) (effective_schema (t_descriptor t)) = Valid"
  by (rule provider_aliases.accepted_call_tool [OF assms])

definition sample_tool :: tool where
  "sample_tool = \<lparr>t_name = ''a'', t_description = [], t_descriptor = default_descriptor ''a'' [] (VObject []) (\<lambda>_. Low),
     t_risk = \<lambda>_. Low, t_parallel = \<lambda>_. True\<rparr>"

definition sample_catalog :: tool_catalog where
  "sample_catalog cid = (if cid = td_id (t_descriptor sample_tool) then Some sample_tool else None)"

lemma sample_accepted:
  "fst (validate_call (\<lambda>_. None) sample_catalog (snd (adapt_tools (\<lambda>_. []) [t_descriptor sample_tool]))
     \<lparr>pc_id = ''c1'', pc_name = ''a'', pc_input = VObject []\<rparr> {}) = None"
  by code_simp

theorem accepted_call_reaches_tool_witness:
  "\<exists>d t. d \<in> {t_descriptor sample_tool} \<and> sample_catalog (td_id d) = Some t \<and>
    validate_json_value (VObject []) (effective_schema (t_descriptor t)) = Valid"
  using accepted_call_reaches_tool [OF sample_accepted] by simp

end
