(* ===== verification/Session.thy ===== *)
theory Session
  imports Core_Types
begin

text \<open>
  Sessions (\<open>gestalt-core/src/session.rs\<close>) with the token budget, the context-state delta,
  retention defaults and projected history of \<open>context.rs\<close>. The lemmas: messages get
  consecutive ids and ids never repeat, a delta changes exactly what it names with additions
  after removals, and the budget left after a usage report is what the report leaves.
\<close>

section \<open>State\<close>

record tool_context =
  tc_working_dir :: string
  tc_workspace_root :: "string option"
  tc_timeout_secs :: nat
  tc_allow_network :: bool
  tc_environment :: "string \<rightharpoonup> string"
  tc_max_output_bytes :: nat
  tc_artifact_dir :: "string option"
  tc_current_tool_call_id :: "string option"
  tc_ignore_patterns :: "string list"

record next_turn_override =
  nto_model :: string
  nto_provider :: "string option"
  nto_variant :: "string option"

record session_config =
  sc_model :: string
  sc_provider :: string
  sc_max_tokens :: nat
  sc_temperature :: "f32 option"
  sc_max_turns :: nat
  sc_top_p :: "f32 option"
  sc_reasoning_effort :: "reasoning_effort option"
  sc_text_verbosity :: "text_verbosity option"
  sc_metadata :: json
  sc_resolved_model :: "resolved_model_snapshot option"

record workspace_snapshot =
  ws_workspace_root :: string
  ws_git_sha :: "string option"
  ws_git_dirty :: "bool option"
  ws_untracked_count :: "nat option"
  ws_content_hash :: string
  ws_captured_at :: string

datatype durability_mode = DurRequired | DurBestEffort | DurDisabled

datatype context_capture_mode = CapDisabled | CapHashOnly | CapRedacted | CapFullForReplay

record context_management_policy =
  cm_enabled :: bool
  cm_buffer_tokens :: nat
  cm_keep_recent_tokens :: nat
  cm_keep_recent_turns :: nat
  cm_tool_result_budget_ratio :: f64
  cm_compaction_target_ratio :: f64
  cm_durability :: durability_mode
  cm_capture :: context_capture_mode
  cm_profile :: string

text \<open>The two ratios are the bits of 0.5 and 0.8.\<close>

definition context_policy_default :: context_management_policy where
  "context_policy_default = \<lparr>cm_enabled = True, cm_buffer_tokens = 4096,
     cm_keep_recent_tokens = 8192, cm_keep_recent_turns = 5,
     cm_tool_result_budget_ratio = 0x3FE0000000000000,
     cm_compaction_target_ratio = 0x3FE999999999999A,
     cm_durability = DurRequired, cm_capture = CapHashOnly, cm_profile = ''default''\<rparr>"

record session =
  s_id :: string
  s_message_namespace :: string
  s_config :: session_config
  s_history :: "session_message list"
  s_context_state :: context_projection_state
  s_token_budget :: token_budget
  s_tool_ctx :: tool_context
  s_mode :: execution_mode
  s_snapshot :: workspace_snapshot
  s_next_turn_override :: "next_turn_override option"
  s_context_policy :: context_management_policy

definition context_state_default :: context_projection_state where
  "context_state_default = \<lparr>cs_active_checkpoint = None, cs_cleared = Map.empty,
     cs_prompt_snapshot = None, cs_context_epoch = 0, cs_policy_fingerprint = None\<rparr>"

text \<open>\<open>namespace\<close> is the fresh UUID the constructor draws.\<close>

definition session_new :: "string \<Rightarrow> string \<Rightarrow> session_config \<Rightarrow> token_budget \<Rightarrow> tool_context
    \<Rightarrow> execution_mode \<Rightarrow> workspace_snapshot \<Rightarrow> session" where
  "session_new namespace i config budget ctx md snap =
     \<lparr>s_id = i, s_message_namespace = namespace, s_config = config, s_history = [],
      s_context_state = context_state_default, s_token_budget = budget, s_tool_ctx = ctx,
      s_mode = md, s_snapshot = snap, s_next_turn_override = None,
      s_context_policy = context_policy_default\<rparr>"

section \<open>History\<close>

definition next_message_id :: "session \<Rightarrow> message_id" where
  "next_message_id s = \<lparr>mi_session = s_id s, mi_namespace = s_message_namespace s,
     mi_sequence = length (s_history s)\<rparr>"

definition append_message :: "message \<Rightarrow> session \<Rightarrow> session \<times> message_id" where
  "append_message m s =
     (let i = next_message_id s;
          metadata = (case m of MUser _ md \<Rightarrow> md | _ \<Rightarrow> None)
      in (s\<lparr>s_history := s_history s @ [\<lparr>sm_id = i, sm_message = m, sm_metadata = metadata\<rparr>]\<rparr>, i))"

definition messages_of :: "session \<Rightarrow> message list" where
  "messages_of s = map sm_message (s_history s)"

definition history_wf :: "session \<Rightarrow> bool" where
  "history_wf s \<longleftrightarrow> (\<forall>i < length (s_history s).
     sm_id (s_history s ! i) =
       \<lparr>mi_session = s_id s, mi_namespace = s_message_namespace s, mi_sequence = i\<rparr>)"

lemma history_wf_new: "history_wf (session_new ns i c b t m sn)"
  by (simp add: history_wf_def session_new_def)

lemma append_message_fields [simp]:
  "s_id (fst (append_message m s)) = s_id s"
  "s_message_namespace (fst (append_message m s)) = s_message_namespace s"
  "s_config (fst (append_message m s)) = s_config s"
  "s_token_budget (fst (append_message m s)) = s_token_budget s"
  "s_tool_ctx (fst (append_message m s)) = s_tool_ctx s"
  "s_mode (fst (append_message m s)) = s_mode s"
  "s_context_state (fst (append_message m s)) = s_context_state s"
  "messages_of (fst (append_message m s)) = messages_of s @ [m]"
  by (simp_all add: append_message_def messages_of_def Let_def)

lemma append_message_history:
  "\<exists>x. s_history (fst (append_message m s)) = s_history s @ [x] \<and> sm_message x = m"
  by (simp add: append_message_def Let_def)

lemma history_wf_append: "history_wf s \<Longrightarrow> history_wf (fst (append_message m s))"
  by (auto simp: history_wf_def append_message_def next_message_id_def nth_append Let_def
      less_Suc_eq)

lemma history_wf_ids_distinct: "history_wf s \<Longrightarrow> distinct (map sm_id (s_history s))"
  by (auto simp: history_wf_def distinct_conv_nth)

section \<open>Context-state deltas\<close>

definition apply_update :: "'a state_update \<Rightarrow> 'a option \<Rightarrow> 'a option" where
  "apply_update u old = (case u of Unchanged \<Rightarrow> old | SetTo x \<Rightarrow> Some x | Clear \<Rightarrow> None)"

definition apply_context_state_delta :: "context_state_delta \<Rightarrow> session \<Rightarrow> session" where
  "apply_context_state_delta d s =
     (let st = s_context_state s;
          removed = foldl (\<lambda>m k. m(k := None)) (cs_cleared st) (dl_cleared_remove d);
          cleared = foldl (\<lambda>m e. m(ct_tool_use_id e \<mapsto> e)) removed (dl_cleared d)
      in s\<lparr>s_context_state :=
          \<lparr>cs_active_checkpoint = apply_update (dl_active_checkpoint d) (cs_active_checkpoint st),
           cs_cleared = cleared,
           cs_prompt_snapshot = apply_update (dl_prompt_snapshot d) (cs_prompt_snapshot st),
           cs_context_epoch = (case dl_context_epoch d of None \<Rightarrow> cs_context_epoch st | Some e \<Rightarrow> e),
           cs_policy_fingerprint = (case dl_policy_fingerprint d of
              None \<Rightarrow> cs_policy_fingerprint st | Some f \<Rightarrow> Some f)\<rparr>\<rparr>)"

definition delta_default :: context_state_delta where
  "delta_default = \<lparr>dl_active_checkpoint = Unchanged, dl_cleared = [], dl_cleared_remove = [],
     dl_prompt_snapshot = Unchanged, dl_context_epoch = None, dl_policy_fingerprint = None\<rparr>"

lemma foldl_remove: "foldl (\<lambda>m k. m(k := None)) m ks = m |` (- set ks)"
  by (induction ks arbitrary: m) (auto simp: fun_eq_iff restrict_map_def)

lemma foldl_insert:
  "foldl (\<lambda>m e. m(f e \<mapsto> e)) m es k =
     (case find_first (\<lambda>e. f e = k) (rev es) of Some e \<Rightarrow> Some e | None \<Rightarrow> m k)"
proof (induction es arbitrary: m rule: rev_induct)
  case (snoc e es)
  then show ?case by simp
qed simp

lemma delta_cleared:
  "cs_cleared (s_context_state (apply_context_state_delta d s)) k =
     (case find_first (\<lambda>e. ct_tool_use_id e = k) (rev (dl_cleared d)) of
        Some e \<Rightarrow> Some e
      | None \<Rightarrow> (if k \<in> set (dl_cleared_remove d) then None else cs_cleared (s_context_state s) k))"
  by (simp add: apply_context_state_delta_def Let_def foldl_insert foldl_remove restrict_map_def
      split: option.splits)

lemma delta_frame [simp]:
  "s_history (apply_context_state_delta d s) = s_history s"
  "s_id (apply_context_state_delta d s) = s_id s"
  "s_message_namespace (apply_context_state_delta d s) = s_message_namespace s"
  "s_token_budget (apply_context_state_delta d s) = s_token_budget s"
  "s_tool_ctx (apply_context_state_delta d s) = s_tool_ctx s"
  "s_mode (apply_context_state_delta d s) = s_mode s"
  "s_config (apply_context_state_delta d s) = s_config s"
  by (simp_all add: apply_context_state_delta_def Let_def)

lemma delta_default_id: "apply_context_state_delta delta_default s = s"
  by (simp add: apply_context_state_delta_def delta_default_def apply_update_def Let_def)

section \<open>Token budget\<close>

definition available_total :: "token_budget \<Rightarrow> nat" where
  "available_total b =
     saturating_sub (saturating_sub (saturating_sub (saturating_sub (saturating_sub (saturating_sub
       (tb_model_limit b) (tb_reserved_output b)) (tb_used_system b)) (tb_used_history b))
       (tb_used_sources b)) (tb_used_tools b)) (tb_used_memory b)"

definition exhausted :: "token_budget \<Rightarrow> bool" where
  "exhausted b \<longleftrightarrow> available_total b < tb_minimum_turn_budget b"

definition record_usage :: "nat \<Rightarrow> nat \<Rightarrow> token_budget \<Rightarrow> token_budget" where
  "record_usage input_tokens output_tokens b =
     (let non_history = saturating_add (saturating_add (saturating_add
            (tb_used_system b) (tb_used_sources b)) (tb_used_tools b)) (tb_used_memory b)
      in b\<lparr>tb_used_history := saturating_sub input_tokens non_history\<rparr>)"

definition non_history_tokens :: "token_budget \<Rightarrow> nat" where
  "non_history_tokens b = tb_used_system b + tb_used_sources b + tb_used_tools b + tb_used_memory b"

lemma available_total_eq:
  "available_total b = tb_model_limit b - tb_reserved_output b - (non_history_tokens b + tb_used_history b)"
  by (simp add: available_total_def saturating_sub_def non_history_tokens_def)

lemma record_usage_history:
  assumes "non_history_tokens b \<le> usize_max"
  shows "tb_used_history (record_usage i out b) = i - non_history_tokens b"
  using assms
  by (simp add: record_usage_def saturating_add_def saturating_sub_def non_history_tokens_def)

lemma record_usage_fields [simp]:
  "tb_model_limit (record_usage i out b) = tb_model_limit b"
  "tb_reserved_output (record_usage i out b) = tb_reserved_output b"
  "tb_minimum_turn_budget (record_usage i out b) = tb_minimum_turn_budget b"
  "non_history_tokens (record_usage i out b) = non_history_tokens b"
  by (simp_all add: record_usage_def non_history_tokens_def Let_def)

lemma record_usage_available:
  assumes "non_history_tokens b \<le> usize_max"
  shows "available_total (record_usage i out b) =
    tb_model_limit b - tb_reserved_output b - max i (non_history_tokens b)"
  using record_usage_history [OF assms, of i out] by (auto simp: available_total_eq)

section \<open>Retention\<close>

definition conservative_default :: tool_retention where
  "conservative_default = \<lparr>clearable = False, reconstructible = False, retain_errors = True\<rparr>"

definition from_clearable :: "bool \<Rightarrow> bool \<Rightarrow> tool_retention" where
  "from_clearable idempotent cl =
     (if cl then \<lparr>clearable = True, reconstructible = idempotent, retain_errors = True\<rparr>
      else conservative_default)"

record retention_snapshot =
  rs_policies :: "canonical_tool_id \<rightharpoonup> tool_retention"
  rs_fingerprint :: string

text \<open>\<open>fingerprint\<close> stands for the SHA-256 of the serialised policies.\<close>

definition build_tool_retention_snapshot ::
    "((canonical_tool_id \<rightharpoonup> tool_retention) \<Rightarrow> string) \<Rightarrow> tool_descriptor list \<Rightarrow> retention_snapshot" where
  "build_tool_retention_snapshot fingerprint ds =
     (let policies = foldl (\<lambda>m d. m(td_id d \<mapsto>
            (case td_retention d of None \<Rightarrow> conservative_default | Some r \<Rightarrow> r))) Map.empty ds
      in \<lparr>rs_policies = policies, rs_fingerprint = fingerprint policies\<rparr>)"

lemma foldl_upd_dom: "dom (foldl (\<lambda>m d. m(f d \<mapsto> g d)) m ds) = dom m \<union> f ` set ds"
  by (induction ds arbitrary: m) auto

lemma foldl_upd_range:
  "foldl (\<lambda>m d. m(f d \<mapsto> g d)) m ds k = Some r \<Longrightarrow> m k = Some r \<or> (\<exists>d \<in> set ds. f d = k \<and> g d = r)"
  by (induction ds arbitrary: m) (fastforce split: if_splits)+

lemma retention_snapshot_dom:
  "dom (rs_policies (build_tool_retention_snapshot fp ds)) = td_id ` set ds"
  by (simp add: build_tool_retention_snapshot_def Let_def foldl_upd_dom)

lemma retention_snapshot_clearable:
  assumes "rs_policies (build_tool_retention_snapshot fp ds) k = Some r" "clearable r"
  shows "\<exists>d \<in> set ds. td_id d = k \<and> td_retention d = Some r"
proof -
  obtain d where "d \<in> set ds" "td_id d = k"
    "(case td_retention d of None \<Rightarrow> conservative_default | Some r \<Rightarrow> r) = r"
    using foldl_upd_range [OF assms(1) [unfolded build_tool_retention_snapshot_def Let_def, simplified]]
    by auto
  then show ?thesis using assms(2)
    by (auto simp: conservative_default_def split: option.splits)
qed

section \<open>Projected history\<close>

datatype projected_item =
    ItCanonical message_id nat message
  | ItCheckpoint compaction_checkpoint_ref history_range message
  | ItTombstone message_id nat message

fun item_message :: "projected_item \<Rightarrow> message" where
  "item_message (ItCanonical _ _ m) = m"
| "item_message (ItCheckpoint _ _ m) = m"
| "item_message (ItTombstone _ _ m) = m"

fun to_session_message :: "string \<Rightarrow> projected_item \<Rightarrow> session_message" where
  "to_session_message sid (ItCanonical i _ m) = \<lparr>sm_id = i, sm_message = m, sm_metadata = None\<rparr>"
| "to_session_message sid (ItTombstone i _ m) = \<lparr>sm_id = i, sm_message = m, sm_metadata = None\<rparr>"
| "to_session_message sid (ItCheckpoint c _ m) =
     \<lparr>sm_id = \<lparr>mi_session = sid, mi_namespace = ''checkpoint:'' @ cc_checkpoint_id c,
        mi_sequence = hr_end (cc_source_range c)\<rparr>, sm_message = m, sm_metadata = None\<rparr>"

definition to_session_messages :: "string \<Rightarrow> projected_item list \<Rightarrow> session_message list" where
  "to_session_messages sid items = map (to_session_message sid) items"

fun item_start :: "projected_item \<Rightarrow> nat" where
  "item_start (ItCanonical _ i _) = i"
| "item_start (ItTombstone _ i _) = i"
| "item_start (ItCheckpoint _ r _) = hr_start r"

fun item_end :: "projected_item \<Rightarrow> nat" where
  "item_end (ItCanonical _ i _) = i + 1"
| "item_end (ItTombstone _ i _) = i + 1"
| "item_end (ItCheckpoint _ r _) = hr_end r"

text \<open>\<open>None\<close> where an index is out of bounds and the code panics (also \<open>0 - 1\<close>).\<close>

definition map_projected_range :: "projected_item list \<Rightarrow> history_range \<Rightarrow> history_range option" where
  "map_projected_range items r =
     (if hr_start r < length items \<and> 0 < hr_end r \<and> hr_end r - 1 < length items
      then Some \<lparr>hr_start = item_start (items ! hr_start r), hr_end = item_end (items ! (hr_end r - 1))\<rparr>
      else None)"

text \<open>A projection is contiguous when the items cover canonical indices without gaps.\<close>

fun contiguous :: "nat \<Rightarrow> projected_item list \<Rightarrow> bool" where
  "contiguous n [] = True"
| "contiguous n (x # xs) = (item_start x = n \<and> n < item_end x \<and> contiguous (item_end x) xs)"

lemma contiguous_order:
  "contiguous n xs \<Longrightarrow> i \<le> j \<Longrightarrow> j < length xs \<Longrightarrow>
     item_start (xs ! i) < item_end (xs ! j) \<and> n \<le> item_start (xs ! i)"
proof (induction xs arbitrary: n i j)
  case (Cons x xs)
  show ?case
  proof (cases i)
    case 0
    show ?thesis
    proof (cases j)
      case (Suc k)
      then have "item_start (xs ! 0) < item_end (xs ! k) \<and> item_end x \<le> item_start (xs ! 0)"
        using Cons.prems by (intro Cons.IH) auto
      then show ?thesis using 0 Suc Cons.prems by auto
    qed (use 0 Cons.prems in auto)
  next
    case (Suc k)
    then obtain l where "j = Suc l" using Cons.prems by (cases j) auto
    then have "item_start (xs ! k) < item_end (xs ! l) \<and> item_end x \<le> item_start (xs ! k)"
      using Suc Cons.prems by (intro Cons.IH) auto
    then show ?thesis using Suc \<open>j = Suc l\<close> Cons.prems by auto
  qed
qed simp

lemma map_projected_range_nonempty:
  assumes "contiguous n items" "hr_start r < hr_end r" "hr_end r \<le> length items"
  shows "\<exists>c. map_projected_range items r = Some c \<and> hr_start c < hr_end c \<and> n \<le> hr_start c"
  using assms contiguous_order [of n items "hr_start r" "hr_end r - 1"]
  by (auto simp: map_projected_range_def)

section \<open>A sample session\<close>

definition sample_session :: session where
  "sample_session = session_new ''n'' ''s''
     \<lparr>sc_model = [], sc_provider = [], sc_max_tokens = 0, sc_temperature = None, sc_max_turns = 2,
      sc_top_p = None, sc_reasoning_effort = None, sc_text_verbosity = None, sc_metadata = VNull,
      sc_resolved_model = None\<rparr>
     \<lparr>tb_model_limit = 100, tb_reserved_output = 0, tb_used_system = 0, tb_used_history = 0,
      tb_used_sources = 0, tb_used_tools = 0, tb_used_memory = 0, tb_minimum_turn_budget = 0\<rparr>
     \<lparr>tc_working_dir = ''/w'', tc_workspace_root = None, tc_timeout_secs = 5, tc_allow_network = False,
      tc_environment = Map.empty, tc_max_output_bytes = 0, tc_artifact_dir = None,
      tc_current_tool_call_id = None, tc_ignore_patterns = []\<rparr>
     ModeConfirm
     \<lparr>ws_workspace_root = [], ws_git_sha = None, ws_git_dirty = None, ws_untracked_count = None,
      ws_content_hash = [], ws_captured_at = []\<rparr>"

section \<open>Properties\<close>

text \<open>Appending a message to a well-formed history (ids of this session, numbered from zero
  without gaps) keeps it well-formed, adds exactly that message at the end under the id it
  returns, which no earlier message has, and leaves the rest of the session alone.\<close>

theorem append_message_correct:
  assumes "history_wf s"
  shows "history_wf (fst (append_message m s)) \<and>
    messages_of (fst (append_message m s)) = messages_of s @ [m] \<and>
    distinct (map sm_id (s_history (fst (append_message m s)))) \<and>
    sm_id (last (s_history (fst (append_message m s)))) = snd (append_message m s) \<and>
    (fst (append_message m s))\<lparr>s_history := s_history s\<rparr> = s"
  using history_wf_append [OF assms] history_wf_ids_distinct [OF history_wf_append [OF assms]]
  by (simp add: append_message_def messages_of_def Let_def)

theorem append_message_correct_witness:
  "map sm_id (s_history (fst (append_message (MUser [] None) sample_session))) =
     [\<lparr>mi_session = ''s'', mi_namespace = ''n'', mi_sequence = 0\<rparr>] \<and>
   history_wf (fst (append_message (MUser [] None) sample_session))"
proof -
  have wf: "history_wf sample_session" unfolding sample_session_def by (rule history_wf_new)
  show ?thesis using append_message_correct [OF wf, of "MUser [] None"]
    by (simp add: append_message_def Let_def sample_session_def session_new_def next_message_id_def)
qed

text \<open>After a context-state delta, the entry of a cleared tool result is the last one the
  delta adds for it; else it is gone if the delta removes it, and unchanged otherwise:
  removals apply before additions.\<close>

theorem delta_cleared_results:
  "cs_cleared (s_context_state (apply_context_state_delta d s)) k =
     (case find_first (\<lambda>e. ct_tool_use_id e = k) (rev (dl_cleared d)) of
        Some e \<Rightarrow> Some e
      | None \<Rightarrow> (if k \<in> set (dl_cleared_remove d) then None else cs_cleared (s_context_state s) k))"
  by (rule delta_cleared)

text \<open>Recording a provider's usage makes the tokens used as a whole exactly the reported
  input, unless the parts other than history already exceed it: what stays available is the
  limit less the reserve and the larger of the two. The provider's output tokens do not count.\<close>

theorem usage_sets_available:
  assumes "non_history_tokens b \<le> usize_max"
  shows "available_total (record_usage input_tokens output_tokens b) =
    tb_model_limit b - tb_reserved_output b - max input_tokens (non_history_tokens b)"
  by (rule record_usage_available [OF assms])

theorem usage_sets_available_witness:
  "available_total (record_usage 700 50 \<lparr>tb_model_limit = 1000, tb_reserved_output = 100, tb_used_system = 10,
     tb_used_history = 0, tb_used_sources = 20, tb_used_tools = 30, tb_used_memory = 0,
     tb_minimum_turn_budget = 0\<rparr>) = 200"
  by (subst usage_sets_available) (simp_all add: non_history_tokens_def usize_max_def)

lemma contiguous_item: "contiguous n xs \<Longrightarrow> k < length xs \<Longrightarrow> item_start (xs ! k) < item_end (xs ! k)"
  using contiguous_order [of n xs k k] by simp

lemma contiguous_next:
  "contiguous n xs \<Longrightarrow> Suc k < length xs \<Longrightarrow> item_start (xs ! Suc k) = item_end (xs ! k)"
proof (induction xs arbitrary: n k)
  case (Cons x xs)
  show ?case
  proof (cases k)
    case 0
    then show ?thesis using Cons.prems by (cases xs) auto
  next
    case (Suc l)
    then show ?thesis using Cons.IH [of "item_end x" l] Cons.prems by simp
  qed
qed simp

text \<open>The canonical indices an item stands for.\<close>

definition item_covers :: "projected_item \<Rightarrow> nat set" where
  "item_covers x = {item_start x ..< item_end x}"

lemma contiguous_union:
  assumes "contiguous n xs" "i \<le> j" "j < length xs"
  shows "(\<Union>k \<in> {i..j}. item_covers (xs ! k)) = {item_start (xs ! i) ..< item_end (xs ! j)}"
  using assms(2,3)
proof (induction j rule: dec_induct)
  case (step j)
  have "{i..Suc j} = insert (Suc j) {i..j}" using step(1) by auto
  then have "(\<Union>k \<in> {i..Suc j}. item_covers (xs ! k)) =
      item_covers (xs ! Suc j) \<union> {item_start (xs ! i) ..< item_end (xs ! j)}"
    using step by simp
  moreover have "item_start (xs ! Suc j) = item_end (xs ! j)"
    using contiguous_next [OF assms(1)] step(4) by simp
  moreover have "item_start (xs ! i) < item_end (xs ! j)" "item_start (xs ! Suc j) < item_end (xs ! Suc j)"
    using contiguous_order [OF assms(1), of i j] contiguous_item [OF assms(1)] step by simp_all
  ultimately show ?case by (auto simp: item_covers_def)
qed (simp add: item_covers_def)

text \<open>Mapping a non-empty range of a contiguous projection back to the canonical history stays
  in bounds and gives exactly the canonical messages that the items of the range stand for:
  those of its canonical items and tombstones and all those its checkpoints summarise.\<close>

theorem projected_range_maps_back:
  assumes "contiguous n items" "hr_start r < hr_end r" "hr_end r \<le> length items"
  shows "\<exists>c. map_projected_range items r = Some c \<and>
    (\<Union>k \<in> {hr_start r ..< hr_end r}. item_covers (items ! k)) = {hr_start c ..< hr_end c}"
proof -
  have "{hr_start r ..< hr_end r} = {hr_start r .. hr_end r - 1}" using assms(2) by auto
  then show ?thesis using assms contiguous_union [OF assms(1), of "hr_start r" "hr_end r - 1"]
    by (simp add: map_projected_range_def)
qed

theorem projected_range_maps_back_witness:
  "let i = \<lparr>mi_session = [], mi_namespace = [], mi_sequence = 0\<rparr>;
       ck = \<lparr>cc_checkpoint_id = [], cc_source_range = \<lparr>hr_start = 0, hr_end = 5\<rparr>, cc_source_hash = [],
              cc_artifact = None\<rparr>;
       items = [ItCheckpoint ck \<lparr>hr_start = 0, hr_end = 5\<rparr> (MAssistant []), ItTombstone i 5 (MAssistant []),
              ItCanonical i 6 (MAssistant [])]
   in \<exists>c. map_projected_range items \<lparr>hr_start = 0, hr_end = 2\<rparr> = Some c \<and>
        (\<Union>k \<in> {0 ..< 2}. item_covers (items ! k)) = {hr_start c ..< hr_end c}"
  unfolding Let_def
  using projected_range_maps_back [where n = 0 and r = "\<lparr>hr_start = 0, hr_end = 2\<rparr>", unfolded history_range.simps]
  by simp

end
