(* ===== verification/Tool_Runtime.thy ===== *)
theory Tool_Runtime
  imports Session
begin

text \<open>
  What running a tool yields (\<open>gestalt-core/src/tool.rs\<close>, lines 94 to 300): outputs,
  execution results and their constructors, artifact file names, and the check that a shell
  command is one of the audited local ones. The lemmas: a failure result always carries its
  report and renders it, an artifact stem is one path component, and an audited command has
  no shell metacharacter and starts with an allowed program.
\<close>

section \<open>Results\<close>

datatype tool_output =
    OutText string
  | OutJson json
  | OutArtifact string string nat

record tool_artifact =
  ta_path :: string
  ta_mime_type :: string
  ta_size_bytes :: nat

record tool_execution_result =
  xr_content :: string
  xr_is_error :: bool
  xr_artifact :: "tool_artifact option"
  xr_truncated :: bool
  xr_original_bytes :: "nat option"
  xr_output_hash :: "string option"
  xr_metadata :: json
  xr_failure :: "tool_error_report option"
  xr_tool_name :: "string option"

definition error_with_failure :: "tool_error_report \<Rightarrow> tool_execution_result" where
  "error_with_failure failure =
     (let rendered = render_for_model failure
      in \<lparr>xr_content = rendered, xr_is_error = True, xr_artifact = None, xr_truncated = False,
          xr_original_bytes = None, xr_output_hash = None, xr_metadata = VNull,
          xr_failure = Some failure, xr_tool_name = None\<rparr>)"

definition result_error :: "string \<Rightarrow> tool_execution_result" where
  "result_error message =
     (let failure = error_report FailExecutionFailed message;
          rendered = render_for_model failure
      in \<lparr>xr_content = rendered, xr_is_error = True, xr_artifact = None, xr_truncated = False,
          xr_original_bytes = None, xr_output_hash = None, xr_metadata = VNull,
          xr_failure = Some failure, xr_tool_name = None\<rparr>)"

definition result_success :: "string \<Rightarrow> tool_execution_result" where
  "result_success content =
     \<lparr>xr_content = content, xr_is_error = False, xr_artifact = None, xr_truncated = False,
      xr_original_bytes = None, xr_output_hash = None, xr_metadata = VNull,
      xr_failure = None, xr_tool_name = None\<rparr>"

lemma error_with_failure_fields [simp]:
  "xr_is_error (error_with_failure r)"
  "xr_failure (error_with_failure r) = Some r"
  "xr_content (error_with_failure r) = render_for_model r"
  "xr_artifact (error_with_failure r) = None"
  by (simp_all add: error_with_failure_def Let_def)

lemma result_error_as_failure:
  "result_error m = error_with_failure (error_report FailExecutionFailed m)"
  by (simp add: result_error_def error_with_failure_def Let_def)

section \<open>Artifact names\<close>

text \<open>\<open>sha256\<close> stands for the hex digest of the \<open>sha2\<close> crate; \<open>&digest[..12]\<close> panics on
  a shorter digest, which the lemma below excludes by its hypothesis.\<close>

definition stem_char :: "char \<Rightarrow> char" where
  "stem_char ch = (if is_ascii_alphanumeric ch \<or> ch = CHR ''-'' \<or> ch = CHR ''_'' then ch else CHR ''_'')"

definition sanitize_artifact_stem :: "(string \<Rightarrow> string) \<Rightarrow> string \<Rightarrow> string" where
  "sanitize_artifact_stem sha256 tool_call_id =
     (let stem = trim_matches (\<lambda>c. c = CHR ''_'') (map stem_char tool_call_id);
          digest = sha256 tool_call_id;
          prefix = (if stem = [] then ''tool-call'' else take 24 stem)
      in prefix @ ''-'' @ take 12 digest)"

text \<open>\<open>Path::join\<close> on the displayed paths: an absolute path replaces, otherwise one
  separator is put between the two.\<close>

definition path_join :: "string \<Rightarrow> string \<Rightarrow> string" where
  "path_join dir p = (if starts_with p ''/'' then p
     else if dir = [] \<or> ends_with dir ''/'' then dir @ p
     else dir @ ''/'' @ p)"

definition artifact_path :: "(string \<Rightarrow> string) \<Rightarrow> string \<Rightarrow> string \<Rightarrow> string \<Rightarrow> string" where
  "artifact_path sha256 artifact_dir tool_call_id sfx =
     path_join artifact_dir (sanitize_artifact_stem sha256 tool_call_id @ sfx)"

lemma set_trim_matches: "set (trim_matches p s) \<subseteq> set s"
  by (auto simp: trim_matches_def dest!: set_dropWhileD)

lemma sanitize_artifact_stem_chars:
  assumes "set (sha256 i) \<subseteq> {c. is_ascii_alphanumeric c}" "c \<in> set (sanitize_artifact_stem sha256 i)"
  shows "is_ascii_alphanumeric c \<or> c = CHR ''-'' \<or> c = CHR ''_''"
proof -
  have m: "d \<in> set (map stem_char i) \<Longrightarrow> is_ascii_alphanumeric d \<or> d = CHR ''-'' \<or> d = CHR ''_''" for d
    by (auto simp: stem_char_def)
  have t: "d \<in> set (take 24 (trim_matches p (map stem_char i))) \<Longrightarrow> d \<in> set (map stem_char i)" for d p
    using set_trim_matches [of p "map stem_char i"] by (meson in_set_takeD subsetD)
  have l: "d \<in> set ''tool-call'' \<Longrightarrow> is_ascii_alphanumeric d \<or> d = CHR ''-''" for d
    by (auto simp: is_ascii_alphanumeric_def Let_def)
  have h: "d \<in> set (take 12 (sha256 i)) \<Longrightarrow> is_ascii_alphanumeric d" for d
    using assms(1) by (meson in_set_takeD mem_Collect_eq subsetD)
  from assms(2) consider "c \<in> set (take 24 (trim_matches (\<lambda>c. c = CHR ''_'') (map stem_char i)))"
    | "c \<in> set ''tool-call''" | "c = CHR ''-''" | "c \<in> set (take 12 (sha256 i))"
    unfolding sanitize_artifact_stem_def Let_def by (simp only: set_append Un_iff list.set(2) append_Cons append_Nil insert_iff split: if_splits, blast+)
  then show ?thesis
    by cases (use m t l h in blast)+
qed

lemma sanitize_artifact_stem_length:
  assumes "length (sha256 i) = 64"
  shows "14 \<le> length (sanitize_artifact_stem sha256 i) \<and> length (sanitize_artifact_stem sha256 i) \<le> 37"
proof -
  have "0 < length (take 24 s) \<and> length (take 24 s) \<le> 24" if "s \<noteq> []" for s :: string
    using that by simp
  then show ?thesis using assms by (auto simp: sanitize_artifact_stem_def Let_def Suc_le_eq)
qed

section \<open>Audited commands\<close>

definition is_metacharacter :: "char \<Rightarrow> bool" where
  "is_metacharacter ch \<longleftrightarrow> ch \<in> set ''><|&;`$'' \<or> ch = CHR 0x5C \<or> ch = CHR 0x0A \<or> ch = CHR 0x0D"

definition contains_shell_metacharacters :: "string \<Rightarrow> bool" where
  "contains_shell_metacharacters command \<longleftrightarrow> list_ex is_metacharacter command"

definition local_prefixes :: "string list" where
  "local_prefixes = [''cargo test'', ''cargo check'', ''cargo build'', ''ls'', ''grep'', ''rg'',
     ''find'', ''cat'', ''git status'', ''git diff'', ''pwd'', ''echo'', ''printf'', ''git show'',
     ''git log'', ''sleep'']"

definition strip_shell :: "string \<Rightarrow> string" where
  "strip_shell normalized =
     (if starts_with normalized ''bash -lc '' then drop (length ''bash -lc '') normalized
      else if starts_with normalized ''bash -c '' then drop (length ''bash -c '') normalized
      else if starts_with normalized ''sh -c '' then drop (length ''sh -c '') normalized
      else normalized)"

definition command_to_check :: "string \<Rightarrow> string" where
  "command_to_check command =
     (let normalized = join '' '' (split_whitespace command);
          trimmed = trim_matches (\<lambda>c. c = CHR 0x27 \<or> c = CHR 0x22) (strip_shell normalized)
      in join '' '' (split_whitespace trimmed))"

definition is_audited_local_command :: "string \<Rightarrow> bool" where
  "is_audited_local_command command =
     (let normalized_trimmed = command_to_check command
      in if contains_shell_metacharacters normalized_trimmed
            \<or> str_contains normalized_trimmed ''/dev/tcp''
            \<or> str_contains normalized_trimmed ''/dev/udp''
         then False
         else list_ex (\<lambda>prefix. normalized_trimmed = prefix \<or> starts_with normalized_trimmed (prefix @ '' ''))
                local_prefixes)"

lemma audited_command_shape:
  "is_audited_local_command cmd \<longleftrightarrow>
     (\<forall>c \<in> set (command_to_check cmd). \<not> is_metacharacter c) \<and>
     \<not> str_contains (command_to_check cmd) ''/dev/tcp'' \<and>
     \<not> str_contains (command_to_check cmd) ''/dev/udp'' \<and>
     (\<exists>p \<in> set local_prefixes. command_to_check cmd = p \<or> (\<exists>args. command_to_check cmd = p @ '' '' @ args))"
  unfolding is_audited_local_command_def Let_def contains_shell_metacharacters_def
    list_ex_iff starts_with_iff append_assoc by auto

section \<open>Properties\<close>

text \<open>The stem of an artifact's file name is a plain name whatever the tool call id contains:
  14 to 37 letters, digits, hyphens and underscores, so no separator or dot of the id can
  lead out of the artifact directory. (The digest is SHA-256 in hexadecimal.)\<close>

theorem artifact_stem_safe:
  assumes "length (sha256 i) = 64" "set (sha256 i) \<subseteq> {c. is_ascii_alphanumeric c}"
  shows "14 \<le> length (sanitize_artifact_stem sha256 i) \<and>
    length (sanitize_artifact_stem sha256 i) \<le> 37 \<and>
    set (sanitize_artifact_stem sha256 i) \<subseteq> {c. is_ascii_alphanumeric c} \<union> {CHR ''-'', CHR ''_''}"
  using sanitize_artifact_stem_length [where ?sha256.0 = sha256, OF assms(1)]
    sanitize_artifact_stem_chars [where ?sha256.0 = sha256, OF assms(2)] by blast

theorem artifact_stem_safe_witness:
  "set (sanitize_artifact_stem (\<lambda>_. replicate 64 CHR ''a'') ''../../etc'') \<subseteq>
     {c. is_ascii_alphanumeric c} \<union> {CHR ''-'', CHR ''_''}"
  using artifact_stem_safe [of "\<lambda>_. replicate 64 CHR ''a''" "''../../etc''"]
  by (simp add: is_ascii_alphanumeric_def)

text \<open>Without network access a command runs only if, after removing a shell wrapper and its
  quotes, it contains no shell metacharacter and no \<open>/dev/tcp\<close> or \<open>/dev/udp\<close> and is one of
  the listed local commands, alone or followed by a space and its arguments.\<close>

theorem audited_command_iff:
  "is_audited_local_command cmd \<longleftrightarrow>
     \<not> list_ex is_metacharacter (command_to_check cmd) \<and>
     \<not> str_contains (command_to_check cmd) ''/dev/tcp'' \<and>
     \<not> str_contains (command_to_check cmd) ''/dev/udp'' \<and>
     (\<exists>p args. p \<in> set local_prefixes \<and> command_to_check cmd \<in> {p, p @ '' '' @ args})"
  by (auto simp: audited_command_shape list_ex_iff)

text \<open>The audit of local commands does not keep a command off the network: \<open>find\<close> is on the
  list, and its \<open>-exec\<close> needs no shell metacharacter.\<close>

theorem audited_command_reaches_network:
  "is_audited_local_command ''find . -maxdepth 0 -exec curl http://example.com {} +''"
  by code_simp

end
