(* ===== verification/Events.thy ===== *)
theory Events
  imports Core_Types
begin

text \<open>
  The agent events (\<open>gestalt-core/src/event.rs\<close>), one constructor per variant with the
  fields in the order of the source, and the effect discipline of the loop: every operation
  may append events to the log, consults the environment, and stops at the first error.
\<close>

section \<open>Events\<close>

text \<open>
  The variants the core crate neither emits nor inspects: the runtime around it emits them
  (context assembly, memory, snapshots), and hooks may return them. They are constructors
  of their own type, carried by \<open>EvAux\<close>, so that \<open>aux_event\<close> and \<open>agent_event\<close>
  together are the variants of the source's enum.
\<close>

datatype (plugins only: code size) aux_event =
    AuxRunStarted resolved_model_snapshot
  | AuxUserMessage string
  | AuxPromptSnapshotCreated string string nat
  | AuxPromptSnapshotLoaded string string
  | AuxPromptSnapshotReused string string
  | AuxPromptCachePlanGenerated string string nat
  | AuxEphemeralContextInjected string nat
  | AuxMemoryProposal string
  | AuxWorkspaceSnapshotCaptured string bool
  | AuxInterrupted string
  | AuxContextContributorResolved string string
  | AuxWorkspaceContextLoaded string nat nat
  | AuxWorkspaceContextSkipped string
  | AuxWorkspaceContextRejected string
  | AuxWorkspaceContextLoadFailed string
  | AuxMemoryContextLoadFailed string
  | AuxMemoryContextLoaded string nat nat string
  | AuxMemoryContextSkipped string
  | AuxMemoryContextRejected string
  | AuxMemoryEntriesSelected nat nat nat
  | AuxContextSnapshotCreated string
  | AuxMemoryProposalCreated string string nat
  | AuxMemoryProposalDecisionRecorded string string "string list"
  | AuxMemoryWriteSucceeded string nat
  | AuxMemoryWriteConflict string string string
  | AuxMemoryWriteFailed string string
  | AuxContextPressure nat nat
  | AuxContextClearing nat nat
  | AuxContextCompactionStarted history_range history_range
  | AuxContextCompacted string history_range history_range
  | AuxContextManagementFailed string
  | AuxContextExhaustion string

datatype (plugins only: code size) agent_event =
    EvContextBuilt string nat "string option" "context_source_ref list option"
      "context_omission list option" "string option"
  | EvModelRequest string string "string option" "f32 option" "nat option" "string option"
  | EvText string
  | EvThinking string
  | EvToolCallStreamed string string string
  | EvToolCallProposed string string json
  | EvPolicyDecision string "string option" "string option" "risk_level option"
      "execution_mode option" "string option" policy_status "string option" string
  | EvApprovalDecision string approval_outcome string "string option" "session_grant option"
  | EvToolResult string string bool bool "string option" "string option" "nat option"
      "string option" "string list option" "string option" "tool_error_report option"
  | EvArtifactCreated string nat string string
  | EvPolicyViolation string string string
  | EvVerificationResult verification_status nat nat "string option" "verification_finding list option"
  | EvUsage nat nat
  | EvStop stop_reason
  | EvError string bool
  | EvCheckpoint "session_message list" context_projection_state token_budget "string option"
      "string option" "string option"
  | EvAssistantMessageCommitted message
  | EvContextBuildStarted
  | EvContextBuildFailed string
  | EvModelResponseStarted string
  | EvModelResponseStreamCompleted string
  | EvModelResponseStreamFailed string string
  | EvModelResponseStreamInterrupted string
  | EvPolicyEvaluationStarted string
  | EvPolicyEvaluationFailed string string
  | EvPolicyEvaluationCancelled string
  | EvApprovalRequested string string json risk_level
  | EvApprovalCancelled string
  | EvToolExecutionStarted string string string string string "string option" bool
  | EvHookStarted string string
  | EvHookCompleted string string
  | EvHookFailed string string string
  | EvToolCatalogSelected "tool_name_mapping list"
  | EvToolCallValidationFailed string string tool_error_report
  | EvToolRetryAttempt string nat string nat
  | EvNextTurnOverrideRequested string "string option" "string option"
  | EvNextTurnBlocked string
  | EvSessionMessageInjected queued_session_message
  | EvSessionMessageQueueDrained nat
  | EvAux aux_event

end
