(* ===== verification/Turn.thy ===== *)
theory Turn
  imports Session Events
begin

text \<open>
  The assistant turn and its accumulator (\<open>gestalt-core/src/turn.rs\<close>). Stream events are
  folded into text, thinking and pending tool calls; \<open>finish\<close> parses the calls.
  \<open>parse\<close> stands for \<open>serde_json::from_str\<close>, with the error's text on failure. The
  lemmas: the accumulator's order list and its map agree, \<open>finish\<close> never reports a
  missing call, a call's input is the concatenation of its deltas, calls come out in
  first-seen order, and a streamed id is proposed at most once.
\<close>

type_synonym json_parser = "string \<Rightarrow> string + json"

record assistant_turn =
  at_text_deltas :: "string list"
  at_thinking_deltas :: "string list"
  at_tool_calls :: "proposed_tool_call list"

definition full_text :: "assistant_turn \<Rightarrow> string" where
  "full_text t = concat (at_text_deltas t)"

definition into_message :: "assistant_turn \<Rightarrow> message" where
  "into_message t =
     (let txt = full_text t;
          thinking = concat (at_thinking_deltas t)
      in MAssistant
          ((if txt = [] then [] else [CbText txt]) @
           (if thinking = [] then [] else [CbThinking thinking]) @
           map (\<lambda>c. CbToolUse (pc_id c) (pc_name c) (pc_input c)) (at_tool_calls t)))"

definition has_tool_calls :: "assistant_turn \<Rightarrow> bool" where
  "has_tool_calls t \<longleftrightarrow> at_tool_calls t \<noteq> []"

record pending_tool_call =
  pd_name :: string
  pd_input :: string

record turn_accumulator =
  ta_text :: "string list"
  ta_thinking :: "string list"
  ta_pending :: "string \<rightharpoonup> pending_tool_call"
  ta_order :: "string list"
  ta_proposed :: "string set"

definition acc_default :: turn_accumulator where
  "acc_default = \<lparr>ta_text = [], ta_thinking = [], ta_pending = Map.empty, ta_order = [], ta_proposed = {}\<rparr>"

text \<open>\<open>record\<close>: the fallible signature never fails.\<close>

definition acc_record :: "agent_event \<Rightarrow> turn_accumulator \<Rightarrow> turn_accumulator" where
  "acc_record ev a = (case ev of
       EvText delta \<Rightarrow> a\<lparr>ta_text := ta_text a @ [delta]\<rparr>
     | EvThinking delta \<Rightarrow> a\<lparr>ta_thinking := ta_thinking a @ [delta]\<rparr>
     | EvToolCallStreamed i nm input_delta \<Rightarrow>
         (let (entry, order) = (case ta_pending a i of
                 Some p \<Rightarrow> (p, ta_order a)
               | None \<Rightarrow> (\<lparr>pd_name = nm, pd_input = []\<rparr>, ta_order a @ [i]));
              named = (if nm \<noteq> [] \<and> pd_name entry = [] then entry\<lparr>pd_name := nm\<rparr> else entry);
              filled = named\<lparr>pd_input := pd_input named @ input_delta\<rparr>
          in a\<lparr>ta_pending := (ta_pending a)(i \<mapsto> filled), ta_order := order\<rparr>)
     | _ \<Rightarrow> a)"

definition acc_push :: "json_parser \<Rightarrow> agent_event \<Rightarrow> turn_accumulator \<Rightarrow> agent_event list \<times> turn_accumulator" where
  "acc_push parse ev a =
     (let a1 = acc_record ev a
      in case ev of
           EvToolCallStreamed i nm d \<Rightarrow>
             (if i \<in> ta_proposed a1 then ([], a1)
              else case ta_pending a1 i of
                  None \<Rightarrow> ([], a1)
                | Some p \<Rightarrow>
                    (if pd_name p = [] then ([], a1)
                     else let trimmed = trim (pd_input p)
                       in if starts_with trimmed ''{'' \<and> ends_with trimmed ''}'' then
                            (case parse trimmed of
                               Inr v \<Rightarrow> ([EvToolCallProposed i (pd_name p) v],
                                          a1\<lparr>ta_proposed := insert i (ta_proposed a1)\<rparr>)
                             | Inl e \<Rightarrow> ([], a1))
                          else ([], a1)))
         | other \<Rightarrow> ([other], a1))"

fun finish_calls :: "json_parser \<Rightarrow> (string \<rightharpoonup> pending_tool_call) \<Rightarrow> string list
    \<Rightarrow> harness_error + proposed_tool_call list" where
  "finish_calls parse pending [] = Inr []"
| "finish_calls parse pending (i # is) =
     (case pending i of
        None \<Rightarrow> Inl (HProvider (UnexpectedResponse (''missing accumulated tool call: '' @ i)))
      | Some p \<Rightarrow>
          (case (if trim (pd_input p) = [] then Inr (VObject []) else parse (pd_input p)) of
             Inl err \<Rightarrow> Inl (HProvider (MalformedToolCall
                 (''invalid tool call input for '' @ i @ '': '' @ err)))
           | Inr input \<Rightarrow>
               (case finish_calls parse pending is of
                  Inl e \<Rightarrow> Inl e
                | Inr calls \<Rightarrow> Inr (\<lparr>pc_id = i, pc_name = pd_name p, pc_input = input\<rparr> # calls))))"

definition acc_finish :: "json_parser \<Rightarrow> turn_accumulator \<Rightarrow> harness_error + assistant_turn" where
  "acc_finish parse a = (case finish_calls parse (ta_pending a) (ta_order a) of
       Inl e \<Rightarrow> Inl e
     | Inr calls \<Rightarrow> Inr \<lparr>at_text_deltas = ta_text a, at_thinking_deltas = ta_thinking a,
         at_tool_calls = calls\<rparr>)"

text \<open>Pushing a whole stream: the emitted events and the accumulator at its end.\<close>

fun push_all :: "json_parser \<Rightarrow> agent_event list \<Rightarrow> turn_accumulator \<Rightarrow> agent_event list \<times> turn_accumulator" where
  "push_all parse [] a = ([], a)"
| "push_all parse (ev # evs) a =
     (case acc_push parse ev a of (out, a1) \<Rightarrow>
        (case push_all parse evs a1 of (outs, a2) \<Rightarrow> (out @ outs, a2)))"

section \<open>Stream events\<close>

text \<open>What a stream event is to the accumulator: a case analysis over the four shapes the
  code distinguishes, and the equations for each.\<close>

definition plain_event :: "agent_event \<Rightarrow> bool" where
  "plain_event ev = (case ev of EvText d \<Rightarrow> False | EvThinking d \<Rightarrow> False
     | EvToolCallStreamed i nm d \<Rightarrow> False | _ \<Rightarrow> True)"

lemma stream_event_cases:
  obtains (delta) d where "ev = EvText d"
  | (thinking) d where "ev = EvThinking d"
  | (call) i nm d where "ev = EvToolCallStreamed i nm d"
  | (plain) "plain_event ev"
  by (cases ev) (auto simp: plain_event_def)

lemma acc_plain: "plain_event ev \<Longrightarrow> acc_record ev a = a"
  by (cases ev) (simp_all add: plain_event_def acc_record_def)

lemma acc_push_not_call:
  "\<forall>i nm d. ev \<noteq> EvToolCallStreamed i nm d \<Longrightarrow> acc_push parse ev a = ([ev], acc_record ev a)"
  by (cases ev) (simp_all add: acc_push_def Let_def)

lemma acc_push_plain: "plain_event ev \<Longrightarrow> acc_push parse ev a = ([ev], a)"
  by (subst acc_push_not_call) (auto simp: acc_plain plain_event_def)

lemma acc_push_text [simp]: "acc_push parse (EvText d) a = ([EvText d], acc_record (EvText d) a)"
  "acc_push parse (EvThinking d) a = ([EvThinking d], acc_record (EvThinking d) a)"
  by (simp_all add: acc_push_not_call)

lemma acc_record_text [simp]:
  "acc_record (EvText d) a = a\<lparr>ta_text := ta_text a @ [d]\<rparr>"
  "acc_record (EvThinking d) a = a\<lparr>ta_thinking := ta_thinking a @ [d]\<rparr>"
  by (simp_all add: acc_record_def)

section \<open>Well-formed accumulators\<close>

definition acc_wf :: "turn_accumulator \<Rightarrow> bool" where
  "acc_wf a \<longleftrightarrow> distinct (ta_order a) \<and> set (ta_order a) = dom (ta_pending a) \<and>
     ta_proposed a \<subseteq> dom (ta_pending a)"

definition pending_input :: "turn_accumulator \<Rightarrow> string \<Rightarrow> string" where
  "pending_input a i = (case ta_pending a i of None \<Rightarrow> [] | Some p \<Rightarrow> pd_input p)"

text \<open>Appending an id not yet present.\<close>

definition add_new :: "string list \<Rightarrow> string \<Rightarrow> string list" where
  "add_new xs i = (if i \<in> set xs then xs else xs @ [i])"

lemma acc_wf_default: "acc_wf acc_default"
  by (simp add: acc_wf_def acc_default_def)

lemma acc_record_call:
  "ta_text (acc_record (EvToolCallStreamed i nm d) a) = ta_text a"
  "ta_thinking (acc_record (EvToolCallStreamed i nm d) a) = ta_thinking a"
  "ta_proposed (acc_record (EvToolCallStreamed i nm d) a) = ta_proposed a"
  "dom (ta_pending (acc_record (EvToolCallStreamed i nm d) a)) = insert i (dom (ta_pending a))"
  "pending_input (acc_record (EvToolCallStreamed i nm d) a) j =
     pending_input a j @ (if j = i then d else [])"
  "ta_order (acc_record (EvToolCallStreamed i nm d) a) =
     (if i \<in> dom (ta_pending a) then ta_order a else ta_order a @ [i])"
  by (auto simp: acc_record_def Let_def pending_input_def split: option.splits)

lemma acc_record_wf: "acc_wf a \<Longrightarrow> acc_wf (acc_record ev a)"
  by (cases ev rule: stream_event_cases)
    (auto simp: acc_wf_def acc_plain acc_record_call domIff)

lemma acc_record_proposed [simp]: "ta_proposed (acc_record ev a) = ta_proposed a"
  by (cases ev rule: stream_event_cases) (simp_all add: acc_plain acc_record_call)

lemma acc_push_call_cases:
  "acc_push parse (EvToolCallStreamed i nm d) a = ([], acc_record (EvToolCallStreamed i nm d) a) \<or>
   (\<exists>nm' v. i \<notin> ta_proposed a \<and>
      acc_push parse (EvToolCallStreamed i nm d) a =
        ([EvToolCallProposed i nm' v],
         (acc_record (EvToolCallStreamed i nm d) a)\<lparr>ta_proposed := insert i (ta_proposed a)\<rparr>))"
  by (auto simp: acc_push_def Let_def split: option.splits sum.splits if_splits)

lemma acc_push_fields [simp]:
  "ta_text (snd (acc_push parse ev a)) = ta_text (acc_record ev a) \<and>
   ta_thinking (snd (acc_push parse ev a)) = ta_thinking (acc_record ev a) \<and>
   ta_pending (snd (acc_push parse ev a)) = ta_pending (acc_record ev a) \<and>
   ta_order (snd (acc_push parse ev a)) = ta_order (acc_record ev a)"
proof (cases "\<exists>i nm d. ev = EvToolCallStreamed i nm d")
  case True
  then obtain i nm d where "ev = EvToolCallStreamed i nm d" by blast
  then show ?thesis
    using acc_push_call_cases [of parse i nm d a] by auto
next
  case False
  then have "acc_push parse ev a = ([ev], acc_record ev a)" by (intro acc_push_not_call) blast
  then show ?thesis
    by simp
qed

lemma acc_push_wf: "acc_wf a \<Longrightarrow> acc_wf (snd (acc_push parse ev a))"
proof (cases ev rule: stream_event_cases)
  case (call i nm d)
  assume "acc_wf a"
  then have "acc_wf (acc_record ev a)" by (rule acc_record_wf)
  then show ?thesis using call acc_push_call_cases [of parse i nm d a]
    by (auto simp: acc_wf_def acc_record_call)
qed (auto simp: acc_push_plain intro: acc_record_wf simp del: acc_record_text)

lemma push_all_snd_Cons: "snd (push_all parse (ev # evs) a) = snd (push_all parse evs (snd (acc_push parse ev a)))"
  by (simp add: split_beta)

lemma push_all_fst_Cons:
  "fst (push_all parse (ev # evs) a) =
     fst (acc_push parse ev a) @ fst (push_all parse evs (snd (acc_push parse ev a)))"
  by (simp add: split_beta)

lemma push_all_wf: "acc_wf a \<Longrightarrow> acc_wf (snd (push_all parse evs a))"
  by (induction evs arbitrary: a) (simp_all add: push_all_snd_Cons acc_push_wf del: push_all.simps(2))

section \<open>What a stream accumulates\<close>

definition ev_call_id :: "agent_event \<Rightarrow> string list" where
  "ev_call_id ev = (case ev of EvToolCallStreamed i nm d \<Rightarrow> [i] | _ \<Rightarrow> [])"

definition ev_delta :: "string \<Rightarrow> agent_event \<Rightarrow> string" where
  "ev_delta i ev = (case ev of EvToolCallStreamed j nm d \<Rightarrow> (if i = j then d else []) | _ \<Rightarrow> [])"

definition ev_text :: "agent_event \<Rightarrow> string" where
  "ev_text ev = (case ev of EvText d \<Rightarrow> d | _ \<Rightarrow> [])"

definition streamed_ids :: "agent_event list \<Rightarrow> string list" where
  "streamed_ids evs = concat (map ev_call_id evs)"

definition deltas_of :: "string \<Rightarrow> agent_event list \<Rightarrow> string" where
  "deltas_of i evs = concat (map (ev_delta i) evs)"

definition text_of :: "agent_event list \<Rightarrow> string" where
  "text_of evs = concat (map ev_text evs)"

lemma plain_stream: "plain_event ev \<Longrightarrow> ev_call_id ev = [] \<and> ev_delta i ev = [] \<and> ev_text ev = []"
  by (cases ev) (simp_all add: plain_event_def ev_call_id_def ev_delta_def ev_text_def)

lemma ev_simps [simp]:
  "ev_call_id (EvToolCallStreamed i nm d) = [i]" "ev_delta j (EvToolCallStreamed i nm d) = (if j = i then d else [])"
  "ev_text (EvToolCallStreamed i nm d) = []" "ev_text (EvText d) = d" "ev_call_id (EvText d) = []"
  "ev_delta j (EvText d) = []" "ev_text (EvThinking d) = []" "ev_call_id (EvThinking d) = []"
  "ev_delta j (EvThinking d) = []"
  by (simp_all add: ev_call_id_def ev_delta_def ev_text_def)

lemma acc_record_order:
  "acc_wf a \<Longrightarrow> ta_order (acc_record ev a) = foldl add_new (ta_order a) (ev_call_id ev)"
  by (cases ev rule: stream_event_cases)
    (auto simp: plain_stream acc_plain acc_record_call acc_wf_def add_new_def)

lemma push_all_order:
  "acc_wf a \<Longrightarrow> ta_order (snd (push_all parse evs a)) = foldl add_new (ta_order a) (streamed_ids evs)"
proof (induction evs arbitrary: a)
  case (Cons ev evs)
  have "ta_order (snd (push_all parse (ev # evs) a)) =
      foldl add_new (ta_order (acc_record ev a)) (streamed_ids evs)"
    unfolding push_all_snd_Cons using Cons.IH [OF acc_push_wf [OF Cons.prems]] by simp
  also have "\<dots> = foldl add_new (ta_order a) (streamed_ids (ev # evs))"
    using acc_record_order [OF Cons.prems, of ev] by (simp add: streamed_ids_def)
  finally show ?case .
qed (simp add: streamed_ids_def)

lemma pending_input_push:
  "pending_input (snd (acc_push parse ev a)) i = pending_input (acc_record ev a) i"
  by (simp add: pending_input_def)

lemma push_all_input: "pending_input (snd (push_all parse evs a)) i = pending_input a i @ deltas_of i evs"
proof (induction evs arbitrary: a)
  case (Cons ev evs)
  have "pending_input (acc_record ev a) i @ deltas_of i evs = pending_input a i @ deltas_of i (ev # evs)"
    by (cases ev rule: stream_event_cases)
      (simp_all add: plain_stream acc_plain acc_record_call deltas_of_def, simp_all add: pending_input_def)
  then show ?case unfolding push_all_snd_Cons Cons.IH pending_input_push .
qed (simp add: deltas_of_def)

lemma push_all_text: "concat (ta_text (snd (push_all parse evs a))) = concat (ta_text a) @ text_of evs"
proof (induction evs arbitrary: a)
  case (Cons ev evs)
  have "concat (ta_text (acc_record ev a)) @ text_of evs = concat (ta_text a) @ text_of (ev # evs)"
    by (cases ev rule: stream_event_cases)
      (auto simp: plain_stream acc_plain acc_record_call text_of_def)
  then show ?case unfolding push_all_snd_Cons Cons.IH by simp
qed (simp add: text_of_def)

section \<open>Proposals\<close>

definition ev_proposed_id :: "agent_event \<Rightarrow> string list" where
  "ev_proposed_id ev = (case ev of EvToolCallProposed i nm v \<Rightarrow> [i] | _ \<Rightarrow> [])"

definition proposed_ids :: "agent_event list \<Rightarrow> string list" where
  "proposed_ids evs = concat (map ev_proposed_id evs)"

lemma ev_proposed_id_simp [simp]: "ev_proposed_id (EvToolCallProposed i nm v) = [i]"
  by (simp add: ev_proposed_id_def)

lemma proposed_ids_append [simp]: "proposed_ids (xs @ ys) = proposed_ids xs @ proposed_ids ys"
  by (simp add: proposed_ids_def)

lemma push_proposals:
  assumes "proposed_ids [ev] = []"
  shows "distinct (proposed_ids (fst (acc_push parse ev a))) \<and>
    set (proposed_ids (fst (acc_push parse ev a))) \<inter> ta_proposed a = {} \<and>
    ta_proposed (snd (acc_push parse ev a)) = ta_proposed a \<union> set (proposed_ids (fst (acc_push parse ev a)))"
proof (cases "\<exists>i nm d. ev = EvToolCallStreamed i nm d")
  case True
  then obtain i nm d where "ev = EvToolCallStreamed i nm d" by blast
  then show ?thesis using acc_push_call_cases [of parse i nm d a]
    by (auto simp: proposed_ids_def)
next
  case False
  then have "acc_push parse ev a = ([ev], acc_record ev a)" by (intro acc_push_not_call) blast
  then show ?thesis using assms by simp
qed

lemma proposed_ids_Cons: "proposed_ids (ev # evs) = proposed_ids [ev] @ proposed_ids evs"
  by (simp add: proposed_ids_def)

lemma push_all_proposals:
  "proposed_ids evs = [] \<Longrightarrow>
     distinct (proposed_ids (fst (push_all parse evs a))) \<and>
     set (proposed_ids (fst (push_all parse evs a))) \<inter> ta_proposed a = {}"
proof (induction evs arbitrary: a)
  case (Cons ev evs)
  have p: "proposed_ids [ev] = []" "proposed_ids evs = []"
    using Cons.prems proposed_ids_Cons [of ev evs] by auto
  let ?a = "snd (acc_push parse ev a)"
  from push_proposals [OF p(1), of parse a] Cons.IH [OF p(2), of ?a] show ?case
    unfolding push_all_fst_Cons proposed_ids_append by auto
qed (simp add: proposed_ids_def)

section \<open>Finishing\<close>

lemma finish_calls_order: "finish_calls parse pend is = Inr calls \<Longrightarrow> map pc_id calls = is"
  by (induction "is" arbitrary: calls) (auto split: option.splits sum.splits if_splits)

lemma finish_calls_not_missing:
  "set is \<subseteq> dom pend \<Longrightarrow> finish_calls parse pend is = Inl e \<Longrightarrow>
     \<exists>i err. i \<in> set is \<and> e = HProvider (MalformedToolCall (''invalid tool call input for '' @ i @ '': '' @ err))"
  by (induction "is") (auto split: option.splits sum.splits if_splits)

lemma acc_finish_order:
  "acc_finish parse a = Inr t \<Longrightarrow> map pc_id (at_tool_calls t) = ta_order a"
  by (auto simp: acc_finish_def split: sum.splits dest: finish_calls_order)

lemma acc_finish_distinct: "acc_wf a \<Longrightarrow> acc_finish parse a = Inr t \<Longrightarrow> distinct (map pc_id (at_tool_calls t))"
  by (simp add: acc_finish_order acc_wf_def)

lemma acc_finish_error:
  assumes "acc_wf a" "acc_finish parse a = Inl e"
  shows "\<exists>i err. i \<in> set (ta_order a) \<and>
    e = HProvider (MalformedToolCall (''invalid tool call input for '' @ i @ '': '' @ err))"
  using assms finish_calls_not_missing [of "ta_order a" "ta_pending a" parse e]
  by (auto simp: acc_finish_def acc_wf_def split: sum.splits)

definition tool_use_ids :: "message \<Rightarrow> string list" where
  "tool_use_ids m = (case m of
       MAssistant bs \<Rightarrow> List.map_filter (\<lambda>b. case b of CbToolUse i nm v \<Rightarrow> Some i | _ \<Rightarrow> None) bs
     | _ \<Rightarrow> [])"

lemma into_message_tool_uses: "tool_use_ids (into_message t) = map pc_id (at_tool_calls t)"
  by (simp add: tool_use_ids_def into_message_def Let_def List.map_filter_def filter_map comp_def)

section \<open>Properties\<close>

text \<open>The input of a call, from the text of its deltas.\<close>

definition input_of :: "json_parser \<Rightarrow> string \<Rightarrow> string + json" where
  "input_of parse txt = (if trim txt = [] then Inr (VObject []) else parse txt)"

lemma finish_calls_Cons:
  "finish_calls parse pend (i # is) = Inr calls \<longleftrightarrow>
     (\<exists>p v rest. pend i = Some p \<and> input_of parse (pd_input p) = Inr v \<and>
        finish_calls parse pend is = Inr rest \<and> calls = \<lparr>pc_id = i, pc_name = pd_name p, pc_input = v\<rparr> # rest)"
  by (auto simp: input_of_def split: option.splits sum.splits)

lemma finish_calls_inputs:
  "finish_calls parse pend is = Inr calls \<Longrightarrow> c \<in> set calls \<Longrightarrow>
     \<exists>p. pend (pc_id c) = Some p \<and> input_of parse (pd_input p) = Inr (pc_input c)"
proof (induction "is" arbitrary: calls)
  case (Cons i "is")
  then show ?case by (fastforce simp only: finish_calls_Cons set_simps proposed_tool_call.simps)
qed simp

text \<open>C36: when the turn of a streamed response is assembled, its tool calls are those streamed, in
  the order in which their ids first appeared, one for each id; the input of each is the parse
  of the concatenation of all its deltas, in order (an empty object if that is blank); and its
  text is the concatenation of the text deltas. Interleaved streams of several calls do not mix.\<close>

theorem assembled_turn_correct:
  assumes "acc_finish parse (snd (push_all parse evs acc_default)) = Inr t"
  shows "map pc_id (at_tool_calls t) = foldl add_new [] (streamed_ids evs) \<and>
    distinct (map pc_id (at_tool_calls t)) \<and> full_text t = text_of evs \<and>
    (\<forall>c \<in> set (at_tool_calls t). input_of parse (deltas_of (pc_id c) evs) = Inr (pc_input c))"
proof (intro conjI ballI)
  let ?a = "snd (push_all parse evs acc_default)"
  have wf: "acc_wf ?a" by (rule push_all_wf [OF acc_wf_default])
  show "map pc_id (at_tool_calls t) = foldl add_new [] (streamed_ids evs)"
    using acc_finish_order [OF assms] push_all_order [OF acc_wf_default, of parse evs]
    by (simp add: acc_default_def)
  show "distinct (map pc_id (at_tool_calls t))" by (rule acc_finish_distinct [OF wf assms])
  obtain calls where calls: "finish_calls parse (ta_pending ?a) (ta_order ?a) = Inr calls"
    and t: "t = \<lparr>at_text_deltas = ta_text ?a, at_thinking_deltas = ta_thinking ?a, at_tool_calls = calls\<rparr>"
    using assms by (auto simp: acc_finish_def split: sum.splits)
  show "full_text t = text_of evs"
    using push_all_text [of parse evs acc_default] t by (simp add: full_text_def acc_default_def)
  fix c
  assume "c \<in> set (at_tool_calls t)"
  then obtain p where p: "ta_pending ?a (pc_id c) = Some p"
    "input_of parse (pd_input p) = Inr (pc_input c)"
    using finish_calls_inputs [OF calls] t by auto
  moreover have "pd_input p = deltas_of (pc_id c) evs"
    using push_all_input [of parse evs acc_default "pc_id c"] p(1)
    by (simp add: pending_input_def acc_default_def)
  ultimately show "input_of parse (deltas_of (pc_id c) evs) = Inr (pc_input c)" by simp
qed

definition sample_parse :: json_parser where
  "sample_parse s = (if s = ''{}'' then Inr (VObject []) else Inl ''not an object'')"

definition sample_stream :: "agent_event list" where
  "sample_stream = [EvText ''a'', EvToolCallStreamed ''x'' ''t'' ''{'', EvToolCallStreamed ''y'' ''t'' [],
     EvToolCallStreamed ''x'' [] ''}'', EvText ''b'']"

lemma sample_finish:
  "acc_finish sample_parse (snd (push_all sample_parse sample_stream acc_default)) =
     Inr \<lparr>at_text_deltas = [''a'', ''b''], at_thinking_deltas = [],
       at_tool_calls = [\<lparr>pc_id = ''x'', pc_name = ''t'', pc_input = VObject []\<rparr>,
         \<lparr>pc_id = ''y'', pc_name = ''t'', pc_input = VObject []\<rparr>]\<rparr>"
  by code_simp

theorem assembled_turn_correct_witness:
  "foldl add_new [] (streamed_ids sample_stream) = [''x'', ''y''] \<and> text_of sample_stream = ''ab''"
  using assembled_turn_correct [OF sample_finish] by (simp add: full_text_def)

text \<open>A stream that has not itself contained proposals proposes each call at most once, however
  many deltas follow, and only calls it has streamed.\<close>

theorem proposals_unique:
  assumes "proposed_ids evs = []"
  shows "distinct (proposed_ids (fst (push_all parse evs acc_default)))"
  using push_all_proposals [OF assms] by blast

theorem proposals_unique_witness:
  "distinct (proposed_ids (fst (push_all sample_parse sample_stream acc_default)))"
  by (rule proposals_unique) (simp add: sample_stream_def proposed_ids_def ev_proposed_id_def)

text \<open>Assembling a streamed response fails only because the input of a call that was streamed
  does not parse, and the error names that call; the branch for a call missing from the
  accumulator is unreachable.\<close>

theorem assembly_error_names_call:
  assumes "acc_finish parse (snd (push_all parse evs acc_default)) = Inl e"
  shows "\<exists>i err. i \<in> set (streamed_ids evs) \<and>
    e = HProvider (MalformedToolCall (''invalid tool call input for '' @ i @ '': '' @ err))"
proof -
  have "set (foldl add_new xs ys) = set xs \<union> set ys" for xs ys
    by (induction ys arbitrary: xs) (auto simp: add_new_def)
  then have "set (ta_order (snd (push_all parse evs acc_default))) = set (streamed_ids evs)"
    using push_all_order [OF acc_wf_default, of parse evs] by (simp add: acc_default_def)
  then show ?thesis using acc_finish_error [OF push_all_wf [OF acc_wf_default] assms] by simp
qed

lemma sample_malformed:
  "acc_finish sample_parse (snd (push_all sample_parse [EvToolCallStreamed ''x'' ''t'' ''{''] acc_default)) =
     Inl (HProvider (MalformedToolCall ''invalid tool call input for x: not an object''))"
  by code_simp

theorem assembly_error_names_call_witness:
  "\<exists>i err. i \<in> set (streamed_ids [EvToolCallStreamed ''x'' ''t'' ''{'']) \<and>
     HProvider (MalformedToolCall ''invalid tool call input for x: not an object'') =
     HProvider (MalformedToolCall (''invalid tool call input for '' @ i @ '': '' @ err))"
  by (rule assembly_error_names_call [OF sample_malformed])

end
