(* ===== verification/Effects.thy ===== *)
theory Effects
  imports Tool_Runtime Turn
begin

text \<open>
  The effect discipline of the agent loop and the executor. An operation of the async code
  is an action: it takes the world, a trace of what has happened and a clock, and returns a
  result or an error with the new world. Everything outside the core crate is consulted
  through an \<open>env\<close>: the oracles take the current tick, so that two consultations may
  answer differently, and which branch of a \<open>select!\<close> wins is an oracle too.
  The trace records emitted events, answers of the policy engine and the approval provider,
  and each start of a tool. The lemmas are a Hoare logic for actions, with rules for the
  combinators and for the hook dispatcher (\<open>hook.rs\<close>).
\<close>

section \<open>Error texts\<close>

definition nat_option_debug :: "nat option \<Rightarrow> string" where
  "nat_option_debug o' = (case o' of None \<Rightarrow> ''None'' | Some n \<Rightarrow> ''Some('' @ dec n @ '')'')"

fun provider_error_to_string :: "provider_error \<Rightarrow> string" where
  "provider_error_to_string (UnknownProvider p) = ''unknown provider: '' @ p"
| "provider_error_to_string (AuthFailed p) = ''provider authentication failed: '' @ p"
| "provider_error_to_string (RateLimit s) =
     ''provider rate limit; retry after '' @ nat_option_debug s @ ''s''"
| "provider_error_to_string (ContextTooLong t l) =
     ''context too long: '' @ dec t @ '' tokens exceeds limit '' @ dec l"
| "provider_error_to_string (InvalidModel m) = ''invalid model: '' @ m"
| "provider_error_to_string ProviderTimeout = ''provider request timed out''"
| "provider_error_to_string StreamInterrupted = ''provider stream interrupted''"
| "provider_error_to_string (MalformedToolCall d) =
     ''provider returned malformed tool call JSON: '' @ d"
| "provider_error_to_string (UnsupportedCapability c) =
     ''provider does not support requested capability: '' @ c"
| "provider_error_to_string (UnexpectedResponse d) =
     ''provider returned an unexpected response: '' @ d"
| "provider_error_to_string (Transport e) = ''provider transport error: '' @ e"

fun tool_error_to_string :: "tool_error \<Rightarrow> string" where
  "tool_error_to_string (TeNotFound n) = ''tool not found: '' @ n"
| "tool_error_to_string (TeInvalidInput n r) = ''invalid input for '' @ n @ '': '' @ r"
| "tool_error_to_string (TeExecutionFailed e) = ''tool execution failed: '' @ e"
| "tool_error_to_string (TeTimeout n s) = ''tool timed out after '' @ dec s @ ''s: '' @ n"
| "tool_error_to_string (TeOutputTooLarge n l) =
     ''tool output too large: '' @ n @ '' exceeded '' @ dec l @ '' bytes''"
| "tool_error_to_string (TePathNotAllowed p) = ''path not allowed: '' @ p"
| "tool_error_to_string (TeNetworkDenied m) = ''network denied: '' @ m"
| "tool_error_to_string (TeDenied m) = ''policy denied tool: '' @ m"

fun policy_error_to_string :: "policy_error \<Rightarrow> string" where
  "policy_error_to_string (InvalidPolicy m) = ''invalid policy: '' @ m"
| "policy_error_to_string (PeDenied m) = ''policy denied: '' @ m"
| "policy_error_to_string (PeIo e) = ''policy I/O error: '' @ e"

fun context_error_to_string :: "context_error \<Rightarrow> string" where
  "context_error_to_string (InvalidBudget m) = ''invalid token budget: '' @ m"
| "context_error_to_string (PipelineFailed m) = ''context pipeline failed: '' @ m"
| "context_error_to_string (CtxExhausted m) = ''critical context exhausted: '' @ m"
| "context_error_to_string (DurabilityFailed m) = ''durability contract failed: '' @ m"

fun config_error_to_string :: "config_error \<Rightarrow> string" where
  "config_error_to_string (MissingField f) = ''missing config field: '' @ f"
| "config_error_to_string (UnknownKey k) = ''unknown config key: '' @ k"
| "config_error_to_string (InvalidValue f r) = ''invalid config value for '' @ f @ '': '' @ r"
| "config_error_to_string (FeatureDisabled f op) =
     ''feature '' @ [CHR 0x27] @ f @ [CHR 0x27] @ '' is not enabled for '' @ op"
| "config_error_to_string (UnsupportedLegacyConfig p sp r) =
     ''unsupported legacy configuration at '' @ p @ ''; use '' @ sp @ ''. '' @ r"
| "config_error_to_string MissingVersion = ''configuration schema version is missing''"
| "config_error_to_string InvalidVersion = ''configuration schema version must be an integer''"
| "config_error_to_string (UnsupportedVersion n) =
     ''unsupported configuration schema version '' @ dec n @ ''; expected 1''"

fun trace_error_to_string :: "trace_error \<Rightarrow> string" where
  "trace_error_to_string (WriteFailed e) = ''trace write failed: '' @ e"
| "trace_error_to_string (ReadFailed r) = ''trace read failed: '' @ r"
| "trace_error_to_string (InvalidFormat l r) =
     ''invalid trace format at line '' @ dec l @ '': '' @ r"

fun approval_error_to_string :: "approval_error \<Rightarrow> string" where
  "approval_error_to_string (ApRejected m) = ''approval rejected: '' @ m"
| "approval_error_to_string (ApIo e) = ''approval I/O error: '' @ e"

fun error_to_string :: "harness_error \<Rightarrow> string" where
  "error_to_string (HProvider e) = ''provider error: '' @ provider_error_to_string e"
| "error_to_string (HTool e) = ''tool error: '' @ tool_error_to_string e"
| "error_to_string (HPolicy e) = ''policy error: '' @ policy_error_to_string e"
| "error_to_string (HContext e) = ''context error: '' @ context_error_to_string e"
| "error_to_string (HConfig e) = ''config error: '' @ config_error_to_string e"
| "error_to_string (HTrace e) = ''trace error: '' @ trace_error_to_string e"
| "error_to_string (HApproval e) = ''approval error: '' @ approval_error_to_string e"
| "error_to_string HCancelled = ''cancelled: execution was cancelled''"
| "error_to_string (HPanic m) = m"

section \<open>Worlds and actions\<close>

text \<open>\<open>Ran call_id tool input\<close> is a call of \<open>Tool::execute\<close>.\<close>

datatype effect =
    Emitted agent_event
  | PolicyAnswered policy_request policy_decision
  | ApprovalAnswered string string json approval_decision
  | Ran string string json

record world =
  w_trace :: "effect list"
  w_tick :: nat

type_synonym 'a action = "world \<Rightarrow> (harness_error + 'a) \<times> world"

definition ret :: "'a \<Rightarrow> 'a action" where
  "ret x w = (Inr x, w)"

definition fail :: "harness_error \<Rightarrow> 'a action" where
  "fail e w = (Inl e, w)"

definition bind_act :: "'a action \<Rightarrow> ('a \<Rightarrow> 'b action) \<Rightarrow> 'b action" where
  "bind_act m f w = (case m w of (r, w') \<Rightarrow> (case r of Inl e \<Rightarrow> (Inl e, w') | Inr x \<Rightarrow> f x w'))"

definition then_act :: "'a action \<Rightarrow> 'b action \<Rightarrow> 'b action" where
  "then_act m k = bind_act m (\<lambda>_. k)"

text \<open>A \<open>match\<close> on the result of an operation: a panic is not a value it could see.\<close>

definition try_act :: "'a action \<Rightarrow> (harness_error + 'a) action" where
  "try_act m w = (case m w of (r, w') \<Rightarrow>
     (case r of Inl (HPanic s) \<Rightarrow> (Inl (HPanic s), w') | _ \<Rightarrow> (Inr r, w')))"

text \<open>Consult an oracle; the clock moves on.\<close>

definition ask :: "(nat \<Rightarrow> 'a) \<Rightarrow> 'a action" where
  "ask q w = (Inr (q (w_tick w)), w\<lparr>w_tick := Suc (w_tick w)\<rparr>)"

definition note_effect :: "effect \<Rightarrow> unit action" where
  "note_effect x w = (Inr (), w\<lparr>w_trace := w_trace w @ [x]\<rparr>)"

definition lift_result :: "harness_error + 'a \<Rightarrow> 'a action" where
  "lift_result r = (case r of Inl e \<Rightarrow> fail e | Inr x \<Rightarrow> ret x)"

fun for_act :: "('a \<Rightarrow> unit action) \<Rightarrow> 'a list \<Rightarrow> unit action" where
  "for_act f [] = ret ()"
| "for_act f (x # xs) = then_act (f x) (for_act f xs)"

fun fold_act :: "('a \<Rightarrow> 's \<Rightarrow> 's action) \<Rightarrow> 'a list \<Rightarrow> 's \<Rightarrow> 's action" where
  "fold_act f [] s = ret s"
| "fold_act f (x # xs) s = bind_act (f x s) (fold_act f xs)"

section \<open>The environment\<close>

type_synonym hook_result = "harness_error + agent_event list"

record session_hook =
  on_session_start :: "nat \<Rightarrow> session \<Rightarrow> hook_result"
  on_session_end :: "nat \<Rightarrow> session \<Rightarrow> hook_result"

record context_hook =
  before_context_build :: "nat \<Rightarrow> session \<Rightarrow> hook_result"
  after_context_build :: "nat \<Rightarrow> session \<Rightarrow> context_packet \<Rightarrow> hook_result"

record model_hook =
  before_model_request :: "nat \<Rightarrow> session \<Rightarrow> provider_request \<Rightarrow> hook_result"
  after_model_response :: "nat \<Rightarrow> session \<Rightarrow> agent_event \<Rightarrow> hook_result"

record tool_hook =
  before_tool_execution :: "nat \<Rightarrow> session \<Rightarrow> string \<Rightarrow> json \<Rightarrow> hook_result"
  after_tool_execution :: "nat \<Rightarrow> session \<Rightarrow> string \<Rightarrow> tool_execution_result \<Rightarrow> hook_result"

type_synonym next_turn_hook = "nat \<Rightarrow> session \<Rightarrow> nat \<Rightarrow> hook_result"
type_synonym verification_hook = "nat \<Rightarrow> session \<Rightarrow> agent_event \<Rightarrow> hook_result"
type_synonym trace_hook = "nat \<Rightarrow> agent_event \<Rightarrow> trace_error option"

record hook_registry =
  session_hooks :: "session_hook list"
  context_hooks :: "context_hook list"
  model_hooks :: "model_hook list"
  tool_hooks :: "tool_hook list"
  verification_hooks :: "verification_hook list"
  trace_hooks :: "trace_hook list"
  next_turn_hooks :: "next_turn_hook list"

definition registry_new :: hook_registry where
  "registry_new = \<lparr>session_hooks = [], context_hooks = [], model_hooks = [], tool_hooks = [],
     verification_hooks = [], trace_hooks = [], next_turn_hooks = []\<rparr>"

text \<open>How a tool's future ends under the timeout and the cancel token.\<close>

datatype tool_future = ToolDone "tool_error + tool_output" | ToolElapsed | ToolCancelled

text \<open>
  What the executor uses from outside. \<open>e_emit\<close> is the caller's \<open>emit_fn\<close>;
  \<open>e_cancel_wins\<close> says that the cancelled branch of a \<open>select!\<close> is taken at that tick.
\<close>

record env =
  e_hooks :: hook_registry
  e_emit :: "nat \<Rightarrow> agent_event \<Rightarrow> harness_error option"
  e_cancel_wins :: "nat \<Rightarrow> bool"
  e_catalog :: tool_catalog
  e_policy :: "nat \<Rightarrow> policy_request \<Rightarrow> harness_error + policy_decision"
  e_approve :: "nat \<Rightarrow> string \<Rightarrow> string \<Rightarrow> json \<Rightarrow> string \<Rightarrow> policy_decision
      \<Rightarrow> harness_error + approval_decision"
  e_execute :: "nat \<Rightarrow> tool \<Rightarrow> json \<Rightarrow> tool_context \<Rightarrow> tool_future"
  e_materialize :: "nat \<Rightarrow> tool \<Rightarrow> tool_output \<Rightarrow> bool \<Rightarrow> tool_context \<Rightarrow> string \<Rightarrow> tool_execution_result"
  e_elapsed_ms :: "nat \<Rightarrow> nat"
  e_schedule :: "nat \<Rightarrow> nat list"
  e_flush :: "(nat \<Rightarrow> trace_error option) option"
  e_to_json :: "json \<Rightarrow> string option"
  e_sha256 :: "string \<Rightarrow> string"

section \<open>Emission\<close>

definition emit_fn :: "env \<Rightarrow> agent_event \<Rightarrow> unit action" where
  "emit_fn E ev = then_act (note_effect (Emitted ev))
     (bind_act (ask (\<lambda>t. e_emit E t ev)) (\<lambda>r. case r of None \<Rightarrow> ret () | Some e \<Rightarrow> fail e))"

definition emit :: "env \<Rightarrow> agent_event \<Rightarrow> unit action" where
  "emit E ev = then_act
     (for_act (\<lambda>h. bind_act (ask (\<lambda>t. h t ev)) (\<lambda>r. case r of
          None \<Rightarrow> ret ()
        | Some err \<Rightarrow> emit_fn E (EvError (''TraceHook.on_trace_write failed: '' @ trace_error_to_string err) True)))
       (trace_hooks (e_hooks E)))
     (emit_fn E ev)"

section \<open>The hook dispatcher\<close>

definition select_cancel :: "env \<Rightarrow> bool action" where
  "select_cancel E = ask (e_cancel_wins E)"

definition dispatch :: "env \<Rightarrow> string \<Rightarrow> string \<Rightarrow> (nat \<Rightarrow> hook_result) \<Rightarrow> agent_event list action" where
  "dispatch E hook_type name f =
     then_act (emit E (EvHookStarted hook_type name))
     (bind_act (select_cancel E) (\<lambda>c.
        if c then fail HCancelled
        else bind_act (ask f) (\<lambda>res. case res of
            Inr events \<Rightarrow> then_act (emit E (EvHookCompleted hook_type name)) (ret events)
          | Inl err \<Rightarrow> then_act (emit E (EvHookFailed hook_type name (error_to_string err))) (fail err))))"

text \<open>
  The \<open>match\<close> around every dispatch: the events of a hook that succeeded go to
  \<open>k\<close>; a cancellation runs \<open>on_cancel\<close> and stops; any other error is reported as
  recoverable and the loop over the hooks goes on.
\<close>

definition run_hook :: "env \<Rightarrow> unit action \<Rightarrow> string \<Rightarrow> string \<Rightarrow> string \<Rightarrow> (nat \<Rightarrow> hook_result)
    \<Rightarrow> (agent_event \<Rightarrow> unit action) \<Rightarrow> unit action" where
  "run_hook E on_cancel hook_type name label f k =
     bind_act (try_act (dispatch E hook_type name f)) (\<lambda>r. case r of
         Inr events \<Rightarrow> for_act k events
       | Inl err \<Rightarrow>
           (if err = HCancelled then then_act on_cancel (fail HCancelled)
            else emit E (EvError (label @ '' failed: '' @ error_to_string err) True)))"

section \<open>Weakest preconditions\<close>

text \<open>\<open>wp m Q F w\<close>: run from \<open>w\<close>, \<open>m\<close> either returns and \<open>Q\<close> holds of its result and
  final world, or fails and \<open>F\<close> holds of its error and final world.\<close>

definition wp :: "'a action \<Rightarrow> ('a \<Rightarrow> world \<Rightarrow> bool) \<Rightarrow> (harness_error \<Rightarrow> world \<Rightarrow> bool) \<Rightarrow> world \<Rightarrow> bool" where
  "wp m Q F w \<longleftrightarrow> (case m w of (r, w') \<Rightarrow> (case r of Inl e \<Rightarrow> F e w' | Inr x \<Rightarrow> Q x w'))"

lemma wp_ret [simp]: "wp (ret x) Q F w = Q x w"
  by (simp add: wp_def ret_def)

lemma wp_fail [simp]: "wp (fail e) Q F w = F e w"
  by (simp add: wp_def fail_def)

lemma wp_bind [simp]: "wp (bind_act m f) Q F w = wp m (\<lambda>x. wp (f x) Q F) F w"
  by (simp add: wp_def bind_act_def split: prod.splits sum.splits)

lemma wp_then [simp]: "wp (then_act m k) Q F w = wp m (\<lambda>_. wp k Q F) F w"
  by (simp add: then_act_def)

lemma wp_try [simp]:
  "wp (try_act m) Q F w = wp m (\<lambda>x. Q (Inr x))
     (\<lambda>e. case e of HPanic s \<Rightarrow> F (HPanic s) | _ \<Rightarrow> Q (Inl e)) w"
  by (auto simp: wp_def try_act_def split: prod.splits sum.splits harness_error.splits)

lemma wp_ask [simp]: "wp (ask q) Q F w = Q (q (w_tick w)) (w\<lparr>w_tick := Suc (w_tick w)\<rparr>)"
  by (simp add: wp_def ask_def)

lemma wp_note [simp]: "wp (note_effect x) Q F w = Q () (w\<lparr>w_trace := w_trace w @ [x]\<rparr>)"
  by (simp add: wp_def note_effect_def)

lemma wp_lift [simp]: "wp (lift_result r) Q F w = (case r of Inl e \<Rightarrow> F e w | Inr x \<Rightarrow> Q x w)"
  by (simp add: lift_result_def split: sum.splits)

lemma wp_if [simp]: "wp (if b then m else k) Q F w = (if b then wp m Q F w else wp k Q F w)"
  by simp

lemma wp_case_option [simp]:
  "wp (case r of None \<Rightarrow> m | Some x \<Rightarrow> k x) Q F w = (case r of None \<Rightarrow> wp m Q F w | Some x \<Rightarrow> wp (k x) Q F w)"
  by (cases r) simp_all

lemma wp_case_sum [simp]:
  "wp (case r of Inl e \<Rightarrow> m e | Inr x \<Rightarrow> k x) Q F w = (case r of Inl e \<Rightarrow> wp (m e) Q F w | Inr x \<Rightarrow> wp (k x) Q F w)"
  by (cases r) simp_all

lemma wp_case_prod [simp]:
  "wp (case r of (a, b) \<Rightarrow> m a b) Q F w = (case r of (a, b) \<Rightarrow> wp (m a b) Q F w)"
  by (cases r) simp

lemma wp_conseq:
  assumes "wp m Q F w" "\<And>x w'. Q x w' \<Longrightarrow> Q' x w'" "\<And>e w'. F e w' \<Longrightarrow> F' e w'"
  shows "wp m Q' F' w"
  using assms by (auto simp: wp_def split: prod.splits sum.splits)

lemma wp_conj: "wp m Q F w \<Longrightarrow> wp m Q' F' w \<Longrightarrow> wp m (\<lambda>x w'. Q x w' \<and> Q' x w') (\<lambda>e w'. F e w' \<and> F' e w') w"
  by (auto simp: wp_def split: prod.splits sum.splits)

lemma wp_InrD: "wp m Q F w \<Longrightarrow> m w = (Inr x, w') \<Longrightarrow> Q x w'"
  by (simp add: wp_def)

lemma wp_InlD: "wp m Q F w \<Longrightarrow> m w = (Inl e, w') \<Longrightarrow> F e w'"
  by (simp add: wp_def)

lemma wp_for:
  assumes "\<And>x w. x \<in> set xs \<Longrightarrow> I w \<Longrightarrow> wp (f x) (\<lambda>_. I) F w" "I w"
  shows "wp (for_act f xs) (\<lambda>_. I) F w"
  using assms
proof (induction xs arbitrary: w)
  case (Cons x xs)
  have "wp (f x) (\<lambda>_. I) F w" using Cons.prems by simp
  then show ?case by (simp, elim wp_conseq) (use Cons in auto)
qed simp

lemma wp_fold:
  assumes "\<And>ys x zs s w. xs = ys @ x # zs \<Longrightarrow> I ys s w \<Longrightarrow> wp (f x s) (I (ys @ [x])) F w" "I [] s w"
  shows "wp (fold_act f xs s) (I xs) F w"
proof -
  have "xs = ys @ zs \<Longrightarrow> I ys s w \<Longrightarrow> wp (fold_act f zs s) (I xs) F w" for ys zs s w
  proof (induction zs arbitrary: ys s w)
    case (Cons x zs)
    have "wp (f x s) (I (ys @ [x])) F w" using assms(1) Cons.prems by blast
    then show ?case by (simp, elim wp_conseq) (use Cons in auto)
  qed simp
  then show ?thesis using assms(2) by (metis append_Nil)
qed

definition keeps :: "(world \<Rightarrow> bool) \<Rightarrow> 'a action \<Rightarrow> bool" where
  "keeps I m \<longleftrightarrow> (\<forall>w. I w \<longrightarrow> wp m (\<lambda>_. I) (\<lambda>_. I) w)"

lemma keepsI: "(\<And>w. I w \<Longrightarrow> wp m (\<lambda>_. I) (\<lambda>_. I) w) \<Longrightarrow> keeps I m"
  by (simp add: keeps_def)

lemma keepsD: "keeps I m \<Longrightarrow> I w \<Longrightarrow> wp m (\<lambda>_. I) (\<lambda>_. I) w"
  by (simp add: keeps_def)

lemma keeps_after: "keeps I m \<Longrightarrow> I w \<Longrightarrow> I (snd (m w))"
  by (cases "m w"; cases "fst (m w)") (fastforce simp: keeps_def wp_def)+

lemma keeps_bind [intro]: "keeps I m \<Longrightarrow> (\<And>x. keeps I (f x)) \<Longrightarrow> keeps I (bind_act m f)"
  by (intro keepsI, simp, erule (1) wp_conseq [OF keepsD]) (auto dest: keepsD)

lemma keeps_then [intro]: "keeps I m \<Longrightarrow> keeps I k \<Longrightarrow> keeps I (then_act m k)"
  unfolding then_act_def by blast

lemma keeps_ret [intro, simp]: "keeps I (ret x)"
  by (simp add: keeps_def)

lemma keeps_fail [intro, simp]: "keeps I (fail e)"
  by (simp add: keeps_def)

lemma keeps_lift [intro, simp]: "keeps I (lift_result r)"
  by (simp add: keeps_def split: sum.splits)

lemma keeps_try [intro]: "keeps I m \<Longrightarrow> keeps I (try_act m)"
  by (intro keepsI, simp, erule (1) wp_conseq [OF keepsD]) (auto split: harness_error.splits)

lemma keeps_for [intro]: "(\<And>x. x \<in> set xs \<Longrightarrow> keeps I (f x)) \<Longrightarrow> keeps I (for_act f xs)"
  by (rule keepsI, rule wp_for) (auto dest: keepsD)

lemma keeps_fold [intro]: "(\<And>x s. x \<in> set xs \<Longrightarrow> keeps I (f x s)) \<Longrightarrow> keeps I (fold_act f xs s)"
  by (rule keepsI, rule wp_fold [where I = "\<lambda>_ _. I"]) (auto dest: keepsD)

section \<open>Invariants of the trace\<close>

text \<open>
  A property of the world that neither the clock nor an emitted event can break. Hooks only
  return events, so no emission and no dispatch breaks it either.
\<close>

locale trace_invariant =
  fixes I :: "world \<Rightarrow> bool"
  assumes tick_ok: "I w \<Longrightarrow> I (w\<lparr>w_tick := t\<rparr>)"
    and emitted_ok: "I w \<Longrightarrow> I (w\<lparr>w_trace := w_trace w @ [Emitted ev]\<rparr>)"
begin

lemma keeps_ask: "keeps I (ask q)"
  by (rule keepsI) (simp add: tick_ok)

lemma keeps_note: "keeps I (note_effect (Emitted ev))"
  by (rule keepsI) (simp add: emitted_ok)

lemma keeps_emit_fn: "keeps I (emit_fn E ev)"
  unfolding emit_fn_def by (intro keeps_then keeps_note keeps_bind keeps_ask) (simp split: option.splits)

lemma keeps_emit: "keeps I (emit E ev)"
  unfolding emit_def
  by (intro keeps_then keeps_for keeps_bind keeps_ask keeps_emit_fn)
    (simp add: keeps_emit_fn split: option.splits)

lemma keeps_dispatch: "keeps I (dispatch E ht nm f)"
  unfolding dispatch_def select_cancel_def
  by (intro keeps_then keeps_bind keeps_ask keeps_emit)
    (auto intro!: keeps_bind keeps_then keeps_ask keeps_emit split: sum.splits)

lemma keeps_run_hook:
  "keeps I c \<Longrightarrow> (\<And>ev. keeps I (k ev)) \<Longrightarrow> keeps I (run_hook E c ht nm lb f k)"
  unfolding run_hook_def
  by (intro keeps_bind keeps_try keeps_dispatch)
    (auto intro!: keeps_for keeps_then keeps_emit split: sum.splits)

end

text \<open>What has happened stays in the trace, in order.\<close>

definition extends_trace :: "effect list \<Rightarrow> world \<Rightarrow> bool" where
  "extends_trace tr w \<longleftrightarrow> (\<exists>xs. w_trace w = tr @ xs)"

interpretation trace_growth: trace_invariant "extends_trace tr"
  by unfold_locales (auto simp: extends_trace_def)

definition grows :: "world \<Rightarrow> world \<Rightarrow> bool" where
  "grows w w' \<longleftrightarrow> extends_trace (w_trace w) w'"

lemma grows_refl [simp]: "grows w w"
  by (simp add: grows_def extends_trace_def)

lemma grows_trans: "grows w w' \<Longrightarrow> grows w' w'' \<Longrightarrow> grows w w''"
  by (auto simp: grows_def extends_trace_def)

lemma grows_tick [simp]: "grows w (w'\<lparr>w_tick := t\<rparr>) = grows w w'" "grows (w\<lparr>w_tick := t\<rparr>) w' = grows w w'"
  by (simp_all add: grows_def extends_trace_def)

lemma grows_note: "grows w w' \<Longrightarrow> grows w (w'\<lparr>w_trace := w_trace w' @ xs\<rparr>)"
  by (auto simp: grows_def extends_trace_def)

lemma grows_mem: "grows w w' \<Longrightarrow> x \<in> set (w_trace w) \<Longrightarrow> x \<in> set (w_trace w')"
  by (auto simp: grows_def extends_trace_def)

text \<open>To run an action that keeps an invariant, continue from any world that has grown.\<close>

lemma wp_keeps:
  assumes "keeps I m" "keeps (extends_trace (w_trace w)) m" "I w"
    and "\<And>x w'. I w' \<Longrightarrow> grows w w' \<Longrightarrow> Q x w'"
    and "\<And>e w'. I w' \<Longrightarrow> grows w w' \<Longrightarrow> F e w'"
  shows "wp m Q F w"
proof -
  have "extends_trace (w_trace w) w" by (simp add: extends_trace_def)
  from wp_conj [OF keepsD [OF assms(1,3)] keepsD [OF assms(2) this]]
  show ?thesis by (rule wp_conseq) (auto simp: grows_def intro: assms(4,5))
qed

context trace_invariant
begin

lemma wp_emit:
  "I w \<Longrightarrow> (\<And>w'. I w' \<Longrightarrow> grows w w' \<Longrightarrow> Q () w') \<Longrightarrow>
     (\<And>e w'. I w' \<Longrightarrow> grows w w' \<Longrightarrow> F e w') \<Longrightarrow> wp (emit E ev) Q F w"
  by (rule wp_keeps [OF keeps_emit trace_growth.keeps_emit]) auto

end

text \<open>Without trace hooks an event is recorded and handed to the caller, nothing else.\<close>

lemma emit_plain:
  "trace_hooks (e_hooks E) = [] \<Longrightarrow> emit E ev = emit_fn E ev"
  by (rule ext) (simp add: emit_def then_act_def bind_act_def ret_def)

end
