(* ===== verification/Executor.thy ===== *)
theory Executor
  imports Effects
begin

text \<open>
  The tool executor (\<open>gestalt-core/src/agent/executor.rs\<close>): validation, strict validation,
  policy evaluation, the approval queue and execution of a batch of calls, phase by phase.
  Each phase is an action over the state the source threads through it. A \<open>Panic\<close> of
  the source is the error \<open>HPanic\<close>.
\<close>

type_synonym tool_result = "nat \<times> string \<times> tool_execution_result \<times> nat \<times> string"

text \<open>\<open>(order, id, canonical_id, input, tool, policy)\<close>\<close>

record planned_call =
  pl_order :: nat
  pl_id :: string
  pl_cid :: canonical_tool_id
  pl_input :: json
  pl_tool :: tool
  pl_policy :: policy_decision

definition denied_result :: "nat \<Rightarrow> string \<Rightarrow> tool_error_report \<Rightarrow> string \<Rightarrow> tool_result" where
  "denied_result order i report source = (order, i, error_with_failure report, 0, source)"

section \<open>Policy\<close>

fun risk_debug :: "risk_level \<Rightarrow> string" where
  "risk_debug Low = ''Low''"
| "risk_debug Medium = ''Medium''"
| "risk_debug High = ''High''"
| "risk_debug Critical = ''Critical''"

definition apply_grant_override :: "policy_decision \<Rightarrow> session_grant \<Rightarrow> string \<Rightarrow> policy_decision" where
  "apply_grant_override policy grant tool_name =
     (case pd_status policy of
        Denied \<Rightarrow> policy
      | _ \<Rightarrow>
         (let tool_tag = hash_input_short (VString tool_name)
          in \<lparr>pd_status = Allowed,
              pd_reason = Some (''matched session grant (rule='' @ sg_matched_rule grant @
                '', risk_ceiling='' @ risk_debug (sg_risk_ceiling grant) @ '')''),
              pd_source = ''session_grant:'' @ sg_matched_rule grant @ '':'' @ tool_tag\<rparr>))"

definition emit_policy_decision :: "env \<Rightarrow> string \<Rightarrow> string \<Rightarrow> json \<Rightarrow> risk_level \<Rightarrow> execution_mode
    \<Rightarrow> policy_decision \<Rightarrow> string option \<Rightarrow> unit action" where
  "emit_policy_decision E i tool_name input risk mode decision matched_rule =
     emit E (EvPolicyDecision i (Some tool_name) (Some (hash_input input)) (Some risk) (Some mode)
       matched_rule (pd_status decision) (pd_reason decision) (pd_source decision))"

definition bash_command :: "json \<Rightarrow> string" where
  "bash_command input = (case Option.bind (json_get input ''command'') as_str of None \<Rightarrow> [] | Some c \<Rightarrow> c)"

definition network_blocked :: "session \<Rightarrow> string \<Rightarrow> json \<Rightarrow> bool" where
  "network_blocked s tool_name input \<longleftrightarrow>
     (tool_name = ''bash'' \<or> tool_name = ''builtin:bash'') \<and> \<not> tc_allow_network (s_tool_ctx s) \<and>
     \<not> is_audited_local_command (bash_command input)"

definition evaluate_policy :: "env \<Rightarrow> session \<Rightarrow> string \<Rightarrow> string \<Rightarrow> tool_namespace \<Rightarrow> tool_annotations
    \<Rightarrow> json \<Rightarrow> risk_level \<Rightarrow> session_grant option \<Rightarrow> policy_decision action" where
  "evaluate_policy E s i tool_name ns annots input risk grant =
     then_act (emit E (EvPolicyEvaluationStarted i))
     (if network_blocked s tool_name input then
        (let reason = ''Command '' @ [CHR 0x27] @ bash_command input @ [CHR 0x27] @
               '' violates network policy (no network access allowed)'';
             decision = \<lparr>pd_status = Denied, pd_reason = Some reason,
               pd_source = ''policy_violation:network_denied''\<rparr>
         in then_act (emit E (EvPolicyViolation i tool_name reason))
            (then_act (emit_policy_decision E i tool_name input risk (s_mode s) decision
                (Some ''policy_violation:network_denied''))
              (ret decision)))
      else
        (let request = \<lparr>pr_tool_call_id = i, pr_tool_name = tool_name, pr_namespace = ns,
               pr_annotations = annots, pr_input = input, pr_risk = risk, pr_mode = s_mode s,
               pr_working_dir = tc_working_dir (s_tool_ctx s),
               pr_workspace_root = tc_workspace_root (s_tool_ctx s), pr_user_approved = False\<rparr>
         in bind_act (ask (\<lambda>t. e_policy E t request)) (\<lambda>decision_res. case decision_res of
              Inl e \<Rightarrow>
                if e = HCancelled then
                  then_act (emit E (EvPolicyEvaluationCancelled i)) (fail HCancelled)
                else
                  then_act (emit E (EvPolicyEvaluationFailed i (error_to_string e))) (fail e)
            | Inr decision \<Rightarrow>
                then_act (note_effect (PolicyAnswered request decision))
                (let final_decision = (case grant of
                        Some g \<Rightarrow> apply_grant_override decision g tool_name
                      | None \<Rightarrow> decision);
                     matched_rule = (case grant of
                        None \<Rightarrow> pd_source final_decision | Some g \<Rightarrow> sg_matched_rule g)
                 in then_act (emit_policy_decision E i tool_name input risk (s_mode s) final_decision
                       (Some matched_rule))
                     (ret final_decision)))))"

definition find_applicable_grant :: "session_grant list \<Rightarrow> string \<Rightarrow> json \<Rightarrow> risk_level \<Rightarrow> nat
    \<Rightarrow> session_grant option" where
  "find_applicable_grant grants tool_name input risk current_turn =
     find_first (\<lambda>g. covers g tool_name input risk current_turn) (rev grants)"

section \<open>Validation of a batch\<close>

type_synonym ordered_call = "nat \<times> proposed_tool_call"

text \<open>\<open>None\<close> where the source's \<open>expect\<close> panics.\<close>

definition resolve_tool_id :: "string \<Rightarrow> tool_name_mapping list \<Rightarrow> canonical_tool_id option" where
  "resolve_tool_id pname maps = map_option internal_id (find_mapping pname maps)"

definition validate_step :: "env \<Rightarrow> tool_name_mapping list \<Rightarrow> ordered_call
    \<Rightarrow> ordered_call list \<times> tool_result list \<times> string set
    \<Rightarrow> (ordered_call list \<times> tool_result list \<times> string set) action" where
  "validate_step E maps oc st =
     (case oc of (order, call) \<Rightarrow> case st of (validated, denied, seen) \<Rightarrow>
       (case validate_call (e_to_json E) (e_catalog E) maps call seen of (outcome, seen') \<Rightarrow>
         (case outcome of
            None \<Rightarrow> ret (validated @ [(order, call)], denied, seen')
          | Some report \<Rightarrow>
              then_act (emit E (EvToolCallValidationFailed (pc_id call) (pc_name call) report))
                (ret (validated,
                   denied @ [denied_result order (pc_id call) report ''validation_failed''], seen')))))"

definition early_validation :: "env \<Rightarrow> tool_name_mapping list \<Rightarrow> proposed_tool_call list
    \<Rightarrow> (ordered_call list \<times> tool_result list) action" where
  "early_validation E maps calls =
     bind_act (fold_act (validate_step E maps) (List.enumerate 0 calls) ([], [], {}))
       (\<lambda>(validated, denied, seen). ret (validated, denied))"

definition strict_report :: "env \<Rightarrow> proposed_tool_call \<Rightarrow> json \<Rightarrow> string \<Rightarrow> tool_error_report" where
  "strict_report E call sch reason =
     with_repair
       (error_report SchemaMismatch (''Strict schema validation failed for tool '' @ [CHR 0x27] @
          pc_name call @ [CHR 0x27] @ '': '' @ reason))
       (''Provider-strict input contract was not satisfied. Expected schema: '' @
          (case e_to_json E sch of None \<Rightarrow> [] | Some j \<Rightarrow> j))"

definition strict_step :: "env \<Rightarrow> tool_name_mapping list \<Rightarrow> ordered_call
    \<Rightarrow> (nat \<times> string \<times> tool_error_report) list \<Rightarrow> (nat \<times> string \<times> tool_error_report) list action" where
  "strict_step E maps oc denials = (case oc of (order, call) \<Rightarrow>
     (case find_mapping (pc_name call) maps of
        None \<Rightarrow> ret denials
      | Some m \<Rightarrow>
          if strict m \<noteq> Some True then ret denials
          else (case input_schema m of
             None \<Rightarrow> ret denials
           | Some sch \<Rightarrow>
               (case resolve_tool_id (pc_name call) maps of
                  None \<Rightarrow> fail (HPanic ''resolve_tool_id called for a name not in name_mappings'')
                | Some cid \<Rightarrow>
                    (case e_catalog E cid of
                       None \<Rightarrow> ret denials
                     | Some t \<Rightarrow>
                         (case validate_against_strict (pc_input call) sch of
                            Valid \<Rightarrow> ret denials
                          | Panic \<Rightarrow> fail (HPanic ''schema'')
                          | Invalid reason \<Rightarrow>
                              then_act (emit E (EvToolCallValidationFailed (pc_id call) (pc_name call)
                                  (strict_report E call sch reason)))
                                (ret (denials @ [(order, pc_id call, strict_report E call sch reason)]))))))))"

definition drop_denied :: "(nat \<times> string \<times> tool_error_report) list \<Rightarrow> ordered_call list \<Rightarrow> ordered_call list" where
  "drop_denied denials validated =
     foldl (\<lambda>v (order, i, report). filter (\<lambda>(o', c). \<not> (o' = order \<and> pc_id c = i)) v) validated denials"

definition strict_validation :: "env \<Rightarrow> tool_name_mapping list \<Rightarrow> ordered_call list \<times> tool_result list
    \<Rightarrow> (ordered_call list \<times> tool_result list) action" where
  "strict_validation E maps st = (case st of (validated, denied) \<Rightarrow>
     bind_act (fold_act (strict_step E maps) validated []) (\<lambda>denials.
       ret (drop_denied denials validated,
            denied @ map (\<lambda>(order, i, report). denied_result order i report ''validation_failed_strict'') denials)))"

section \<open>Policy evaluation of the validated calls\<close>

type_synonym policy_phase_state = "planned_call list \<times> tool_result list \<times> planned_call list"

definition policy_denied_report :: "policy_decision \<Rightarrow> canonical_tool_id \<Rightarrow> tool_error_report" where
  "policy_denied_report policy cid =
     with_repair
       (error_report PolicyDenied (case pd_reason policy of
            Some r \<Rightarrow> r | None \<Rightarrow> ''policy denied tool call '' @ cid_to_string cid))
       ''If the model should retry, ask the user to allow the action or adjust the policy.''"

definition policy_step :: "env \<Rightarrow> session \<Rightarrow> tool_name_mapping list \<Rightarrow> session_grant list \<Rightarrow> nat
    \<Rightarrow> ordered_call \<Rightarrow> policy_phase_state \<Rightarrow> policy_phase_state action" where
  "policy_step E s maps grants current_turn oc st =
     (case oc of (order, call) \<Rightarrow> case st of (planned, denied, queue) \<Rightarrow>
       (case resolve_tool_id (pc_name call) maps of
          None \<Rightarrow> fail (HPanic ''resolve_tool_id called for a name not in name_mappings'')
        | Some cid \<Rightarrow>
            (case e_catalog E cid of
               None \<Rightarrow> fail (HPanic ''Tool validated but not found in catalog'')
             | Some t \<Rightarrow>
                 (let risk = t_risk t (pc_input call);
                      grant = find_applicable_grant grants (cid_to_string cid) (pc_input call) risk current_turn
                  in bind_act (evaluate_policy E s (pc_id call) (cid_to_string cid) (id_namespace cid)
                          (td_annotations (t_descriptor t)) (pc_input call) risk grant) (\<lambda>policy.
                       let p = \<lparr>pl_order = order, pl_id = pc_id call, pl_cid = cid,
                                pl_input = pc_input call, pl_tool = t, pl_policy = policy\<rparr>
                       in case pd_status policy of
                            Allowed \<Rightarrow> ret (planned @ [p], denied, queue)
                          | Denied \<Rightarrow> ret (planned, denied @ [denied_result order (pc_id call)
                                (policy_denied_report policy cid) (pd_source policy)], queue)
                          | Confirm \<Rightarrow> ret (planned, denied, queue @ [p]))))))"

section \<open>The approval queue\<close>

type_synonym approval_phase_state = "planned_call list \<times> tool_result list \<times> session_grant list"

text \<open>A call refused during approval.\<close>

definition refuse :: "planned_call \<Rightarrow> tool_failure_kind \<Rightarrow> string \<Rightarrow> string \<Rightarrow> string \<Rightarrow> tool_result" where
  "refuse p kind reason repair source =
     denied_result (pl_order p) (pl_id p) (with_repair (error_report kind reason) repair) source"

definition reason_or :: "policy_decision \<Rightarrow> string \<Rightarrow> string" where
  "reason_or policy dflt = (case pd_reason policy of Some r \<Rightarrow> r | None \<Rightarrow> dflt)"

definition approval_outcome_step :: "env \<Rightarrow> session \<Rightarrow> nat \<Rightarrow> nat \<Rightarrow> planned_call \<Rightarrow> approval_decision
    \<Rightarrow> approval_phase_state
    \<Rightarrow> (approval_phase_state \<times> approval_outcome \<times> string option \<times> session_grant option) action" where
  "approval_outcome_step E s current_turn loop_max_turns p approval st =
     (case st of (planned, denied, grants) \<Rightarrow>
       (case approval of
          Approve \<Rightarrow> ret ((planned @ [p], denied, grants), OutApprove, None, None)
        | Deny \<Rightarrow>
            ret ((planned, denied @ [refuse p ApprovalDenied
                   (reason_or (pl_policy p) (''approval denied tool call '' @ cid_to_string (pl_cid p)))
                   ''The user denied the approval. Adjust the request or ask before retrying.''
                   (pd_source (pl_policy p))], grants), OutDeny, None, None)
        | Edit new_input \<Rightarrow>
            (let edited_hash = hash_input new_input;
                 new_risk = t_risk (pl_tool p) new_input
             in bind_act (evaluate_policy E s (pl_id p) (cid_to_string (pl_cid p)) (id_namespace (pl_cid p))
                     (td_annotations (t_descriptor (pl_tool p))) new_input new_risk None) (\<lambda>re.
                  let st' = (case pd_status re of
                      Allowed \<Rightarrow> (planned @ [p\<lparr>pl_input := new_input, pl_policy := re\<rparr>], denied, grants)
                    | Denied \<Rightarrow> (planned, denied @ [refuse p PolicyDenied
                          (reason_or re (''policy denied edited tool call '' @ cid_to_string (pl_cid p)))
                          ''The edited input is still not allowed. Reconsider the approach.''
                          (pd_source re)], grants)
                    | Confirm \<Rightarrow> (planned, denied @ [refuse p ApprovalDenied
                          (''approval edit still requires confirmation for '' @ cid_to_string (pl_cid p))
                          ''Even after the edit, the call still needs approval. Ask the user.''
                          (pd_source re)], grants))
                  in ret (st', OutEdit, Some edited_hash, None)))
        | AlwaysAllowForSession \<Rightarrow>
            (let grant = session_grant_new (cid_to_string (pl_cid p)) (pl_input p)
                   (t_risk (pl_tool p) (pl_input p)) (pd_source (pl_policy p)) (pd_source (pl_policy p))
                   current_turn (max loop_max_turns 1)
             in ret ((planned @ [p], denied, grants @ [grant]), OutAlwaysAllow, None, Some grant))))"

definition approval_step :: "env \<Rightarrow> session \<Rightarrow> nat \<Rightarrow> nat \<Rightarrow> planned_call \<Rightarrow> approval_phase_state
    \<Rightarrow> approval_phase_state action" where
  "approval_step E s current_turn loop_max_turns p st =
     then_act (emit E (EvApprovalRequested (pl_id p) (cid_to_string (pl_cid p)) (pl_input p)
                (t_risk (pl_tool p) (pl_input p))))
     (bind_act (ask (\<lambda>t. e_approve E t (pl_id p) (cid_to_string (pl_cid p)) (pl_input p)
                (t_description (pl_tool p)) (pl_policy p))) (\<lambda>approval_res. case approval_res of
        Inl e \<Rightarrow>
          if e = HCancelled then then_act (emit E (EvApprovalCancelled (pl_id p))) (fail HCancelled)
          else fail e
      | Inr approval \<Rightarrow>
          then_act (note_effect (ApprovalAnswered (pl_id p) (cid_to_string (pl_cid p)) (pl_input p) approval))
          (bind_act (approval_outcome_step E s current_turn loop_max_turns p approval st)
            (\<lambda>(st', outcome, edited_hash, grant_terms).
              then_act (emit E (EvApprovalDecision (pl_id p) outcome (hash_input (pl_input p))
                  edited_hash grant_terms))
                (ret st')))))"

section \<open>Running one tool\<close>

datatype task_step =
    TsRan string string json
  | TsSend agent_event

definition timeout_repair :: string where
  "timeout_repair = ''Retry with the same input; trusted read-only tools retry automatically per their retry policy.''"

definition interrupted_result :: tool_execution_result where
  "interrupted_result = error_with_failure (with_repair
     (error_report FailExecutionFailed ''tool execution interrupted by user'')
     ''The user cancelled execution. Wait for further instructions before retrying.'')"

fun tool_error_report_of :: "tool_error \<Rightarrow> tool_error_report" where
  "tool_error_report_of (TeTimeout nm secs) =
     with_repair (error_report FailTimeout (''tool timed out after '' @ dec secs @ ''s: '' @ nm)) timeout_repair"
| "tool_error_report_of (TeNotFound nm) = error_report ToolNotFound (''tool not found: '' @ nm)"
| "tool_error_report_of (TeInvalidInput nm reason) =
     error_report InvalidArguments (''invalid input for '' @ nm @ '': '' @ reason)"
| "tool_error_report_of (TeOutputTooLarge nm limit) =
     error_report FailExecutionFailed (''output too large for '' @ nm @ '': exceeded '' @ dec limit @ '' bytes'')"
| "tool_error_report_of (TePathNotAllowed p) = error_report FailExecutionFailed (''path not allowed: '' @ p)"
| "tool_error_report_of (TeNetworkDenied m) = error_report FailExecutionFailed (''network denied: '' @ m)"
| "tool_error_report_of (TeDenied m) = error_report PolicyDenied m"
| "tool_error_report_of (TeExecutionFailed io) = error_report FailExecutionFailed (''execution failed: '' @ io)"

definition execute_tool :: "env \<Rightarrow> tool \<Rightarrow> json \<Rightarrow> tool_context \<Rightarrow> string
    \<Rightarrow> (tool_execution_result \<times> task_step list) action" where
  "execute_tool E t input ctx i =
     bind_act (ask (\<lambda>tk. (tk, e_execute E tk t input ctx))) (\<lambda>(tk, fut).
       ret (case fut of
              ToolDone (Inr out) \<Rightarrow> e_materialize E tk t out False ctx i
            | ToolDone (Inl err) \<Rightarrow> error_with_failure (tool_error_report_of err)
            | ToolElapsed \<Rightarrow> error_with_failure (with_repair
                (error_report FailTimeout (''tool timed out after '' @ dec (tc_timeout_secs ctx) @ ''s: '' @ t_name t))
                timeout_repair)
            | ToolCancelled \<Rightarrow> interrupted_result,
            [TsRan i (t_name t) input]))"

definition failure_kind_of :: "tool_execution_result \<Rightarrow> tool_failure_kind" where
  "failure_kind_of r = (case xr_failure r of None \<Rightarrow> FailExecutionFailed | Some f \<Rightarrow> er_kind f)"

definition can_retry :: "nat \<Rightarrow> tool_retry_policy \<Rightarrow> tool_descriptor \<Rightarrow> tool_execution_result \<Rightarrow> bool" where
  "can_retry attempt policy d result \<longleftrightarrow>
     attempt < max_retries policy \<and> get_trusted_bool (td_annotations d) ''idempotent'' \<and>
     get_trusted_bool (td_annotations d) ''read_only'' \<and> is_transient (failure_kind_of result)"

text \<open>\<open>execute_tool_with_retry\<close>, from its loop head; the retry events it sends are steps.\<close>

function retry_loop :: "env \<Rightarrow> tool \<Rightarrow> json \<Rightarrow> tool_context \<Rightarrow> string \<Rightarrow> tool_retry_policy option
    \<Rightarrow> tool_descriptor \<Rightarrow> nat \<Rightarrow> task_step list \<Rightarrow> (tool_execution_result \<times> task_step list) action" where
  "retry_loop E t input ctx i rp d attempt steps =
     bind_act (execute_tool E t input ctx i) (\<lambda>(result, ran).
       if \<not> xr_is_error result then ret (result, steps @ ran)
       else case rp of
           None \<Rightarrow> ret (result, steps @ ran)
         | Some policy \<Rightarrow>
             if \<not> can_retry attempt policy d result then ret (result, steps @ ran)
             else bind_act (select_cancel E) (\<lambda>c.
                 let sent = steps @ ran @ [TsSend (EvToolRetryAttempt i (attempt + 1) (xr_content result) (backoff_ms policy))]
                 in if c then ret (interrupted_result, sent)
                    else retry_loop E t input ctx i rp d (attempt + 1) sent))"
  by pat_completeness auto
termination
  by (relation "measure (\<lambda>(E, t, input, ctx, i, rp, d, attempt, steps).
        case rp of None \<Rightarrow> 0 | Some policy \<Rightarrow> max_retries policy - attempt)")
    (auto simp: can_retry_def)

declare retry_loop.simps [simp del]

definition execute_tool_with_retry :: "env \<Rightarrow> tool \<Rightarrow> json \<Rightarrow> tool_context \<Rightarrow> string
    \<Rightarrow> (tool_execution_result \<times> task_step list) action" where
  "execute_tool_with_retry E t input ctx i =
     (let d = t_descriptor t in retry_loop E t input ctx i (td_retry_policy d) d 0 [])"

section \<open>Execution of the planned calls\<close>

definition flush_trace_sink :: "env \<Rightarrow> unit action" where
  "flush_trace_sink E = (case e_flush E of
       None \<Rightarrow> ret ()
     | Some flush \<Rightarrow> bind_act (ask flush) (\<lambda>r. case r of
           None \<Rightarrow> ret ()
         | Some err \<Rightarrow> emit E (EvError (''trace flush failed: '' @ trace_error_to_string err) True)))"

definition emit_tool_hooks_before :: "env \<Rightarrow> session \<Rightarrow> string \<Rightarrow> json \<Rightarrow> unit action" where
  "emit_tool_hooks_before E s tool_name input =
     for_act (\<lambda>h. run_hook E (ret ()) ''tool'' ''before_tool_execution'' ''ToolHook.before_tool_execution''
         (\<lambda>t. before_tool_execution h t s tool_name input) (emit E))
       (tool_hooks (e_hooks E))"

definition call_context :: "session \<Rightarrow> string \<Rightarrow> tool_context" where
  "call_context s i = (s_tool_ctx s)\<lparr>tc_current_tool_call_id := Some i\<rparr>"

definition call_session :: "session \<Rightarrow> string \<Rightarrow> session" where
  "call_session s i = s\<lparr>s_tool_ctx := call_context s i\<rparr>"

definition emit_started :: "env \<Rightarrow> planned_call \<times> tool_context \<Rightarrow> string option \<Rightarrow> bool \<Rightarrow> unit action" where
  "emit_started E pc grp parallel_safe = (case pc of (p, ctx) \<Rightarrow>
     emit E (EvToolExecutionStarted (pl_id p) (cid_to_string (pl_cid p)) (hash_input (pl_input p))
       (pd_source (pl_policy p)) (tc_working_dir ctx) grp parallel_safe))"

definition u64_max :: nat where
  "u64_max = 2 ^ 64 - 1"

definition elapsed_ms :: "env \<Rightarrow> nat action" where
  "elapsed_ms E = ask (\<lambda>t. min (e_elapsed_ms E t) u64_max)"

text \<open>One future of a parallel group: its result, and the steps it takes.\<close>

definition run_task :: "env \<Rightarrow> planned_call \<times> tool_context \<Rightarrow> (tool_result \<times> task_step list) action" where
  "run_task E pc = (case pc of (p, ctx) \<Rightarrow>
     bind_act (execute_tool_with_retry E (pl_tool p) (pl_input p) ctx (pl_id p)) (\<lambda>(result, steps).
       bind_act (elapsed_ms E) (\<lambda>duration.
         ret ((pl_order p, pl_id p, result, duration, pd_source (pl_policy p)), steps))))"

text \<open>
  An interleaving of the tasks' steps: every entry of the schedule lets the task it names,
  counting modulo the tasks, take its next step; what is left runs in order.
\<close>

fun interleave :: "nat list \<Rightarrow> 'a list list \<Rightarrow> 'a list" where
  "interleave [] qs = concat qs"
| "interleave (k # ks) qs =
     (if qs = [] then []
      else let j = k mod length qs in
        (case qs ! j of
           [] \<Rightarrow> interleave ks qs
         | x # xs \<Rightarrow> x # interleave ks (qs[j := xs])))"

definition task_step_act :: "env \<Rightarrow> task_step \<Rightarrow> unit action" where
  "task_step_act E st = (case st of
       TsRan i nm input \<Rightarrow> note_effect (Ran i nm input)
     | TsSend ev \<Rightarrow> emit E ev)"

definition guarded_step :: "env \<Rightarrow> task_step \<Rightarrow> unit action" where
  "guarded_step E st = bind_act (select_cancel E) (\<lambda>c.
     if c then fail HCancelled else task_step_act E st)"

definition run_parallel :: "env \<Rightarrow> string \<Rightarrow> (planned_call \<times> tool_context) list
    \<Rightarrow> tool_result list \<Rightarrow> tool_result list action" where
  "run_parallel E grp current results =
     (if current = [] then ret results
      else then_act (for_act (\<lambda>pc. emit_started E pc (Some grp) True) current)
        (then_act (flush_trace_sink E)
          (bind_act (fold_act (\<lambda>pc acc. bind_act (run_task E pc) (\<lambda>r. ret (acc @ [r]))) current [])
            (\<lambda>outs. bind_act (ask (e_schedule E)) (\<lambda>sched.
              then_act (for_act (guarded_step E) (interleave sched (map snd outs)))
                (bind_act (select_cancel E) (\<lambda>c.
                  if c then fail HCancelled else ret (results @ map fst outs))))))))"

definition is_send :: "task_step \<Rightarrow> bool" where
  "is_send st = (case st of TsSend ev \<Rightarrow> True | TsRan i nm input \<Rightarrow> False)"

text \<open>A call on its own: its retry events wait in the channel until the call has returned.\<close>

definition run_sequential :: "env \<Rightarrow> session \<Rightarrow> planned_call \<Rightarrow> tool_result list \<Rightarrow> tool_result list action" where
  "run_sequential E s p results =
     then_act (emit_tool_hooks_before E (call_session s (pl_id p)) (cid_to_string (pl_cid p)) (pl_input p))
     (then_act (emit_started E (p, call_context s (pl_id p)) None False)
     (then_act (flush_trace_sink E)
     (bind_act (execute_tool_with_retry E (pl_tool p) (pl_input p) (call_context s (pl_id p)) (pl_id p))
       (\<lambda>(result, steps).
         then_act (for_act (task_step_act E) (filter (\<lambda>st. \<not> is_send st) steps))
         (bind_act (select_cancel E) (\<lambda>c.
           if c then fail HCancelled
           else then_act (for_act (task_step_act E) (filter is_send steps))
             (bind_act (elapsed_ms E) (\<lambda>duration.
               ret (results @ [(pl_order p, pl_id p, result, duration, pd_source (pl_policy p))])))))))))"

type_synonym execution_state = "tool_result list \<times> (planned_call \<times> tool_context) list"

definition execution_step :: "env \<Rightarrow> session \<Rightarrow> planned_call \<Rightarrow> execution_state \<Rightarrow> execution_state action" where
  "execution_step E s p st = (case st of (results, current) \<Rightarrow>
     if t_parallel (pl_tool p) (pl_input p) then
       then_act (emit_tool_hooks_before E (call_session s (pl_id p)) (cid_to_string (pl_cid p)) (pl_input p))
         (ret (results, current @ [(p, call_context s (pl_id p))]))
     else bind_act (run_parallel E ''group-1'' current results) (\<lambda>results'.
       bind_act (run_sequential E s p results') (\<lambda>results''. ret (results'', []))))"

definition execute_planned :: "env \<Rightarrow> session \<Rightarrow> planned_call list \<Rightarrow> tool_result list \<Rightarrow> tool_result list action" where
  "execute_planned E s planned denied =
     bind_act (fold_act (execution_step E s) planned (denied, [])) (\<lambda>(results, current).
       run_parallel E ''group-2'' current results)"

section \<open>The batch\<close>

definition execute_tool_batch :: "env \<Rightarrow> session \<Rightarrow> proposed_tool_call list \<Rightarrow> tool_name_mapping list
    \<Rightarrow> session_grant list \<Rightarrow> nat \<Rightarrow> nat \<Rightarrow> (tool_result list \<times> session_grant list) action" where
  "execute_tool_batch E s calls maps grants current_turn loop_max_turns =
     bind_act (early_validation E maps calls) (\<lambda>checked.
     bind_act (strict_validation E maps checked) (\<lambda>(validated, denied).
     bind_act (fold_act (policy_step E s maps grants current_turn) validated ([], denied, []))
       (\<lambda>(planned, denied', queue).
     bind_act (fold_act (approval_step E s current_turn loop_max_turns) queue (planned, denied', grants))
       (\<lambda>(planned', denied'', grants').
     bind_act (execute_planned E s planned' denied'') (\<lambda>results.
       ret (sort_key fst results, grants'))))))"

end
