(* ===== verification/Executor_Safety.thy ===== *)
theory Executor_Safety
  imports Executor "HOL-Library.Sublist"
begin

text \<open>
  The safety of the executor. Invariants of the trace that consultations cannot break are
  kept by every phase before execution; a call is planned only when it is cleared, that is,
  the policy engine was asked about exactly this call and allowed it, or asked for
  confirmation and an approval or a covering session grant exists; and only planned calls
  are run. Being cleared only looks at the past, so the invariant of the batch is that
  every run in the trace is cleared by what precedes it.
\<close>

section \<open>Consultations\<close>

locale consult_invariant = trace_invariant +
  assumes policy_ok: "I w \<Longrightarrow> I (w\<lparr>w_trace := w_trace w @ [PolicyAnswered req d]\<rparr>)"
    and approval_ok: "I w \<Longrightarrow> I (w\<lparr>w_trace := w_trace w @ [ApprovalAnswered i nm input a]\<rparr>)"
begin

lemma keeps_note_consult:
  "keeps I (note_effect (PolicyAnswered req d))" "keeps I (note_effect (ApprovalAnswered i nm input a))"
  by (intro keepsI; simp add: policy_ok approval_ok)+

lemma keeps_evaluate_policy: "keeps I (evaluate_policy E s i tn ns an input risk grant)"
  unfolding evaluate_policy_def Let_def emit_policy_decision_def
  by (auto intro!: keeps_then keeps_bind keeps_emit keeps_ask keeps_note_consult split: sum.splits)

lemma keeps_early_validation: "keeps I (early_validation E maps calls)"
  unfolding early_validation_def validate_step_def
  by (intro keeps_bind keeps_fold) (auto intro!: keeps_then keeps_emit split: prod.splits option.splits)

lemma keeps_strict_validation: "keeps I (strict_validation E maps st)"
  unfolding strict_validation_def strict_step_def
  by (cases st) (auto intro!: keeps_then keeps_bind keeps_fold keeps_emit split: prod.splits option.splits validation.splits)

lemma keeps_policy_step: "keeps I (policy_step E s maps grants t oc st)"
  unfolding policy_step_def Let_def
  by (cases oc; cases st) (auto intro!: keeps_bind keeps_evaluate_policy split: option.splits policy_status.splits)

lemma keeps_approval_step: "keeps I (approval_step E s t mx p st)"
  unfolding approval_step_def approval_outcome_step_def Let_def
  by (cases st) (auto intro!: keeps_then keeps_bind keeps_ask keeps_emit keeps_note_consult keeps_evaluate_policy
      split: sum.splits approval_decision.splits)

lemma keeps_flush: "keeps I (flush_trace_sink E)"
  unfolding flush_trace_sink_def
  by (auto intro!: keeps_bind keeps_ask keeps_emit split: option.splits)

lemma keeps_hooks_before: "keeps I (emit_tool_hooks_before E s nm input)"
  unfolding emit_tool_hooks_before_def
  by (intro keeps_for keeps_run_hook keeps_emit keeps_ret)

lemma keeps_emit_started: "keeps I (emit_started E pc grp ps)"
  unfolding emit_started_def by (cases pc) (simp add: keeps_emit)

lemma keeps_retry_loop: "keeps I (retry_loop E t input ctx i rp d attempt steps)"
proof (induction "case rp of None \<Rightarrow> 0 | Some policy \<Rightarrow> max_retries policy - attempt"
    arbitrary: attempt steps rule: less_induct)
  case less
  have "keeps I (retry_loop E t input ctx i (Some policy) d (Suc attempt) steps')"
    if "rp = Some policy" "can_retry attempt policy d r" for policy r steps'
    using less [of "Suc attempt" steps'] that by (simp add: can_retry_def diff_less_mono2)
  then show ?case
    by (subst retry_loop.simps)
      (auto intro!: keeps_bind keeps_ask simp: execute_tool_def select_cancel_def Let_def
        split: option.splits prod.splits)
qed

lemma keeps_run_task: "keeps I (run_task E pc)"
  unfolding run_task_def execute_tool_with_retry_def elapsed_ms_def Let_def
  by (cases pc) (auto intro!: keeps_bind keeps_ask keeps_retry_loop)

end

interpretation consult_growth: consult_invariant "extends_trace tr"
  by unfold_locales (auto simp: extends_trace_def)

lemma keeps_growth_note [simp]: "keeps (extends_trace tr) (note_effect x)"
  by (rule keepsI) (auto simp: extends_trace_def)

section \<open>Clearance\<close>

text \<open>What has happened since the trace was \<open>tr0\<close>.\<close>

definition since :: "effect list \<Rightarrow> world \<Rightarrow> effect list" where
  "since tr0 w = drop (length tr0) (w_trace w)"

lemma extends_grows: "extends_trace tr0 w \<Longrightarrow> grows w w' \<Longrightarrow> extends_trace tr0 w'"
  by (auto simp: grows_def extends_trace_def)

lemma since_grows: "extends_trace tr0 w \<Longrightarrow> grows w w' \<Longrightarrow> \<exists>xs. since tr0 w' = since tr0 w @ xs"
  by (auto simp: grows_def extends_trace_def since_def)

lemma since_mono: "extends_trace tr0 w \<Longrightarrow> grows w w' \<Longrightarrow> set (since tr0 w) \<subseteq> set (since tr0 w')"
  using since_grows by fastforce

lemma since_tick [simp]: "since tr0 (w\<lparr>w_tick := t\<rparr>) = since tr0 w"
  by (simp add: since_def)

lemma since_note: "extends_trace tr0 w \<Longrightarrow> since tr0 (w\<lparr>w_trace := w_trace w @ xs\<rparr>) = since tr0 w @ xs"
  by (auto simp: extends_trace_def since_def)

text \<open>The policy engine was asked about this call and answered \<open>d\<close>.\<close>

definition asked :: "effect list \<Rightarrow> session \<Rightarrow> string \<Rightarrow> string \<Rightarrow> json \<Rightarrow> risk_level \<Rightarrow> policy_decision \<Rightarrow> bool" where
  "asked tr s i tn input risk d \<longleftrightarrow>
     (\<exists>req. PolicyAnswered req d \<in> set tr \<and> pr_tool_call_id req = i \<and> pr_tool_name req = tn \<and>
        pr_input req = input \<and> pr_risk req = risk \<and> pr_mode req = s_mode s)"

text \<open>
  A call may run: its tool is the catalogue's, the network rule does not block it, the
  policy engine was asked about this very call, and it either allowed it or wanted a
  confirmation that the user gave or a session grant covers.
\<close>

definition confirmed :: "session_grant list \<Rightarrow> nat \<Rightarrow> effect list \<Rightarrow> string \<Rightarrow> string \<Rightarrow> json \<Rightarrow> risk_level \<Rightarrow> bool" where
  "confirmed G turn tr i tn input risk \<longleftrightarrow>
     ApprovalAnswered i tn input Approve \<in> set tr \<or>
     ApprovalAnswered i tn input AlwaysAllowForSession \<in> set tr \<or>
     (\<exists>g \<in> set G. covers g tn input risk turn)"

definition cleared :: "env \<Rightarrow> session \<Rightarrow> session_grant list \<Rightarrow> nat \<Rightarrow> effect list \<Rightarrow> canonical_tool_id
    \<Rightarrow> tool \<Rightarrow> string \<Rightarrow> json \<Rightarrow> bool" where
  "cleared E s G turn tr cid t i input \<longleftrightarrow>
     e_catalog E cid = Some t \<and> \<not> network_blocked s (cid_to_string cid) input \<and>
     (\<exists>d. asked tr s i (cid_to_string cid) input (t_risk t input) d \<and>
        (pd_status d = Allowed \<or>
         pd_status d = Confirm \<and> confirmed G turn tr i (cid_to_string cid) input (t_risk t input)))"

lemma asked_mono: "asked tr s i tn input risk d \<Longrightarrow> set tr \<subseteq> set tr' \<Longrightarrow> asked tr' s i tn input risk d"
  unfolding asked_def by blast

lemma confirmed_mono: "confirmed G turn tr i tn input risk \<Longrightarrow> set tr \<subseteq> set tr' \<Longrightarrow> confirmed G turn tr' i tn input risk"
  unfolding confirmed_def by blast

lemma cleared_mono:
  "cleared E s G turn tr cid t i input \<Longrightarrow> set tr \<subseteq> set tr' \<Longrightarrow> cleared E s G turn tr' cid t i input"
  unfolding cleared_def using asked_mono confirmed_mono by meson

lemma override_status:
  "pd_status (apply_grant_override d g tn) = (if pd_status d = Denied then Denied else Allowed)"
  by (cases "pd_status d") (simp_all add: apply_grant_override_def Let_def)

definition with_grant :: "session_grant option \<Rightarrow> string \<Rightarrow> policy_decision \<Rightarrow> policy_decision" where
  "with_grant grant tn d = (case grant of None \<Rightarrow> d | Some g \<Rightarrow> apply_grant_override d g tn)"

context consult_invariant
begin

lemma wp_evaluate_policy:
  assumes "I w" "extends_trace tr0 w"
  shows "wp (evaluate_policy E s i tn ns an input risk grant)
    (\<lambda>d w'. I w' \<and> grows w w' \<and>
       (if network_blocked s tn input then pd_status d = Denied
        else \<exists>d0. asked (since tr0 w') s i tn input risk d0 \<and> d = with_grant grant tn d0))
    (\<lambda>e w'. I w' \<and> grows w w') w"
proof (cases "network_blocked s tn input")
  case True
  show ?thesis unfolding evaluate_policy_def Let_def emit_policy_decision_def using assms True
    by (auto intro!: wp_emit) (meson grows_trans)+
next
  case False
  show ?thesis unfolding evaluate_policy_def Let_def emit_policy_decision_def wp_then
  proof (rule wp_emit [OF assms(1)], goal_cases)
    case (1 w1)
    let ?req = "\<lparr>pr_tool_call_id = i, pr_tool_name = tn, pr_namespace = ns,
               pr_annotations = an, pr_input = input, pr_risk = risk, pr_mode = s_mode s,
               pr_working_dir = tc_working_dir (s_tool_ctx s),
               pr_workspace_root = tc_workspace_root (s_tool_ctx s), pr_user_approved = False\<rparr>"
    let ?w2 = "w1\<lparr>w_tick := Suc (w_tick w1)\<rparr>"
    have w2: "I ?w2" "grows w ?w2" using 1 by (simp_all add: tick_ok)
    show ?case
    proof (cases "e_policy E (w_tick w1) ?req")
      case (Inl e)
      then show ?thesis using False w2 by (auto intro!: wp_emit) (meson grows_trans)+
    next
      case (Inr d)
      let ?w3 = "?w2\<lparr>w_trace := w_trace ?w2 @ [PolicyAnswered ?req d]\<rparr>"
      have w3: "I ?w3" "grows w ?w3"
        using policy_ok [OF w2(1), of ?req d] grows_note [OF w2(2), of "[PolicyAnswered ?req d]"] by simp_all
      have x2: "extends_trace tr0 ?w2" using extends_grows [OF assms(2) w2(2)] .
      have "asked (since tr0 ?w3) s i tn input risk d"
        unfolding since_note [OF x2] asked_def by (intro exI [of _ ?req]) simp
      then have "\<exists>d0. asked (since tr0 w') s i tn input risk d0 \<and>
          (case grant of None \<Rightarrow> d | Some g \<Rightarrow> apply_grant_override d g tn) = with_grant grant tn d0"
        if "grows ?w3 w'" for w'
        using since_mono [OF extends_grows [OF assms(2) w3(2)] that] asked_mono
        unfolding with_grant_def by blast
      then show ?thesis using False Inr w3
        by (auto intro!: wp_emit) (meson grows_trans)+
    qed
  qed (use assms in auto)
qed

end

section \<open>Planning\<close>

definition planned_ok :: "env \<Rightarrow> session \<Rightarrow> session_grant list \<Rightarrow> nat \<Rightarrow> effect list \<Rightarrow> planned_call \<Rightarrow> bool" where
  "planned_ok E s G turn tr p \<longleftrightarrow> cleared E s G turn tr (pl_cid p) (pl_tool p) (pl_id p) (pl_input p)"

definition queued_ok :: "env \<Rightarrow> session \<Rightarrow> effect list \<Rightarrow> planned_call \<Rightarrow> bool" where
  "queued_ok E s tr p \<longleftrightarrow>
     e_catalog E (pl_cid p) = Some (pl_tool p) \<and>
     \<not> network_blocked s (cid_to_string (pl_cid p)) (pl_input p) \<and>
     asked tr s (pl_id p) (cid_to_string (pl_cid p)) (pl_input p) (t_risk (pl_tool p) (pl_input p)) (pl_policy p) \<and>
     pd_status (pl_policy p) = Confirm"

text \<open>A grant is what an \<open>AlwaysAllowForSession\<close> of this turn made.\<close>

definition grant_made :: "env \<Rightarrow> nat \<Rightarrow> nat \<Rightarrow> effect list \<Rightarrow> session_grant \<Rightarrow> bool" where
  "grant_made E turn mx tr g \<longleftrightarrow>
     (\<exists>cid t i input src. e_catalog E cid = Some t \<and>
        ApprovalAnswered i (cid_to_string cid) input AlwaysAllowForSession \<in> set tr \<and>
        g = session_grant_new (cid_to_string cid) input (t_risk t input) src src turn (max mx 1))"

lemma planned_ok_mono: "planned_ok E s G turn tr p \<Longrightarrow> set tr \<subseteq> set tr' \<Longrightarrow> planned_ok E s G turn tr' p"
  unfolding planned_ok_def by (rule cleared_mono)

lemma queued_ok_mono: "queued_ok E s tr p \<Longrightarrow> set tr \<subseteq> set tr' \<Longrightarrow> queued_ok E s tr' p"
  unfolding queued_ok_def using asked_mono by meson

lemma grant_made_mono: "grant_made E turn mx tr g \<Longrightarrow> set tr \<subseteq> set tr' \<Longrightarrow> grant_made E turn mx tr' g"
  unfolding grant_made_def by blast

lemma find_applicable_grant_Some:
  "find_applicable_grant G tn input risk turn = Some g \<Longrightarrow> g \<in> set G \<and> covers g tn input risk turn"
  unfolding find_applicable_grant_def using find_first_SomeD by fastforce

lemma answer_allowed:
  assumes "asked tr s i (cid_to_string cid) input (t_risk t input) d0"
    and "pd_status (with_grant (find_applicable_grant G (cid_to_string cid) input (t_risk t input) turn)
           (cid_to_string cid) d0) = Allowed"
    and "e_catalog E cid = Some t" "\<not> network_blocked s (cid_to_string cid) input"
  shows "cleared E s G turn tr cid t i input"
proof (cases "find_applicable_grant G (cid_to_string cid) input (t_risk t input) turn")
  case None
  then show ?thesis using assms unfolding cleared_def with_grant_def by auto
next
  case (Some g)
  then have "pd_status d0 \<noteq> Denied" using assms(2) by (auto simp: with_grant_def override_status split: if_splits)
  then have "pd_status d0 = Allowed \<or> pd_status d0 = Confirm" by (cases "pd_status d0") auto
  moreover have "confirmed G turn tr i (cid_to_string cid) input (t_risk t input)"
    using find_applicable_grant_Some [OF Some] unfolding confirmed_def by blast
  ultimately show ?thesis using assms(1,3,4) unfolding cleared_def by blast
qed

lemma answer_confirm:
  "pd_status (with_grant grant tn d) = Confirm \<Longrightarrow> with_grant grant tn d = d"
  by (cases grant) (auto simp: with_grant_def override_status split: if_splits)

text \<open>The states of the two phases, seen from the trace.\<close>

definition policy_state_ok :: "env \<Rightarrow> session \<Rightarrow> session_grant list \<Rightarrow> nat \<Rightarrow> effect list
    \<Rightarrow> policy_phase_state \<Rightarrow> bool" where
  "policy_state_ok E s G turn tr st \<longleftrightarrow>
     (case st of (planned, denied, queue) \<Rightarrow>
       (\<forall>p \<in> set planned. planned_ok E s G turn tr p) \<and> (\<forall>p \<in> set queue. queued_ok E s tr p))"

definition approval_state_ok :: "env \<Rightarrow> session \<Rightarrow> session_grant list \<Rightarrow> nat \<Rightarrow> nat \<Rightarrow> effect list
    \<Rightarrow> approval_phase_state \<Rightarrow> bool" where
  "approval_state_ok E s G turn mx tr st \<longleftrightarrow>
     (case st of (planned, denied, grants) \<Rightarrow>
       (\<forall>p \<in> set planned. planned_ok E s G turn tr p) \<and>
       (\<exists>made. grants = G @ made \<and> (\<forall>g \<in> set made. grant_made E turn mx tr g)))"

lemma policy_state_ok_mono:
  "policy_state_ok E s G turn tr st \<Longrightarrow> set tr \<subseteq> set tr' \<Longrightarrow> policy_state_ok E s G turn tr' st"
  by (cases st) (auto simp: policy_state_ok_def intro: planned_ok_mono queued_ok_mono)

lemma approval_state_ok_mono:
  "approval_state_ok E s G turn mx tr st \<Longrightarrow> set tr \<subseteq> set tr' \<Longrightarrow> approval_state_ok E s G turn mx tr' st"
  by (cases st) (fastforce simp: approval_state_ok_def intro: planned_ok_mono grant_made_mono)

context consult_invariant
begin

lemma wp_policy_step:
  assumes "I w" "extends_trace tr0 w" "policy_state_ok E s G turn (since tr0 w) st"
  shows "wp (policy_step E s maps G turn oc st)
    (\<lambda>st' w'. I w' \<and> extends_trace tr0 w' \<and> policy_state_ok E s G turn (since tr0 w') st')
    (\<lambda>e w'. I w') w"
proof -
  obtain order call planned denied queue where oc: "oc = (order, call)" "st = (planned, denied, queue)"
    by (cases oc; cases st) auto
  show ?thesis
  proof (cases "resolve_tool_id (pc_name call) maps")
    case None
    then show ?thesis using assms by (simp add: oc policy_step_def)
  next
    case (Some cid)
    show ?thesis
    proof (cases "e_catalog E cid")
      case None
      then show ?thesis using assms Some by (simp add: oc policy_step_def)
    next
      case (Some t)
      let ?risk = "t_risk t (pc_input call)"
      let ?g = "find_applicable_grant G (cid_to_string cid) (pc_input call) ?risk turn"
      show ?thesis
        unfolding oc policy_step_def prod.case Let_def \<open>resolve_tool_id _ _ = _\<close> Some option.case wp_bind
      proof (rule wp_conseq [OF wp_evaluate_policy [OF assms(1,2)]], goal_cases)
        case (1 d w')
        have st': "policy_state_ok E s G turn (since tr0 w') st"
          using assms(3) policy_state_ok_mono since_mono [OF assms(2)] 1 by blast
        have x: "extends_trace tr0 w'" using extends_grows [OF assms(2)] 1 by blast
        show ?case
        proof (cases "pd_status d")
          case Denied
          then show ?thesis using 1 st' x by (simp add: oc policy_state_ok_def)
        next
          case Allowed
          then have "cleared E s G turn (since tr0 w') cid t (pc_id call) (pc_input call)"
            using 1 answer_allowed [OF _ _ \<open>e_catalog E cid = Some t\<close>] by (auto split: if_splits)
          then show ?thesis using Allowed 1 st' x by (simp add: oc policy_state_ok_def planned_ok_def)
        next
          case Confirm
          then obtain d0 where d0: "asked (since tr0 w') s (pc_id call) (cid_to_string cid) (pc_input call) ?risk d0"
            "d = with_grant ?g (cid_to_string cid) d0" "\<not> network_blocked s (cid_to_string cid) (pc_input call)"
            using 1 by (auto split: if_splits)
          then have "d = d0" using Confirm answer_confirm by metis
          then show ?thesis using Confirm 1 st' x d0 Some by (simp add: oc policy_state_ok_def queued_ok_def)
        qed
      qed simp
    qed
  qed
qed

end

lemma approved_planned_ok:
  assumes "queued_ok E s tr p"
    and "ApprovalAnswered (pl_id p) (cid_to_string (pl_cid p)) (pl_input p) a \<in> set tr"
    and "a = Approve \<or> a = AlwaysAllowForSession"
  shows "planned_ok E s G turn tr p"
  using assms unfolding planned_ok_def queued_ok_def cleared_def confirmed_def by blast

context consult_invariant
begin

lemma wp_approval_outcome:
  assumes "I w" "extends_trace tr0 w" "approval_state_ok E s G turn mx (since tr0 w) st"
    and "queued_ok E s (since tr0 w) p"
    and "ApprovalAnswered (pl_id p) (cid_to_string (pl_cid p)) (pl_input p) a \<in> set (since tr0 w)"
  shows "wp (approval_outcome_step E s turn mx p a st)
    (\<lambda>r w'. I w' \<and> extends_trace tr0 w' \<and> approval_state_ok E s G turn mx (since tr0 w') (fst r))
    (\<lambda>e w'. I w') w"
proof -
  obtain planned denied grants where st: "st = (planned, denied, grants)" by (cases st) auto
  have cat: "e_catalog E (pl_cid p) = Some (pl_tool p)" using assms(4) by (simp add: queued_ok_def)
  show ?thesis
  proof (cases a)
    case Approve
    then show ?thesis using assms approved_planned_ok [OF assms(4,5), of G turn]
      by (auto simp: approval_outcome_step_def st approval_state_ok_def)
  next
    case Deny
    then show ?thesis using assms by (auto simp: approval_outcome_step_def st approval_state_ok_def)
  next
    case AlwaysAllowForSession
    have "grant_made E turn mx (since tr0 w)
        (session_grant_new (cid_to_string (pl_cid p)) (pl_input p) (t_risk (pl_tool p) (pl_input p))
          (pd_source (pl_policy p)) (pd_source (pl_policy p)) turn (max mx 1))"
      using cat assms(5) AlwaysAllowForSession unfolding grant_made_def by blast
    then show ?thesis using AlwaysAllowForSession assms approved_planned_ok [OF assms(4,5), of G turn]
      by (auto simp: approval_outcome_step_def st approval_state_ok_def Let_def)
  next
    case (Edit new_input)
    show ?thesis
      unfolding st approval_outcome_step_def prod.case Let_def Edit approval_decision.case wp_bind
    proof (rule wp_conseq [OF wp_evaluate_policy [OF assms(1,2)]], goal_cases)
      case (1 d w')
      have st': "approval_state_ok E s G turn mx (since tr0 w') st"
        using assms(3) approval_state_ok_mono since_mono [OF assms(2)] 1 by blast
      have x: "extends_trace tr0 w'" using extends_grows [OF assms(2)] 1 by blast
      have "planned_ok E s G turn (since tr0 w') (p\<lparr>pl_input := new_input, pl_policy := d\<rparr>)"
        if "pd_status d = Allowed"
        using that 1 cat by (auto simp: planned_ok_def cleared_def with_grant_def split: if_splits)
      then show ?case using 1 st' x
        by (cases "pd_status d") (simp_all add: approval_state_ok_def st)
    qed simp
  qed
qed

lemma wp_approval_step:
  assumes "I w" "extends_trace tr0 w" "approval_state_ok E s G turn mx (since tr0 w) st"
    and "queued_ok E s (since tr0 w) p"
  shows "wp (approval_step E s turn mx p st)
    (\<lambda>st' w'. I w' \<and> grows w w' \<and> approval_state_ok E s G turn mx (since tr0 w') st')
    (\<lambda>e w'. I w') w"
proof -
  have "wp (approval_step E s turn mx p st)
    (\<lambda>st' w'. I w' \<and> approval_state_ok E s G turn mx (since tr0 w') st') (\<lambda>e w'. I w') w"
    unfolding approval_step_def wp_then wp_bind wp_ask wp_case_sum
  proof (rule wp_emit [OF assms(1)], goal_cases)
    case (1 w1)
    let ?w2 = "w1\<lparr>w_tick := Suc (w_tick w1)\<rparr>"
    have w2: "I ?w2" "grows w ?w2" "extends_trace tr0 ?w2"
      using 1 extends_grows [OF assms(2)] by (simp_all add: tick_ok)
    show ?case
    proof (cases "e_approve E (w_tick w1) (pl_id p) (cid_to_string (pl_cid p)) (pl_input p)
                (t_description (pl_tool p)) (pl_policy p)")
      case (Inl e)
      then show ?thesis using w2 by (auto intro!: wp_emit)
    next
      case (Inr a)
      let ?x = "ApprovalAnswered (pl_id p) (cid_to_string (pl_cid p)) (pl_input p) a"
      let ?w3 = "?w2\<lparr>w_trace := w_trace ?w2 @ [?x]\<rparr>"
      have w3: "I ?w3" "grows w ?w3"
        using approval_ok [OF w2(1)] grows_note [OF w2(2), of "[?x]"] by simp_all
      have m: "set (since tr0 w) \<subseteq> set (since tr0 ?w3)" "?x \<in> set (since tr0 ?w3)"
        using since_mono [OF assms(2) w3(2)] since_note [OF w2(3), of "[?x]"] by simp_all
      have "wp (approval_outcome_step E s turn mx p a st)
          (\<lambda>r w'. I w' \<and> extends_trace tr0 w' \<and> approval_state_ok E s G turn mx (since tr0 w') (fst r))
          (\<lambda>e w'. I w') ?w3"
        by (rule wp_approval_outcome [OF w3(1) extends_grows [OF assms(2) w3(2)]
            approval_state_ok_mono [OF assms(3) m(1)] queued_ok_mono [OF assms(4) m(1)] m(2)])
      then show ?thesis unfolding Inr sum.case wp_then wp_note wp_bind
        by (rule wp_conseq)
          (auto intro!: wp_emit elim!: approval_state_ok_mono dest: since_mono)
    qed
  qed simp
  moreover have "wp (approval_step E s turn mx p st) (\<lambda>_. extends_trace (w_trace w)) (\<lambda>_. extends_trace (w_trace w)) w"
    by (rule keepsD [OF consult_growth.keeps_approval_step]) (simp add: extends_trace_def)
  ultimately show ?thesis
    by (rule wp_conseq [OF wp_conj]) (auto simp: grows_def)
qed

end

section \<open>Retries\<close>

definition trusted_retry :: "tool_descriptor \<Rightarrow> bool" where
  "trusted_retry d \<longleftrightarrow> get_trusted_bool (td_annotations d) ''idempotent'' \<and>
     get_trusted_bool (td_annotations d) ''read_only''"

definition retry_allowance :: "tool_retry_policy option \<Rightarrow> tool_descriptor \<Rightarrow> nat \<Rightarrow> nat" where
  "retry_allowance rp d attempt = (case rp of None \<Rightarrow> 0
     | Some policy \<Rightarrow> if trusted_retry d then max_retries policy - attempt else 0)"

definition ran_count :: "task_step list \<Rightarrow> nat" where
  "ran_count steps = length (filter (\<lambda>st. \<not> is_send st) steps)"

definition steps_of :: "string \<Rightarrow> tool \<Rightarrow> json \<Rightarrow> task_step list \<Rightarrow> bool" where
  "steps_of i t input steps \<longleftrightarrow> (\<forall>st \<in> set steps. st = TsRan i (t_name t) input \<or> is_send st)"

lemma is_send_simps [simp]: "is_send (TsSend ev)" "\<not> is_send (TsRan i nm input)"
  by (simp_all add: is_send_def)

lemma ran_count_simps [simp]:
  "ran_count (xs @ ys) = ran_count xs + ran_count ys"
  "ran_count [] = 0"
  "ran_count (TsSend ev # xs) = ran_count xs" "ran_count (TsRan i nm input # xs) = Suc (ran_count xs)"
  by (simp_all add: ran_count_def)

lemma steps_of_simps [simp]:
  "steps_of i t input (xs @ ys) \<longleftrightarrow> steps_of i t input xs \<and> steps_of i t input ys"
  "steps_of i t input []"
  "steps_of i t input (TsSend ev # xs) \<longleftrightarrow> steps_of i t input xs"
  "steps_of i t input (TsRan i (t_name t) input # xs) \<longleftrightarrow> steps_of i t input xs"
  by (auto simp: steps_of_def)

text \<open>
  The loop never fails, leaves the trace alone, runs the tool at least once and at most once
  more for every retry the policy still allows.
\<close>

definition retry_post :: "string \<Rightarrow> tool \<Rightarrow> json \<Rightarrow> nat \<Rightarrow> task_step list \<Rightarrow> task_step list \<Rightarrow> bool" where
  "retry_post i t input allowance steps steps' \<longleftrightarrow>
     (\<exists>more. steps' = steps @ more \<and> steps_of i t input more \<and> 1 \<le> ran_count more \<and>
        ran_count more \<le> Suc allowance)"

lemma retry_post_once: "retry_post i t input n steps (steps @ [TsRan i (t_name t) input])"
  unfolding retry_post_def by (intro exI [of _ "[TsRan i (t_name t) input]"]) simp

lemma retry_post_again:
  assumes "retry_post i t input n (steps @ [TsRan i (t_name t) input, TsSend ev]) steps'"
  shows "retry_post i t input (Suc n) steps steps'"
proof -
  obtain more where "steps' = steps @ [TsRan i (t_name t) input, TsSend ev] @ more"
    "steps_of i t input more" "1 \<le> ran_count more" "ran_count more \<le> Suc n"
    using assms unfolding retry_post_def by auto
  then show ?thesis unfolding retry_post_def
    by (intro exI [of _ "[TsRan i (t_name t) input, TsSend ev] @ more"]) simp
qed

lemma retry_post_stopped: "retry_post i t input n steps (steps @ [TsRan i (t_name t) input, TsSend ev])"
  unfolding retry_post_def by (intro exI [of _ "[TsRan i (t_name t) input, TsSend ev]"]) simp

lemma wp_retry_loop:
  "wp (retry_loop E t input ctx i rp d attempt steps)
     (\<lambda>r w'. w_trace w' = w_trace w \<and> retry_post i t input (retry_allowance rp d attempt) steps (snd r))
     (\<lambda>e w'. False) w"
proof (induction "case rp of None \<Rightarrow> 0 | Some policy \<Rightarrow> max_retries policy - attempt"
    arbitrary: attempt steps w rule: less_induct)
  case less
  have again: "wp (retry_loop E t input ctx i (Some policy) d (Suc attempt)
         (steps @ [TsRan i (t_name t) input, TsSend ev]))
       (\<lambda>r w'. w_trace w' = w_trace w1 \<and> retry_post i t input (retry_allowance (Some policy) d attempt) steps (snd r))
       (\<lambda>e w'. False) w1"
    if c: "rp = Some policy" "can_retry attempt policy d r0" for policy r0 ev w1
  proof -
    have m: "(case rp of None \<Rightarrow> 0 | Some policy \<Rightarrow> max_retries policy - Suc attempt)
        < (case rp of None \<Rightarrow> 0 | Some policy \<Rightarrow> max_retries policy - attempt)"
      using c by (simp add: can_retry_def diff_less_mono2)
    have n: "retry_allowance (Some policy) d attempt = Suc (retry_allowance (Some policy) d (Suc attempt))"
      using c by (simp add: retry_allowance_def can_retry_def trusted_retry_def Suc_diff_Suc)
    show ?thesis unfolding n
      by (rule wp_conseq [OF less [OF m, of "steps @ [TsRan i (t_name t) input, TsSend ev]" w1, unfolded c(1)]])
        (auto intro: retry_post_again)
  qed
  show ?case
    by (subst retry_loop.simps)
      (auto simp: execute_tool_def select_cancel_def Let_def retry_post_once retry_post_stopped
        intro: again [where ?w1.0 = "w\<lparr>w_tick := Suc (Suc (w_tick w))\<rparr>", simplified]
        split: option.splits)
qed

lemma wp_execute_with_retry:
  "wp (execute_tool_with_retry E t input ctx i)
     (\<lambda>r w'. w_trace w' = w_trace w \<and> steps_of i t input (snd r) \<and> 1 \<le> ran_count (snd r) \<and>
        ran_count (snd r) \<le> Suc (retry_allowance (td_retry_policy (t_descriptor t)) (t_descriptor t) 0))
     (\<lambda>e w'. False) w"
  unfolding execute_tool_with_retry_def Let_def
  by (rule wp_conseq [OF wp_retry_loop]) (auto simp: retry_post_def)

section \<open>Interleavings\<close>

lemma concat_pop:
  assumes "j < length qs" "qs ! j = x # xs"
  shows "mset (concat qs) = add_mset x (mset (concat (qs[j := xs])))"
proof -
  have "mset (concat (take j qs @ (x # xs) # drop (Suc j) qs)) =
      add_mset x (mset (concat (take j qs @ xs # drop (Suc j) qs)))"
    by simp
  moreover have "take j qs @ (x # xs) # drop (Suc j) qs = qs"
    using assms id_take_nth_drop by metis
  moreover have "take j qs @ xs # drop (Suc j) qs = qs[j := xs]"
    using assms(1) by (simp add: upd_conv_take_nth_drop)
  ultimately show ?thesis by metis
qed

text \<open>No step is lost or repeated, and the steps of one task keep their order.\<close>

lemma mset_interleave: "mset (interleave ks qs) = mset (concat qs)"
proof (induction ks qs rule: interleave.induct)
  case (2 k ks qs)
  show ?case
  proof (cases "qs = []")
    case False
    then have j: "k mod length qs < length qs" by simp
    show ?thesis
    proof (cases "qs ! (k mod length qs)")
      case Nil
      then show ?thesis using 2(1) False by (simp add: Let_def)
    next
      case (Cons x xs)
      then show ?thesis using 2(2) [OF False refl Cons] False concat_pop [OF j Cons]
        by (simp add: Let_def)
    qed
  qed simp
qed simp

lemma set_interleave: "set (interleave ks qs) = set (concat qs)"
  using mset_interleave by (metis set_mset_mset)

lemma subseq_interleave: "i < length qs \<Longrightarrow> subseq (qs ! i) (interleave ks qs)"
proof (induction ks qs arbitrary: i rule: interleave.induct)
  case (1 qs)
  then have "concat qs = concat (take i qs) @ qs ! i @ concat (drop (Suc i) qs)"
    by (metis concat.simps(2) concat_append id_take_nth_drop)
  moreover have "subseq (qs ! i) (xs @ qs ! i @ ys)" for xs ys :: "'a list"
    by (simp add: list_emb_append2 subseq_rev_drop_many)
  ultimately show ?case by simp
next
  case (2 k ks qs)
  let ?j = "k mod length qs"
  have ne: "qs \<noteq> []" using 2(3) by auto
  then have j: "?j < length qs" by simp
  show ?case
  proof (cases "qs ! ?j")
    case Nil
    then show ?thesis using 2(1) [OF ne refl Nil] 2(3) ne by (simp add: Let_def)
  next
    case (Cons x xs)
    have IH: "subseq (qs[?j := xs] ! i) (interleave ks (qs[?j := xs]))"
      using 2(2) [OF ne refl Cons, of i] 2(3) by simp
    then have "subseq (qs ! i) (x # interleave ks (qs[?j := xs]))"
      using Cons j by (cases "i = ?j") (auto simp: list_emb_Cons)
    then show ?thesis using Cons ne by (simp add: Let_def)
  qed
qed

section \<open>Only cleared calls run\<close>

definition run_cleared :: "env \<Rightarrow> session \<Rightarrow> session_grant list \<Rightarrow> nat \<Rightarrow> effect list \<Rightarrow> effect \<Rightarrow> bool" where
  "run_cleared E s G turn past x \<longleftrightarrow>
     (\<forall>i nm input. x = Ran i nm input \<longrightarrow> (\<exists>cid t. t_name t = nm \<and> cleared E s G turn past cid t i input))"

text \<open>Since the trace was \<open>tr0\<close>, every run was cleared by what happened between the two.\<close>

definition runs_cleared :: "env \<Rightarrow> session \<Rightarrow> session_grant list \<Rightarrow> nat \<Rightarrow> effect list \<Rightarrow> world \<Rightarrow> bool" where
  "runs_cleared E s G turn tr0 w \<longleftrightarrow> extends_trace tr0 w \<and>
     (\<forall>past x later. since tr0 w = past @ x # later \<longrightarrow> run_cleared E s G turn past x)"

lemma runs_cleared_start: "runs_cleared E s G turn (w_trace w) w"
  by (simp add: runs_cleared_def extends_trace_def since_def)

lemma runs_cleared_snoc:
  assumes "runs_cleared E s G turn tr0 w" "run_cleared E s G turn (since tr0 w) x"
  shows "runs_cleared E s G turn tr0 (w\<lparr>w_trace := w_trace w @ [x]\<rparr>)"
proof -
  have e: "extends_trace tr0 w" using assms(1) by (simp add: runs_cleared_def)
  then have "extends_trace tr0 (w\<lparr>w_trace := w_trace w @ [x]\<rparr>)" by (auto simp: extends_trace_def)
  moreover have "run_cleared E s G turn past y" if "since tr0 w @ [x] = past @ y # later" for past y later
  proof (cases later rule: rev_cases)
    case Nil
    then show ?thesis using that assms(2) by simp
  next
    case (snoc later' z)
    then have "since tr0 w = past @ y # later'" using that by simp
    then show ?thesis using assms(1) unfolding runs_cleared_def by blast
  qed
  ultimately show ?thesis unfolding runs_cleared_def since_note [OF e] by blast
qed

text \<open>With the calls of \<open>P\<close> cleared already.\<close>

definition batch_ok :: "env \<Rightarrow> session \<Rightarrow> session_grant list \<Rightarrow> nat \<Rightarrow> effect list \<Rightarrow> planned_call set \<Rightarrow> world \<Rightarrow> bool" where
  "batch_ok E s G turn tr0 P w \<longleftrightarrow> runs_cleared E s G turn tr0 w \<and>
     (\<forall>p \<in> P. planned_ok E s G turn (since tr0 w) p)"

lemma batch_ok_snoc:
  assumes "batch_ok E s G turn tr0 P w" "run_cleared E s G turn (since tr0 w) x"
  shows "batch_ok E s G turn tr0 P (w\<lparr>w_trace := w_trace w @ [x]\<rparr>)"
proof -
  have "extends_trace tr0 w" using assms(1) by (simp add: batch_ok_def runs_cleared_def)
  then show ?thesis using assms runs_cleared_snoc
    by (auto simp: batch_ok_def since_note intro: planned_ok_mono)
qed

lemma batch_ok_tick [simp]: "batch_ok E s G turn tr0 P (w\<lparr>w_tick := t\<rparr>) = batch_ok E s G turn tr0 P w"
  by (simp add: batch_ok_def runs_cleared_def extends_trace_def)

lemma batch_ok_trace: "w_trace w' = w_trace w \<Longrightarrow> batch_ok E s G turn tr0 P w' = batch_ok E s G turn tr0 P w"
  by (simp add: batch_ok_def runs_cleared_def extends_trace_def since_def)

interpretation batch_safety: consult_invariant "batch_ok E s G turn tr0 P"
  by unfold_locales (auto intro!: batch_ok_snoc simp: run_cleared_def)

lemma batch_ok_run:
  "batch_ok E s G turn tr0 P w \<Longrightarrow> p \<in> P \<Longrightarrow>
     run_cleared E s G turn (since tr0 w) (Ran (pl_id p) (t_name (pl_tool p)) (pl_input p))"
  by (auto simp: batch_ok_def run_cleared_def planned_ok_def)

text \<open>A step the calls of \<open>P\<close> may take.\<close>

definition step_of :: "planned_call set \<Rightarrow> task_step \<Rightarrow> bool" where
  "step_of P st \<longleftrightarrow> is_send st \<or> (\<exists>p \<in> P. st = TsRan (pl_id p) (t_name (pl_tool p)) (pl_input p))"

lemma steps_of_step:
  "steps_of (pl_id p) (pl_tool p) (pl_input p) steps \<Longrightarrow> p \<in> P \<Longrightarrow> st \<in> set steps \<Longrightarrow> step_of P st"
  unfolding steps_of_def step_of_def by blast

lemma keeps_task_step:
  assumes "step_of P st"
  shows "keeps (batch_ok E s G turn tr0 P) (task_step_act E st)"
proof (cases st)
  case (TsRan i nm input)
  then obtain p where p: "p \<in> P" "i = pl_id p" "nm = t_name (pl_tool p)" "input = pl_input p"
    using assms by (auto simp: step_of_def is_send_def)
  show ?thesis unfolding task_step_act_def TsRan task_step.case p(2,3,4)
    by (rule keepsI) (simp add: batch_ok_snoc batch_ok_run p(1))
qed (simp add: task_step_act_def batch_safety.keeps_emit)

lemma keeps_guarded_step:
  "step_of P st \<Longrightarrow> keeps (batch_ok E s G turn tr0 P) (guarded_step E st)"
  unfolding guarded_step_def select_cancel_def
  by (auto intro!: keeps_bind batch_safety.keeps_ask keeps_task_step)

lemma wp_run_task:
  "wp (run_task E (p, ctx))
     (\<lambda>r w'. w_trace w' = w_trace w \<and> steps_of (pl_id p) (pl_tool p) (pl_input p) (snd r) \<and>
        fst (fst r) = pl_order p \<and> fst (snd (fst r)) = pl_id p)
     (\<lambda>e w'. False) w"
  unfolding run_task_def prod.case wp_bind elapsed_ms_def
  by (rule wp_conseq [OF wp_execute_with_retry]) auto

text \<open>A result and a call, by order and id.\<close>

definition result_tag :: "tool_result \<Rightarrow> nat \<times> string" where
  "result_tag r = (fst r, fst (snd r))"

definition call_tag :: "planned_call \<Rightarrow> nat \<times> string" where
  "call_tag p = (pl_order p, pl_id p)"

lemma wp_run_tasks:
  "wp (fold_act (\<lambda>pc acc. bind_act (run_task E pc) (\<lambda>r. ret (acc @ [r]))) current [])
     (\<lambda>outs w'. w_trace w' = w_trace w \<and>
        map (result_tag \<circ> fst) outs = map (call_tag \<circ> fst) current \<and>
        (\<forall>steps \<in> set (map snd outs). \<forall>st \<in> set steps. step_of (fst ` set current) st))
     (\<lambda>e w'. False) w"
proof -
  let ?I = "\<lambda>done outs w'. w_trace w' = w_trace w \<and>
        map (result_tag \<circ> fst) outs = map (call_tag \<circ> fst) done \<and>
        (\<forall>steps \<in> set (map snd outs). \<forall>st \<in> set steps. step_of (fst ` set current) st)"
  show ?thesis
  proof (rule wp_fold [where I = ?I], goal_cases)
    case (1 ys x zs outs w1)
    obtain p ctx where x: "x = (p, ctx)" by (cases x)
    have p: "p \<in> fst ` set current" using 1(1) x by force
    show ?case unfolding x wp_bind
      by (rule wp_conseq [OF wp_run_task])
        (use 1 x p steps_of_step in \<open>auto simp: result_tag_def call_tag_def\<close>)
  qed simp
qed

lemma wp_run_parallel:
  assumes "batch_ok E s G turn tr0 P w" "fst ` set current \<subseteq> P"
  shows "wp (run_parallel E grp current results)
     (\<lambda>res w'. batch_ok E s G turn tr0 P w' \<and>
        map result_tag res = map result_tag results @ map (call_tag \<circ> fst) current)
     (\<lambda>e w'. batch_ok E s G turn tr0 P w') w"
proof (cases "current = []")
  case True
  then show ?thesis using assms by (simp add: run_parallel_def)
next
  case False
  let ?I = "batch_ok E s G turn tr0 P"
  have sub: "step_of (fst ` set current) st \<Longrightarrow> step_of P st" for st
    using assms(2) unfolding step_of_def by blast
  have tasks: "wp (bind_act (fold_act (\<lambda>pc acc. bind_act (run_task E pc) (\<lambda>r. ret (acc @ [r]))) current [])
            (\<lambda>outs. bind_act (ask (e_schedule E)) (\<lambda>sched.
              then_act (for_act (guarded_step E) (interleave sched (map snd outs)))
                (bind_act (select_cancel E) (\<lambda>c.
                  if c then fail HCancelled else ret (results @ map fst outs))))))
     (\<lambda>res w'. ?I w' \<and> map result_tag res = map result_tag results @ map (call_tag \<circ> fst) current)
     (\<lambda>e w'. ?I w') w1" if w1: "?I w1" for w1
    unfolding wp_bind
  proof (rule wp_conseq [OF wp_run_tasks], goal_cases)
    case (1 outs w2)
    then have "?I w2" using w1 batch_ok_trace by blast
    moreover have fk: "keeps ?I (for_act (guarded_step E) (interleave sched (map snd outs)))" for sched
    proof (rule keeps_for)
      fix st
      assume "st \<in> set (interleave sched (map snd outs))"
      then show "keeps ?I (guarded_step E st)"
        using 1 sub by (intro keeps_guarded_step) (auto simp: set_interleave)
    qed
    ultimately show ?case unfolding wp_bind wp_then wp_ask select_cancel_def
      by (intro wp_conseq [OF keepsD [OF fk]]) (use 1 in auto)
  qed simp
  show ?thesis unfolding run_parallel_def using False assms(1)
    by (simp, intro wp_conseq [OF keepsD [OF keeps_for [OF batch_safety.keeps_emit_started]]])
      (auto intro!: wp_conseq [OF keepsD [OF batch_safety.keeps_flush]] tasks [simplified])
qed

lemma wp_run_sequential:
  assumes "batch_ok E s G turn tr0 P w" "p \<in> P"
  shows "wp (run_sequential E s' p results)
     (\<lambda>res w'. batch_ok E s G turn tr0 P w' \<and> map result_tag res = map result_tag results @ [call_tag p])
     (\<lambda>e w'. batch_ok E s G turn tr0 P w') w"
proof -
  let ?I = "batch_ok E s G turn tr0 P"
  have run: "wp (bind_act (execute_tool_with_retry E (pl_tool p) (pl_input p) ctx (pl_id p))
       (\<lambda>(result, steps).
         then_act (for_act (task_step_act E) (filter (\<lambda>st. \<not> is_send st) steps))
         (bind_act (select_cancel E) (\<lambda>c.
           if c then fail HCancelled
           else then_act (for_act (task_step_act E) (filter is_send steps))
             (bind_act (elapsed_ms E) (\<lambda>duration.
               ret (results @ [(pl_order p, pl_id p, result, duration, pd_source (pl_policy p))])))))))
     (\<lambda>res w'. ?I w' \<and> map result_tag res = map result_tag results @ [call_tag p]) (\<lambda>e w'. ?I w') w1"
    if w1: "?I w1" for w1 ctx
    unfolding wp_bind
  proof (rule wp_conseq [OF wp_execute_with_retry], goal_cases)
    case (1 r w2)
    obtain result steps where r: "r = (result, steps)" by (cases r)
    have w2: "?I w2" using w1 1 batch_ok_trace by blast
    have k: "keeps ?I (for_act (task_step_act E) (filter g steps))" for g
      using 1 assms(2) r by (intro keeps_for keeps_task_step) (auto intro: steps_of_step)
    show ?case unfolding r prod.case wp_then wp_bind select_cancel_def wp_ask wp_if elapsed_ms_def
      by (rule wp_conseq [OF keepsD [OF k w2]])
        (auto intro!: wp_conseq [OF keepsD [OF k]] simp: result_tag_def call_tag_def)
  qed simp
  show ?thesis unfolding run_sequential_def wp_then
    by (rule wp_conseq [OF keepsD [OF batch_safety.keeps_hooks_before assms(1)]], 
        rule wp_conseq [OF keepsD [OF batch_safety.keeps_emit_started]], assumption,
        rule wp_conseq [OF keepsD [OF batch_safety.keeps_flush]], assumption, rule run, assumption+)
qed

lemma wp_execution_step:
  assumes "batch_ok E s G turn tr0 P w" "p \<in> P" "fst ` set current \<subseteq> P"
  shows "wp (execution_step E s' p (results, current))
     (\<lambda>st w'. batch_ok E s G turn tr0 P w' \<and> fst ` set (snd st) \<subseteq> P \<and>
        map result_tag (fst st) @ map (call_tag \<circ> fst) (snd st) =
          map result_tag results @ map (call_tag \<circ> fst) current @ [call_tag p])
     (\<lambda>e w'. batch_ok E s G turn tr0 P w') w"
proof (cases "t_parallel (pl_tool p) (pl_input p)")
  case True
  then show ?thesis unfolding execution_step_def prod.case wp_if if_True wp_then
    by simp (rule wp_conseq [OF keepsD [OF batch_safety.keeps_hooks_before assms(1)]], use assms in auto)
next
  case False
  then show ?thesis unfolding execution_step_def prod.case wp_if if_False wp_bind
    by simp (rule wp_conseq [OF wp_run_parallel [OF assms(1,3)]],
        auto intro!: wp_conseq [OF wp_run_sequential] simp: assms(2))
qed

lemma wp_execute_planned:
  assumes "batch_ok E s G turn tr0 P w" "set planned \<subseteq> P"
  shows "wp (execute_planned E s' planned denied)
     (\<lambda>res w'. batch_ok E s G turn tr0 P w' \<and>
        mset (map result_tag res) = mset (map result_tag denied) + mset (map call_tag planned))
     (\<lambda>e w'. batch_ok E s G turn tr0 P w') w"
proof -
  let ?I = "\<lambda>done st w'. batch_ok E s G turn tr0 P w' \<and> fst ` set (snd st) \<subseteq> P \<and>
        mset (map result_tag (fst st) @ map (call_tag \<circ> fst) (snd st)) =
          mset (map result_tag denied @ map call_tag done)"
  show ?thesis unfolding execute_planned_def wp_bind
  proof (rule wp_conseq [OF wp_fold [where I = ?I and F = "\<lambda>e w. batch_ok E s G turn tr0 P w"]], goal_cases step start fin failed)
    case (step ys p zs st w1)
    obtain results current where st: "st = (results, current)" by (cases st)
    have p: "p \<in> P" using step(1) assms(2) by auto
    have b: "batch_ok E s G turn tr0 P w1" "fst ` set current \<subseteq> P" using step(2) st by auto
    show ?case unfolding st
    proof (rule wp_conseq [OF wp_execution_step [OF b(1) p b(2)]])
      fix st' w'
      assume a: "batch_ok E s G turn tr0 P w' \<and> fst ` set (snd st') \<subseteq> P \<and>
        map result_tag (fst st') @ map (call_tag \<circ> fst) (snd st') =
          map result_tag results @ map (call_tag \<circ> fst) current @ [call_tag p]"
      then have "mset (map result_tag (fst st') @ map (call_tag \<circ> fst) (snd st')) =
          mset (map result_tag results @ map (call_tag \<circ> fst) current @ [call_tag p])" by metis
      then show "batch_ok E s G turn tr0 P w' \<and> fst ` set (snd st') \<subseteq> P \<and>
        mset (map result_tag (fst st') @ map (call_tag \<circ> fst) (snd st')) =
          mset (map result_tag denied @ map call_tag (ys @ [p]))"
        using a step(2) st by simp
    qed
  next
    case (fin st w1)
    obtain results current where st: "st = (results, current)" by (cases st)
    show ?case unfolding st prod.case
      by (rule wp_conseq [OF wp_run_parallel]) (use fin st in auto)
  qed (use assms in auto)
qed

end
