(* ===== verification/Failures.thy ===== *)
theory Failures
  imports Effects
begin

text \<open>
  Where failures come from. An operation of the loop fails only with an error that something
  outside reported: the locale says what the primitive operations need of a predicate on
  errors for that, and gives the rules to walk through an operation. The executor and the
  agent loop interpret it with the errors of their own collaborators.
\<close>

fun is_panic :: "harness_error \<Rightarrow> bool" where
  "is_panic (HPanic m) = True"
| "is_panic _ = False"

lemma is_panic_iff: "is_panic e \<longleftrightarrow> (\<exists>m. e = HPanic m)"
  by (cases e) simp_all

text \<open>A hook's error stops the loop over the hooks only if it is a panic or a cancellation.\<close>

definition stops_hooks :: "harness_error \<Rightarrow> bool" where
  "stops_hooks e \<longleftrightarrow> is_panic e \<or> e = HCancelled"

locale failure_bound =
  fixes E :: env
    and F :: "harness_error \<Rightarrow> world \<Rightarrow> bool"
  assumes emit_err: "e_emit E t ev = Some e \<Longrightarrow> F e w"
    and cancel_err: "e_cancel_wins E t \<Longrightarrow> F HCancelled w"
    and any_world: "F e w \<Longrightarrow> F e w'"
begin

text \<open>To run something whose result does not matter, continue from any world.\<close>

lemma for_bounded:
  assumes "\<And>x w. x \<in> set xs \<Longrightarrow> wp (f x) (\<lambda>_ _. True) F w" "\<And>w. Q () w"
  shows "wp (for_act f xs) Q F w"
  by (rule wp_conseq [OF wp_for [where I = "\<lambda>_. True" and F = F]]) (use assms in auto)

lemma fold_bounded:
  assumes "\<And>x s w. x \<in> set xs \<Longrightarrow> wp (f x s) (\<lambda>_ _. True) F w" "\<And>r w. Q r w"
  shows "wp (fold_act f xs s) Q F w"
  by (rule wp_conseq [OF wp_fold [where I = "\<lambda>_ _ _. True" and F = F]]) (use assms in auto)

lemma emit_fn_bounded: "(\<And>w. Q () w) \<Longrightarrow> wp (emit_fn E ev) Q F w"
  by (auto simp: emit_fn_def emit_err split: option.splits)

lemma emit_bounded: "(\<And>w. Q () w) \<Longrightarrow> wp (emit E ev) Q F w"
  unfolding emit_def wp_then
  by (rule for_bounded) (auto intro!: emit_fn_bounded split: option.splits)

lemma select_bounded:
  "(\<And>w. wp k Q F w) \<Longrightarrow> wp (bind_act (select_cancel E) (\<lambda>c. if c then fail HCancelled else k)) Q F w"
  by (simp add: select_cancel_def cancel_err)

lemma dispatch_bounded:
  assumes "\<And>t e w. f t = Inl e \<Longrightarrow> stops_hooks e \<Longrightarrow> F e w"
  shows "wp (dispatch E ht nm f) (\<lambda>_ _. True) (\<lambda>e w. stops_hooks e \<longrightarrow> F e w) w"
proof -
  have fb: "failure_bound E (\<lambda>e w. stops_hooks e \<longrightarrow> F e w)"
  proof unfold_locales
    show "stops_hooks e \<longrightarrow> F e w \<Longrightarrow> stops_hooks e \<longrightarrow> F e w'" for e w w' using any_world by blast
  qed (auto intro: emit_err cancel_err)
  show ?thesis unfolding dispatch_def wp_then
    by (rule failure_bound.emit_bounded [OF fb])
      (auto intro!: failure_bound.emit_bounded [OF fb] simp: select_cancel_def cancel_err assms split: sum.splits)
qed

lemma run_hook_bounded:
  assumes f: "\<And>t e w. f t = Inl e \<Longrightarrow> stops_hooks e \<Longrightarrow> F e w"
    and c: "\<And>w Q. (\<And>w. Q () w) \<Longrightarrow> wp c Q F w"
    and k: "\<And>ev w. wp (k ev) (\<lambda>_ _. True) F w" and Q: "\<And>w. Q () w"
  shows "wp (run_hook E c ht nm lb f k) Q F w"
proof -
  have stop: "wp (then_act c (fail HCancelled)) Q F w'" if "F HCancelled w0" for w0 w'
    by (simp, rule c) (simp add: any_world [OF that])
  show ?thesis unfolding run_hook_def wp_bind wp_try
  proof (rule wp_conseq [OF dispatch_bounded], goal_cases)
    case (3 e w')
    then show ?case using stop emit_bounded [where Q = Q, OF Q] by (cases e) (simp_all add: stops_hooks_def)
  qed (auto intro!: for_bounded k Q f)
qed

end

end
