(* ===== verification/Executor_Batch.thy ===== *)
theory Executor_Batch
  imports Executor_Safety Failures
begin

text \<open>
  The batch as a whole. Every call is accounted for by its order and id: each phase moves a
  call to another list or to a refusal, none is lost or doubled, so a batch that returns has
  one result per call, in the order of the calls. A batch that fails does so with an error a
  collaborator reported; the executor's \<open>expect\<close>s do not fire, because a validated call
  resolves to a tool of the catalogue.
\<close>

section \<open>Where a failure comes from\<close>

text \<open>What the collaborators of a batch may report that ends it: an error of the caller's
  \<open>emit\<close>, of the policy engine or of the approval provider, a hook that panics or reports a
  cancellation, and the cancel token.\<close>

definition failure_origin :: "env \<Rightarrow> harness_error \<Rightarrow> bool" where
  "failure_origin E e \<longleftrightarrow>
     (\<exists>t ev. e_emit E t ev = Some e) \<or> (\<exists>t req. e_policy E t req = Inl e) \<or>
     (\<exists>t i nm input descr d. e_approve E t i nm input descr d = Inl e) \<or>
     (\<exists>h \<in> set (tool_hooks (e_hooks E)). \<exists>t s nm input.
        before_tool_execution h t s nm input = Inl e \<and> stops_hooks e) \<or>
     (e = HCancelled \<and> (\<exists>t. e_cancel_wins E t))"

definition blamed :: "env \<Rightarrow> harness_error \<Rightarrow> world \<Rightarrow> bool" where
  "blamed E e w \<longleftrightarrow> failure_origin E e"

interpretation batch_failures: failure_bound E "blamed E"
  by unfold_locales (auto simp: blamed_def failure_origin_def)

lemma policy_blamed: "e_policy E t req = Inl e \<Longrightarrow> blamed E e w"
  by (auto simp: blamed_def failure_origin_def)

lemma approval_blamed: "e_approve E t i nm input descr d = Inl e \<Longrightarrow> blamed E e w"
  unfolding blamed_def failure_origin_def by blast

lemma hook_blamed:
  "before_tool_execution h t s nm input = Inl e \<Longrightarrow> h \<in> set (tool_hooks (e_hooks E)) \<Longrightarrow>
     stops_hooks e \<Longrightarrow> blamed E e w"
  unfolding blamed_def failure_origin_def by blast

lemma cancel_blamed: "e_cancel_wins E t \<Longrightarrow> blamed E HCancelled w"
  by (auto simp: blamed_def failure_origin_def)

lemma blame_flush: "(\<And>w. Q () w) \<Longrightarrow> wp (flush_trace_sink E) Q (blamed E) w"
  unfolding flush_trace_sink_def by (auto intro!: batch_failures.emit_bounded split: option.splits)

lemma blame_hooks_before: "(\<And>w. Q () w) \<Longrightarrow> wp (emit_tool_hooks_before E s nm input) Q (blamed E) w"
  unfolding emit_tool_hooks_before_def
  by (rule batch_failures.for_bounded)
    (auto intro!: batch_failures.run_hook_bounded batch_failures.emit_bounded intro: hook_blamed)

lemma blame_task_step: "(\<And>w. Q () w) \<Longrightarrow> wp (task_step_act E st) Q (blamed E) w"
  unfolding task_step_act_def by (cases st) (auto intro!: batch_failures.emit_bounded)

lemma blame_guarded_step: "(\<And>w. Q () w) \<Longrightarrow> wp (guarded_step E st) Q (blamed E) w"
  unfolding guarded_step_def select_cancel_def by (auto intro!: blame_task_step simp: cancel_blamed)

lemma blame_evaluate_policy:
  "(\<And>d w. Q d w) \<Longrightarrow> wp (evaluate_policy E s i tn ns an input risk grant) Q (blamed E) w"
  unfolding evaluate_policy_def Let_def emit_policy_decision_def wp_then
  by (rule batch_failures.emit_bounded)
    (auto intro!: batch_failures.emit_bounded simp: policy_blamed split: sum.splits)

lemma blame_retry: "(\<And>r w. Q r w) \<Longrightarrow> wp (execute_tool_with_retry E t input ctx i) Q (blamed E) w"
  by (rule wp_conseq [OF wp_execute_with_retry]) auto

lemma blame_run_parallel: "(\<And>r w. Q r w) \<Longrightarrow> wp (run_parallel E grp current results) Q (blamed E) w"
  unfolding run_parallel_def wp_if wp_then emit_started_def
  by (auto intro!: batch_failures.for_bounded batch_failures.emit_bounded blame_flush wp_conseq [OF wp_run_tasks] blame_guarded_step
      simp: select_cancel_def cancel_blamed)

lemma blame_run_sequential: "(\<And>r w. Q r w) \<Longrightarrow> wp (run_sequential E s p results) Q (blamed E) w"
  unfolding run_sequential_def wp_then emit_started_def prod.case
  by (auto intro!: blame_hooks_before batch_failures.emit_bounded blame_flush blame_retry batch_failures.for_bounded blame_task_step
      simp: select_cancel_def elapsed_ms_def cancel_blamed)

lemma blame_execute_planned: "(\<And>r w. Q r w) \<Longrightarrow> wp (execute_planned E s planned denied) Q (blamed E) w"
  unfolding execute_planned_def wp_bind execution_step_def
  by (rule batch_failures.fold_bounded)
    (auto intro!: blame_hooks_before blame_run_parallel blame_run_sequential)

section \<open>Accounting for every call\<close>

definition order_tag :: "ordered_call \<Rightarrow> nat \<times> string" where
  "order_tag oc = (fst oc, pc_id (snd oc))"

definition denial_tag :: "nat \<times> string \<times> tool_error_report \<Rightarrow> nat \<times> string" where
  "denial_tag d = (fst d, fst (snd d))"

lemma result_tag_denied [simp]: "result_tag (denied_result order i r src) = (order, i)"
  by (simp add: result_tag_def denied_result_def)

lemma result_tag_refuse [simp]: "result_tag (refuse p k r g src) = call_tag p"
  by (simp add: refuse_def call_tag_def)

lemma call_tag_update [simp]: "call_tag (p\<lparr>pl_input := x, pl_policy := d\<rparr>) = call_tag p"
  by (simp add: call_tag_def)

text \<open>A call that passed validation resolves to a tool.\<close>

definition resolves :: "env \<Rightarrow> tool_name_mapping list \<Rightarrow> ordered_call \<Rightarrow> bool" where
  "resolves E maps oc \<longleftrightarrow> (\<exists>cid t. resolve_tool_id (pc_name (snd oc)) maps = Some cid \<and> e_catalog E cid = Some t)"

lemma validate_call_resolves:
  "fst (validate_call tj (e_catalog E) maps call seen) = None \<Longrightarrow> resolves E maps (order, call)"
  by (auto simp: validate_call_accepts resolves_def resolve_tool_id_def)

lemma wp_early_validation:
  "wp (early_validation E maps calls)
     (\<lambda>st w'. mset (map order_tag (fst st)) + mset (map result_tag (snd st)) =
          mset (map order_tag (List.enumerate 0 calls)) \<and>
        (\<forall>oc \<in> set (fst st). resolves E maps oc))
     (blamed E) w"
proof -
  let ?I = "\<lambda>done st w'. mset (map order_tag (fst st)) + mset (map result_tag (fst (snd st))) =
          mset (map order_tag done) \<and> (\<forall>oc \<in> set (fst st). resolves E maps oc)"
  show ?thesis unfolding early_validation_def wp_bind
  proof (rule wp_conseq [OF wp_fold [where I = ?I and F = "blamed E"]], goal_cases step start fin failed)
    case (step ys oc zs st w1)
    obtain order call validated denied seen where st: "oc = (order, call)" "st = (validated, denied, seen)"
      by (cases oc; cases st) auto
    show ?case
    proof (cases "validate_call (e_to_json E) (e_catalog E) maps call seen")
      case (Pair outcome seen')
      then show ?thesis
        using step validate_call_resolves [of "e_to_json E" E maps call seen order]
        by (cases outcome) (auto simp: st validate_step_def order_tag_def intro!: batch_failures.emit_bounded)
    qed
  qed (auto split: prod.splits)
qed

lemma strict_subset:
  "wp (fold_act (strict_step E maps) validated [])
     (\<lambda>denials _. subseq (map denial_tag denials) (map order_tag validated)) (blamed E) w"
proof (rule wp_fold [where I = "\<lambda>done denials _. subseq (map denial_tag denials) (map order_tag done)"], goal_cases)
  case (1 ys oc zs denials w1)
  obtain order call where oc: "oc = (order, call)" by (cases oc)
  have keep: "subseq (map denial_tag denials) (map order_tag (ys @ [oc]))"
    using 1(2) by (auto intro: subseq_order.trans)
  have add: "subseq (map denial_tag (denials @ [(order, pc_id call, r)])) (map order_tag (ys @ [oc]))" for r
    using 1(2) by (auto simp: denial_tag_def order_tag_def oc)
  show ?case unfolding oc strict_step_def prod.case
    using keep add
    by (auto simp: oc resolve_tool_id_def validate_against_strict_def validate_no_panic
        intro!: batch_failures.emit_bounded split: option.splits validation.splits)
qed simp

lemma drop_denied_filter:
  "drop_denied denials validated = filter (\<lambda>oc. order_tag oc \<notin> denial_tag ` set denials) validated"
proof (induction denials arbitrary: validated)
  case (Cons d ds)
  obtain order i r where d: "d = (order, i, r)" by (cases d)
  have "drop_denied (d # ds) validated =
      drop_denied ds (filter (\<lambda>(o', c). \<not> (o' = order \<and> pc_id c = i)) validated)"
    by (simp add: drop_denied_def d)
  then show ?case unfolding Cons
    by (auto simp: d order_tag_def denial_tag_def intro!: filter_cong)
qed (simp add: drop_denied_def)

lemma subseq_set: "subseq xs ys \<Longrightarrow> x \<in> set xs \<Longrightarrow> x \<in> set ys"
  by (induction rule: list_emb.induct) auto

lemma subseq_distinct: "subseq xs ys \<Longrightarrow> distinct ys \<Longrightarrow> distinct xs"
proof (induction rule: list_emb.induct)
  case (list_emb_Cons2 x y xs ys)
  then show ?case using subseq_set [of xs ys x] by auto
qed auto

lemma drop_denied_accounts:
  assumes "subseq (map denial_tag denials) (map order_tag validated)" "distinct (map order_tag validated)"
  shows "mset (map order_tag (drop_denied denials validated)) + mset (map denial_tag denials) =
    mset (map order_tag validated)"
proof -
  have d: "distinct (map denial_tag denials)" using assms subseq_distinct by blast
  let ?in = "filter (\<lambda>oc. order_tag oc \<in> denial_tag ` set denials) validated"
  have "set (map denial_tag denials) \<subseteq> set (map order_tag validated)"
    using assms(1) by (meson subseq_set subsetI)
  moreover have "set (map order_tag ?in) = set (map order_tag validated) \<inter> set (map denial_tag denials)"
    unfolding set_map set_filter by blast
  ultimately have "set (map order_tag ?in) = set (map denial_tag denials)" by blast
  moreover have "distinct (map order_tag ?in)" using assms(2) by (simp add: distinct_map_filter)
  ultimately have "mset (map order_tag ?in) = mset (map denial_tag denials)"
    using d set_eq_iff_mset_eq_distinct by blast
  moreover have "mset (map order_tag validated) =
      mset (map order_tag (filter (\<lambda>oc. order_tag oc \<notin> denial_tag ` set denials) validated)) + mset (map order_tag ?in)"
    by (induction validated) auto
  ultimately show ?thesis unfolding drop_denied_filter by simp
qed

lemma enumerate_tags: "map order_tag (List.enumerate n calls) = List.enumerate n (map pc_id calls)"
  by (induction calls arbitrary: n) (simp_all add: order_tag_def)

lemma distinct_enumerate_tags: "distinct (List.enumerate n xs)"
  by (metis distinct_enumerate)

lemma wp_strict_validation:
  assumes "mset (map order_tag validated) + mset (map result_tag denied) = mset (List.enumerate 0 (map pc_id calls))"
    and "\<forall>oc \<in> set validated. resolves E maps oc"
  shows "wp (strict_validation E maps (validated, denied))
     (\<lambda>st w'. mset (map order_tag (fst st)) + mset (map result_tag (snd st)) =
          mset (List.enumerate 0 (map pc_id calls)) \<and>
        (\<forall>oc \<in> set (fst st). resolves E maps oc))
     (blamed E) w"
  unfolding strict_validation_def prod.case wp_bind
proof (rule wp_conseq [OF strict_subset], goal_cases)
  case (1 denials w')
  have "distinct (map order_tag validated)"
    using assms(1) distinct_enumerate_tags by (metis distinct_append mset_append mset_eq_imp_distinct_iff)
  from drop_denied_accounts [OF 1 this]
  have "mset (map order_tag (drop_denied denials validated)) + (mset (map result_tag denied) + mset (map denial_tag denials)) =
      mset (List.enumerate 0 (map pc_id calls))"
    using assms(1) by (simp add: ac_simps)
  moreover have "map result_tag (denied @ map (\<lambda>(order, i, report). denied_result order i report ''validation_failed_strict'') denials)
      = map result_tag denied @ map denial_tag denials"
    by (auto simp: denial_tag_def)
  ultimately show ?case using assms(2)
    unfolding wp_ret fst_conv snd_conv by (simp only: mset_append) (simp add: drop_denied_filter)
qed

lemma wp_policy_phase:
  assumes "\<forall>oc \<in> set validated. resolves E maps oc"
  shows "wp (fold_act (policy_step E s maps G turn) validated ([], denied, []))
     (\<lambda>(planned, denied', queue) _.
        mset (map call_tag planned) + mset (map result_tag denied') + mset (map call_tag queue) =
          mset (map order_tag validated) + mset (map result_tag denied))
     (blamed E) w"
proof -
  let ?I = "\<lambda>done (planned, denied', queue) w'.
        mset (map call_tag planned) + mset (map result_tag denied') + mset (map call_tag queue) =
          mset (map order_tag done) + mset (map result_tag denied)"
  show ?thesis
  proof (rule wp_fold [where I = ?I], goal_cases step start)
    case (step ys oc zs st w1)
    obtain order call planned den queue where st: "oc = (order, call)" "st = (planned, den, queue)"
      by (cases oc; cases st) auto
    obtain cid t where ct: "resolve_tool_id (pc_name call) maps = Some cid" "e_catalog E cid = Some t"
      using step(1) assms st by (auto simp: resolves_def)
    show ?case unfolding st policy_step_def prod.case ct option.case Let_def wp_bind
      by (rule blame_evaluate_policy)
        (use step(2) st in \<open>auto simp: call_tag_def order_tag_def split: policy_status.splits\<close>)
  qed simp
qed

lemma wp_approval_outcome_tags:
  "wp (approval_outcome_step E s turn mx p a (planned, den, grants))
     (\<lambda>r _. case fst r of (planned', den', grants') \<Rightarrow>
        mset (map call_tag planned') + mset (map result_tag den') =
          add_mset (call_tag p) (mset (map call_tag planned) + mset (map result_tag den)))
     (blamed E) w"
proof (cases a)
  case (Edit new_input)
  show ?thesis unfolding approval_outcome_step_def prod.case Let_def Edit approval_decision.case wp_bind
    by (rule blame_evaluate_policy) (auto split: policy_status.splits)
qed (simp_all add: approval_outcome_step_def Let_def)

lemma wp_approval_phase:
  "wp (fold_act (approval_step E s turn mx) queue (planned, denied, grants))
     (\<lambda>(planned', denied', grants') _.
        mset (map call_tag planned') + mset (map result_tag denied') =
          mset (map call_tag queue) + (mset (map call_tag planned) + mset (map result_tag denied)))
     (blamed E) w"
proof -
  let ?I = "\<lambda>done (planned', denied', grants') w'.
        mset (map call_tag planned') + mset (map result_tag denied') =
          mset (map call_tag done) + (mset (map call_tag planned) + mset (map result_tag denied))"
  show ?thesis
  proof (rule wp_fold [where I = ?I], goal_cases step start)
    case (step ys p zs st w1)
    obtain pl den gr where st: "st = (pl, den, gr)" by (cases st)
    have "wp (bind_act (approval_outcome_step E s turn mx p a st)
            (\<lambda>(st', outcome, edited_hash, grant_terms).
              then_act (emit E (EvApprovalDecision (pl_id p) outcome (hash_input (pl_input p))
                  edited_hash grant_terms)) (ret st'))) (?I (ys @ [p])) (blamed E) w'" for a w'
      unfolding st wp_bind
      by (rule wp_conseq [OF wp_approval_outcome_tags])
        (use step(2) st in \<open>auto intro!: batch_failures.emit_bounded split: prod.splits\<close>)
    then show ?case unfolding approval_step_def wp_then
      by (intro batch_failures.emit_bounded) (auto intro!: batch_failures.emit_bounded simp: approval_blamed split: sum.splits)
  qed simp
qed

lemma sorted_results:
  assumes "mset (map result_tag res) = mset (List.enumerate 0 is)"
  shows "map result_tag (sort_key fst res) = List.enumerate 0 is"
proof (rule map_sorted_distinct_set_unique [where f = fst])
  let ?s = "map result_tag (sort_key fst res)"
  have m: "mset ?s = mset (List.enumerate 0 is)" using assms by simp
  show "set ?s = set (List.enumerate 0 is)" using m by (rule mset_eq_setD)
  have f: "map fst ?s = map fst (sort_key fst res)" by (simp add: result_tag_def)
  show "sorted (map fst ?s)" unfolding f by simp
  show "sorted (map fst (List.enumerate 0 is))" by simp
  show d: "distinct (map fst (List.enumerate 0 is))" by simp
  have "mset (map fst ?s) = mset (map fst (List.enumerate 0 is))" using m by (metis mset_map)
  then show "distinct (map fst ?s)" using d mset_eq_imp_distinct_iff by blast
  show "inj_on fst (set ?s \<union> set (List.enumerate 0 is))"
  proof -
    have "inj_on fst (set (List.enumerate 0 is))" using d unfolding distinct_map by blast
    then show ?thesis using \<open>set ?s = _\<close> by simp
  qed
qed

section \<open>Safety of the phases\<close>

lemma keeps_execution_growth:
  "keeps (extends_trace tr) (execute_planned E s planned denied)"
proof -
  have task: "keeps (extends_trace tr) (task_step_act E st)" for st
    unfolding task_step_act_def by (cases st) (simp_all add: trace_growth.keeps_emit)
  have parallel: "keeps (extends_trace tr) (run_parallel E grp current results)" for grp current results
    unfolding run_parallel_def guarded_step_def select_cancel_def
    by (auto intro!: keeps_then keeps_for keeps_bind keeps_fold trace_growth.keeps_ask
        consult_growth.keeps_emit_started consult_growth.keeps_flush consult_growth.keeps_run_task task)
  have sequential: "keeps (extends_trace tr) (run_sequential E s p results)" for p results
    unfolding run_sequential_def execute_tool_with_retry_def Let_def select_cancel_def elapsed_ms_def
    by (auto intro!: keeps_then keeps_for keeps_bind trace_growth.keeps_ask
        consult_growth.keeps_hooks_before consult_growth.keeps_emit_started consult_growth.keeps_flush
        consult_growth.keeps_retry_loop task)
  show ?thesis unfolding execute_planned_def execution_step_def
    by (auto intro!: keeps_bind keeps_fold keeps_then consult_growth.keeps_hooks_before parallel sequential
        split: prod.splits)
qed

lemma batch_ok_none: "batch_ok E s G turn tr0 {} w \<longleftrightarrow> runs_cleared E s G turn tr0 w"
  by (simp add: batch_ok_def)

lemma runs_extends: "runs_cleared E s G turn tr0 w \<Longrightarrow> extends_trace tr0 w"
  by (simp add: runs_cleared_def)

lemma wp_policy_phase_safe:
  assumes "runs_cleared E s G turn tr0 w"
  shows "wp (fold_act (policy_step E s maps G turn) validated ([], denied, []))
     (\<lambda>st w'. runs_cleared E s G turn tr0 w' \<and> policy_state_ok E s G turn (since tr0 w') st)
     (\<lambda>e w'. runs_cleared E s G turn tr0 w') w"
proof -
  let ?I = "\<lambda>done st w'. runs_cleared E s G turn tr0 w' \<and> policy_state_ok E s G turn (since tr0 w') st"
  show ?thesis
  proof (rule wp_fold [where I = ?I], goal_cases step start)
    case (step ys oc zs st w1)
    then show ?case
      using batch_safety.wp_policy_step [where P = "{}" and G = G, unfolded batch_ok_none]
        runs_extends wp_conseq by (smt (verit, best))
  qed (use assms in \<open>simp add: policy_state_ok_def\<close>)
qed

lemma wp_approval_phase_safe:
  assumes "runs_cleared E s G turn tr0 w" "policy_state_ok E s G turn (since tr0 w) (planned, denied, queue)"
  shows "wp (fold_act (approval_step E s turn mx) queue (planned, denied', G))
     (\<lambda>st w'. runs_cleared E s G turn tr0 w' \<and> approval_state_ok E s G turn mx (since tr0 w') st)
     (\<lambda>e w'. runs_cleared E s G turn tr0 w') w"
proof -
  let ?I = "\<lambda>st w'. runs_cleared E s G turn tr0 w' \<and> approval_state_ok E s G turn mx (since tr0 w') st \<and>
     (\<forall>p \<in> set queue. queued_ok E s (since tr0 w') p)"
  have phase: "wp (fold_act (approval_step E s turn mx) queue (planned, denied', G)) ?I
     (\<lambda>e w'. runs_cleared E s G turn tr0 w') w"
  proof (rule wp_fold [where I = "\<lambda>_. ?I" and F = "\<lambda>e. runs_cleared E s G turn tr0"], goal_cases step start)
    case (step ys p zs st w1)
    have e: "extends_trace tr0 w1" using step(2) runs_extends by blast
    show ?case
      by (rule wp_conseq [OF batch_safety.wp_approval_step [where P = "{}" and G = G and ?tr0.0 = tr0, unfolded batch_ok_none]])
        (use step e in \<open>auto dest: since_mono [OF e] intro: queued_ok_mono\<close>)
  next
    case start
    then show ?case using assms by (auto simp: policy_state_ok_def approval_state_ok_def)
  qed
  show ?thesis by (rule wp_conseq [OF phase]) auto
qed

lemma wp_execute_safe:
  assumes "runs_cleared E s G turn tr0 w" "approval_state_ok E s G turn mx (since tr0 w) (planned, denied, grants)"
  shows "wp (execute_planned E s' planned den)
     (\<lambda>res w'. runs_cleared E s G turn tr0 w' \<and> approval_state_ok E s G turn mx (since tr0 w') (planned, denied, grants) \<and>
        mset (map result_tag res) = mset (map result_tag den) + mset (map call_tag planned))
     (\<lambda>e w'. runs_cleared E s G turn tr0 w' \<and> blamed E e w') w"
proof -
  have b: "batch_ok E s G turn tr0 (set planned) w"
    using assms by (auto simp: batch_ok_def approval_state_ok_def)
  have x: "extends_trace (w_trace w) w" by (simp add: extends_trace_def)
  from wp_conj [OF wp_conj [OF wp_execute_planned [OF b subset_refl] keepsD [OF keeps_execution_growth x]]
      blame_execute_planned [of "\<lambda>_ _. True"]]
  show ?thesis
  proof (rule wp_conseq)
    fix res w'
    assume a: "((batch_ok E s G turn tr0 (set planned) w' \<and>
        mset (map result_tag res) = mset (map result_tag den) + mset (map call_tag planned)) \<and>
       extends_trace (w_trace w) w') \<and> True"
    then have "set (since tr0 w) \<subseteq> set (since tr0 w')"
      using since_mono [OF runs_extends [OF assms(1)]] by (simp add: grows_def)
    then show "runs_cleared E s G turn tr0 w' \<and>
        approval_state_ok E s G turn mx (since tr0 w') (planned, denied, grants) \<and>
        mset (map result_tag res) = mset (map result_tag den) + mset (map call_tag planned)"
      using a approval_state_ok_mono [OF assms(2)] by (simp add: batch_ok_def)
  qed (auto simp: batch_ok_def)
qed

section \<open>The batch\<close>

text \<open>The state of the batch between the phases: the trace is safe and the calls are accounted for.\<close>

definition batch_state :: "env \<Rightarrow> session \<Rightarrow> session_grant list \<Rightarrow> nat \<Rightarrow> effect list \<Rightarrow> proposed_tool_call list
    \<Rightarrow> tool_name_mapping list \<Rightarrow> ordered_call list \<times> tool_result list \<Rightarrow> world \<Rightarrow> bool" where
  "batch_state E s G turn tr0 calls maps st w \<longleftrightarrow> runs_cleared E s G turn tr0 w \<and>
     mset (map order_tag (fst st)) + mset (map result_tag (snd st)) = mset (List.enumerate 0 (map pc_id calls)) \<and>
     (\<forall>oc \<in> set (fst st). resolves E maps oc)"

definition stopped_safely :: "env \<Rightarrow> session \<Rightarrow> session_grant list \<Rightarrow> nat \<Rightarrow> effect list
    \<Rightarrow> harness_error \<Rightarrow> world \<Rightarrow> bool" where
  "stopped_safely E s G turn tr0 e w \<longleftrightarrow> runs_cleared E s G turn tr0 w \<and> blamed E e w"

lemma wp_validation:
  assumes "runs_cleared E s G turn tr0 w"
  shows "wp (bind_act (early_validation E maps calls) (strict_validation E maps))
     (batch_state E s G turn tr0 calls maps) (stopped_safely E s G turn tr0) w"
  unfolding wp_bind
proof (rule wp_conseq [OF wp_conj [OF wp_early_validation
      keepsD [OF batch_safety.keeps_early_validation assms [folded batch_ok_none]]]], goal_cases)
  case (1 st w')
  obtain v d where st: "st = (v, d)" by (cases st)
  have acc: "mset (map order_tag v) + mset (map result_tag d) = mset (List.enumerate 0 (map pc_id calls))"
    using 1 st by (simp only: enumerate_tags fst_conv snd_conv)
  have res: "\<forall>oc \<in> set v. resolves E maps oc" and b: "batch_ok E s G turn tr0 {} w'" using 1 st by simp_all
  show ?case unfolding st
    by (rule wp_conseq [OF wp_conj [OF wp_strict_validation [OF acc res]
          keepsD [OF batch_safety.keeps_strict_validation b]]])
      (auto simp: batch_state_def stopped_safely_def batch_ok_none)
qed (simp add: batch_ok_none stopped_safely_def)

definition batch_post :: "env \<Rightarrow> session \<Rightarrow> session_grant list \<Rightarrow> nat \<Rightarrow> nat \<Rightarrow> effect list
    \<Rightarrow> proposed_tool_call list \<Rightarrow> tool_result list \<times> session_grant list \<Rightarrow> world \<Rightarrow> bool" where
  "batch_post E s G turn mx tr0 calls r w \<longleftrightarrow> runs_cleared E s G turn tr0 w \<and>
     map result_tag (fst r) = List.enumerate 0 (map pc_id calls) \<and>
     (\<exists>made. snd r = G @ made \<and> (\<forall>g \<in> set made. grant_made E turn mx (since tr0 w) g))"

lemma wp_planning:
  assumes "batch_state E s G turn tr0 calls maps (validated, denied) w"
  shows "wp (bind_act (fold_act (policy_step E s maps G turn) validated ([], denied, []))
       (\<lambda>(planned, denied', queue). fold_act (approval_step E s turn mx) queue (planned, denied', G)))
     (\<lambda>(planned, denied', grants) w'. runs_cleared E s G turn tr0 w' \<and>
        approval_state_ok E s G turn mx (since tr0 w') (planned, denied', grants) \<and>
        mset (map call_tag planned) + mset (map result_tag denied') = mset (List.enumerate 0 (map pc_id calls)))
     (stopped_safely E s G turn tr0) w"
proof -
  have start: "runs_cleared E s G turn tr0 w" using assms by (simp add: batch_state_def)
  show ?thesis unfolding wp_bind
  proof (rule wp_conseq [OF wp_conj [OF wp_policy_phase wp_policy_phase_safe [OF start]]], goal_cases)
    case (2 st w')
    obtain pl dn qu where st: "st = (pl, dn, qu)" by (cases st)
    have tags: "mset (map call_tag pl) + mset (map result_tag dn) + mset (map call_tag qu) =
        mset (List.enumerate 0 (map pc_id calls))"
      using 2 st assms by (simp add: batch_state_def)
    have safe: "runs_cleared E s G turn tr0 w'" "policy_state_ok E s G turn (since tr0 w') (pl, dn, qu)"
      using 2 st by simp_all
    show ?case unfolding st prod.case
      by (rule wp_conseq [OF wp_conj [OF wp_approval_phase wp_approval_phase_safe [OF safe]]])
        (use tags in \<open>auto simp: stopped_safely_def ac_simps\<close>)
  qed (use assms in \<open>simp_all add: batch_state_def stopped_safely_def\<close>)
qed

lemma bind_act_assoc: "bind_act (bind_act m f) g = bind_act m (\<lambda>x. bind_act (f x) g)"
  by (rule ext) (simp add: bind_act_def split: prod.splits sum.splits)

lemma execute_tool_batch_phases:
  "execute_tool_batch E s calls maps G turn mx =
     bind_act (bind_act (early_validation E maps calls) (strict_validation E maps)) (\<lambda>(validated, denied).
     bind_act (bind_act (fold_act (policy_step E s maps G turn) validated ([], denied, []))
         (\<lambda>(planned, denied', queue). fold_act (approval_step E s turn mx) queue (planned, denied', G)))
       (\<lambda>(planned', denied'', grants').
     bind_act (execute_planned E s planned' denied'') (\<lambda>results. ret (sort_key fst results, grants'))))"
  unfolding execute_tool_batch_def bind_act_assoc by (simp add: split_def)

lemma wp_batch:
  assumes "runs_cleared E s G turn tr0 w"
  shows "wp (execute_tool_batch E s calls maps G turn mx)
     (batch_post E s G turn mx tr0 calls) (stopped_safely E s G turn tr0) w"
  unfolding execute_tool_batch_phases wp_bind [of "bind_act (early_validation E maps calls) _"]
proof (rule wp_conseq [OF wp_validation [OF assms]])
  fix st w'
  assume b: "batch_state E s G turn tr0 calls maps st w'"
  obtain validated denied where st: "st = (validated, denied)" by (cases st)
  show "wp (case st of (validated, denied) \<Rightarrow>
     bind_act (bind_act (fold_act (policy_step E s maps G turn) validated ([], denied, []))
         (\<lambda>(planned, denied', queue). fold_act (approval_step E s turn mx) queue (planned, denied', G)))
       (\<lambda>(planned', denied'', grants').
     bind_act (execute_planned E s planned' denied'') (\<lambda>results. ret (sort_key fst results, grants'))))
     (batch_post E s G turn mx tr0 calls) (stopped_safely E s G turn tr0) w'"
    unfolding st prod.case wp_bind [of "bind_act (fold_act _ _ _) _"]
  proof (rule wp_conseq [OF wp_planning [OF b [unfolded st]]])
    fix p w2
    assume a: "(case p of (planned, denied', grants) \<Rightarrow> \<lambda>w'. runs_cleared E s G turn tr0 w' \<and>
        approval_state_ok E s G turn mx (since tr0 w') (planned, denied', grants) \<and>
        mset (map call_tag planned) + mset (map result_tag denied') = mset (List.enumerate 0 (map pc_id calls))) w2"
    obtain pl dn gr where p: "p = (pl, dn, gr)" by (cases p)
    have r: "runs_cleared E s G turn tr0 w2" "approval_state_ok E s G turn mx (since tr0 w2) (pl, dn, gr)"
      using a p by simp_all
    show "wp (case p of (planned', denied'', grants') \<Rightarrow>
        bind_act (execute_planned E s planned' denied'') (\<lambda>results. ret (sort_key fst results, grants')))
        (batch_post E s G turn mx tr0 calls) (stopped_safely E s G turn tr0) w2"
      unfolding p prod.case wp_bind wp_ret
    proof (rule wp_conseq [OF wp_execute_safe [OF r]], goal_cases)
      case (1 res w3)
      then have "mset (map result_tag res) = mset (List.enumerate 0 (map pc_id calls))"
        using a p by (simp add: ac_simps)
      then show ?case using 1 sorted_results by (auto simp: batch_post_def approval_state_ok_def)
    qed (simp add: stopped_safely_def)
  qed
qed

end
