(* ===== verification/Context_Types.thy ===== *)
theory Context_Types
  imports Session
begin

text \<open>
  What the agent loop and the context pipeline exchange (\<open>context.rs\<close> of the core): the
  request to prepare a context, the plan, the manifest that records a projection and the
  prepared context. The provider and the event sink of a request are arguments of the
  operations instead of fields.
\<close>

section \<open>Plans and manifests\<close>

record context_plan =
  pn_history :: "session_message list"
  pn_omissions :: "context_omission list"
  pn_budget_exhausted :: bool

record clear_action =
  ca_message_index :: nat
  ca_message_id :: message_id
  ca_tool_use_id :: string
  ca_tool_name :: string
  ca_original_tokens :: nat
  ca_output_hash :: string
  ca_artifact :: "artifact_ref option"

record projection_metadata =
  pmd_message_id :: message_id
  pmd_role :: string
  pmd_original_index :: "nat option"
  pmd_is_tombstone :: bool
  pmd_is_checkpoint :: bool
  pmd_hash :: string

text \<open>The timestamp is not part of the model: nothing reads it.\<close>

record projection_manifest =
  pm_v :: nat
  pm_manifest_id :: string
  pm_session_id :: string
  pm_run_id :: string
  pm_turn_id :: nat
  pm_policy :: context_management_policy
  pm_token_estimate :: nat
  pm_stable_prefix_hash :: "string option"
  pm_checkpoint_ref :: "compaction_checkpoint_ref option"
  pm_cleared_results :: "cleared_tool_result_ref list"
  pm_omitted_messages :: "message_id list"
  pm_messages_metadata :: "projection_metadata list"
  pm_retention_fingerprint :: "string option"
  pm_context_report_ref :: "string option"

section \<open>Requests\<close>

record prepare_request =
  pq_history :: "session_message list"
  pq_context_state :: context_projection_state
  pq_token_budget :: token_budget
  pq_request_template :: provider_request
  pq_model :: string
  pq_session_id :: string
  pq_run_id :: string
  pq_turn_id :: nat
  pq_policy :: context_management_policy
  pq_artifacts_dir :: "string option"
  pq_tool_retention :: retention_snapshot

record prepared_context =
  pcx_packet :: context_packet
  pcx_manifest :: projection_manifest
  pcx_state_delta :: context_state_delta

section \<open>Snapshots, segments and cache plans\<close>

text \<open>
  The hashes are SHA-256 over serialised messages: \<open>px_sha256\<close> stands for the hash of a text and the
  other fields for the serialisation of a message, of a list, of a history and of a segment.
\<close>

record prompt_codec =
  px_sha256 :: "string \<Rightarrow> string"
  px_message :: "message \<Rightarrow> string"
  px_messages :: "message list \<Rightarrow> string"
  px_history :: "session_message list \<Rightarrow> string"
  px_segment :: "prompt_segment_kind \<Rightarrow> context_stability \<Rightarrow> string list \<Rightarrow> string"

record prompt_snapshot =
  pst_snapshot_hash :: string
  pst_prefix_hash :: string
  pst_created_turn :: nat
  pst_messages :: "message list"
  pst_message_hashes :: "string list"

definition hash_message :: "prompt_codec \<Rightarrow> message \<Rightarrow> string" where
  "hash_message px m = px_sha256 px (px_message px m)"

definition hash_message_list :: "prompt_codec \<Rightarrow> message list \<Rightarrow> nat \<Rightarrow> string" where
  "hash_message_list px ms created_turn =
     px_sha256 px (px_messages px ms @ '':'' @ dec created_turn)"

definition prompt_segment_from :: "prompt_codec \<Rightarrow> prompt_segment_kind \<Rightarrow> context_stability
    \<Rightarrow> message list \<Rightarrow> prompt_segment" where
  "prompt_segment_from px kind stability ms =
     \<lparr>seg_kind = kind, seg_stability = stability,
      seg_hash = px_sha256 px (px_segment px kind stability (map (hash_message px) ms)),
      seg_message_count = length ms\<rparr>"

definition prompt_snapshot_new :: "prompt_codec \<Rightarrow> message list \<Rightarrow> nat \<Rightarrow> prompt_snapshot" where
  "prompt_snapshot_new px ms created_turn =
     \<lparr>pst_snapshot_hash = hash_message_list px ms created_turn,
      pst_prefix_hash = px_sha256 px (px_messages px ms), pst_created_turn = created_turn,
      pst_messages = ms, pst_message_hashes = map (hash_message px) ms\<rparr>"

definition cache_plan_new :: "prompt_assembly_strategy \<Rightarrow> prompt_snapshot \<Rightarrow> prompt_cache_plan" where
  "cache_plan_new strategy snapshot =
     \<lparr>cp_strategy = strategy, cp_snapshot_hash = pst_snapshot_hash snapshot,
      cp_prefix_hash = pst_prefix_hash snapshot,
      cp_prefix_message_count = length (pst_messages snapshot), cp_segments = []\<rparr>"

definition with_segments :: "prompt_segment list \<Rightarrow> prompt_cache_plan \<Rightarrow> prompt_cache_plan" where
  "with_segments segments plan = plan\<lparr>cp_segments := segments\<rparr>"

end
