(* ===== verification/Agent_Loop.thy ===== *)
theory Agent_Loop
  imports Executor_Batch Context_Types
begin

text \<open>
  The agent loop (\<open>gestalt-core/src/agent.rs\<close>): draining the steering queue, building the
  request, one model turn with its stream, the tool batch and its results, the next-turn
  hooks, and \<open>run\<close> around them. The provider, the context pipeline and the queue are
  oracles of the record \<open>agent_loop\<close>. The session is passed and returned; what an aborted
  run leaves in it is not modelled, its trace is.
\<close>

section \<open>State\<close>

text \<open>
  \<open>al_prepare\<close> yields the events the pipeline emits on the way and its result; a pipeline
  passes an error of \<open>emit\<close> on. \<open>al_stream\<close> yields the items of the response stream.
\<close>

record agent_loop =
  al_env :: env
  al_max_turns :: "64 word"
  al_is_cancelled :: "nat \<Rightarrow> bool"
  al_provider_id :: string
  al_default_model :: string
  al_adapt_tools :: "tool_descriptor list \<Rightarrow> provider_tool_schema list \<times> tool_name_mapping list"
  al_count_request_tokens :: "nat \<Rightarrow> provider_request \<Rightarrow> harness_error + nat"
  al_stream :: "nat \<Rightarrow> provider_request \<Rightarrow> harness_error + (harness_error + agent_event) list"
  al_descriptors :: "nat \<Rightarrow> tool_descriptor list"
  al_prepare :: "nat \<Rightarrow> prepare_request \<Rightarrow> agent_event list \<times> (harness_error + prepared_context)"
  al_queue_drain :: "(nat \<Rightarrow> harness_error + queued_session_message list) option"
  al_run_id :: "string option"
  al_artifacts_dir :: "string option"
  al_parse :: json_parser
  al_request_hash :: "provider_request \<Rightarrow> string"
  al_retention_fingerprint :: "(canonical_tool_id \<rightharpoonup> tool_retention) \<Rightarrow> string"

record loop_state =
  ls_session :: session
  ls_packet_hash :: "string option"
  ls_prompt_source :: "string option"
  ls_projection_id :: "string option"
  ls_input_tokens :: nat
  ls_output_tokens :: nat
  ls_artifacts :: "string list"
  ls_grants :: "session_grant list"

datatype turn_outcome = ToolExecuted | StopWith stop_reason

record run_result =
  rr_session_id :: string
  rr_turns :: nat
  rr_stop_reason :: stop_reason
  rr_total_input_tokens :: nat
  rr_total_output_tokens :: nat
  rr_artifacts :: "string list"
  rr_workspace_snapshot_id :: "string option"

definition al_emit :: "agent_loop \<Rightarrow> agent_event \<Rightarrow> unit action" where
  "al_emit L ev = emit (al_env L) ev"

definition al_hooks :: "agent_loop \<Rightarrow> hook_registry" where
  "al_hooks L = e_hooks (al_env L)"

section \<open>Session hooks and checkpoints\<close>

definition session_start_hooks :: "agent_loop \<Rightarrow> session \<Rightarrow> unit action" where
  "session_start_hooks L s =
     for_act (\<lambda>h. run_hook (al_env L) (ret ()) ''session'' ''on_session_start'' ''SessionHook.on_session_start''
         (\<lambda>t. on_session_start h t s) (al_emit L))
       (session_hooks (al_hooks L))"

definition session_end_hooks :: "agent_loop \<Rightarrow> session \<Rightarrow> unit action" where
  "session_end_hooks L s =
     for_act (\<lambda>h. run_hook (al_env L) (ret ()) ''session'' ''on_session_end'' ''SessionHook.on_session_end''
         (\<lambda>t. on_session_end h t s) (al_emit L))
       (session_hooks (al_hooks L))"

definition emit_checkpoint :: "agent_loop \<Rightarrow> loop_state \<Rightarrow> unit action" where
  "emit_checkpoint L st = al_emit L
     (EvCheckpoint (s_history (ls_session st)) (s_context_state (ls_session st))
       (s_token_budget (ls_session st)) (ls_projection_id st) (ls_packet_hash st) (ls_prompt_source st))"

section \<open>The steering queue\<close>

definition steering_message :: "nat \<Rightarrow> queued_session_message \<Rightarrow> message" where
  "steering_message turn m =
     MUser [CbText (qm_content m)]
       (Some \<lparr>mm_source = Some (qm_source m), mm_queued_message_id = Some (qm_id m),
          mm_injected_at_turn = Some turn\<rparr>)"

definition inject_message :: "agent_loop \<Rightarrow> nat \<Rightarrow> queued_session_message \<Rightarrow> loop_state \<Rightarrow> loop_state action" where
  "inject_message L turn m st =
     then_act (al_emit L (EvSessionMessageInjected (m\<lparr>qm_injected_at_turn := Some turn\<rparr>)))
       (ret (st\<lparr>ls_session := fst (append_message (steering_message turn m) (ls_session st))\<rparr>))"

definition drain_session_messages :: "agent_loop \<Rightarrow> nat \<Rightarrow> loop_state \<Rightarrow> (nat \<times> loop_state) action" where
  "drain_session_messages L turn st = (case al_queue_drain L of
       None \<Rightarrow> ret (0, st)
     | Some drain \<Rightarrow>
         bind_act (ask (al_is_cancelled L)) (\<lambda>c. if c then fail HCancelled else
         bind_act (ask drain) (\<lambda>res. bind_act (lift_result res) (\<lambda>messages.
           if messages = [] then ret (0, st)
           else bind_act (fold_act (inject_message L turn) messages st) (\<lambda>st'.
             then_act (al_emit L (EvSessionMessageQueueDrained (length messages)))
               (ret (length messages, st')))))))"

section \<open>Building the request\<close>

definition context_cancelled :: "agent_loop \<Rightarrow> unit action" where
  "context_cancelled L = al_emit L (EvContextBuildFailed ''cancelled'')"

definition override_warning :: "agent_loop \<Rightarrow> string \<Rightarrow> string" where
  "override_warning L requested = ''Cross-provider override requested for '' @ [CHR 0x27] @ requested @ [CHR 0x27] @
     '', but current provider is '' @ [CHR 0x27] @ al_provider_id L @ [CHR 0x27] @ ''; using model override only''"

definition warn_override :: "agent_loop \<Rightarrow> next_turn_override option \<Rightarrow> unit action" where
  "warn_override L ov = (case Option.bind ov nto_provider of
       None \<Rightarrow> ret ()
     | Some requested \<Rightarrow>
         if requested \<noteq> al_provider_id L then
           then_act (al_emit L (EvHookFailed ''next_turn'' ''prepare_next_turn'' (override_warning L requested)))
             (al_emit L (EvError (override_warning L requested) True))
         else ret ())"

definition effective_model :: "agent_loop \<Rightarrow> next_turn_override option \<Rightarrow> session_config \<Rightarrow> string" where
  "effective_model L ov config =
     (let m = (case ov of
            Some o' \<Rightarrow> if nto_model o' = [] then sc_model config else nto_model o'
          | None \<Rightarrow> sc_model config)
      in if m = [] then al_default_model L else m)"

definition request_template :: "agent_loop \<Rightarrow> session \<Rightarrow> string \<Rightarrow> tool_descriptor list \<Rightarrow> provider_request" where
  "request_template L s model descriptors =
     (let (tools, maps) = al_adapt_tools L descriptors
      in \<lparr>rq_model = model, rq_messages = [], rq_tools = tools, rq_tool_name_map = maps,
          rq_max_tokens = sc_max_tokens (s_config s), rq_temperature = sc_temperature (s_config s),
          rq_top_p = sc_top_p (s_config s), rq_stop_sequences = [], rq_cache_plan = None,
          rq_metadata = sc_metadata (s_config s), rq_reasoning_effort = sc_reasoning_effort (s_config s),
          rq_text_verbosity = sc_text_verbosity (s_config s)\<rparr>)"

definition prepare_context :: "agent_loop \<Rightarrow> prepare_request \<Rightarrow> prepared_context action" where
  "prepare_context L rq = bind_act (ask (\<lambda>t. al_prepare L t rq)) (\<lambda>(events, res).
     then_act (for_act (al_emit L) events) (lift_result res))"

definition build_request :: "agent_loop \<Rightarrow> nat \<Rightarrow> loop_state \<Rightarrow> (provider_request \<times> loop_state) action" where
  "build_request L turn st =
     then_act (al_emit L EvContextBuildStarted)
     (then_act (for_act (\<lambda>h. run_hook (al_env L) (context_cancelled L) ''context'' ''before_context_build''
           ''ContextHook.before_context_build'' (\<lambda>t. before_context_build h t (ls_session st)) (al_emit L))
         (context_hooks (al_hooks L)))
     (let ov = s_next_turn_override (ls_session st);
          s1 = (ls_session st)\<lparr>s_next_turn_override := None\<rparr>;
          model = effective_model L ov (s_config s1)
      in then_act (warn_override L ov)
     (bind_act (ask (al_descriptors L)) (\<lambda>descriptors.
      let retention = build_tool_retention_snapshot (al_retention_fingerprint L) descriptors;
          template = request_template L s1 model descriptors
      in bind_act (prepare_context L \<lparr>pq_history = s_history s1, pq_context_state = s_context_state s1,
            pq_token_budget = s_token_budget s1, pq_request_template = template, pq_model = model,
            pq_session_id = s_id s1, pq_run_id = (case al_run_id L of None \<Rightarrow> [] | Some r \<Rightarrow> r),
            pq_turn_id = turn, pq_policy = s_context_policy s1, pq_artifacts_dir = al_artifacts_dir L,
            pq_tool_retention = retention\<rparr>) (\<lambda>prepared.
      let s2 = apply_context_state_delta (pcx_state_delta prepared) s1;
          packet = pcx_packet prepared
      in then_act (for_act (\<lambda>h. run_hook (al_env L) (context_cancelled L) ''context'' ''after_context_build''
            ''ContextHook.after_context_build'' (\<lambda>t. after_context_build h t s2 packet) (al_emit L))
          (context_hooks (al_hooks L)))
      (let request = template\<lparr>rq_messages := pk_messages packet, rq_cache_plan := pk_cache_plan packet\<rparr>
       in bind_act (ask (\<lambda>t. al_count_request_tokens L t request)) (\<lambda>res.
          bind_act (lift_result res) (\<lambda>token_estimate.
          then_act (al_emit L (EvContextBuilt (s_id s2) token_estimate (Some (pk_packet_hash packet))
              (Some (pk_sources packet)) (Some (pk_omissions packet)) (pk_prompt_source packet)))
          (then_act (al_emit L (EvToolCatalogSelected (rq_tool_name_map request)))
          (then_act (al_emit L (EvModelRequest (al_provider_id L) (rq_model request)
              (Some (pk_packet_hash packet)) (rq_temperature request) (Some (rq_max_tokens request))
              (Some (al_request_hash L request))))
          (ret (request, st\<lparr>ls_session := s2, ls_projection_id := Some (pm_manifest_id (pcx_manifest prepared)),
              ls_packet_hash := Some (pk_packet_hash packet),
              ls_prompt_source := pk_prompt_source packet\<rparr>))))))))))))"

section \<open>The model's response\<close>

record stream_state =
  ss_acc :: turn_accumulator
  ss_stop_reason :: stop_reason
  ss_proposed :: "string set"
  ss_state :: loop_state

definition record_usage_event :: "nat \<Rightarrow> nat \<Rightarrow> loop_state \<Rightarrow> loop_state" where
  "record_usage_event inp out st =
     st\<lparr>ls_input_tokens := saturating_add (ls_input_tokens st) inp,
        ls_output_tokens := saturating_add (ls_output_tokens st) out,
        ls_session := (ls_session st)\<lparr>s_token_budget := record_usage inp out (s_token_budget (ls_session st))\<rparr>\<rparr>"

definition note_proposal :: "agent_event \<Rightarrow> stream_state \<Rightarrow> stream_state" where
  "note_proposal ev ss = (case ev of
       EvToolCallProposed i nm v \<Rightarrow> ss\<lparr>ss_proposed := insert i (ss_proposed ss)\<rparr>
     | _ \<Rightarrow> ss)"

definition react_event :: "agent_event \<Rightarrow> stream_state \<Rightarrow> harness_error + stream_state" where
  "react_event ev ss = (case ev of
       EvUsage inp out \<Rightarrow> Inr (ss\<lparr>ss_state := record_usage_event inp out (ss_state ss)\<rparr>)
     | EvStop reason \<Rightarrow> Inr (ss\<lparr>ss_stop_reason := reason\<rparr>)
     | EvError message recoverable \<Rightarrow>
         if recoverable then Inr ss else Inl (HProvider (UnexpectedResponse message))
     | _ \<Rightarrow> Inr ss)"

definition stream_event_step :: "agent_loop \<Rightarrow> agent_event \<Rightarrow> stream_state \<Rightarrow> stream_state action" where
  "stream_event_step L ev ss =
     then_act (al_emit L ev) (lift_result (react_event ev (note_proposal ev ss)))"

fun stream_loop :: "agent_loop \<Rightarrow> string \<Rightarrow> (harness_error + agent_event) list \<Rightarrow> stream_state \<Rightarrow> stream_state action" where
  "stream_loop L hash [] ss =
     bind_act (select_cancel (al_env L)) (\<lambda>c.
       if c then then_act (al_emit L (EvModelResponseStreamInterrupted hash)) (fail HCancelled)
       else ret ss)"
| "stream_loop L hash (item # items) ss =
     bind_act (select_cancel (al_env L)) (\<lambda>c.
       if c then then_act (al_emit L (EvModelResponseStreamInterrupted hash)) (fail HCancelled)
       else (case item of
           Inr ev \<Rightarrow>
             (case acc_push (al_parse L) ev (ss_acc ss) of (accumulated, acc) \<Rightarrow>
               bind_act (fold_act (stream_event_step L) accumulated (ss\<lparr>ss_acc := acc\<rparr>))
                 (stream_loop L hash items))
         | Inl err \<Rightarrow>
             then_act (al_emit L (EvModelResponseStreamFailed hash (error_to_string err)))
             (then_act (al_emit L (EvError (error_to_string err) (is_recoverable err))) (fail err))))"

definition model_hooks_before :: "agent_loop \<Rightarrow> session \<Rightarrow> provider_request \<Rightarrow> unit action" where
  "model_hooks_before L s request =
     for_act (\<lambda>h. run_hook (al_env L) (ret ()) ''model'' ''before_model_request'' ''ModelHook.before_model_request''
         (\<lambda>t. before_model_request h t s request) (al_emit L))
       (model_hooks (al_hooks L))"

definition model_hooks_after :: "agent_loop \<Rightarrow> session \<Rightarrow> agent_event \<Rightarrow> unit action" where
  "model_hooks_after L s ev =
     for_act (\<lambda>h. run_hook (al_env L) (ret ()) ''model'' ''after_model_response'' ''ModelHook.after_model_response''
         (\<lambda>t. after_model_response h t s ev) (al_emit L))
       (model_hooks (al_hooks L))"

type_synonym response = "assistant_turn \<times> stop_reason \<times> string set \<times> loop_state"

definition finish_response :: "agent_loop \<Rightarrow> string \<Rightarrow> stream_state \<Rightarrow> response action" where
  "finish_response L hash ss =
     then_act (al_emit L (EvModelResponseStreamCompleted hash))
     (bind_act (lift_result (acc_finish (al_parse L) (ss_acc ss))) (\<lambda>turn.
      let st1 = ss_state ss;
          msg = into_message turn;
          st2 = st1\<lparr>ls_session := fst (append_message msg (ls_session st1))\<rparr>
      in then_act (al_emit L (EvAssistantMessageCommitted msg))
         (ret (turn, ss_stop_reason ss, ss_proposed ss, st2))))"

definition receive_response :: "agent_loop \<Rightarrow> string \<Rightarrow> loop_state
    \<Rightarrow> harness_error + (harness_error + agent_event) list \<Rightarrow> response action" where
  "receive_response L hash st stream_res = (case stream_res of
       Inl e \<Rightarrow> then_act (al_emit L (EvModelResponseStreamFailed hash (error_to_string e))) (fail e)
     | Inr items \<Rightarrow>
         bind_act (stream_loop L hash items
             \<lparr>ss_acc = acc_default, ss_stop_reason = EndTurn, ss_proposed = {}, ss_state = st\<rparr>)
           (finish_response L hash))"

text \<open>The first half of \<open>run_turn\<close>: the request is streamed and the assistant's message committed.\<close>

definition stream_response :: "agent_loop \<Rightarrow> provider_request \<Rightarrow> loop_state \<Rightarrow> response action" where
  "stream_response L request st =
     then_act (model_hooks_before L (ls_session st) request)
     (then_act (al_emit L (EvModelResponseStarted (al_request_hash L request)))
     (bind_act (select_cancel (al_env L)) (\<lambda>c.
      if c then then_act (al_emit L (EvModelResponseStreamInterrupted (al_request_hash L request))) (fail HCancelled)
      else bind_act (ask (\<lambda>t. al_stream L t request))
        (receive_response L (al_request_hash L request) st))))"

section \<open>Tool results\<close>

definition verification_hooks_run :: "agent_loop \<Rightarrow> session \<Rightarrow> agent_event \<Rightarrow> unit action" where
  "verification_hooks_run L s ev =
     for_act (\<lambda>v. run_hook (al_env L) (ret ()) ''verification'' ''after_verification''
         ''VerificationHook.after_verification'' (\<lambda>t. v t s ev) (al_emit L))
       (verification_hooks (al_hooks L))"

definition after_tool_event :: "agent_loop \<Rightarrow> session \<Rightarrow> agent_event \<Rightarrow> unit action" where
  "after_tool_event L s ev = then_act (al_emit L ev)
     (case ev of EvVerificationResult a b c d e \<Rightarrow> verification_hooks_run L s ev | _ \<Rightarrow> ret ())"

definition tool_hooks_after :: "agent_loop \<Rightarrow> session \<Rightarrow> string \<Rightarrow> tool_execution_result \<Rightarrow> unit action" where
  "tool_hooks_after L s tool_name result =
     for_act (\<lambda>h. run_hook (al_env L) (ret ()) ''tool'' ''after_tool_execution'' ''ToolHook.after_tool_execution''
         (\<lambda>t. after_tool_execution h t s tool_name result) (after_tool_event L s))
       (tool_hooks (al_hooks L))"

definition find_call_name :: "proposed_tool_call list \<Rightarrow> string \<Rightarrow> string option" where
  "find_call_name calls i = map_option pc_name (find_first (\<lambda>c. pc_id c = i) calls)"

definition result_step :: "agent_loop \<Rightarrow> proposed_tool_call list \<Rightarrow> tool_result \<Rightarrow> loop_state \<Rightarrow> loop_state action" where
  "result_step L calls r st = (case r of (order, i, result, duration_ms, policy_source) \<Rightarrow>
     (let s = ls_session st;
          tool_name_opt = find_call_name calls i;
          tool_name = (case tool_name_opt of None \<Rightarrow> [] | Some nm \<Rightarrow> nm);
          working_dir = Some (tc_working_dir (s_tool_ctx s));
          artifact_refs = map_option (\<lambda>art. [ta_path art]) (xr_artifact result);
          output_hash = (case xr_output_hash result of
              Some h \<Rightarrow> h | None \<Rightarrow> e_sha256 (al_env L) (xr_content result))
      in then_act (case xr_artifact result of
              None \<Rightarrow> ret ()
            | Some art \<Rightarrow> al_emit L (EvArtifactCreated (ta_path art) (ta_size_bytes art) (ta_mime_type art) output_hash))
         (then_act (al_emit L (EvToolResult i (xr_content result) (xr_is_error result) (xr_truncated result)
             tool_name_opt working_dir (Some duration_ms) (Some output_hash) artifact_refs
             (Some policy_source) (xr_failure result)))
         (then_act (tool_hooks_after L (call_session s i) tool_name result)
         (ret (st\<lparr>ls_artifacts := ls_artifacts st @
                 (case xr_artifact result of None \<Rightarrow> [] | Some art \<Rightarrow> [ta_path art]),
               ls_session := fst (append_message (MToolResult i (xr_content result) (xr_is_error result)
                 (xr_failure result) tool_name_opt (Some output_hash) artifact_refs) s)\<rparr>))))))"

definition propose_calls :: "agent_loop \<Rightarrow> string set \<Rightarrow> proposed_tool_call list \<Rightarrow> unit action" where
  "propose_calls L proposed calls =
     for_act (\<lambda>c. if pc_id c \<in> proposed then ret ()
         else al_emit L (EvToolCallProposed (pc_id c) (pc_name c) (pc_input c))) calls"

text \<open>\<open>run_turn\<close>\<close>

definition run_turn :: "agent_loop \<Rightarrow> nat \<Rightarrow> provider_request \<Rightarrow> loop_state \<Rightarrow> (turn_outcome \<times> loop_state) action" where
  "run_turn L turn request st =
     bind_act (stream_response L request st) (\<lambda>(assistant_turn, stop_reason, proposed, st1).
     then_act (model_hooks_after L (ls_session st1) (EvStop stop_reason))
     (let calls = at_tool_calls assistant_turn in
      if calls = [] then ret (StopWith stop_reason, st1)
      else then_act (propose_calls L proposed calls)
        (bind_act (execute_tool_batch (al_env L) (ls_session st1) calls (rq_tool_name_map request)
            (ls_grants st1) turn (unat (al_max_turns L))) (\<lambda>(results, grants).
         bind_act (fold_act (result_step L calls) results (st1\<lparr>ls_grants := grants\<rparr>)) (\<lambda>st2.
           ret (ToolExecuted, st2))))))"

section \<open>Between turns\<close>

definition stop_reason_of :: "agent_loop \<Rightarrow> session \<Rightarrow> nat \<Rightarrow> turn_outcome \<Rightarrow> stop_reason option" where
  "stop_reason_of L s turns outcome =
     (if turns \<ge> unat (al_max_turns L) then Some MaxTurns
      else if exhausted (s_token_budget s) then Some BudgetExhausted
      else (case outcome of
          ToolExecuted \<Rightarrow> None
        | StopWith reason \<Rightarrow> if reason = ToolUse then None else Some reason))"

definition override_of :: "session \<Rightarrow> string \<Rightarrow> string option \<Rightarrow> string option \<Rightarrow> next_turn_override" where
  "override_of s model provider variant =
     \<lparr>nto_model = (if model = [] then sc_model (s_config s) else model),
      nto_provider = provider, nto_variant = variant\<rparr>"

text \<open>The reason if the turn is blocked, and the session with the override the events set.\<close>

fun next_turn_events :: "agent_loop \<Rightarrow> agent_event list \<Rightarrow> session \<Rightarrow> (string option \<times> session) action" where
  "next_turn_events L [] s = ret (None, s)"
| "next_turn_events L (ev # evs) s = (case ev of
       EvNextTurnOverrideRequested model provider variant \<Rightarrow>
         then_act (al_emit L ev)
           (next_turn_events L evs (s\<lparr>s_next_turn_override := Some (override_of s model provider variant)\<rparr>))
     | EvNextTurnBlocked reason \<Rightarrow> then_act (al_emit L ev) (ret (Some reason, s))
     | _ \<Rightarrow> then_act (al_emit L ev) (next_turn_events L evs s))"

fun next_turn_hooks_run :: "agent_loop \<Rightarrow> nat \<Rightarrow> next_turn_hook list \<Rightarrow> session \<Rightarrow> (string option \<times> session) action" where
  "next_turn_hooks_run L turn [] s = ret (None, s)"
| "next_turn_hooks_run L turn (h # hs) s =
     bind_act (try_act (dispatch (al_env L) ''next_turn'' ''prepare_next_turn'' (\<lambda>t. h t s turn))) (\<lambda>r. case r of
         Inr events \<Rightarrow> bind_act (next_turn_events L events s) (\<lambda>(blocked, s'). case blocked of
             Some reason \<Rightarrow> ret (Some reason, s')
           | None \<Rightarrow> next_turn_hooks_run L turn hs s')
       | Inl err \<Rightarrow>
           if err = HCancelled then fail HCancelled
           else then_act (al_emit L (EvError (''NextTurnHook.prepare_next_turn failed: '' @ error_to_string err) True))
             (next_turn_hooks_run L turn hs s))"

definition invoke_next_turn_hooks :: "agent_loop \<Rightarrow> nat \<Rightarrow> loop_state \<Rightarrow> (string option \<times> loop_state) action" where
  "invoke_next_turn_hooks L turn st =
     bind_act (next_turn_hooks_run L turn (next_turn_hooks (al_hooks L)) (ls_session st)) (\<lambda>(blocked, s).
       ret (blocked, st\<lparr>ls_session := s\<rparr>))"

section \<open>The loop\<close>

text \<open>One pass up to the checkpoint: the outcome of the turn and the reason to stop after it.\<close>

definition request_turn :: "agent_loop \<Rightarrow> nat \<Rightarrow> loop_state \<Rightarrow> (stop_reason option \<times> loop_state) action" where
  "request_turn L turns st =
     bind_act (build_request L turns st) (\<lambda>(request, st1).
     bind_act (run_turn L turns request st1) (\<lambda>(outcome, st2).
     then_act (emit_checkpoint L st2)
       (ret (stop_reason_of L (ls_session st2) (saturating_add turns 1) outcome, st2))))"

definition loop_turn :: "agent_loop \<Rightarrow> nat \<Rightarrow> loop_state \<Rightarrow> (stop_reason option \<times> loop_state) action" where
  "loop_turn L turns st =
     bind_act (drain_session_messages L turns st) (\<lambda>(injected, st1).
     then_act (if injected > 0 then emit_checkpoint L st1 else ret ()) (request_turn L turns st1))"

definition stop_blocked :: "agent_loop \<Rightarrow> string \<Rightarrow> nat \<Rightarrow> loop_state \<Rightarrow> (stop_reason \<times> nat \<times> loop_state) action" where
  "stop_blocked L block_reason turns st =
     then_act (al_emit L (EvHookFailed ''next_turn'' ''prepare_next_turn'' block_reason))
     (then_act (al_emit L (EvError block_reason False))
     (then_act (al_emit L (EvStop HookBlocked))
       (ret (HookBlocked, turns, st))))"

lemma max_turns_bound: "unat (al_max_turns L) \<le> usize_max"
proof -
  have "unat (al_max_turns L) < 2 ^ LENGTH(64)" by (rule unsigned_less)
  then show ?thesis by (simp add: usize_max_def)
qed

function run_loop :: "agent_loop \<Rightarrow> nat \<Rightarrow> loop_state \<Rightarrow> (stop_reason \<times> nat \<times> loop_state) action" where
  "run_loop L turns st =
     bind_act (ask (al_is_cancelled L)) (\<lambda>c.
     if c then fail HCancelled
     else if turns \<ge> unat (al_max_turns L) then
       then_act (al_emit L (EvStop MaxTurns)) (ret (MaxTurns, turns, st))
     else if exhausted (s_token_budget (ls_session st)) then
       then_act (al_emit L (EvStop BudgetExhausted)) (ret (BudgetExhausted, turns, st))
     else bind_act (loop_turn L turns st) (\<lambda>(stop, st1). case stop of
         Some reason \<Rightarrow>
           then_act (if reason = EndTurn \<or> reason = ToolUse then ret () else al_emit L (EvStop reason))
             (ret (reason, saturating_add turns 1, st1))
       | None \<Rightarrow> bind_act (invoke_next_turn_hooks L (saturating_add turns 1) st1) (\<lambda>(blocked, st2). case blocked of
             Some block_reason \<Rightarrow> stop_blocked L block_reason (saturating_add turns 1) st2
           | None \<Rightarrow> run_loop L (saturating_add turns 1) st2)))"
  by pat_completeness auto
termination
proof (relation "measure (\<lambda>(L, turns, st). unat (al_max_turns L) - turns)")
  show "wf (measure (\<lambda>(L :: agent_loop, turns, st :: loop_state). unat (al_max_turns L) - turns))" by simp
next
  fix L :: agent_loop and turns :: nat and st st2 :: loop_state
  assume "\<not> unat (al_max_turns L) \<le> turns"
  moreover have "unat (al_max_turns L) \<le> usize_max"
    by (rule max_turns_bound)
  ultimately show "((L, saturating_add turns 1, st2), L, turns, st)
      \<in> measure (\<lambda>(L, turns, st). unat (al_max_turns L) - turns)"
    by (simp add: saturating_add_def)
qed

declare run_loop.simps [simp del]

definition initial_state :: "session \<Rightarrow> loop_state" where
  "initial_state s = \<lparr>ls_session = s, ls_packet_hash = None, ls_prompt_source = None,
     ls_projection_id = None, ls_input_tokens = 0, ls_output_tokens = 0, ls_artifacts = [], ls_grants = []\<rparr>"

definition result_of :: "stop_reason \<Rightarrow> nat \<Rightarrow> loop_state \<Rightarrow> run_result" where
  "result_of reason turns st =
     \<lparr>rr_session_id = s_id (ls_session st), rr_turns = turns, rr_stop_reason = reason,
      rr_total_input_tokens = ls_input_tokens st, rr_total_output_tokens = ls_output_tokens st,
      rr_artifacts = ls_artifacts st,
      rr_workspace_snapshot_id = Some (take 12 (ws_content_hash (s_snapshot (ls_session st))))\<rparr>"

text \<open>Closing the queue is a consultation whose result the code drops.\<close>

definition close_queue :: "agent_loop \<Rightarrow> unit action" where
  "close_queue L = (case al_queue_drain L of None \<Rightarrow> ret () | Some drain \<Rightarrow> ask (\<lambda>_. ()))"

definition run :: "agent_loop \<Rightarrow> session \<Rightarrow> (run_result \<times> session) action" where
  "run L s =
     then_act (session_start_hooks L s)
     (then_act (emit_checkpoint L (initial_state s))
     (bind_act (run_loop L 0 (initial_state s)) (\<lambda>(reason, turns, st).
      then_act (close_queue L)
     (then_act (session_end_hooks L (ls_session st))
       (ret (result_of reason turns st, ls_session st))))))"

end
