(* ===== verification/Loop_Failures.thy ===== *)
theory Loop_Failures
  imports Agent_Loop
begin

text \<open>
  Where the failure of a run comes from: a run of the loop ends with an error only if one of
  its collaborators reported that error, the cancel token fired, or the provider streamed a
  tool call whose input does not parse or an unrecoverable error event. The loop itself adds
  no failure of its own: no panic, no missing accumulated call, no exhausted bound.
\<close>

section \<open>The origins\<close>

definition hook_origin :: "agent_loop \<Rightarrow> harness_error \<Rightarrow> bool" where
  "hook_origin L e \<longleftrightarrow> stops_hooks e \<and>
     ((\<exists>h \<in> set (session_hooks (al_hooks L)). \<exists>t s. on_session_start h t s = Inl e \<or> on_session_end h t s = Inl e) \<or>
      (\<exists>h \<in> set (context_hooks (al_hooks L)). \<exists>t s p. before_context_build h t s = Inl e \<or> after_context_build h t s p = Inl e) \<or>
      (\<exists>h \<in> set (model_hooks (al_hooks L)). \<exists>t s rq ev. before_model_request h t s rq = Inl e \<or> after_model_response h t s ev = Inl e) \<or>
      (\<exists>h \<in> set (tool_hooks (al_hooks L)). \<exists>t s nm r. after_tool_execution h t s nm r = Inl e) \<or>
      (\<exists>h \<in> set (verification_hooks (al_hooks L)). \<exists>t s ev. h t s ev = Inl e) \<or>
      (\<exists>h \<in> set (next_turn_hooks (al_hooks L)). \<exists>t s n. h t s n = Inl e))"

definition provider_origin :: "agent_loop \<Rightarrow> harness_error \<Rightarrow> bool" where
  "provider_origin L e \<longleftrightarrow>
     (\<exists>t rq. al_count_request_tokens L t rq = Inl e) \<or> (\<exists>t rq. al_stream L t rq = Inl e) \<or>
     (\<exists>t rq items. al_stream L t rq = Inr items \<and> Inl e \<in> set items) \<or>
     (\<exists>t rq items m. al_stream L t rq = Inr items \<and> Inr (EvError m False) \<in> set items \<and>
        e = HProvider (UnexpectedResponse m)) \<or>
     (\<exists>i txt err. al_parse L txt = Inl err \<and>
        e = HProvider (MalformedToolCall (''invalid tool call input for '' @ i @ '': '' @ err)))"

definition run_failure_origin :: "agent_loop \<Rightarrow> harness_error \<Rightarrow> bool" where
  "run_failure_origin L e \<longleftrightarrow>
     failure_origin (al_env L) e \<or> hook_origin L e \<or> provider_origin L e \<or>
     (e = HCancelled \<and> (\<exists>t. al_is_cancelled L t)) \<or>
     (\<exists>drain t. al_queue_drain L = Some drain \<and> drain t = Inl e) \<or>
     (\<exists>t rq evs. al_prepare L t rq = (evs, Inl e))"

definition run_blamed :: "agent_loop \<Rightarrow> harness_error \<Rightarrow> world \<Rightarrow> bool" where
  "run_blamed L e w \<longleftrightarrow> run_failure_origin L e"

interpretation run_failures: failure_bound "al_env L" "run_blamed L"
  by unfold_locales (auto simp: run_blamed_def run_failure_origin_def failure_origin_def)

lemma run_blamedI:
  "failure_origin (al_env L) e \<Longrightarrow> run_blamed L e w"
  "hook_origin L e \<Longrightarrow> run_blamed L e w"
  "provider_origin L e \<Longrightarrow> run_blamed L e w"
  "al_is_cancelled L t \<Longrightarrow> run_blamed L HCancelled w"
  "al_queue_drain L = Some drain \<Longrightarrow> drain t = Inl e \<Longrightarrow> run_blamed L e w"
  "al_prepare L t rq = (evs, Inl e) \<Longrightarrow> run_blamed L e w"
  unfolding run_blamed_def run_failure_origin_def by blast+

lemma cancel_run_blamed: "e_cancel_wins (al_env L) t \<Longrightarrow> run_blamed L HCancelled w"
  by (rule run_failures.cancel_err)

section \<open>Hooks\<close>

lemma al_emit_bounded: "(\<And>w. Q () w) \<Longrightarrow> wp (al_emit L ev) Q (run_blamed L) w"
  unfolding al_emit_def by (rule run_failures.emit_bounded)

lemma hooks_bounded:
  assumes "\<And>h t e. h \<in> set hs \<Longrightarrow> f h t = Inl e \<Longrightarrow> stops_hooks e \<Longrightarrow> hook_origin L e"
    and "\<And>w Q. (\<And>w. Q () w) \<Longrightarrow> wp c Q (run_blamed L) w"
    and "\<And>ev w. wp (k ev) (\<lambda>_ _. True) (run_blamed L) w" "\<And>w. Q () w"
  shows "wp (for_act (\<lambda>h. run_hook (al_env L) c ht nm lb (f h) k) hs) Q (run_blamed L) w"
  by (rule run_failures.for_bounded)
    (auto intro!: run_failures.run_hook_bounded assms(2-4) intro: run_blamedI(2) assms(1))

lemma session_hooks_bounded:
  "(\<And>w. Q () w) \<Longrightarrow> wp (session_start_hooks L s) Q (run_blamed L) w"
  "(\<And>w. Q () w) \<Longrightarrow> wp (session_end_hooks L s) Q (run_blamed L) w"
  unfolding session_start_hooks_def session_end_hooks_def
  by (rule hooks_bounded; (simp add: al_emit_bounded)?; force simp: hook_origin_def)+

lemma model_hooks_bounded:
  "(\<And>w. Q () w) \<Longrightarrow> wp (model_hooks_before L s rq) Q (run_blamed L) w"
  "(\<And>w. Q () w) \<Longrightarrow> wp (model_hooks_after L s ev) Q (run_blamed L) w"
  unfolding model_hooks_before_def model_hooks_after_def
  by (rule hooks_bounded; (simp add: al_emit_bounded)?; force simp: hook_origin_def)+

lemma after_tool_event_bounded: "(\<And>w. Q () w) \<Longrightarrow> wp (after_tool_event L s ev) Q (run_blamed L) w"
proof -
  assume Q: "\<And>w. Q () w"
  have "wp (verification_hooks_run L s ev) Q (run_blamed L) w" for w
    unfolding verification_hooks_run_def
    by (rule hooks_bounded; (simp add: al_emit_bounded Q)?; force simp: hook_origin_def)
  then show ?thesis unfolding after_tool_event_def wp_then
    by (rule_tac al_emit_bounded) (cases ev; simp add: Q)
qed

lemma tool_hooks_after_bounded:
  "(\<And>w. Q () w) \<Longrightarrow> wp (tool_hooks_after L s nm r) Q (run_blamed L) w"
  unfolding tool_hooks_after_def
  by (rule hooks_bounded; (simp add: after_tool_event_bounded)?; force simp: hook_origin_def)

lemma context_hooks_bounded:
  "(\<And>w. Q () w) \<Longrightarrow> wp (for_act (\<lambda>h. run_hook (al_env L) (context_cancelled L) ''context'' ''before_context_build''
     ''ContextHook.before_context_build'' (\<lambda>t. before_context_build h t s) (al_emit L)) (context_hooks (al_hooks L)))
   Q (run_blamed L) w"
  "(\<And>w. Q () w) \<Longrightarrow> wp (for_act (\<lambda>h. run_hook (al_env L) (context_cancelled L) ''context'' ''after_context_build''
     ''ContextHook.after_context_build'' (\<lambda>t. after_context_build h t s p) (al_emit L)) (context_hooks (al_hooks L)))
   Q (run_blamed L) w"
  by (rule hooks_bounded; (simp add: al_emit_bounded context_cancelled_def)?; force simp: hook_origin_def)+

section \<open>The request\<close>

lemma drain_bounded:
  assumes Q: "\<And>r w. Q r w"
  shows "wp (drain_session_messages L turn st) Q (run_blamed L) w"
proof (cases "al_queue_drain L")
  case (Some drain)
  have inject: "wp (fold_act (inject_message L turn) ms st) Q' (run_blamed L) w'"
    if "\<And>r w. Q' r w" for ms Q' w'
    by (rule run_failures.fold_bounded) (auto simp: inject_message_def intro!: al_emit_bounded that)
  show ?thesis unfolding drain_session_messages_def Some option.case wp_bind wp_ask wp_if wp_fail wp_lift
    by (auto intro!: inject al_emit_bounded Q intro: run_blamedI(4) run_blamedI(5) [OF Some] split: sum.splits)
qed (simp add: drain_session_messages_def Q)

lemma warn_override_bounded: "(\<And>w. Q () w) \<Longrightarrow> wp (warn_override L ov) Q (run_blamed L) w"
  unfolding warn_override_def by (auto intro!: al_emit_bounded split: option.splits)

lemma prepare_bounded:
  assumes "\<And>r w. Q r w"
  shows "wp (prepare_context L rq) Q (run_blamed L) w"
proof -
  obtain evs res where p: "al_prepare L (w_tick w) rq = (evs, res)" by (cases "al_prepare L (w_tick w) rq")
  show ?thesis unfolding prepare_context_def wp_bind wp_ask p prod.case wp_then
    by (rule run_failures.for_bounded)
      (use p in \<open>auto intro!: al_emit_bounded assms run_blamedI(6) split: sum.splits\<close>)
qed

lemma count_blamed: "al_count_request_tokens L t rq = Inl e \<Longrightarrow> run_blamed L e w"
  by (auto simp: run_blamed_def run_failure_origin_def provider_origin_def)

lemma build_request_bounded:
  assumes Q: "\<And>r w. Q r w"
  shows "wp (build_request L turn st) Q (run_blamed L) w"
  unfolding build_request_def Let_def wp_then
  by (rule al_emit_bounded, rule context_hooks_bounded, rule warn_override_bounded)
    (auto intro!: prepare_bounded context_hooks_bounded al_emit_bounded Q count_blamed split: sum.splits)

section \<open>The response\<close>

lemma acc_push_events:
  assumes "x \<in> set (fst (acc_push parse ev a))"
  shows "x = ev \<or> (\<exists>i nm v. x = EvToolCallProposed i nm v)"
proof (cases "\<exists>i nm d. ev = EvToolCallStreamed i nm d")
  case True
  then obtain i nm d where "ev = EvToolCallStreamed i nm d" by blast
  then show ?thesis using assms acc_push_call_cases [of parse i nm d a] by auto
next
  case False
  then have "acc_push parse ev a = ([ev], acc_record ev a)" by (intro acc_push_not_call) blast
  then show ?thesis using assms by simp
qed

definition item_blamed :: "agent_loop \<Rightarrow> harness_error + agent_event \<Rightarrow> bool" where
  "item_blamed L item \<longleftrightarrow> (case item of
       Inl e \<Rightarrow> provider_origin L e
     | Inr ev \<Rightarrow> \<forall>m. ev = EvError m False \<longrightarrow> provider_origin L (HProvider (UnexpectedResponse m)))"

lemma stream_items_blamed: "al_stream L t rq = Inr items \<Longrightarrow> item \<in> set items \<Longrightarrow> item_blamed L item"
  unfolding item_blamed_def provider_origin_def by (cases item) auto

lemma react_event_cases:
  "react_event x ss = Inl e \<Longrightarrow> \<exists>m. x = EvError m False \<and> e = HProvider (UnexpectedResponse m)"
  "react_event x ss = Inr ss' \<Longrightarrow> ss_acc ss' = ss_acc ss"
  by (cases x; auto simp: react_event_def split: if_splits)+

lemma note_proposal_acc [simp]: "ss_acc (note_proposal x ss) = ss_acc ss"
  by (cases x) (simp_all add: note_proposal_def)

lemma stream_events_bounded:
  assumes "item_blamed L (Inr ev)" "set evs \<subseteq> set (fst (acc_push parse ev a))"
    and "\<And>ss' w. ss_acc ss' = ss_acc ss \<Longrightarrow> Q ss' w"
  shows "wp (fold_act (stream_event_step L) evs ss) Q (run_blamed L) w"
proof (rule wp_conseq [OF wp_fold [where I = "\<lambda>_ ss' _. ss_acc ss' = ss_acc ss" and F = "run_blamed L"]], goal_cases)
  case (1 ys x zs s w)
  then have "x \<in> set (fst (acc_push parse ev a))" using assms(2) by auto
  from acc_push_events [OF this] have "react_event x s' = Inl e \<Longrightarrow> run_blamed L e w'" for e s' w'
    using assms(1) by (auto simp: item_blamed_def dest!: react_event_cases(1) intro: run_blamedI(3))
  then show ?case using 1(2) unfolding stream_event_step_def wp_then wp_lift
    by (intro al_emit_bounded) (auto dest: react_event_cases(2) split: sum.splits)
qed (auto intro: assms(3))

lemma stream_loop_bounded:
  assumes "\<forall>item \<in> set items. item_blamed L item" "acc_wf (ss_acc ss)"
    and Q: "\<And>ss' w. acc_wf (ss_acc ss') \<Longrightarrow> Q ss' w"
  shows "wp (stream_loop L hash items ss) Q (run_blamed L) w"
  using assms(1,2)
proof (induction items arbitrary: ss w)
  case Nil
  then show ?case by (auto simp: select_cancel_def cancel_run_blamed Q intro!: al_emit_bounded)
next
  case (Cons item items)
  show ?case
  proof (cases item)
    case (Inl e)
    then have "run_blamed L e w'" for w' using Cons.prems(1) by (simp add: item_blamed_def run_blamedI(3))
    then show ?thesis using Inl by (auto simp: select_cancel_def cancel_run_blamed intro!: al_emit_bounded)
  next
    case (Inr ev)
    have ok: "item_blamed L (Inr ev)" using Cons.prems(1) Inr by simp
    have wf: "acc_wf (snd (acc_push (al_parse L) ev (ss_acc ss)))" by (rule acc_push_wf [OF Cons.prems(2)])
    have "wp (case acc_push (al_parse L) ev (ss_acc ss) of (accumulated, acc) \<Rightarrow>
               bind_act (fold_act (stream_event_step L) accumulated (ss\<lparr>ss_acc := acc\<rparr>))
                 (stream_loop L hash items)) Q (run_blamed L) w'" for w'
      unfolding split_beta wp_bind
      by (rule stream_events_bounded [OF ok subset_refl], rule Cons.IH)
        (use Cons.prems(1) wf in simp_all)
    then show ?thesis using Inr by (auto simp: select_cancel_def cancel_run_blamed intro!: al_emit_bounded)
  qed
qed

lemma finish_calls_error:
  "set is \<subseteq> dom pend \<Longrightarrow> finish_calls parse pend is = Inl e \<Longrightarrow>
     \<exists>i txt err. parse txt = Inl err \<and>
       e = HProvider (MalformedToolCall (''invalid tool call input for '' @ i @ '': '' @ err))"
  by (induction "is") (auto split: option.splits sum.splits if_splits)

lemma acc_finish_blamed:
  assumes "acc_wf a" "acc_finish (al_parse L) a = Inl e"
  shows "run_blamed L e w"
proof -
  have "finish_calls (al_parse L) (ta_pending a) (ta_order a) = Inl e"
    using assms(2) by (auto simp: acc_finish_def split: sum.splits)
  then show ?thesis using finish_calls_error [of "ta_order a" "ta_pending a" "al_parse L" e] assms(1)
    unfolding run_blamed_def run_failure_origin_def provider_origin_def acc_wf_def by blast
qed

lemma finish_response_bounded:
  assumes "acc_wf (ss_acc ss)" "\<And>r w. Q r w"
  shows "wp (finish_response L hash ss) Q (run_blamed L) w"
  unfolding finish_response_def Let_def wp_then wp_bind wp_lift
  by (rule al_emit_bounded)
    (auto intro!: al_emit_bounded assms(2) acc_finish_blamed [OF assms(1)] split: sum.splits)

lemma stream_response_bounded:
  assumes Q: "\<And>r w. Q r w"
  shows "wp (stream_response L rq st) Q (run_blamed L) w"
proof -
  have recv: "wp (receive_response L hash st (al_stream L t rq)) Q (run_blamed L) w" for hash t w
  proof (cases "al_stream L t rq")
    case (Inl e)
    then have "run_blamed L e w" for w by (auto simp: run_blamed_def run_failure_origin_def provider_origin_def)
    then show ?thesis by (auto simp: receive_response_def Inl intro!: al_emit_bounded)
  next
    case (Inr items)
    show ?thesis unfolding receive_response_def Inr sum.case wp_bind
      by (rule stream_loop_bounded)
        (use stream_items_blamed [OF Inr] in \<open>auto intro!: finish_response_bounded Q simp: acc_wf_default\<close>)
  qed
  show ?thesis unfolding stream_response_def wp_then
    by (rule model_hooks_bounded, rule al_emit_bounded)
      (auto simp: select_cancel_def cancel_run_blamed intro!: al_emit_bounded recv)
qed

section \<open>The turn\<close>

lemma batch_bounded:
  assumes "\<And>r w. Q r w"
  shows "wp (execute_tool_batch (al_env L) s calls maps G turn mx) Q (run_blamed L) w"
  by (rule wp_conseq [OF wp_batch [OF runs_cleared_start]])
    (auto simp: assms stopped_safely_def blamed_def intro: run_blamedI(1))

lemma result_step_bounded:
  assumes "\<And>r w. Q r w"
  shows "wp (result_step L calls r st) Q (run_blamed L) w"
proof -
  obtain order i result duration source where r: "r = (order, i, result, duration, source)"
    by (cases r) auto
  have art: "wp (case xr_artifact result of None \<Rightarrow> ret () | Some art \<Rightarrow> al_emit L (ev art)) Q' (run_blamed L) w"
    if "\<And>w. Q' () w" for ev Q' w
    using that by (auto intro!: al_emit_bounded split: option.splits)
  show ?thesis unfolding r result_step_def prod.case Let_def wp_then
    by (rule art, rule al_emit_bounded, rule tool_hooks_after_bounded) (simp add: assms)
qed

lemma propose_bounded: "(\<And>w. Q () w) \<Longrightarrow> wp (propose_calls L proposed calls) Q (run_blamed L) w"
  unfolding propose_calls_def by (rule run_failures.for_bounded) (auto intro!: al_emit_bounded)

lemma run_turn_bounded:
  assumes Q: "\<And>r w. Q r w"
  shows "wp (run_turn L turn rq st) Q (run_blamed L) w"
  unfolding run_turn_def wp_bind
proof (rule stream_response_bounded, goal_cases)
  case (1 r w')
  obtain t sr pr st1 where r: "r = (t, sr, pr, st1)" by (cases r) auto
  have rest: "wp (fold_act (result_step L calls) results st2) (\<lambda>st3. wp (ret (ToolExecuted, st3)) Q (run_blamed L))
      (run_blamed L) w" for calls results st2 w
    by (rule run_failures.fold_bounded) (rule result_step_bounded, simp_all add: Q)
  show ?case unfolding r prod.case Let_def wp_then wp_if wp_ret wp_bind
    by (rule model_hooks_bounded) (auto intro!: Q propose_bounded batch_bounded rest split: prod.splits)
qed

section \<open>The loop\<close>

lemma next_turn_events_bounded:
  assumes "\<And>r w. Q r w"
  shows "wp (next_turn_events L evs s) Q (run_blamed L) w"
  by (induction evs arbitrary: s w)
    (auto simp: assms intro!: al_emit_bounded split: agent_event.splits)

lemma next_turn_hooks_bounded:
  assumes "set hs \<subseteq> set (next_turn_hooks (al_hooks L))" "\<And>r w. Q r w"
  shows "wp (next_turn_hooks_run L turn hs s) Q (run_blamed L) w"
  using assms(1)
proof (induction hs arbitrary: s w)
  case Nil
  then show ?case by (simp add: assms(2))
next
  case (Cons h hs)
  have rest: "wp (next_turn_hooks_run L turn hs s') Q (run_blamed L) w'" for s' w'
    using Cons by simp
  have h: "h t s turn = Inl e \<Longrightarrow> stops_hooks e \<Longrightarrow> run_blamed L e w'" for t e w'
    using Cons.prems by (intro run_blamedI(2)) (auto simp: hook_origin_def)
  show ?case unfolding next_turn_hooks_run.simps wp_bind wp_try
  proof (rule wp_conseq [OF run_failures.dispatch_bounded], goal_cases)
    case (2 evs w')
    show ?case unfolding sum.case wp_bind
      by (rule next_turn_events_bounded) (auto intro!: assms(2) rest split: option.splits)
  next
    case (3 e w')
    then show ?case using rest by (cases e) (auto simp: stops_hooks_def intro!: al_emit_bounded)
  qed (rule h)
qed

lemma invoke_bounded:
  assumes "\<And>r w. Q r w"
  shows "wp (invoke_next_turn_hooks L turn st) Q (run_blamed L) w"
  unfolding invoke_next_turn_hooks_def wp_bind
  by (rule next_turn_hooks_bounded) (auto simp: assms)

lemma checkpoint_bounded: "(\<And>w. Q () w) \<Longrightarrow> wp (emit_checkpoint L st) Q (run_blamed L) w"
  unfolding emit_checkpoint_def by (rule al_emit_bounded)

lemma loop_turn_bounded:
  assumes Q: "\<And>r w. Q r w"
  shows "wp (loop_turn L turns st) Q (run_blamed L) w"
proof -
  have req: "wp (request_turn L turns st1) Q (run_blamed L) w1" for st1 w1
    unfolding request_turn_def wp_bind
    by (rule build_request_bounded)
      (auto intro!: run_turn_bounded checkpoint_bounded Q split: prod.splits)
  show ?thesis unfolding loop_turn_def wp_bind
    by (rule drain_bounded) (auto intro!: checkpoint_bounded req split: prod.splits)
qed

lemma run_loop_bounded:
  assumes Q: "\<And>r w. Q r w"
  shows "wp (run_loop L turns st) Q (run_blamed L) w"
proof (induction "unat (al_max_turns L) - turns" arbitrary: turns st w rule: less_induct)
  case less
  have blocked: "wp (stop_blocked L reason turns' st') Q (run_blamed L) w'" for reason turns' st' w'
    unfolding stop_blocked_def by (auto intro!: al_emit_bounded Q)
  have next_turn: "wp (run_loop L (saturating_add turns 1) st') Q (run_blamed L) w'"
    if "\<not> unat (al_max_turns L) \<le> turns" for st' w'
  proof (rule less)
    show "unat (al_max_turns L) - saturating_add turns 1 < unat (al_max_turns L) - turns"
      using that max_turns_bound [of L] by (simp add: saturating_add_def)
  qed
  have turn: "wp (bind_act (loop_turn L turns st) (\<lambda>(stop, st1). case stop of
         Some reason \<Rightarrow>
           then_act (if reason = EndTurn \<or> reason = ToolUse then ret () else al_emit L (EvStop reason))
             (ret (reason, saturating_add turns 1, st1))
       | None \<Rightarrow> bind_act (invoke_next_turn_hooks L (saturating_add turns 1) st1) (\<lambda>(blocked, st2). case blocked of
             Some block_reason \<Rightarrow> stop_blocked L block_reason (saturating_add turns 1) st2
           | None \<Rightarrow> run_loop L (saturating_add turns 1) st2))) Q (run_blamed L) w'"
    if "\<not> unat (al_max_turns L) \<le> turns" for w'
    unfolding wp_bind
    by (rule loop_turn_bounded)
      (auto intro!: al_emit_bounded Q invoke_bounded blocked next_turn [OF that]
        split: prod.splits option.splits simp del: One_nat_def)
  show ?case
    by (subst run_loop.simps)
      (auto simp del: wp_bind One_nat_def simp: wp_bind [of "ask _"] intro!: turn al_emit_bounded Q intro: run_blamedI(4))
qed

lemma run_bounded:
  assumes Q: "\<And>r w. Q r w"
  shows "wp (run L s) Q (run_blamed L) w"
proof -
  have close: "wp (close_queue L) Q' (run_blamed L) w'" if "\<And>w. Q' () w" for Q' w'
    using that by (simp add: close_queue_def split: option.splits)
  show ?thesis unfolding run_def wp_then wp_bind
    by (rule session_hooks_bounded, rule checkpoint_bounded, rule run_loop_bounded)
      (auto intro!: close session_hooks_bounded Q split: prod.splits)
qed

end
