(* ===== verification/Loop_Safety.thy ===== *)
theory Loop_Safety
  imports Agent_Loop
begin

text \<open>
  The agent loop is correct. Its operations outside the tool batch keep every invariant the
  consultations keep; a run never takes more turns than allowed; sessions only grow, with
  consecutive message ids; every assistant message is followed by the results of exactly its
  tool calls, in their order; and every run of a tool, in any turn, was authorised: the policy
  allowed this very call, or the user approved it or an equal one for the session.
\<close>

section \<open>What the loop keeps\<close>

context consult_invariant
begin

lemma keeps_al_emit: "keeps I (al_emit L ev)"
  unfolding al_emit_def by (rule keeps_emit)

lemma keeps_session_hooks: "keeps I (session_start_hooks L s)" "keeps I (session_end_hooks L s)"
  unfolding session_start_hooks_def session_end_hooks_def
  by (intro keeps_for keeps_run_hook keeps_al_emit keeps_ret)+

lemma keeps_checkpoint: "keeps I (emit_checkpoint L st)"
  unfolding emit_checkpoint_def by (rule keeps_al_emit)

lemma keeps_drain: "keeps I (drain_session_messages L turn st)"
  unfolding drain_session_messages_def inject_message_def
  by (auto intro!: keeps_bind keeps_then keeps_fold keeps_ask keeps_al_emit split: option.splits)

lemma keeps_context_hooks:
  "keeps I (for_act (\<lambda>h. run_hook E (context_cancelled L) ht nm lb (f h) (al_emit L)) hs)"
  unfolding context_cancelled_def by (intro keeps_for keeps_run_hook keeps_al_emit)

lemma keeps_warn: "keeps I (warn_override L ov)"
  unfolding warn_override_def by (auto intro!: keeps_then keeps_al_emit split: option.splits)

lemma keeps_prepare: "keeps I (prepare_context L rq)"
  unfolding prepare_context_def by (auto intro!: keeps_bind keeps_then keeps_for keeps_ask keeps_al_emit)

lemma keeps_build_request: "keeps I (build_request L turn st)"
  unfolding build_request_def Let_def
  by (intro keeps_then keeps_bind keeps_al_emit keeps_context_hooks keeps_warn keeps_prepare keeps_ask
      keeps_lift keeps_ret)

lemma keeps_stream_event_step: "keeps I (stream_event_step L ev ss)"
  unfolding stream_event_step_def by (intro keeps_then keeps_al_emit keeps_lift)

lemma keeps_stream_loop: "keeps I (stream_loop L hash items ss)"
proof (induction items arbitrary: ss)
  case Nil
  show ?case unfolding stream_loop.simps select_cancel_def
    by (auto intro!: keeps_bind keeps_ask keeps_then keeps_al_emit)
next
  case (Cons item items)
  then show ?case unfolding stream_loop.simps select_cancel_def
    by (auto intro!: keeps_bind keeps_ask keeps_then keeps_fold keeps_al_emit keeps_stream_event_step
        split: sum.splits prod.splits)
qed

lemma keeps_model_hooks: "keeps I (model_hooks_before L s rq)" "keeps I (model_hooks_after L s ev)"
  unfolding model_hooks_before_def model_hooks_after_def
  by (intro keeps_for keeps_run_hook keeps_al_emit keeps_ret)+

lemma keeps_stream_response: "keeps I (stream_response L request st)"
  unfolding stream_response_def receive_response_def finish_response_def Let_def select_cancel_def
  by (auto intro!: keeps_bind keeps_ask keeps_then keeps_al_emit keeps_model_hooks keeps_stream_loop
      split: sum.splits)

lemma keeps_after_tool_event: "keeps I (after_tool_event L s ev)"
proof -
  have "keeps I (verification_hooks_run L s ev)"
    unfolding verification_hooks_run_def by (intro keeps_for keeps_run_hook keeps_al_emit keeps_ret)
  then show ?thesis unfolding after_tool_event_def
    by (intro keeps_then keeps_al_emit) (cases ev; simp)
qed

lemma keeps_result_step: "keeps I (result_step L calls r st)"
proof -
  have "keeps I (tool_hooks_after L s nm res)" for s nm res
    unfolding tool_hooks_after_def by (intro keeps_for keeps_run_hook keeps_after_tool_event keeps_ret)
  then show ?thesis unfolding result_step_def Let_def
    by (auto intro!: keeps_then keeps_al_emit split: prod.splits option.splits)
qed

lemma keeps_propose: "keeps I (propose_calls L proposed calls)"
  unfolding propose_calls_def by (auto intro!: keeps_for keeps_al_emit)

lemma keeps_next_turn_events: "keeps I (next_turn_events L evs s)"
proof (induction evs arbitrary: s)
  case (Cons ev evs)
  then show ?case by (cases ev) (auto intro!: keeps_then keeps_al_emit)
qed simp

lemma keeps_next_turn_hooks: "keeps I (next_turn_hooks_run L turn hs s)"
proof (induction hs arbitrary: s)
  case (Cons h hs)
  then show ?case
    by (auto intro!: keeps_bind keeps_try keeps_dispatch keeps_then keeps_al_emit keeps_next_turn_events
        split: sum.splits option.splits prod.splits)
qed simp

lemma keeps_invoke_next_turn: "keeps I (invoke_next_turn_hooks L turn st)"
  unfolding invoke_next_turn_hooks_def by (auto intro!: keeps_bind keeps_next_turn_hooks)

lemma keeps_close_queue: "keeps I (close_queue L)"
  unfolding close_queue_def by (auto intro!: keeps_ask split: option.splits)

end

section \<open>How the session evolves\<close>

text \<open>The messages added, and what stays.\<close>

definition evolves :: "session \<Rightarrow> message list \<Rightarrow> session \<Rightarrow> bool" where
  "evolves s ms s' \<longleftrightarrow>
     s_id s' = s_id s \<and> s_message_namespace s' = s_message_namespace s \<and> s_config s' = s_config s \<and>
     s_tool_ctx s' = s_tool_ctx s \<and> s_mode s' = s_mode s \<and> s_snapshot s' = s_snapshot s \<and>
     (\<exists>xs. s_history s' = s_history s @ xs) \<and> messages_of s' = messages_of s @ ms \<and>
     (history_wf s \<longrightarrow> history_wf s')"

lemma evolves_refl [simp]: "evolves s [] s"
  by (simp add: evolves_def)

lemma evolves_trans: "evolves s ms s' \<Longrightarrow> evolves s' ms' s'' \<Longrightarrow> evolves s (ms @ ms') s''"
  by (auto simp: evolves_def)

lemma evolves_append: "evolves s ms s' \<Longrightarrow> evolves s (ms @ [m]) (fst (append_message m s'))"
  by (rule evolves_trans, assumption)
    (auto simp: evolves_def history_wf_append append_message_def messages_of_def Let_def next_message_id_def
      dest: history_wf_append [of s' m])

lemma evolves_fields [simp]:
  "evolves s ms (s'\<lparr>s_token_budget := b\<rparr>) = evolves s ms s'"
  "evolves s ms (s'\<lparr>s_next_turn_override := ov\<rparr>) = evolves s ms s'"
  "evolves s ms (apply_context_state_delta d s') = evolves s ms s'"
  by (simp_all add: evolves_def history_wf_def messages_of_def apply_context_state_delta_def Let_def)

text \<open>What an operation does to the loop state, whatever the world answers.\<close>

definition grows_by :: "loop_state \<Rightarrow> (message list \<Rightarrow> bool) \<Rightarrow> loop_state \<Rightarrow> bool" where
  "grows_by st P st' \<longleftrightarrow> (\<exists>ms. P ms \<and> evolves (ls_session st) ms (ls_session st')) \<and> ls_grants st' = ls_grants st"

lemma grows_by_mono: "grows_by st P st' \<Longrightarrow> (\<And>ms. P ms \<Longrightarrow> P' ms) \<Longrightarrow> grows_by st P' st'"
  unfolding grows_by_def by blast

lemma wp_any: "(\<And>x w. Q x w) \<Longrightarrow> wp m Q (\<lambda>_ _. True) w"
  by (simp add: wp_def split: prod.splits sum.splits)

lemma wp_drop: "wp m (\<lambda>_ _. True) (\<lambda>_ _. True) w"
  by (rule wp_any) simp

text \<open>Pass an action whose result does not matter.\<close>

lemma wp_bind_any: "(\<And>x w. wp (f x) Q (\<lambda>_ _. True) w) \<Longrightarrow> wp (bind_act m f) Q (\<lambda>_ _. True) w"
  unfolding wp_bind by (rule wp_any)

lemma wp_then_any: "(\<And>w. wp k Q (\<lambda>_ _. True) w) \<Longrightarrow> wp (then_act m k) Q (\<lambda>_ _. True) w"
  unfolding wp_then by (rule wp_any)

definition is_steering :: "message \<Rightarrow> bool" where
  "is_steering m = (case m of MUser b md \<Rightarrow> True | _ \<Rightarrow> False)"

lemma wp_drain_state:
  "wp (drain_session_messages L turn st)
     (\<lambda>r _. grows_by st (\<lambda>ms. length ms = fst r \<and> list_all is_steering ms) (snd r)) (\<lambda>_ _. True) w"
proof (cases "al_queue_drain L")
  case None
  then show ?thesis by (simp add: drain_session_messages_def grows_by_def)
next
  case (Some drain)
  have inj: "wp (fold_act (inject_message L turn) messages st)
      (\<lambda>st' _. grows_by st (\<lambda>ms. ms = map (steering_message turn) messages) st') (\<lambda>_ _. True) w'" for messages w'
  proof (rule wp_fold [where I = "\<lambda>done st' _. grows_by st (\<lambda>ms. ms = map (steering_message turn) done) st'"], goal_cases)
    case (1 ys m zs st' w1)
    then show ?case unfolding inject_message_def wp_then
      by - (rule wp_any, auto simp: grows_by_def intro: evolves_append)
  qed (simp add: grows_by_def)
  have weaken: "grows_by st (\<lambda>ms. ms = map (steering_message turn) messages) st' \<Longrightarrow>
      grows_by st (\<lambda>ms. length ms = length messages \<and> list_all is_steering ms) st'" for messages st'
    by (erule grows_by_mono) (auto simp: list_all_iff is_steering_def steering_message_def)
  let ?Q = "\<lambda>r _. grows_by st (\<lambda>ms. length ms = fst r \<and> list_all is_steering ms) (snd r)"
  have tail: "wp (fold_act (inject_message L turn) messages st)
      (\<lambda>st'. wp (then_act (al_emit L (EvSessionMessageQueueDrained (length messages)))
          (ret (length messages, st'))) ?Q (\<lambda>_ _. True)) (\<lambda>_ _. True) w'" for messages w'
    by (rule wp_conseq [OF inj], rule wp_then_any) (simp_all add: weaken)
  have none: "?Q (0, st) w'" for w' :: world by (simp add: grows_by_def)
  show ?thesis unfolding drain_session_messages_def Some option.case wp_bind wp_ask wp_if wp_lift
    using tail none by (simp split: sum.splits)
qed

lemma wp_build_request_state:
  "wp (build_request L turn st) (\<lambda>r _. grows_by st (\<lambda>ms. ms = []) (snd r)) (\<lambda>_ _. True) w"
  unfolding build_request_def Let_def
  by (intro wp_then_any wp_bind_any) (simp add: grows_by_def)

section \<open>The response and the tool results\<close>

lemma react_event_state:
  "react_event ev ss = Inr ss' \<Longrightarrow> grows_by (ss_state ss) (\<lambda>ms. ms = []) (ss_state ss') \<and> ss_acc ss' = ss_acc ss"
  by (cases ev) (auto simp: react_event_def grows_by_def record_usage_event_def split: if_splits)

lemma note_proposal_state [simp]: "ss_state (note_proposal ev ss) = ss_state ss" "ss_acc (note_proposal ev ss) = ss_acc ss"
  by (cases ev; simp add: note_proposal_def)+

lemma grows_by_nil_trans: "grows_by st (\<lambda>ms. ms = []) st' \<Longrightarrow> grows_by st' P st'' \<Longrightarrow> grows_by st P st''"
  unfolding grows_by_def using evolves_trans [of "ls_session st" "[]"] by fastforce

lemma grows_by_refl: "grows_by st (\<lambda>ms. ms = []) st"
  by (simp add: grows_by_def)

lemma wp_stream_loop_state:
  "wp (stream_loop L hash items ss)
     (\<lambda>ss' _. grows_by (ss_state ss) (\<lambda>ms. ms = []) (ss_state ss')) (\<lambda>_ _. True) w"
proof (induction items arbitrary: ss w)
  case Nil
  show ?case unfolding stream_loop.simps wp_bind select_cancel_def wp_ask wp_if wp_then
    by (auto intro: wp_any simp: grows_by_refl)
next
  case (Cons item items)
  have step: "wp (fold_act (stream_event_step L) evs ss1)
      (\<lambda>ss' _. grows_by (ss_state ss1) (\<lambda>ms. ms = []) (ss_state ss')) (\<lambda>_ _. True) w'" for evs ss1 w'
  proof (rule wp_fold [where I = "\<lambda>_ ss' _. grows_by (ss_state ss1) (\<lambda>ms. ms = []) (ss_state ss')"], goal_cases)
    case (1 ys ev zs ss2 w1)
    then show ?case unfolding stream_event_step_def
      by - (rule wp_then_any, auto dest!: react_event_state intro: grows_by_nil_trans split: sum.splits)
  qed (rule grows_by_refl)
  have more: "wp (fold_act (stream_event_step L) evs (ss\<lparr>ss_acc := acc\<rparr>))
      (\<lambda>ss'. wp (stream_loop L hash items ss')
         (\<lambda>ss'' _. grows_by (ss_state ss) (\<lambda>ms. ms = []) (ss_state ss'')) (\<lambda>_ _. True)) (\<lambda>_ _. True) w'" for evs acc w'
    by (rule wp_conseq [OF step]) (auto intro: wp_conseq [OF Cons] grows_by_nil_trans)
  show ?case
  proof (cases item)
    case (Inl err)
    show ?thesis unfolding Inl stream_loop.simps
      by (rule wp_bind_any) (simp only: sum.case split: if_split, intro conjI impI wp_then_any, simp_all)
  next
    case (Inr ev)
    then show ?thesis using more
      by (auto simp: select_cancel_def intro: wp_any split: prod.splits)
  qed
qed

lemma wp_stream_response_state:
  "wp (stream_response L request st)
     (\<lambda>(turn, reason, proposed, st') _. grows_by st (\<lambda>ms. ms = [into_message turn]) st') (\<lambda>_ _. True) w"
proof -
  have commit: "grows_by st (\<lambda>ms. ms = [m]) (st'\<lparr>ls_session := fst (append_message m (ls_session st'))\<rparr>)"
    if "grows_by st (\<lambda>ms. ms = []) st'" for m and st' :: loop_state
    using that evolves_append [of "ls_session st" "[]" "ls_session st'" m] by (simp add: grows_by_def)
  let ?Q = "\<lambda>(turn, reason, proposed, st') _. grows_by st (\<lambda>ms. ms = [into_message turn]) st'"
  have finish: "wp (finish_response L hash ss) ?Q (\<lambda>_ _. True) w'"
    if "grows_by st (\<lambda>ms. ms = []) (ss_state ss)" for hash ss w'
    unfolding finish_response_def Let_def
    by (intro wp_then_any wp_bind_any) (simp add: commit that)
  have receive: "wp (receive_response L hash st res) ?Q (\<lambda>_ _. True) w'" for hash res w'
  proof (cases res)
    case (Inl e)
    show ?thesis unfolding receive_response_def Inl sum.case by (rule wp_then_any) simp
  next
    case (Inr items)
    show ?thesis unfolding receive_response_def Inr sum.case wp_bind
      by (rule wp_conseq [OF wp_stream_loop_state]) (simp_all add: finish)
  qed
  have start: "wp (if c then then_act m (fail HCancelled) else bind_act q (receive_response L hash st)) ?Q (\<lambda>_ _. True) w'"
    for c m q hash w'
    by (cases c; simp only: if_True if_False) (rule wp_then_any wp_bind_any, simp add: receive)+
  show ?thesis unfolding stream_response_def
    by (rule wp_then_any, rule wp_then_any, rule wp_bind_any, rule start)
qed

text \<open>The id a result answers.\<close>

definition result_id :: "message \<Rightarrow> string option" where
  "result_id m = (case m of MToolResult i c e f n h a \<Rightarrow> Some i | _ \<Rightarrow> None)"

lemma wp_result_step_state:
  "wp (result_step L calls r st)
     (\<lambda>st' _. grows_by st (\<lambda>ms. map result_id ms = [Some (snd (result_tag r))]) st') (\<lambda>_ _. True) w"
proof -
  obtain order i result duration source where r: "r = (order, i, result, duration, source)"
    by (cases r) auto
  show ?thesis unfolding result_step_def r prod.case Let_def
    by (intro wp_then_any)
      (use evolves_append [OF evolves_refl, of "ls_session st"] in
        \<open>force simp: grows_by_def result_tag_def result_id_def\<close>)
qed

lemma wp_results_state:
  "wp (fold_act (result_step L calls) results st)
     (\<lambda>st' _. grows_by st (\<lambda>ms. map result_id ms = map (Some \<circ> snd \<circ> result_tag) results) st')
     (\<lambda>_ _. True) w"
proof (rule wp_fold [where I = "\<lambda>done st' _.
      grows_by st (\<lambda>ms. map result_id ms = map (Some \<circ> snd \<circ> result_tag) done) st'"], goal_cases)
  case (1 ys r zs st1 w1)
  show ?case
  proof (rule wp_conseq [OF wp_result_step_state])
    fix st2 :: loop_state and w2 :: world
    assume "grows_by st1 (\<lambda>ms. map result_id ms = [Some (snd (result_tag r))]) st2"
    then obtain ms2 where ms2: "map result_id ms2 = [Some (snd (result_tag r))]"
      "evolves (ls_session st1) ms2 (ls_session st2)" "ls_grants st2 = ls_grants st1"
      unfolding grows_by_def by (elim conjE exE) (rule that)
    obtain ms1 where ms1: "map result_id ms1 = map (Some \<circ> snd \<circ> result_tag) ys"
      "evolves (ls_session st) ms1 (ls_session st1)" "ls_grants st1 = ls_grants st"
      using 1(2) unfolding grows_by_def by blast
    show "grows_by st (\<lambda>ms. map result_id ms = map (Some \<circ> snd \<circ> result_tag) (ys @ [r])) st2"
      unfolding grows_by_def using ms1 ms2 evolves_trans [OF ms1(2) ms2(2)]
      by (intro conjI exI [of _ "ms1 @ ms2"]) simp_all
  qed simp
qed (simp add: grows_by_def)

section \<open>Authorisation over a run\<close>

text \<open>The user approved the call, or an equal one for the session at a risk no lower.\<close>

definition user_approved :: "env \<Rightarrow> effect list \<Rightarrow> string \<Rightarrow> canonical_tool_id \<Rightarrow> json \<Rightarrow> risk_level \<Rightarrow> bool" where
  "user_approved E tr i cid input risk \<longleftrightarrow>
     ApprovalAnswered i (cid_to_string cid) input Approve \<in> set tr \<or>
     (\<exists>i' cid' t input'. e_catalog E cid' = Some t \<and> cid_to_string cid' = cid_to_string cid \<and>
        ApprovalAnswered i' (cid_to_string cid') input' AlwaysAllowForSession \<in> set tr \<and>
        hash_input input' = hash_input input \<and> risk \<le> t_risk t input')"

definition authorised :: "env \<Rightarrow> session \<Rightarrow> effect list \<Rightarrow> effect \<Rightarrow> bool" where
  "authorised E s past x \<longleftrightarrow> (\<forall>i nm input. x = Ran i nm input \<longrightarrow>
     (\<exists>cid t d. e_catalog E cid = Some t \<and> t_name t = nm \<and>
        \<not> network_blocked s (cid_to_string cid) input \<and>
        asked past s i (cid_to_string cid) input (t_risk t input) d \<and>
        (pd_status d = Allowed \<or>
         pd_status d = Confirm \<and> user_approved E past i cid input (t_risk t input))))"

definition authorised_since :: "env \<Rightarrow> session \<Rightarrow> effect list \<Rightarrow> world \<Rightarrow> bool" where
  "authorised_since E s tr0 w \<longleftrightarrow> extends_trace tr0 w \<and>
     (\<forall>past x later. since tr0 w = past @ x # later \<longrightarrow> authorised E s past x)"

definition grant_backed :: "env \<Rightarrow> effect list \<Rightarrow> session_grant \<Rightarrow> bool" where
  "grant_backed E tr g \<longleftrightarrow> (\<exists>cid t i input. e_catalog E cid = Some t \<and>
     ApprovalAnswered i (cid_to_string cid) input AlwaysAllowForSession \<in> set tr \<and>
     sg_tool_name g = cid_to_string cid \<and> sg_input_hash g = hash_input input \<and>
     sg_risk_ceiling g = t_risk t input)"

definition grants_backed :: "env \<Rightarrow> effect list \<Rightarrow> session_grant list \<Rightarrow> bool" where
  "grants_backed E tr G \<longleftrightarrow> (\<forall>g \<in> set G. grant_backed E tr g)"

lemma grant_made_backed: "grant_made E turn mx tr g \<Longrightarrow> grant_backed E tr g"
  unfolding grant_made_def grant_backed_def
  by (elim exE conjE) (intro exI conjI, assumption+, simp_all add: session_grant_new_def)

lemma user_approved_mono:
  "user_approved E tr i cid input risk \<Longrightarrow> set tr \<subseteq> set tr' \<Longrightarrow> user_approved E tr' i cid input risk"
  unfolding user_approved_def by blast

lemma grants_backed_mono: "grants_backed E tr G \<Longrightarrow> set tr \<subseteq> set tr' \<Longrightarrow> grants_backed E tr' G"
  unfolding grants_backed_def grant_backed_def by blast

lemma grants_backed_append:
  "grants_backed E tr G \<Longrightarrow> \<forall>g \<in> set made. grant_made E turn mx tr g \<Longrightarrow> grants_backed E tr (G @ made)"
  unfolding grants_backed_def using grant_made_backed by (auto simp: ball_Un)

lemma confirmed_user_approved:
  assumes "confirmed G turn tr i (cid_to_string cid) input (t_risk t input)"
    and "e_catalog E cid = Some t" "grants_backed E tr' G" "set tr \<subseteq> set tr'"
  shows "user_approved E tr' i cid input (t_risk t input)"
proof -
  from assms(1) consider "ApprovalAnswered i (cid_to_string cid) input Approve \<in> set tr"
    | "ApprovalAnswered i (cid_to_string cid) input AlwaysAllowForSession \<in> set tr"
    | g where "g \<in> set G" "covers g (cid_to_string cid) input (t_risk t input) turn"
    unfolding confirmed_def by blast
  then show ?thesis
  proof cases
    case 3
    obtain cid' t' i' input' where "e_catalog E cid' = Some t'"
      "ApprovalAnswered i' (cid_to_string cid') input' AlwaysAllowForSession \<in> set tr'"
      "sg_tool_name g = cid_to_string cid'" "sg_input_hash g = hash_input input'"
      "sg_risk_ceiling g = t_risk t' input'"
      using assms(3) 3(1) unfolding grants_backed_def grant_backed_def by blast
    then show ?thesis using 3(2) unfolding user_approved_def covers_iff by metis
  qed (use assms(2,4) in \<open>unfold user_approved_def, blast+\<close>)
qed

lemma evolves_same_rules:
  assumes "evolves s ms s'"
  shows "network_blocked s' tn input = network_blocked s tn input"
    and "asked tr s' i tn input risk d = asked tr s i tn input risk d"
  using assms by (simp_all add: evolves_def network_blocked_def asked_def)

lemma cleared_authorised:
  assumes "run_cleared E s' G turn past x" "evolves s ms s'" "grants_backed E tr G"
  shows "authorised E s (tr @ past) x"
proof -
  have b: "grants_backed E (tr @ past) G" using assms(3) by (rule grants_backed_mono) simp
  show ?thesis unfolding authorised_def
  proof (intro allI impI)
    fix i nm input
    assume "x = Ran i nm input"
    then obtain cid t d where c: "t_name t = nm" "e_catalog E cid = Some t"
      "\<not> network_blocked s' (cid_to_string cid) input"
      "asked past s' i (cid_to_string cid) input (t_risk t input) d"
      "pd_status d = Allowed \<or> pd_status d = Confirm \<and> confirmed G turn past i (cid_to_string cid) input (t_risk t input)"
      using assms(1) unfolding run_cleared_def cleared_def by blast
    have "asked (tr @ past) s i (cid_to_string cid) input (t_risk t input) d"
      using c(4) asked_mono [of past s i _ input _ d "tr @ past"] by (simp add: evolves_same_rules [OF assms(2)])
    moreover have "\<not> network_blocked s (cid_to_string cid) input"
      using c(3) by (simp add: evolves_same_rules [OF assms(2)])
    moreover have "user_approved E (tr @ past) i cid input (t_risk t input)" if "pd_status d \<noteq> Allowed"
      using c(5) that confirmed_user_approved [OF _ c(2) b] by auto
    ultimately show "\<exists>cid t d. e_catalog E cid = Some t \<and> t_name t = nm \<and>
        \<not> network_blocked s (cid_to_string cid) input \<and>
        asked (tr @ past) s i (cid_to_string cid) input (t_risk t input) d \<and>
        (pd_status d = Allowed \<or>
         pd_status d = Confirm \<and> user_approved E (tr @ past) i cid input (t_risk t input))"
      using c by blast
  qed
qed

lemma split_at_element:
  "xs @ ys = past @ x # later \<Longrightarrow>
     (\<exists>l. xs = past @ x # l) \<or> (\<exists>p. past = xs @ p \<and> ys = p @ x # later)"
  by (auto simp: append_eq_append_conv2 Cons_eq_append_conv append_eq_Cons_conv)

lemma authorised_batch:
  assumes "authorised_since E s tr0 w" "grants_backed E (since tr0 w) G"
    and "runs_cleared E s' G turn (w_trace w) w'" "evolves s ms s'"
  shows "authorised_since E s tr0 w'"
proof -
  have e: "extends_trace tr0 w" "extends_trace (w_trace w) w'"
    using assms by (simp_all add: authorised_since_def runs_cleared_def)
  then have s: "since tr0 w' = since tr0 w @ since (w_trace w) w'" "extends_trace tr0 w'"
    by (auto simp: since_def extends_trace_def)
  have "authorised E s past x" if p: "since tr0 w' = past @ x # later" for past x later
    using split_at_element [OF p [unfolded s(1)]]
  proof
    assume "\<exists>l. since tr0 w = past @ x # l"
    then show ?thesis using assms(1) unfolding authorised_since_def by blast
  next
    assume "\<exists>p. past = since tr0 w @ p \<and> since (w_trace w) w' = p @ x # later"
    then obtain p where "past = since tr0 w @ p" "run_cleared E s' G turn p x"
      using assms(3) unfolding runs_cleared_def by blast
    then show ?thesis using cleared_authorised assms(2,4) by blast
  qed
  then show ?thesis using s(2) unfolding authorised_since_def by blast
qed

definition auth_ok :: "env \<Rightarrow> session \<Rightarrow> effect list \<Rightarrow> session_grant list \<Rightarrow> world \<Rightarrow> bool" where
  "auth_ok E s tr0 G w \<longleftrightarrow> authorised_since E s tr0 w \<and> grants_backed E (since tr0 w) G"

lemma auth_ok_snoc:
  assumes "auth_ok E s tr0 G w" "\<And>i nm input. x \<noteq> Ran i nm input"
  shows "auth_ok E s tr0 G (w\<lparr>w_trace := w_trace w @ [x]\<rparr>)"
proof -
  have e: "extends_trace tr0 w" using assms(1) by (simp add: auth_ok_def authorised_since_def)
  have x: "authorised E s past x" for past using assms(2) by (simp add: authorised_def)
  have "authorised E s past y" if "since tr0 w @ [x] = past @ y # later" for past y later
    using split_at_element [OF that] assms(1) x
    by (auto simp: auth_ok_def authorised_since_def Cons_eq_append_conv)
  moreover have "extends_trace tr0 (w\<lparr>w_trace := w_trace w @ [x]\<rparr>)"
    using e by (auto simp: extends_trace_def)
  moreover have "grants_backed E (since tr0 w @ [x]) G"
    using assms(1) grants_backed_mono [of E "since tr0 w" G "since tr0 w @ [x]"] by (auto simp: auth_ok_def)
  ultimately show ?thesis by (simp add: auth_ok_def authorised_since_def since_note [OF e])
qed

interpretation run_safety: consult_invariant "auth_ok E s tr0 G"
proof unfold_locales
  fix w t
  show "auth_ok E s tr0 G w \<Longrightarrow> auth_ok E s tr0 G (w\<lparr>w_tick := t\<rparr>)"
    by (simp add: auth_ok_def authorised_since_def extends_trace_def)
qed (auto intro!: auth_ok_snoc)

section \<open>One turn\<close>

text \<open>The messages a turn adds: the assistant's, and the results of exactly its tool calls.\<close>

definition exchange :: "message list \<Rightarrow> bool" where
  "exchange ms \<longleftrightarrow> (\<exists>bs rs. ms = MAssistant bs # rs \<and>
     map result_id rs = map Some (tool_use_ids (MAssistant bs)))"

definition turn_post :: "env \<Rightarrow> session \<Rightarrow> effect list \<Rightarrow> (message list \<Rightarrow> bool) \<Rightarrow> loop_state
    \<Rightarrow> loop_state \<Rightarrow> world \<Rightarrow> bool" where
  "turn_post E s0 tr0 P st st' w \<longleftrightarrow> auth_ok E s0 tr0 (ls_grants st') w \<and>
     (\<exists>ms. P ms \<and> evolves (ls_session st) ms (ls_session st'))"

definition failed_safely :: "env \<Rightarrow> session \<Rightarrow> effect list \<Rightarrow> harness_error \<Rightarrow> world \<Rightarrow> bool" where
  "failed_safely E s0 tr0 e w \<longleftrightarrow> authorised_since E s0 tr0 w"

lemma auth_ok_failed [simp]: "auth_ok E s0 tr0 G w \<Longrightarrow> failed_safely E s0 tr0 e w"
  by (simp add: auth_ok_def failed_safely_def)

text \<open>An operation that keeps the invariant and whose state lemma is known.\<close>

lemma wp_turn_post:
  assumes "wp m (\<lambda>x _. grows_by st P (f x)) (\<lambda>_ _. True) w" "keeps (auth_ok E s0 tr0 (ls_grants st)) m"
    and "auth_ok E s0 tr0 (ls_grants st) w"
  shows "wp m (\<lambda>x. turn_post E s0 tr0 P st (f x)) (failed_safely E s0 tr0) w"
  using wp_conj [OF assms(1) keepsD [OF assms(2,3)]]
  by (rule wp_conseq) (auto simp: grows_by_def turn_post_def)

lemma tool_use_ids_into: "into_message turn = MAssistant bs \<Longrightarrow> tool_use_ids (MAssistant bs) = map pc_id (at_tool_calls turn)"
  by (metis into_message_tool_uses)

lemma into_message_assistant: "\<exists>bs. into_message turn = MAssistant bs"
  by (simp add: into_message_def Let_def)

lemma wp_call_batch:
  assumes "auth_ok E s0 tr0 (ls_grants st) w" "evolves s0 ms0 (ls_session st)"
  shows "wp (bind_act (execute_tool_batch E (ls_session st) calls maps (ls_grants st) turn mx)
        (\<lambda>(results, grants). fold_act (result_step L calls) results (st\<lparr>ls_grants := grants\<rparr>)))
     (turn_post E s0 tr0 (\<lambda>ms. map result_id ms = map (Some \<circ> pc_id) calls) st) (failed_safely E s0 tr0) w"
proof -
  have auth: "authorised_since E s0 tr0 w" "grants_backed E (since tr0 w) (ls_grants st)"
    using assms(1) by (simp_all add: auth_ok_def)
  have e: "extends_trace tr0 w" using auth(1) by (simp add: authorised_since_def)
  show ?thesis unfolding wp_bind
  proof (rule wp_conseq [OF wp_batch [OF runs_cleared_start]])
    fix r w1
    assume r: "batch_post E (ls_session st) (ls_grants st) turn mx (w_trace w) calls r w1"
    obtain results grants where rg: "r = (results, grants)" by (cases r)
    let ?st = "st\<lparr>ls_grants := grants\<rparr>"
    have run: "runs_cleared E (ls_session st) (ls_grants st) turn (w_trace w) w1"
      using r by (simp add: batch_post_def)
    have s: "since tr0 w1 = since tr0 w @ since (w_trace w) w1"
      using e run by (auto simp: runs_cleared_def since_def extends_trace_def)
    obtain made where made: "grants = ls_grants st @ made"
      "\<forall>g \<in> set made. grant_made E turn mx (since (w_trace w) w1) g"
      using r rg by (auto simp: batch_post_def)
    have "\<forall>g \<in> set made. grant_made E turn mx (since tr0 w1) g"
      using made(2) s grant_made_mono [of E turn mx "since (w_trace w) w1"] by auto
    moreover have "grants_backed E (since tr0 w1) (ls_grants st)"
      using auth(2) s grants_backed_mono [of E "since tr0 w"] by auto
    ultimately have "grants_backed E (since tr0 w1) (ls_grants st @ made)"
      by (rule grants_backed_append [rotated])
    then have ok: "auth_ok E s0 tr0 (ls_grants ?st) w1"
      using authorised_batch [OF auth run assms(2)] made(1) by (simp add: auth_ok_def)
    have "map result_tag results = List.enumerate 0 (map pc_id calls)"
      using r rg by (simp add: batch_post_def)
    then have "map snd (map result_tag results) = map snd (List.enumerate 0 (map pc_id calls))" by simp
    then have "map (snd \<circ> result_tag) results = map pc_id calls" by simp
    then have ids: "map (Some \<circ> snd \<circ> result_tag) results = map (Some \<circ> pc_id) calls"
      by (metis comp_assoc list.map_comp)
    have "wp (fold_act (result_step L calls) results ?st)
        (turn_post E s0 tr0 (\<lambda>ms. map result_id ms = map (Some \<circ> snd \<circ> result_tag) results) ?st)
        (failed_safely E s0 tr0) w1"
      using wp_turn_post [OF wp_results_state keeps_fold [OF run_safety.keeps_result_step] ok] .
    then show "wp (case r of (results, grants) \<Rightarrow>
          fold_act (result_step L calls) results (st\<lparr>ls_grants := grants\<rparr>))
        (turn_post E s0 tr0 (\<lambda>ms. map result_id ms = map (Some \<circ> pc_id) calls) st) (failed_safely E s0 tr0) w1"
      unfolding rg prod.case ids by (rule wp_conseq) (simp_all add: turn_post_def)
  next
    fix x w1
    assume "stopped_safely E (ls_session st) (ls_grants st) turn (w_trace w) x w1"
    then show "failed_safely E s0 tr0 x w1"
      using authorised_batch [OF auth _ assms(2), of turn w1] by (simp add: stopped_safely_def failed_safely_def)
  qed
qed

lemma wp_run_turn:
  assumes "auth_ok E s0 tr0 (ls_grants st) w" "evolves s0 ms0 (ls_session st)" "E = al_env L"
  shows "wp (run_turn L turn request st)
     (\<lambda>r. turn_post E s0 tr0 exchange st (snd r)) (failed_safely E s0 tr0) w"
  unfolding run_turn_def wp_bind [of "stream_response _ _ _"]
proof (rule wp_conseq [OF wp_conj [OF wp_stream_response_state
      keepsD [OF run_safety.keeps_stream_response assms(1)]]])
  fix r :: response and w1
  assume a: "(case r of (turn, reason, proposed, st') \<Rightarrow> \<lambda>_. grows_by st (\<lambda>ms. ms = [into_message turn]) st') w1 \<and>
      auth_ok E s0 tr0 (ls_grants st) w1"
  obtain asst reason proposed st1 where r: "r = (asst, reason, proposed, st1)" by (cases r)
  obtain bs where bs: "into_message asst = MAssistant bs" using into_message_assistant by blast
  have g: "evolves (ls_session st) [MAssistant bs] (ls_session st1)" "ls_grants st1 = ls_grants st"
    using a r bs by (auto simp: grows_by_def)
  have ok: "auth_ok E s0 tr0 (ls_grants st1) w1" using a g(2) by simp
  have ev: "evolves s0 (ms0 @ [MAssistant bs]) (ls_session st1)"
    using evolves_trans [OF assms(2) g(1)] .
  let ?calls = "at_tool_calls asst"
  have ids: "tool_use_ids (MAssistant bs) = map pc_id ?calls" using tool_use_ids_into [OF bs] .
  have final: "turn_post E s0 tr0 exchange st st2 w2"
    if post: "turn_post E s0 tr0 (\<lambda>ms. map result_id ms = map (Some \<circ> pc_id) ?calls) st1 st2 w2" for st2 w2
  proof -
    obtain rs where rs: "map result_id rs = map (Some \<circ> pc_id) ?calls"
      "evolves (ls_session st1) rs (ls_session st2)" "auth_ok E s0 tr0 (ls_grants st2) w2"
      using post by (auto simp: turn_post_def)
    have "exchange (MAssistant bs # rs)" using rs(1) ids by (simp add: exchange_def)
    then show ?thesis using evolves_trans [OF g(1) rs(2)] rs(3) unfolding turn_post_def by auto
  qed
  show "wp (case r of (assistant_turn, stop_reason, proposed, st1) \<Rightarrow>
     then_act (model_hooks_after L (ls_session st1) (EvStop stop_reason))
     (let calls = at_tool_calls assistant_turn in
      if calls = [] then ret (StopWith stop_reason, st1)
      else then_act (propose_calls L proposed calls)
        (bind_act (execute_tool_batch (al_env L) (ls_session st1) calls (rq_tool_name_map request)
            (ls_grants st1) turn (unat (al_max_turns L))) (\<lambda>(results, grants).
         bind_act (fold_act (result_step L calls) results (st1\<lparr>ls_grants := grants\<rparr>)) (\<lambda>st2.
           ret (ToolExecuted, st2))))))
     (\<lambda>r. turn_post E s0 tr0 exchange st (snd r)) (failed_safely E s0 tr0) w1"
    unfolding r prod.case Let_def wp_then [of "model_hooks_after _ _ _"]
  proof (rule wp_conseq [OF keepsD [OF run_safety.keeps_model_hooks(2) ok]])
    fix u :: unit and w2
    assume ok2: "auth_ok E s0 tr0 (ls_grants st1) w2"
    show "wp (if ?calls = [] then ret (StopWith reason, st1)
      else then_act (propose_calls L proposed ?calls)
        (bind_act (execute_tool_batch (al_env L) (ls_session st1) ?calls (rq_tool_name_map request)
            (ls_grants st1) turn (unat (al_max_turns L))) (\<lambda>(results, grants).
         bind_act (fold_act (result_step L ?calls) results (st1\<lparr>ls_grants := grants\<rparr>)) (\<lambda>st2.
           ret (ToolExecuted, st2)))))
      (\<lambda>r. turn_post E s0 tr0 exchange st (snd r)) (failed_safely E s0 tr0) w2"
    proof (cases "?calls = []")
      case True
      have "turn_post E s0 tr0 exchange st st1 w2"
        using ok2 by (intro final) (auto simp: turn_post_def True)
      then show ?thesis using True by simp
    next
      case False
      have split: "bind_act (execute_tool_batch E (ls_session st1) ?calls maps (ls_grants st1) turn mx)
            (\<lambda>(results, grants). bind_act (fold_act (result_step L ?calls) results (st1\<lparr>ls_grants := grants\<rparr>))
               (\<lambda>st2. ret (ToolExecuted, st2))) =
          bind_act (bind_act (execute_tool_batch E (ls_session st1) ?calls maps (ls_grants st1) turn mx)
            (\<lambda>(results, grants). fold_act (result_step L ?calls) results (st1\<lparr>ls_grants := grants\<rparr>)))
            (\<lambda>st2. ret (ToolExecuted, st2))" for maps mx
        unfolding bind_act_assoc by (simp add: split_def)
      show ?thesis unfolding if_not_P [OF False] wp_then assms(3) [symmetric] split
        unfolding wp_bind [of "bind_act (execute_tool_batch _ _ _ _ _ _ _) _"]
        by (rule wp_conseq [OF keepsD [OF run_safety.keeps_propose ok2]],
            rule wp_conseq [OF wp_call_batch [OF _ ev]]) (simp_all add: final)
    qed
  qed simp
qed simp

section \<open>The whole run\<close>

text \<open>What a run may add to a history: user messages, and exchanges.\<close>

inductive conversation :: "message list \<Rightarrow> bool" where
  conv_nil: "conversation []"
| conv_user: "conversation ms \<Longrightarrow> is_steering m \<Longrightarrow> conversation (ms @ [m])"
| conv_exchange: "conversation ms \<Longrightarrow> exchange xs \<Longrightarrow> conversation (ms @ xs)"

lemma conversation_users: "conversation ms \<Longrightarrow> list_all is_steering us \<Longrightarrow> conversation (ms @ us)"
proof (induction us rule: rev_induct)
  case (snoc u us)
  then show ?case using conv_user [of "ms @ us" u] by simp
qed simp

definition loop_ok :: "env \<Rightarrow> session \<Rightarrow> effect list \<Rightarrow> loop_state \<Rightarrow> world \<Rightarrow> bool" where
  "loop_ok E s0 tr0 st w \<longleftrightarrow> auth_ok E s0 tr0 (ls_grants st) w \<and>
     (\<exists>ms. conversation ms \<and> evolves s0 ms (ls_session st))"

lemma loop_ok_failed [intro]: "loop_ok E s0 tr0 st w \<Longrightarrow> failed_safely E s0 tr0 e w"
  using auth_ok_failed unfolding loop_ok_def by blast

lemma loop_ok_extend:
  assumes "loop_ok E s0 tr0 st w0" "turn_post E s0 tr0 P st st' w"
    and "\<And>ms xs. conversation ms \<Longrightarrow> P xs \<Longrightarrow> conversation (ms @ xs)"
  shows "loop_ok E s0 tr0 st' w"
  using assms evolves_trans unfolding loop_ok_def turn_post_def by metis

text \<open>Operations in the middle that do not touch the state.\<close>

lemma wp_loop_keeps:
  assumes "loop_ok E s0 tr0 st w" "\<And>G. keeps (auth_ok E s0 tr0 G) m"
    and "\<And>x w'. loop_ok E s0 tr0 st w' \<Longrightarrow> Q x w'"
  shows "wp m Q (failed_safely E s0 tr0) w"
proof -
  have "auth_ok E s0 tr0 (ls_grants st) w" using assms(1) by (simp add: loop_ok_def)
  from keepsD [OF assms(2) this] show ?thesis
    by (rule wp_conseq) (use assms(1,3) in \<open>auto simp: loop_ok_def\<close>)
qed

lemma stop_reason_of_None: "stop_reason_of L s turns oc = None \<Longrightarrow> turns < unat (al_max_turns L)"
  by (auto simp: stop_reason_of_def split: if_splits)

lemma stop_reason_of_Some: "stop_reason_of L s turns oc = Some r \<Longrightarrow> r \<noteq> ToolUse"
  by (auto simp: stop_reason_of_def split: if_splits turn_outcome.splits)

definition turn_done :: "agent_loop \<Rightarrow> session \<Rightarrow> effect list \<Rightarrow> nat \<Rightarrow> stop_reason option \<times> loop_state \<Rightarrow> world \<Rightarrow> bool" where
  "turn_done L s0 tr0 turns r w \<longleftrightarrow> loop_ok (al_env L) s0 tr0 (snd r) w \<and> fst r \<noteq> Some ToolUse \<and>
     (fst r = None \<longrightarrow> saturating_add turns 1 < unat (al_max_turns L))"

lemma loop_ok_auth: "loop_ok E s0 tr0 st w \<Longrightarrow> auth_ok E s0 tr0 (ls_grants st) w"
  by (simp add: loop_ok_def)

lemma wp_request_turn:
  assumes "loop_ok (al_env L) s0 tr0 st w"
  shows "wp (request_turn L turns st) (turn_done L s0 tr0 turns) (failed_safely (al_env L) s0 tr0) w"
  unfolding request_turn_def wp_bind [of "build_request _ _ _"]
proof (rule wp_conseq [OF wp_turn_post [OF wp_build_request_state run_safety.keeps_build_request loop_ok_auth [OF assms]]])
  fix q :: "provider_request \<times> loop_state" and w1
  assume q: "turn_post (al_env L) s0 tr0 (\<lambda>ms. ms = []) st (snd q) w1"
  obtain request st1 where r: "q = (request, st1)" by (cases q)
  have ok1: "loop_ok (al_env L) s0 tr0 st1 w1" using loop_ok_extend [OF assms q] r by simp
  then obtain ms1 where st1: "auth_ok (al_env L) s0 tr0 (ls_grants st1) w1" "evolves s0 ms1 (ls_session st1)"
    by (auto simp: loop_ok_def)
  show "wp (case q of (request, st1) \<Rightarrow> bind_act (run_turn L turns request st1) (\<lambda>(outcome, st2).
      then_act (emit_checkpoint L st2)
        (ret (stop_reason_of L (ls_session st2) (saturating_add turns 1) outcome, st2))))
     (turn_done L s0 tr0 turns) (failed_safely (al_env L) s0 tr0) w1"
    unfolding r prod.case wp_bind
  proof (rule wp_conseq [OF wp_run_turn [OF st1 refl]])
    fix p :: "turn_outcome \<times> loop_state" and w2
    assume "turn_post (al_env L) s0 tr0 exchange st1 (snd p) w2"
    then have ok2: "loop_ok (al_env L) s0 tr0 (snd p) w2"
      using loop_ok_extend [OF ok1] conv_exchange by blast
    obtain oc st2 where p: "p = (oc, st2)" by (cases p)
    show "wp (case p of (outcome, st2) \<Rightarrow> then_act (emit_checkpoint L st2)
        (ret (stop_reason_of L (ls_session st2) (saturating_add turns 1) outcome, st2)))
      (turn_done L s0 tr0 turns) (failed_safely (al_env L) s0 tr0) w2"
      unfolding p prod.case wp_then
      by (rule wp_loop_keeps [OF ok2 [unfolded p snd_conv] run_safety.keeps_checkpoint])
        (auto simp: turn_done_def dest: stop_reason_of_None stop_reason_of_Some)
  qed
qed

lemma wp_loop_turn:
  assumes "loop_ok (al_env L) s0 tr0 st w"
  shows "wp (loop_turn L turns st) (turn_done L s0 tr0 turns) (failed_safely (al_env L) s0 tr0) w"
  unfolding loop_turn_def wp_bind
proof (rule wp_conseq [OF wp_turn_post [OF wp_conseq [OF wp_drain_state] run_safety.keeps_drain loop_ok_auth [OF assms]]])
  fix r :: "nat \<times> loop_state" and w1
  assume "turn_post (al_env L) s0 tr0 (list_all is_steering) st (snd r) w1"
  then have ok1: "loop_ok (al_env L) s0 tr0 (snd r) w1"
    using loop_ok_extend [OF assms] conversation_users by blast
  obtain n st1 where r: "r = (n, st1)" by (cases r)
  have k: "keeps (auth_ok (al_env L) s0 tr0 G) (if n > 0 then emit_checkpoint L st1 else ret ())" for G
    by (simp add: run_safety.keeps_checkpoint)
  show "wp (case r of (injected, st1) \<Rightarrow>
        then_act (if injected > 0 then emit_checkpoint L st1 else ret ()) (request_turn L turns st1))
     (turn_done L s0 tr0 turns) (failed_safely (al_env L) s0 tr0) w1"
    unfolding r prod.case wp_then
    by (rule wp_loop_keeps [OF ok1 [unfolded r snd_conv] k], rule wp_request_turn)
qed (auto elim: grows_by_mono)

lemma wp_next_turn_events_state:
  "wp (next_turn_events L evs s) (\<lambda>r _. evolves s [] (snd r)) (\<lambda>_ _. True) w"
proof (induction evs arbitrary: s w)
  case (Cons ev evs)
  have more: "wp (then_act (al_emit L ev) (next_turn_events L evs s')) (\<lambda>r _. evolves s [] (snd r)) (\<lambda>_ _. True) w"
    if "evolves s [] s'" for ev s' w
    using that by (intro wp_then_any wp_conseq [OF Cons]) (auto dest: evolves_trans)
  have stop: "wp (then_act (al_emit L ev) (ret (Some reason, s))) (\<lambda>r _. evolves s [] (snd r)) (\<lambda>_ _. True) w" for ev reason w
    by (rule wp_then_any) simp
  show ?case by (cases ev) (simp_all only: next_turn_events.simps agent_event.case more stop evolves_fields evolves_refl)
qed simp

lemma wp_next_turn_state:
  "wp (next_turn_hooks_run L turn hs s) (\<lambda>r _. evolves s [] (snd r)) (\<lambda>_ _. True) w"
proof (induction hs arbitrary: s w)
  case (Cons h hs)
  show ?case unfolding next_turn_hooks_run.simps
  proof (rule wp_bind_any)
    fix r :: "harness_error + agent_event list" and w1
    have some: "wp (bind_act (next_turn_events L events s) (\<lambda>(blocked, s'). case blocked of
             Some reason \<Rightarrow> ret (Some reason, s')
           | None \<Rightarrow> next_turn_hooks_run L turn hs s')) (\<lambda>r _. evolves s [] (snd r)) (\<lambda>_ _. True) w1" for events
      unfolding wp_bind
      by (rule wp_conseq [OF wp_next_turn_events_state])
        (auto intro!: wp_conseq [OF Cons] dest: evolves_trans split: option.splits)
    have err: "wp (if e = HCancelled then fail HCancelled
           else then_act (al_emit L ev) (next_turn_hooks_run L turn hs s)) (\<lambda>r _. evolves s [] (snd r)) (\<lambda>_ _. True) w1" for e ev
      by (cases "e = HCancelled") (simp, simp only: if_False, rule wp_then_any, rule Cons)
    show "wp (case r of
         Inr events \<Rightarrow> bind_act (next_turn_events L events s) (\<lambda>(blocked, s'). case blocked of
             Some reason \<Rightarrow> ret (Some reason, s')
           | None \<Rightarrow> next_turn_hooks_run L turn hs s')
       | Inl err \<Rightarrow>
           if err = HCancelled then fail HCancelled
           else then_act (al_emit L (EvError (''NextTurnHook.prepare_next_turn failed: '' @ error_to_string err) True))
             (next_turn_hooks_run L turn hs s)) (\<lambda>r _. evolves s [] (snd r)) (\<lambda>_ _. True) w1"
      using some err by (cases r) (simp_all only: sum.case)
  qed
qed simp

lemma wp_invoke_state:
  "wp (invoke_next_turn_hooks L turn st) (\<lambda>r _. grows_by st (\<lambda>ms. ms = []) (snd r)) (\<lambda>_ _. True) w"
  unfolding invoke_next_turn_hooks_def wp_bind
  by (rule wp_conseq [OF wp_next_turn_state]) (auto simp: grows_by_def)

text \<open>The loop returns in a good state, after at least the turns it began with and at most the
  turns allowed.\<close>

definition loop_done :: "agent_loop \<Rightarrow> session \<Rightarrow> effect list \<Rightarrow> nat \<Rightarrow> stop_reason \<times> nat \<times> loop_state \<Rightarrow> world \<Rightarrow> bool" where
  "loop_done L s0 tr0 turns r w \<longleftrightarrow> (case r of (reason, turns', st') \<Rightarrow>
     loop_ok (al_env L) s0 tr0 st' w \<and> turns \<le> turns' \<and> turns' \<le> max turns (unat (al_max_turns L)) \<and>
     reason \<noteq> ToolUse)"

lemma turns_step: "turns < unat (al_max_turns L) \<Longrightarrow> saturating_add turns 1 = Suc turns"
  using max_turns_bound [of L] by (simp add: saturating_add_def)

lemma wp_blocked:
  assumes "loop_ok (al_env L) s0 tr0 st w" "turns < unat (al_max_turns L)"
  shows "wp (stop_blocked L reason (saturating_add turns 1) st)
     (loop_done L s0 tr0 turns) (failed_safely (al_env L) s0 tr0) w"
  unfolding stop_blocked_def wp_then
  by (rule wp_loop_keeps [OF assms(1) run_safety.keeps_al_emit],
      rule wp_loop_keeps [OF _ run_safety.keeps_al_emit], assumption,
      rule wp_loop_keeps [OF _ run_safety.keeps_al_emit], assumption)
    (use assms(2) turns_step [OF assms(2)] in \<open>simp add: loop_done_def\<close>)

lemma wp_stopped:
  assumes "loop_ok (al_env L) s0 tr0 st w" "turns \<le> turns'" "turns' \<le> max turns (unat (al_max_turns L))"
    and "reason \<noteq> ToolUse"
  shows "wp (then_act (if b then ret () else al_emit L ev) (ret (reason, turns', st)))
     (loop_done L s0 tr0 turns) (failed_safely (al_env L) s0 tr0) w"
proof -
  have k: "keeps (auth_ok (al_env L) s0 tr0 G) (if b then ret () else al_emit L ev)" for G
    by (simp add: run_safety.keeps_al_emit)
  show ?thesis unfolding wp_then
    by (rule wp_loop_keeps [OF assms(1) k]) (use assms in \<open>simp add: loop_done_def\<close>)
qed

lemma wp_run_loop:
  "loop_ok (al_env L) s0 tr0 st w \<Longrightarrow>
     wp (run_loop L turns st) (loop_done L s0 tr0 turns) (failed_safely (al_env L) s0 tr0) w"
proof (induction "unat (al_max_turns L) - turns" arbitrary: turns st w rule: less_induct)
  case less
  have tick: "loop_ok (al_env L) s0 tr0 st (w\<lparr>w_tick := t\<rparr>)" for t
    using less.prems run_safety.tick_ok by (simp add: loop_ok_def)
  have next_turn: "wp (bind_act (invoke_next_turn_hooks L (saturating_add turns 1) st1) (\<lambda>(blocked, st2). case blocked of
             Some block_reason \<Rightarrow> stop_blocked L block_reason (saturating_add turns 1) st2
           | None \<Rightarrow> run_loop L (saturating_add turns 1) st2))
       (loop_done L s0 tr0 turns) (failed_safely (al_env L) s0 tr0) w1"
    if ok1: "loop_ok (al_env L) s0 tr0 st1 w1" and t: "turns < unat (al_max_turns L)"
      "saturating_add turns 1 < unat (al_max_turns L)" for st1 w1
    unfolding wp_bind
  proof (rule wp_conseq [OF wp_turn_post [OF wp_invoke_state run_safety.keeps_invoke_next_turn loop_ok_auth [OF ok1]]])
    fix r :: "string option \<times> loop_state" and w2
    assume "turn_post (al_env L) s0 tr0 (\<lambda>ms. ms = []) st1 (snd r) w2"
    then have ok2: "loop_ok (al_env L) s0 tr0 (snd r) w2" using loop_ok_extend [OF ok1] by auto
    obtain blocked st2 where r: "r = (blocked, st2)" by (cases r)
    have "wp (run_loop L (saturating_add turns 1) st2) (loop_done L s0 tr0 (saturating_add turns 1))
        (failed_safely (al_env L) s0 tr0) w2"
      using less.hyps [of "saturating_add turns 1"] ok2 r t turns_step [OF t(1)] by simp
    then have again: "wp (run_loop L (saturating_add turns 1) st2) (loop_done L s0 tr0 turns)
        (failed_safely (al_env L) s0 tr0) w2"
      by (rule wp_conseq) (use turns_step [OF t(1)] t in \<open>auto simp: loop_done_def\<close>)
    show "wp (case r of (blocked, st2) \<Rightarrow> case blocked of
             Some block_reason \<Rightarrow> stop_blocked L block_reason (saturating_add turns 1) st2
           | None \<Rightarrow> run_loop L (saturating_add turns 1) st2)
       (loop_done L s0 tr0 turns) (failed_safely (al_env L) s0 tr0) w2"
      unfolding r prod.case
      by (cases blocked; simp only: option.case)
        (rule again, rule wp_blocked [OF ok2 [unfolded r snd_conv] t(1)])
  qed
  let ?w = "w\<lparr>w_tick := Suc (w_tick w)\<rparr>"
  let ?Q = "loop_done L s0 tr0 turns" and ?F = "failed_safely (al_env L) s0 tr0"
  have stopped: "turns' \<le> max turns (unat (al_max_turns L)) \<Longrightarrow> turns \<le> turns' \<Longrightarrow> reason \<noteq> ToolUse \<Longrightarrow>
      loop_ok (al_env L) s0 tr0 st1 w1 \<Longrightarrow> wp (then_act (al_emit L ev) (ret (reason, turns', st1))) ?Q ?F w1"
    for turns' reason ev st1 w1
    using wp_stopped [of L s0 tr0 st1 w1 turns turns' reason False ev] by simp
  consider (cancelled) "al_is_cancelled L (w_tick w)"
    | (limit) "\<not> al_is_cancelled L (w_tick w)" "unat (al_max_turns L) \<le> turns"
    | (budget) "\<not> al_is_cancelled L (w_tick w)" "\<not> unat (al_max_turns L) \<le> turns"
        "exhausted (s_token_budget (ls_session st))"
    | (turn) "\<not> al_is_cancelled L (w_tick w)" "\<not> unat (al_max_turns L) \<le> turns"
        "\<not> exhausted (s_token_budget (ls_session st))"
    by blast
  then show ?case
  proof cases
    case cancelled
    then show ?thesis by (subst run_loop.simps) (simp add: loop_ok_failed [OF tick])
  next
    case limit
    have "wp (then_act (al_emit L (EvStop MaxTurns)) (ret (MaxTurns, turns, st))) ?Q ?F ?w"
      by (rule stopped) (simp_all add: tick)
    then show ?thesis by (subst run_loop.simps) (simp only: wp_bind wp_ask wp_if limit if_True if_False)
  next
    case budget
    have "wp (then_act (al_emit L (EvStop BudgetExhausted)) (ret (BudgetExhausted, turns, st))) ?Q ?F ?w"
      by (rule stopped) (simp_all add: tick)
    then show ?thesis by (subst run_loop.simps) (simp only: wp_bind wp_ask wp_if budget if_True if_False)
  next
    case turn
    have t: "turns < unat (al_max_turns L)" using turn by simp
    have "wp (loop_turn L turns st) (\<lambda>r. wp (case r of (stop, st1) \<Rightarrow> case stop of
           Some reason \<Rightarrow>
             then_act (if reason = EndTurn \<or> reason = ToolUse then ret () else al_emit L (EvStop reason))
               (ret (reason, saturating_add turns 1, st1))
         | None \<Rightarrow> bind_act (invoke_next_turn_hooks L (saturating_add turns 1) st1) (\<lambda>(blocked, st2). case blocked of
               Some block_reason \<Rightarrow> stop_blocked L block_reason (saturating_add turns 1) st2
             | None \<Rightarrow> run_loop L (saturating_add turns 1) st2)) ?Q ?F) ?F ?w"
    proof (rule wp_conseq [OF wp_loop_turn [OF tick]])
      fix r w1
      assume d: "turn_done L s0 tr0 turns r w1"
      obtain stop st1 where r: "r = (stop, st1)" by (cases r)
      have ok1: "loop_ok (al_env L) s0 tr0 st1 w1" using d r by (simp add: turn_done_def)
      have stop: "wp (then_act (if reason = EndTurn \<or> reason = ToolUse then ret () else al_emit L (EvStop reason))
               (ret (reason, saturating_add turns 1, st1))) ?Q ?F w1" if "stop = Some reason" for reason
        by (rule wp_stopped [OF ok1]) (use d r that t turns_step [OF t] in \<open>auto simp: turn_done_def\<close>)
      show "wp (case r of (stop, st1) \<Rightarrow> case stop of
           Some reason \<Rightarrow>
             then_act (if reason = EndTurn \<or> reason = ToolUse then ret () else al_emit L (EvStop reason))
               (ret (reason, saturating_add turns 1, st1))
         | None \<Rightarrow> bind_act (invoke_next_turn_hooks L (saturating_add turns 1) st1) (\<lambda>(blocked, st2). case blocked of
               Some block_reason \<Rightarrow> stop_blocked L block_reason (saturating_add turns 1) st2
             | None \<Rightarrow> run_loop L (saturating_add turns 1) st2)) ?Q ?F w1"
        unfolding r prod.case
        by (cases stop; simp only: option.case)
          (rule next_turn [OF ok1 t], use d r in \<open>simp add: turn_done_def\<close>, rule stop)
    qed
    then show ?thesis by (subst run_loop.simps) (simp only: wp_bind [of "loop_turn _ _ _"] wp_bind [of "ask _"] wp_ask wp_if turn if_False)
  qed
qed

lemma loop_ok_start: "loop_ok E s (w_trace w) (initial_state s) w"
  by (auto simp: loop_ok_def auth_ok_def authorised_since_def extends_trace_def since_def
      grants_backed_def initial_state_def intro!: exI [of _ "[]"] conv_nil)

text \<open>A run that returns has added a conversation to the session.\<close>

definition run_post :: "agent_loop \<Rightarrow> session \<Rightarrow> effect list \<Rightarrow> run_result \<times> session \<Rightarrow> world \<Rightarrow> bool" where
  "run_post L s tr0 r w \<longleftrightarrow> authorised_since (al_env L) s tr0 w \<and>
     rr_turns (fst r) \<le> unat (al_max_turns L) \<and> rr_stop_reason (fst r) \<noteq> ToolUse \<and>
     (\<exists>ms. conversation ms \<and> evolves s ms (snd r))"

lemma wp_run:
  "wp (run L s) (run_post L s (w_trace w)) (\<lambda>e. authorised_since (al_env L) s (w_trace w)) w"
proof -
  let ?tr = "w_trace w" and ?E = "al_env L"
  let ?F = "failed_safely ?E s ?tr"
  have F: "?F = (\<lambda>e. authorised_since ?E s ?tr)" by (intro ext) (simp add: failed_safely_def)
  have close: "wp (case r of (reason, turns, st) \<Rightarrow>
      then_act (close_queue L)
     (then_act (session_end_hooks L (ls_session st))
       (ret (result_of reason turns st, ls_session st)))) (run_post L s ?tr) ?F w1"
    if "loop_done L s ?tr 0 r w1" for r w1
  proof -
    obtain reason turns st where r: "r = (reason, turns, st)" by (cases r)
    have d: "loop_ok ?E s ?tr st w1" "turns \<le> unat (al_max_turns L)" "reason \<noteq> ToolUse"
      using that r by (simp_all add: loop_done_def)
    show ?thesis unfolding r prod.case wp_then
      by (rule wp_loop_keeps [OF d(1) run_safety.keeps_close_queue],
          rule wp_loop_keeps [OF _ run_safety.keeps_session_hooks(2)], assumption)
        (use d in \<open>auto simp: run_post_def result_of_def loop_ok_def auth_ok_def\<close>)
  qed
  have "wp (run L s) (run_post L s ?tr) ?F w"
    unfolding run_def wp_then wp_bind
    by (rule wp_loop_keeps [OF loop_ok_start run_safety.keeps_session_hooks(1)],
        rule wp_loop_keeps [OF _ run_safety.keeps_checkpoint], assumption,
        rule wp_conseq [OF wp_run_loop], assumption, rule close)
  then show ?thesis unfolding F .
qed

end
