(* ===== verification/Executor_Properties.thy ===== *)
theory Executor_Properties
  imports Executor_Batch
begin

text \<open>
  The properties of the executor: what its policy phase answers, what it runs, what a batch
  returns and why it fails. The sample environment of the witnesses has no tools, no hooks
  and collaborators that accept everything.
\<close>

section \<open>A sample environment\<close>

definition sample_env :: env where
  "sample_env = \<lparr>e_hooks = registry_new, e_emit = (\<lambda>_ _. None), e_cancel_wins = (\<lambda>_. False),
     e_catalog = sample_catalog, e_policy = (\<lambda>_ _. Inr (decision_allowed None)),
     e_approve = (\<lambda>_ _ _ _ _ _. Inr Approve), e_execute = (\<lambda>_ _ _ _. ToolElapsed),
     e_materialize = (\<lambda>_ _ _ _ _ _. interrupted_result), e_elapsed_ms = (\<lambda>_. 0),
     e_schedule = (\<lambda>_. []), e_flush = None, e_to_json = (\<lambda>_. None), e_sha256 = (\<lambda>_. [])\<rparr>"

definition start :: world where
  "start = \<lparr>w_trace = [], w_tick = 0\<rparr>"

definition sample_calls :: "proposed_tool_call list" where
  "sample_calls = [\<lparr>pc_id = ''x'', pc_name = ''b'', pc_input = VNull\<rparr>,
     \<lparr>pc_id = ''y'', pc_name = ''a'', pc_input = VObject []\<rparr>]"

definition sample_maps :: "tool_name_mapping list" where
  "sample_maps = [mapping_new (td_id (t_descriptor sample_tool)) [] []]"

definition returns :: "'a action \<Rightarrow> world \<Rightarrow> bool" where
  "returns m w \<longleftrightarrow> (case fst (m w) of Inl e \<Rightarrow> False | Inr x \<Rightarrow> True)"

lemma returnsE: "returns m w \<Longrightarrow> \<exists>x w'. m w = (Inr x, w')"
  by (cases "m w"; cases "fst (m w)") (auto simp: returns_def)

lemma quiet_batch_returns:
  assumes "\<And>e. \<not> failure_origin E e"
  shows "returns (execute_tool_batch E s calls maps G turn mx) w"
  using wp_batch [where E = E and s = s and G = G and turn = turn and calls = calls and maps = maps and mx = mx,
      OF runs_cleared_start [where w = w]] assms
  by (auto simp: returns_def wp_def stopped_safely_def blamed_def split: prod.splits sum.splits)

lemma sample_env_quiet: "\<not> failure_origin sample_env e"
  by (simp add: failure_origin_def sample_env_def registry_new_def)

lemma sample_batch_returns:
  "returns (execute_tool_batch sample_env sample_session sample_calls sample_maps [] 0 1) start"
  by (rule quiet_batch_returns) (rule sample_env_quiet)

lemma quiet_policy_returns:
  assumes "\<And>e. \<not> failure_origin E e"
  shows "returns (evaluate_policy E s i tn ns an input risk grant) w"
  using blame_evaluate_policy [of "\<lambda>_ _. True" E s i tn ns an input risk grant w] assms
  by (auto simp: returns_def wp_def blamed_def split: prod.splits sum.splits)

section \<open>Properties\<close>

text \<open>No policy answer has been recorded since the trace was \<open>tr0\<close>.\<close>

definition unasked :: "effect list \<Rightarrow> world \<Rightarrow> bool" where
  "unasked tr0 w \<longleftrightarrow> extends_trace tr0 w \<and> \<not> list_ex (\<lambda>x. case x of PolicyAnswered rq d \<Rightarrow> True | _ \<Rightarrow> False) (since tr0 w)"

interpretation unasked_trace: trace_invariant "unasked tr0"
  by unfold_locales
    (auto simp: unasked_def since_note extends_trace_def since_def)

lemma wp_network_blocked:
  assumes "network_blocked s tn input" "unasked tr0 w"
  shows "wp (evaluate_policy E s i tn ns an input risk grant)
    (\<lambda>d w'. pd_status d = Denied \<and> unasked tr0 w') (\<lambda>_ _. True) w"
  unfolding evaluate_policy_def Let_def emit_policy_decision_def wp_then if_P [OF assms(1)]
  by (rule unasked_trace.wp_emit [OF assms(2)], rule unasked_trace.wp_emit, assumption,
      rule unasked_trace.wp_emit) simp_all

text \<open>A bash call without network access whose command is not on the audited list is denied,
  whatever the policy engine, a session grant or a hook says: the engine is not even asked.\<close>

theorem network_denied_unasked:
  assumes "network_blocked s tn input"
    and "evaluate_policy E s i tn ns an input risk grant w = (Inr d, w')"
  shows "pd_status d = Denied \<and> unasked (w_trace w) w'"
proof -
  have "unasked (w_trace w) w" by (simp add: unasked_def extends_trace_def since_def)
  from wp_InrD [OF wp_network_blocked [OF assms(1) this] assms(2)] show ?thesis .
qed

definition blocked_input :: json where
  "blocked_input = VObject [(''command'', VString ''curl x'')]"

lemma sample_blocked: "network_blocked sample_session ''bash'' blocked_input"
  by code_simp

lemma sample_blocked_returns:
  "returns (evaluate_policy sample_env sample_session ''x'' ''bash'' BuiltIn [] blocked_input Low None) start"
  by (rule quiet_policy_returns) (rule sample_env_quiet)

theorem network_denied_unasked_witness:
  "\<exists>d w'. evaluate_policy sample_env sample_session ''x'' ''bash'' BuiltIn [] blocked_input Low None start = (Inr d, w') \<and>
     pd_status d = Denied"
  using returnsE [OF sample_blocked_returns] network_denied_unasked [OF sample_blocked] by blast

text \<open>What the executor decides for a call it is not bound to refuse comes from asking the policy
  engine about exactly this call: a denial of the engine is final, an allowance stands, and a
  session grant does nothing but turn a confirmation into an allowance.\<close>

theorem policy_answer_binding:
  assumes "\<not> network_blocked s tn input"
    and "evaluate_policy E s i tn ns an input risk grant w = (Inr d, w')"
  shows "\<exists>d0. asked (since (w_trace w) w') s i tn input risk d0 \<and>
    pd_status d = (if grant \<noteq> None \<and> pd_status d0 = Confirm then Allowed else pd_status d0)"
proof -
  have "extends_trace (w_trace w) w" by (simp add: extends_trace_def)
  from wp_InrD [OF consult_growth.wp_evaluate_policy [OF this this] assms(2)] assms(1)
  obtain d0 where d0: "asked (since (w_trace w) w') s i tn input risk d0" "d = with_grant grant tn d0"
    by auto
  have "pd_status d = (if grant \<noteq> None \<and> pd_status d0 = Confirm then Allowed else pd_status d0)"
    unfolding d0(2) by (cases grant; cases "pd_status d0") (simp_all add: with_grant_def override_status)
  then show ?thesis using d0(1) by blast
qed

lemma sample_open: "\<not> network_blocked sample_session ''builtin:a'' VNull"
  by code_simp

lemma sample_open_returns:
  "returns (evaluate_policy sample_env sample_session ''x'' ''builtin:a'' BuiltIn [] VNull Low None) start"
  by (rule quiet_policy_returns) (rule sample_env_quiet)

theorem policy_answer_binding_witness:
  "\<exists>d w' d0. evaluate_policy sample_env sample_session ''x'' ''builtin:a'' BuiltIn [] VNull Low None start = (Inr d, w') \<and>
     asked (since [] w') sample_session ''x'' ''builtin:a'' VNull Low d0 \<and> pd_status d = pd_status d0"
proof -
  obtain d w' where r: "evaluate_policy sample_env sample_session ''x'' ''builtin:a'' BuiltIn [] VNull Low None start = (Inr d, w')"
    using returnsE [OF sample_open_returns] by blast
  from policy_answer_binding [OF sample_open r] r show ?thesis by (auto simp: start_def)
qed

text \<open>A tool call is run at least once and at most once more than its retry policy allows, and
  exactly once unless its descriptor marks it, by trusted annotations, both idempotent and
  read-only. The retry loop always returns a result.\<close>

theorem retries_bounded:
  "\<exists>result steps w'. execute_tool_with_retry E t input ctx i w = (Inr (result, steps), w') \<and>
     1 \<le> ran_count steps \<and>
     ran_count steps \<le> (case td_retry_policy (t_descriptor t) of None \<Rightarrow> 1
       | Some policy \<Rightarrow> if trusted_retry (t_descriptor t) then Suc (max_retries policy) else 1)"
proof (cases "execute_tool_with_retry E t input ctx i w")
  case (Pair r w')
  note p = this
  show ?thesis
  proof (cases r)
    case (Inl e)
    then show ?thesis using wp_InlD [OF wp_execute_with_retry p [unfolded Inl]] by simp
  next
    case (Inr rs)
    obtain result steps where rs: "rs = (result, steps)" by (cases rs)
    show ?thesis using wp_InrD [OF wp_execute_with_retry p [unfolded Inr]] p Inr rs
      by (auto simp: retry_allowance_def split: option.splits)
  qed
qed

text \<open>Running a group of calls in parallel loses and repeats no step of any of them and keeps the
  steps of each in order, whatever the schedule.\<close>

theorem parallel_steps_interleave:
  assumes "i < length tasks"
  shows "mset (interleave schedule tasks) = mset (concat tasks) \<and>
    subseq (tasks ! i) (interleave schedule tasks)"
  using mset_interleave subseq_interleave [OF assms] by blast

theorem parallel_steps_interleave_witness:
  "interleave [1, 0] [[1 :: nat, 2], [3]] = [3, 1, 2] \<and> subseq [1, 2] (interleave [1, 0] [[1 :: nat, 2], [3]])"
  using parallel_steps_interleave [of 0 "[[1 :: nat, 2], [3]]" "[1, 0]"] by simp

text \<open>C28: whether a batch returns or fails, every tool run it has recorded was cleared by what had
  happened before it since the batch began: the tool is the catalogue's, the network rule does
  not block the call, and the policy engine was asked about this very call and allowed it, or
  wanted a confirmation that the user gave or that a session grant covers.\<close>

theorem batch_runs_only_cleared:
  "runs_cleared E s grants turn (w_trace w) (snd (execute_tool_batch E s calls maps grants turn max_turns w))"
proof (cases "execute_tool_batch E s calls maps grants turn max_turns w")
  case (Pair r w')
  note wp = wp_batch [where E = E and s = s and G = grants and turn = turn and calls = calls and maps = maps and mx = max_turns,
      OF runs_cleared_start [where w = w]]
  show ?thesis
  proof (cases r)
    case (Inl e)
    then show ?thesis using wp_InlD [OF wp] Pair by (auto simp: stopped_safely_def)
  next
    case (Inr x)
    then show ?thesis using wp_InrD [OF wp] Pair by (auto simp: batch_post_def)
  qed
qed

text \<open>C29: a batch that returns yields exactly one result for each call, in the order of the calls and
  under the call's id, however the calls were refused, denied, approved, run alone or in
  parallel.\<close>

theorem batch_one_result_per_call:
  assumes "execute_tool_batch E s calls maps grants turn max_turns w = (Inr (results, grants'), w')"
  shows "map (\<lambda>(order, i, result, ms, source). (order, i)) results =
    List.enumerate 0 (map pc_id calls)"
proof -
  have "map result_tag results = List.enumerate 0 (map pc_id calls)"
    using wp_InrD [OF wp_batch [OF runs_cleared_start] assms] by (simp add: batch_post_def)
  moreover have "result_tag = (\<lambda>(order, i, result, ms, source). (order, i))"
    by (auto simp: result_tag_def)
  ultimately show ?thesis by simp
qed

theorem batch_one_result_per_call_witness:
  "\<exists>results grants' w'. execute_tool_batch sample_env sample_session sample_calls sample_maps [] 0 1 start =
      (Inr (results, grants'), w') \<and>
    map (\<lambda>(order, i, result, ms, source). (order, i)) results = [(0, ''x''), (1, ''y'')]"
proof -
  obtain x w' where x: "execute_tool_batch sample_env sample_session sample_calls sample_maps [] 0 1 start = (Inr x, w')"
    using returnsE [OF sample_batch_returns] by blast
  obtain results grants' where "x = (results, grants')" by (cases x)
  with x batch_one_result_per_call [of sample_env sample_session sample_calls sample_maps "[]" 0 1 start]
  show ?thesis by (auto simp: sample_calls_def)
qed

text \<open>C30: a batch only ever adds session grants, and each grant it adds is the one made for an answer
  \<open>AlwaysAllowForSession\<close> the user gave in this batch: for that tool and input, at that risk
  and from this turn on.\<close>

theorem batch_grants_from_user:
  assumes "execute_tool_batch E s calls maps grants turn max_turns w = (Inr (results, grants'), w')"
  shows "\<exists>made. grants' = grants @ made \<and>
    list_all (grant_made E turn max_turns (since (w_trace w) w')) made"
  using wp_InrD [OF wp_batch [OF runs_cleared_start] assms] by (auto simp: batch_post_def list_all_iff)

theorem batch_grants_from_user_witness:
  "\<exists>results grants' w'. execute_tool_batch sample_env sample_session sample_calls sample_maps [] 0 1 start =
      (Inr (results, grants'), w') \<and> list_all (grant_made sample_env 0 1 (since [] w')) grants'"
proof -
  obtain x w' where x: "execute_tool_batch sample_env sample_session sample_calls sample_maps [] 0 1 start = (Inr x, w')"
    using returnsE [OF sample_batch_returns] by blast
  obtain results grants' where "x = (results, grants')" by (cases x)
  with x batch_grants_from_user [of sample_env sample_session sample_calls sample_maps "[]" 0 1 start]
  show ?thesis by (auto simp: start_def)
qed

text \<open>A batch fails only with an error one of its collaborators reported: the caller's event
  sink, the policy engine, the approval provider, a hook that panicked or was cancelled, or
  the cancel token. In particular its own \<open>expect\<close>s on the mapping and the catalogue hold.\<close>

theorem batch_failure_reported:
  assumes "execute_tool_batch E s calls maps grants turn max_turns w = (Inl e, w')"
  shows "failure_origin E e"
  using wp_InlD [OF wp_batch [OF runs_cleared_start] assms] by (simp add: stopped_safely_def blamed_def)

definition sample_broken_env :: env where
  "sample_broken_env = sample_env\<lparr>e_emit := (\<lambda>_ _. Some (HTool (TeNotFound ''x'')))\<rparr>"

lemma sample_broken_batch:
  "\<exists>e w'. execute_tool_batch sample_broken_env sample_session
     [\<lparr>pc_id = ''x'', pc_name = ''b'', pc_input = VNull\<rparr>] [] [] 0 1 start = (Inl e, w')"
  by (simp add: execute_tool_batch_def early_validation_def validate_step_def validate_call_def find_mapping_def
      sample_broken_env_def sample_env_def registry_new_def emit_def emit_fn_def then_act_def bind_act_def ret_def
      note_effect_def ask_def fail_def Let_def)

theorem batch_failure_reported_witness: "\<exists>e. failure_origin sample_broken_env e"
  using sample_broken_batch batch_failure_reported by blast

end
