(* ===== verification/Canonical_Text.thy ===== *)
theory Canonical_Text
  imports Approval
begin

text \<open>
  The canonical text of a JSON input (\<open>gestalt-core/src/approval.rs\<close>, \<open>canonicalize\<close>) is
  unambiguous: two inputs with the same text are the same up to the order of the keys of
  their objects. A grant is stored under the hash of this text, so the only way it can
  cover another input is a collision of the hash. The proof reads the text from the left:
  the text of a value, followed by what may follow a value, determines the value.
\<close>

section \<open>Strings\<close>

lemma escape_char_prefix: "escape_char c @ s = escape_char d @ t \<Longrightarrow> c = d \<and> s = t"
  by (metis append_same_eq same_append_eq list.inject unescape_escape_char)

lemma hd_escape_char: "escape_char c \<noteq> [] \<and> hd (escape_char c) \<noteq> CHR 0x22"
  by (simp add: escape_char_def)

lemma escape_not_quote: "CHR 0x22 # s \<noteq> escape_char c @ t"
  using hd_escape_char [of c] by (cases "escape_char c") auto

lemma escape_prefix:
  "escape_json_string x @ CHR 0x22 # s = escape_json_string y @ CHR 0x22 # t \<Longrightarrow> x = y \<and> s = t"
proof (induction x arbitrary: y)
  case Nil
  then show ?case using escape_not_quote by (cases y) (auto simp: escape_json_string_def)
next
  case (Cons c x)
  show ?case
  proof (cases y)
    case Nil
    then have "CHR 0x22 # t = escape_char c @ escape_json_string x @ CHR 0x22 # s"
      using Cons.prems by (simp add: escape_json_string_def)
    then show ?thesis using escape_not_quote by blast
  next
    case (Cons d y')
    then have "escape_char c @ escape_json_string x @ CHR 0x22 # s =
        escape_char d @ escape_json_string y' @ CHR 0x22 # t"
      using Cons.prems by (simp add: escape_json_string_def)
    then have "c = d" "escape_json_string x @ CHR 0x22 # s = escape_json_string y' @ CHR 0x22 # t"
      using escape_char_prefix by blast+
    then show ?thesis using Cons.IH \<open>y = d # y'\<close> by blast
  qed
qed

lemma quoted_prefix: "quoted x @ s = quoted y @ t \<Longrightarrow> x = y \<and> s = t"
  using escape_prefix [of x s y t] by (simp add: quoted_def)

section \<open>Numbers and what follows a value\<close>

definition number_char :: "char \<Rightarrow> bool" where
  "number_char c \<longleftrightarrow> c \<in> set ''0123456789+-.eE''"

text \<open>What \<open>Number::to_string\<close> may give: digits, signs, a point and an exponent.\<close>

definition number_text :: "string \<Rightarrow> bool" where
  "number_text n \<longleftrightarrow> n \<noteq> [] \<and> list_all number_char n"

fun numbers_ok :: "json \<Rightarrow> bool" where
  "numbers_ok (VNumber n) = number_text n"
| "numbers_ok (VArray xs) = list_all numbers_ok xs"
| "numbers_ok (VObject kvs) = list_all (\<lambda>kv. numbers_ok (snd kv)) kvs"
| "numbers_ok _ = True"

text \<open>A value is followed by the end, a comma or a closing bracket.\<close>

definition value_end :: "string \<Rightarrow> bool" where
  "value_end s \<longleftrightarrow> s = [] \<or> hd s \<in> set '',]}''"

lemma value_end_simps [simp]:
  "value_end []" "value_end (CHR '','' # s)" "value_end (CHR '']'' # s)" "value_end (CHR ''}'' # s)"
  by (simp_all add: value_end_def)

lemma number_prefix:
  assumes "list_all number_char m" "list_all number_char n" "value_end s" "value_end t" "m @ s = n @ t"
  shows "m = n \<and> s = t"
proof -
  have stop: "takeWhile number_char (k @ u) = k" if "list_all number_char k" "value_end u" for k u
    using that by (induction k) (auto simp: value_end_def number_char_def takeWhile_eq_Nil_iff)
  have "m = n" using stop [OF assms(1,3)] stop [OF assms(2,4)] assms(5) by simp
  then show ?thesis using assms(5) by simp
qed

section \<open>Values\<close>

text \<open>What the first character of a value's text says.\<close>

fun head_class :: "json \<Rightarrow> nat" where
  "head_class VNull = 0"
| "head_class (VBool b) = (if b then 1 else 2)"
| "head_class (VNumber n) = 3"
| "head_class (VString s) = 4"
| "head_class (VArray xs) = 5"
| "head_class (VObject kvs) = 6"

definition char_class :: "char \<Rightarrow> nat" where
  "char_class c = (if c = CHR ''n'' then 0 else if c = CHR ''t'' then 1 else if c = CHR ''f'' then 2
     else if c = CHR 0x22 then 4 else if c = CHR ''['' then 5 else if c = CHR ''{'' then 6 else 3)"

lemma number_hd: "number_text n \<Longrightarrow> \<exists>c cs. n = c # cs \<and> number_char c"
  by (cases n) (auto simp: number_text_def)

lemma write_canonical_head:
  assumes "numbers_ok j"
  shows "\<exists>c cs. write_canonical j = c # cs \<and> char_class c = head_class j \<and> c \<notin> set '',]}''"
proof (cases j)
  case (VNumber n)
  then have "number_text n" using assms by simp
  then obtain c cs where "n = c # cs" "number_char c" using number_hd by blast
  then show ?thesis using VNumber by (auto simp: number_char_def char_class_def)
qed (auto simp: quoted_def char_class_def)

lemma write_canonical_open: "numbers_ok j \<Longrightarrow> \<exists>c cs. write_canonical j = c # cs \<and> c \<notin> set '',]}''"
  using write_canonical_head by blast

lemma same_head_class:
  "numbers_ok a \<Longrightarrow> numbers_ok b \<Longrightarrow> write_canonical a @ s = write_canonical b @ t \<Longrightarrow>
     head_class a = head_class b"
  using write_canonical_head [of a] write_canonical_head [of b] by auto

text \<open>A separated list of texts, each with the prefix property, up to its closing bracket.\<close>

lemma list_prefix:
  assumes step: "\<And>x y u v. x \<in> set xs \<Longrightarrow> y \<in> set ys \<Longrightarrow> value_end u \<Longrightarrow> value_end v \<Longrightarrow>
      f x @ u = f y @ v \<Longrightarrow> g x = g y \<and> u = v"
    and open_x: "\<And>x. x \<in> set xs \<Longrightarrow> \<exists>c cs. f x = c # cs \<and> c \<notin> set '',]}''"
    and open_y: "\<And>y. y \<in> set ys \<Longrightarrow> \<exists>c cs. f y = c # cs \<and> c \<notin> set '',]}''"
    and e: "e \<in> set '']}''"
    and eq: "join '','' (map f xs) @ e # s = join '','' (map f ys) @ e # t"
  shows "map g xs = map g ys \<and> s = t"
  using step open_x open_y eq
proof (induction xs arbitrary: ys)
  case Nil
  show ?case
  proof (cases ys)
    case (Cons y ys')
    then have "\<exists>c cs. f y = c # cs \<and> c \<notin> set '',]}''" by (intro Nil.prems(3)) simp
    then obtain c cs where "f y = c # cs" "c \<notin> set '',]}''" by blast
    then show ?thesis using Nil.prems(4) Cons e by (cases ys') auto
  qed (use Nil in simp)
next
  case C: (Cons x xs)
  have "\<exists>c cs. f x = c # cs \<and> c \<notin> set '',]}''" by (intro C.prems(2)) simp
  then obtain c cs where x: "f x = c # cs" "c \<notin> set '',]}''" by blast
  have ve: "value_end (e # u)" "value_end (CHR '','' # u)" for u using e by auto
  show ?case
  proof (cases ys)
    case Nil
    then show ?thesis using C.prems(4) x e by (cases xs) auto
  next
    case (Cons y ys')
    let ?u = "if xs = [] then e # s else CHR '','' # join '','' (map f xs) @ e # s"
    let ?v = "if ys' = [] then e # t else CHR '','' # join '','' (map f ys') @ e # t"
    have "f x @ ?u = f y @ ?v" using C.prems(4) Cons by (cases xs; cases ys') simp_all
    moreover have "value_end ?u" "value_end ?v" using ve by simp_all
    ultimately have g: "g x = g y" "?u = ?v" using C.prems(1) [of x y ?u ?v] Cons by auto
    have nc: "e \<noteq> CHR '',''" using e by auto
    show ?thesis
    proof (cases "xs = [] \<or> ys' = []")
      case True
      then show ?thesis using g Cons nc by (auto split: if_splits)
    next
      case False
      then have "join '','' (map f xs) @ e # s = join '','' (map f ys') @ e # t" using g(2) by simp
      then have "map g xs = map g ys' \<and> s = t"
      proof (rule C.IH [rotated 3])
        show "g x' = g y' \<and> u = v"
          if "x' \<in> set xs" "y' \<in> set ys'" "value_end u" "value_end v" "f x' @ u = f y' @ v" for x' y' u v
          using that by (intro C.prems(1)) (simp_all add: Cons)
        show "\<exists>c cs. f x' = c # cs \<and> c \<notin> set '',]}''" if "x' \<in> set xs" for x'
          using that by (intro C.prems(2)) simp
        show "\<exists>c cs. f y' = c # cs \<and> c \<notin> set '',]}''" if "y' \<in> set ys'" for y'
          using that by (intro C.prems(3)) (simp add: Cons)
      qed
      then show ?thesis using g(1) Cons by simp
    qed
  qed
qed

text \<open>The text of a value, followed by the end of a value, determines the value up to key order.\<close>

lemma entry_prefix:
  assumes v: "\<And>s t. value_end s \<Longrightarrow> value_end t \<Longrightarrow> write_canonical (snd x) @ s = write_canonical (snd y) @ t \<Longrightarrow>
      json_norm (snd x) = json_norm (snd y) \<and> s = t"
    and e: "value_end s" "value_end t"
    and eq: "(quoted (fst x) @ '':'' @ write_canonical (snd x)) @ s = (quoted (fst y) @ '':'' @ write_canonical (snd y)) @ t"
  shows "(fst x, json_norm (snd x)) = (fst y, json_norm (snd y)) \<and> s = t"
proof -
  have "quoted (fst x) @ CHR '':'' # write_canonical (snd x) @ s = quoted (fst y) @ CHR '':'' # write_canonical (snd y) @ t"
    using eq by simp
  from quoted_prefix [OF this] v [OF e] show ?thesis by simp
qed

lemma entry_head: "\<exists>c cs. quoted k @ '':'' @ v = c # cs \<and> c \<notin> set '',]}''"
  by (simp add: quoted_def)

lemma write_canonical_prefix:
  "numbers_ok a \<Longrightarrow> numbers_ok b \<Longrightarrow> value_end s \<Longrightarrow> value_end t \<Longrightarrow>
     write_canonical a @ s = write_canonical b @ t \<Longrightarrow> json_norm a = json_norm b \<and> s = t"
proof (induction a arbitrary: b s t rule: write_canonical.induct)
  case 1
  then show ?case using same_head_class [OF 1(1,2,5)] by (cases b) (auto split: if_splits)
next
  case (2 x)
  then show ?case using same_head_class [OF 2(1,2,5)] by (cases b) (auto split: if_splits)
next
  case (3 n)
  then obtain m where b: "b = VNumber m" using same_head_class [OF 3(1,2,5)] by (cases b) (auto split: if_splits)
  then show ?case using 3 number_prefix [of n m s t] by (simp add: number_text_def)
next
  case (4 x)
  then obtain y where b: "b = VString y" using same_head_class [OF 4(1,2,5)] by (cases b) (auto split: if_splits)
  then show ?case using 4 quoted_prefix [of x s y t] by simp
next
  case (5 xs)
  then obtain ys where b: "b = VArray ys" using same_head_class [OF 5(2,3,6)] by (cases b) (auto split: if_splits)
  have ok: "list_all numbers_ok xs" "list_all numbers_ok ys" using 5(2,3) b by simp_all
  have "map json_norm xs = map json_norm ys \<and> s = t"
  proof (rule list_prefix [where f = write_canonical and e = "CHR '']''"])
    show "join '','' (map write_canonical xs) @ CHR '']'' # s = join '','' (map write_canonical ys) @ CHR '']'' # t"
      using 5(6) b by simp
  next
    fix x y u v
    assume "x \<in> set xs" "y \<in> set ys" "value_end u" "value_end v" "write_canonical x @ u = write_canonical y @ v"
    then show "json_norm x = json_norm y \<and> u = v"
      using 5(1) [of x y u v] ok by (simp add: list_all_iff)
  next
    show "\<exists>c cs. write_canonical x = c # cs \<and> c \<notin> set '',]}''" if "x \<in> set xs" for x
      using that ok write_canonical_open by (simp only: list_all_iff)
  next
    show "\<exists>c cs. write_canonical y = c # cs \<and> c \<notin> set '',]}''" if "y \<in> set ys" for y
      using that ok write_canonical_open by (simp only: list_all_iff)
  qed simp
  then show ?case using b by simp
next
  case (6 kvs)
  then obtain lvs where b: "b = VObject lvs" using same_head_class [OF 6(2,3,6)] by (cases b) (auto split: if_splits)
  let ?f = "\<lambda>kv. quoted (fst kv) @ '':'' @ write_canonical (snd kv)" and ?g = "\<lambda>kv. (fst kv, json_norm (snd kv))"
  have ok: "\<forall>kv \<in> set kvs. numbers_ok (snd kv)" "\<forall>kv \<in> set lvs. numbers_ok (snd kv)"
    using 6(2,3) b by (simp_all add: list_all_iff)
  have "map ?g (sort_key fst kvs) = map ?g (sort_key fst lvs) \<and> s = t"
  proof (rule list_prefix [where f = ?f and e = "CHR ''}''"])
    show "join '','' (map ?f (sort_key fst kvs)) @ CHR ''}'' # s = join '','' (map ?f (sort_key fst lvs)) @ CHR ''}'' # t"
      using 6(6) b by simp
  next
    fix x y u v
    assume x: "x \<in> set (sort_key fst kvs)" "y \<in> set (sort_key fst lvs)" "value_end u" "value_end v" "?f x @ u = ?f y @ v"
    show "?g x = ?g y \<and> u = v"
    proof (rule entry_prefix)
      show "(quoted (fst x) @ '':'' @ write_canonical (snd x)) @ u = (quoted (fst y) @ '':'' @ write_canonical (snd y)) @ v"
        by (rule x(5))
    next
      fix s' t'
      assume "value_end s'" "value_end t'" "write_canonical (snd x) @ s' = write_canonical (snd y) @ t'"
      then show "json_norm (snd x) = json_norm (snd y) \<and> s' = t'"
        using 6(1) [of x "snd y" s' t'] x(1,2) ok by simp
    qed (rule x(3), rule x(4))
  qed (use entry_head in auto)
  then show ?case using b by simp
qed

lemma write_canonical_inj:
  "numbers_ok a \<Longrightarrow> numbers_ok b \<Longrightarrow> write_canonical a = write_canonical b \<Longrightarrow> json_norm a = json_norm b"
  using write_canonical_prefix [of a b "[]" "[]"] by simp

section \<open>Properties\<close>

text \<open>C39: two inputs whose numbers are printed as numbers have the same canonical text exactly
  when they are equal up to the order of the keys in their objects, at any depth. The text a
  grant's hash is taken of therefore identifies the input.\<close>

theorem canonical_text_unambiguous:
  assumes "numbers_ok a" "numbers_ok b"
  shows "canonicalize a = canonicalize b \<longleftrightarrow> json_norm a = json_norm b"
  unfolding canonicalize_def using write_canonical_inj [OF assms] write_canonical_norm by metis

theorem canonical_text_unambiguous_witness:
  "canonicalize (VObject [(''b'', VNumber ''1''), (''a'', VNull)]) =
     canonicalize (VObject [(''a'', VNull), (''b'', VNumber ''1'')]) \<and>
   canonicalize (VObject [(''a'', VNull)]) \<noteq> canonicalize (VObject [(''a'', VString ''null'')])"
  by (subst (1 2) canonical_text_unambiguous) (simp_all add: number_text_def number_char_def)

text \<open>The hash an approval is stored under does not depend on the order of the keys of an
  object, at any depth, and is sixteen digits long.\<close>

theorem hash_ignores_key_order:
  "hash_input (json_norm j) = hash_input j \<and> length (hash_input j) = 16"
  by (simp add: hash_input_norm hash_input_length)


end
