(* ===== verification/Schema_Spec.thy ===== *)
theory Schema_Spec
  imports Tool_Validation
begin

text \<open>
  What a JSON schema demands, as a specification without messages or an order of checks, and
  the proof that the checker of \<open>gestalt-core/src/tool_validation.rs\<close> decides it. A schema
  that is not an object demands nothing; \<open>anyOf\<close> takes precedence over \<open>type\<close>; the
  clauses on fields and items apply when \<open>type\<close> is that single name (a list of types
  demands no more than that one of them matches).
\<close>

section \<open>The specification\<close>

lemma size_entry: "(k, s) \<in> set ps \<Longrightarrow> size s < Suc (size_list (size_prod (\<lambda>_. 0) size) ps)"
  by (induction ps) auto

lemma size_sub_schema:
  "Option.bind (map_of so ''properties'') as_object = Some props \<Longrightarrow> (k, s) \<in> set props \<Longrightarrow>
     size s < Suc (size_list (size_prod (\<lambda>_. 0) size) so)"
  using size_sub_object [of so "''properties''" props] size_entry [of k s props] by linarith

lemma size_alternative:
  "Option.bind (map_of so ''anyOf'') as_array = Some alts \<Longrightarrow> s \<in> set alts \<Longrightarrow>
     size s < Suc (size_list (size_prod (\<lambda>_. 0) size) so)"
  using size_sub_array [of so "''anyOf''" alts] size_list_estimation' [of s alts "size s" size] by fastforce

definition closed_ok :: "(string \<times> json) list \<Rightarrow> (string \<times> json) list \<Rightarrow> bool" where
  "closed_ok so obj \<longleftrightarrow> additional_forbidden so \<longrightarrow>
     (\<forall>props. Option.bind (map_of so ''properties'') as_object = Some props \<longrightarrow> fst ` set obj \<subseteq> fst ` set props)"

definition required_ok :: "(string \<times> json) list \<Rightarrow> (string \<times> json) list \<Rightarrow> bool" where
  "required_ok so obj \<longleftrightarrow> (\<forall>f. VString f \<in> set (required_list so) \<longrightarrow> f \<in> fst ` set obj)"

text \<open>The value is the first argument, the schema the second.\<close>

function (sequential) conforms :: "json \<Rightarrow> json \<Rightarrow> bool" where
  "conforms v (VObject so) \<longleftrightarrow>
     (case Option.bind (map_of so ''anyOf'') as_array of
        Some alts \<Rightarrow> (\<exists>s \<in> set alts. conforms v s)
      | None \<Rightarrow>
          (case map_of so ''type'' of
             None \<Rightarrow> True
           | Some types \<Rightarrow>
               type_matches v types \<and>
               (\<forall>obj. types = VString ''object'' \<and> v = VObject obj \<longrightarrow>
                  required_ok so obj \<and> closed_ok so obj \<and>
                  (case Option.bind (map_of so ''properties'') as_object of
                     None \<Rightarrow> True
                   | Some props \<Rightarrow> (\<forall>ks \<in> set props. \<forall>pv. map_of obj (fst ks) = Some pv \<longrightarrow> conforms pv (snd ks)))) \<and>
               (\<forall>xs. types = VString ''array'' \<and> v = VArray xs \<longrightarrow>
                  (case map_of so ''items'' of
                     None \<Rightarrow> True
                   | Some items \<Rightarrow> (\<forall>x \<in> set xs. conforms x items)))))"
| "conforms v schema \<longleftrightarrow> True"
  by pat_completeness auto

termination
  by (relation "measure (size \<circ> snd)")
    (auto dest: size_map_of size_alternative size_sub_schema simp: less_Suc_eq_le)

section \<open>The checker decides it\<close>

lemma required_ok_iff: "check_required obj (required_list so) = Valid \<longleftrightarrow> required_ok so obj"
  unfolding check_required_Valid required_ok_def as_str_iff
  by (simp add: map_of_eq_None_iff) blast

lemma closed_ok_iff: "check_additional_clause so obj = Valid \<longleftrightarrow> closed_ok so obj"
  by (simp add: check_additional_clause_Valid closed_ok_def)

lemma object_accepts_iff:
  "object_accepts so obj \<longleftrightarrow> required_ok so obj \<and> closed_ok so obj \<and>
     (\<forall>props. Option.bind (map_of so ''properties'') as_object = Some props \<longrightarrow>
        (\<forall>ks \<in> set props. \<forall>pv. map_of obj (fst ks) = Some pv \<longrightarrow> validate_json_value pv (snd ks) = Valid))"
  unfolding object_accepts_def required_ok_iff [symmetric] check_required_Valid closed_ok_def
  by (auto simp del: required_list.simps; fastforce)

lemma validate_conforms: "validate_json_value v s = Valid \<longleftrightarrow> conforms v s"
proof (induction v s rule: conforms.induct)
  case (1 v so)
  show ?case
  proof (cases "Option.bind (map_of so ''anyOf'') as_array")
    case (Some alts)
    then show ?thesis using 1(3) [OF Some] by (simp add: validate_any_Valid)
  next
    case any: None
    show ?thesis
    proof (cases "map_of so ''type''")
      case (Some types)
      show ?thesis
      proof (cases "type_matches v types")
        case tm: True
        consider (obj) obj where "types = VString ''object''" "v = VObject obj"
          | (arr) xs where "types = VString ''array''" "v = VArray xs"
          | (other) "as_str types \<noteq> Some ''object''" "as_str types \<noteq> Some ''array''"
          using type_matches_object [OF tm] type_matches_array [OF tm]
          unfolding as_str_iff as_object_iff as_array_iff by blast
        then show ?thesis
        proof cases
          case (obj ob)
          have "validate_json_value v (VObject so) = Valid \<longleftrightarrow> object_accepts so ob"
            using validate_object_iff [OF any, of v] Some obj by simp
          also have "\<dots> \<longleftrightarrow> conforms v (VObject so)"
            using 1(1) [OF any Some, of ob] obj any Some tm
            by (auto simp: object_accepts_iff split: option.splits)
          finally show ?thesis .
        next
          case (arr xs)
          then show ?thesis using 1(2) [OF any Some] any Some tm
            by (auto simp: validate_items_Valid split: option.splits)
        qed (use any Some tm in \<open>auto simp: as_str_iff\<close>)
      qed (use any Some in simp)
    qed (use any in simp)
  qed
qed auto

section \<open>Properties\<close>

text \<open>C35: the schema checker, which stops at the first violation and renders a message, accepts a
  value exactly when the value conforms to the schema in the sense of the specification, at
  every depth of nested fields, items and alternatives.\<close>

theorem checker_decides_conformance:
  "validate_json_value v schema = Valid \<longleftrightarrow> conforms v schema"
  by (rule validate_conforms)

text \<open>The checker never panics: its \<open>unwrap\<close>s on the object and the array of a value are
  reached only after the type check has passed, whatever the value and the schema.\<close>

theorem checker_never_panics: "validate_json_value v schema \<noteq> Panic"
  by (rule validate_no_panic(1))

text \<open>A proposed call is accepted exactly when its id is new in this turn, its name is one of
  the names of this turn's mapping, the tool of that entry is in the catalogue, and its input
  conforms to that tool's schema; accepted or not, its id counts as seen afterwards.\<close>

theorem call_accepted_iff:
  "(fst (validate_call to_json catalog maps call seen) = None \<longleftrightarrow>
      pc_id call \<notin> seen \<and>
      (\<exists>m t. find_mapping (pc_name call) maps = Some m \<and> catalog (internal_id m) = Some t \<and>
         conforms (pc_input call) (effective_schema (t_descriptor t)))) \<and>
   snd (validate_call to_json catalog maps call seen) = insert (pc_id call) seen"
  by (simp only: validate_call_accepts validate_conforms validate_call_seen)

end
