(* ===== verification/Paths.thy ===== *)
theory Paths
  imports Tool_Runtime
begin

text \<open>
  Rust's \<open>std::path\<close> on Unix, over the text of a path: components, prefixes, parents, file names
  and extensions, and the file system as the program sees it. Two paths are the same when their
  components are; \<open>render_components\<close> gives the text a list of components stands for.
\<close>

section \<open>Components\<close>

text \<open>\<open>Path::components\<close>: the root, a leading dot, and the parts that are not empty or dots.\<close>

definition path_components :: "string \<Rightarrow> string list" where
  "path_components p =
     (let parts = split_on CHR ''/'' p;
          normal = filter (\<lambda>c. c \<noteq> [] \<and> c \<noteq> ''.'') parts
      in if starts_with p ''/'' then ''/'' # normal
         else if hd parts = ''.'' then ''.'' # normal
         else normal)"

definition is_absolute :: "string \<Rightarrow> bool" where
  "is_absolute p \<longleftrightarrow> starts_with p ''/''"

definition path_ends_with :: "string \<Rightarrow> string \<Rightarrow> bool" where
  "path_ends_with p child \<longleftrightarrow>
     (let ps = path_components p; cs = path_components child
      in length cs \<le> length ps \<and> drop (length ps - length cs) ps = cs)"

definition strip_path_prefix :: "string \<Rightarrow> string \<Rightarrow> string option" where
  "strip_path_prefix p base =
     (let ps = path_components p; bs = path_components base
      in if length bs \<le> length ps \<and> take (length bs) ps = bs
         then Some (join ''/'' (drop (length bs) ps)) else None)"

text \<open>\<open>Path::extension\<close>: what follows the last dot of the file name, unless the name starts there.\<close>

definition file_name :: "string \<Rightarrow> string option" where
  "file_name p = (let cs = path_components p in
     if cs = [] \<or> last cs = ''/'' \<or> last cs = ''.'' \<or> last cs = ''..'' then None else Some (last cs))"

definition path_extension :: "string \<Rightarrow> string option" where
  "path_extension p = (case file_name p of None \<Rightarrow> None
     | Some nm \<Rightarrow>
         (let parts = split_on CHR ''.'' nm
          in if length parts < 2 \<or> join ''.'' (butlast parts) = [] then None else Some (last parts)))"

definition has_extension :: "string \<Rightarrow> string \<Rightarrow> bool" where
  "has_extension p ext = (case path_extension p of None \<Rightarrow> False
     | Some e \<Rightarrow> to_ascii_lowercase e = to_ascii_lowercase ext)"

definition path_starts_with :: "string \<Rightarrow> string \<Rightarrow> bool" where
  "path_starts_with p base \<longleftrightarrow>
     (let ps = path_components p; bs = path_components base
      in length bs \<le> length ps \<and> take (length bs) ps = bs)"

definition render_components :: "string list \<Rightarrow> string" where
  "render_components cs = (if cs \<noteq> [] \<and> hd cs = ''/'' then ''/'' @ join ''/'' (tl cs) else join ''/'' cs)"

text \<open>\<open>Path::parent\<close>: the root and the empty path have none.\<close>

definition path_parent :: "string \<Rightarrow> string option" where
  "path_parent p = (let cs = path_components p in
     if cs = [] \<or> last cs = ''/'' then None else Some (render_components (butlast cs)))"

section \<open>The file system\<close>

text \<open>What the code asks the file system: the canonical form of a path (\<open>Inl\<close> is the I/O error), whether
  a path exists, the content of a file and the entries of a directory with a flag for directories.\<close>

record file_system =
  fs_canonicalize :: "string \<Rightarrow> string + string"
  fs_exists :: "string \<Rightarrow> bool"
  fs_read :: "string \<Rightarrow> string + string"
  fs_read_dir :: "string \<Rightarrow> (string \<times> bool) list option"

text \<open>The documented behaviour of \<open>canonicalize\<close>: an absolute path without dots or parent steps.\<close>

definition fs_canonical :: "file_system \<Rightarrow> bool" where
  "fs_canonical fs \<longleftrightarrow> (\<forall>p c. fs_canonicalize fs p = Inr c \<longrightarrow>
     is_absolute c \<and> ''..'' \<notin> set (path_components c) \<and> ''.'' \<notin> set (path_components c))"

end
