(* ===== verification/Policy_Engine.thy ===== *)
theory Policy_Engine
  imports Paths
begin

text \<open>
  The runtime's policy engine (\<open>gestalt-runtime/src/policy/engine.rs\<close>) and its wrapper with
  hooks and skills (\<open>policy/mod.rs\<close>). \<open>glob\<close> stands for \<open>glob::Pattern::new(p).is_ok_and(matches)\<close>, \<open>canon\<close> for the file
  system's answer, \<open>url_host\<close> for \<open>url::Url::parse\<close> with \<open>host_str\<close>. A slice off a character
  boundary panics; \<open>None\<close> is that panic.
\<close>

section \<open>Path rules compare text\<close>

definition normalize_path :: "string \<Rightarrow> string" where
  "normalize_path p = join ''/'' (path_components p)"

section \<open>Configuration\<close>

datatype policy_action = PaAllow | PaConfirm | PaDeny

record path_policy =
  pp_allow_read :: "string list"
  pp_allow_write :: "string list"
  pp_deny_write :: "string list"
  pp_deny_read :: "string list"

record bash_policy =
  bp_default :: policy_action
  bp_yolo_allow :: "string list"
  bp_always_confirm :: "string list"
  bp_always_deny :: "string list"

record network_policy =
  np_default :: policy_action
  np_allow_domains :: "string list"
  np_deny_domains :: "string list"

record policy_config =
  pcf_paths :: path_policy
  pcf_bash :: bash_policy
  pcf_network :: network_policy
  pcf_memory_paths :: "string list"

definition default_secret_patterns :: "string list" where
  "default_secret_patterns = [''.env'', ''.env.*'', ''*.key'', ''*.pem'', ''*secret*'',
     ''*credential*'', ''.git/'', ''secrets/'']"

definition path_policy_default :: path_policy where
  "path_policy_default = \<lparr>pp_allow_read = [''.''],
     pp_allow_write = [''docs/'', ''src/'', ''.gestalt/''],
     pp_deny_write = default_secret_patterns, pp_deny_read = default_secret_patterns\<rparr>"

definition bash_policy_default :: bash_policy where
  "bash_policy_default = \<lparr>bp_default = PaConfirm,
     bp_yolo_allow = [''cargo test'', ''cargo check'', ''cargo build'', ''ls'', ''grep'', ''rg'', ''find'', ''cat''],
     bp_always_confirm = [''rm'', ''sudo'', ''docker'', ''git push'', ''git reset'', ''ssh'', ''curl'', ''wget''],
     bp_always_deny = [''dd'', ''mkfs'', ''fdisk'', ''chmod 777'']\<rparr>"

definition network_policy_default :: network_policy where
  "network_policy_default = \<lparr>np_default = PaConfirm, np_allow_domains = [], np_deny_domains = []\<rparr>"

definition policy_config_default :: policy_config where
  "policy_config_default = \<lparr>pcf_paths = path_policy_default, pcf_bash = bash_policy_default,
     pcf_network = network_policy_default, pcf_memory_paths = []\<rparr>"

text \<open>The parsed TOML document, before defaults.\<close>

record raw_policy_config =
  raw_allow_read :: "string list option"
  raw_allow_write :: "string list option"
  raw_deny_write :: "string list option"
  raw_bash_default :: "string option"
  raw_yolo_allow :: "string list option"
  raw_always_confirm :: "string list option"
  raw_always_deny :: "string list option"
  raw_network_default :: "string option"
  raw_allow_domains :: "string list option"
  raw_deny_domains :: "string list option"

definition parse_action :: "string option \<Rightarrow> policy_action \<Rightarrow> policy_action" where
  "parse_action input dflt = (case input of
       None \<Rightarrow> dflt
     | Some s \<Rightarrow> if s \<in> {''allow'', ''allowed'', ''auto''} then PaAllow
         else if s \<in> {''deny'', ''denied''} then PaDeny else dflt)"

definition with_default :: "'a list option \<Rightarrow> 'a list \<Rightarrow> 'a list" where
  "with_default v dflt = (case v of None \<Rightarrow> dflt | Some items \<Rightarrow> if items = [] then dflt else items)"

definition or_empty :: "'a list option \<Rightarrow> 'a list" where
  "or_empty v = (case v of None \<Rightarrow> [] | Some items \<Rightarrow> items)"

definition into_config :: "raw_policy_config \<Rightarrow> policy_config" where
  "into_config raw =
     \<lparr>pcf_paths = \<lparr>pp_allow_read = with_default (raw_allow_read raw) (pp_allow_read path_policy_default),
        pp_allow_write = with_default (raw_allow_write raw) (pp_allow_write path_policy_default),
        pp_deny_write = with_default (raw_deny_write raw) (pp_deny_write path_policy_default),
        pp_deny_read = pp_deny_read path_policy_default\<rparr>,
      pcf_bash = \<lparr>bp_default = parse_action (raw_bash_default raw) (bp_default bash_policy_default),
        bp_yolo_allow = with_default (raw_yolo_allow raw) (bp_yolo_allow bash_policy_default),
        bp_always_confirm = with_default (raw_always_confirm raw) (bp_always_confirm bash_policy_default),
        bp_always_deny = with_default (raw_always_deny raw) (bp_always_deny bash_policy_default)\<rparr>,
      pcf_network = \<lparr>np_default = parse_action (raw_network_default raw) PaConfirm,
        np_allow_domains = or_empty (raw_allow_domains raw),
        np_deny_domains = or_empty (raw_deny_domains raw)\<rparr>,
      pcf_memory_paths = []\<rparr>"

section \<open>Decisions\<close>

definition pe_allow :: "string \<Rightarrow> string \<Rightarrow> policy_decision" where
  "pe_allow reason source = \<lparr>pd_status = Allowed, pd_reason = Some reason, pd_source = source\<rparr>"

definition pe_confirm :: "string \<Rightarrow> string \<Rightarrow> policy_decision" where
  "pe_confirm reason source = \<lparr>pd_status = Confirm, pd_reason = Some reason, pd_source = source\<rparr>"

definition pe_deny :: "string \<Rightarrow> string \<Rightarrow> policy_decision" where
  "pe_deny reason source = \<lparr>pd_status = Denied, pd_reason = Some reason, pd_source = source\<rparr>"

fun matrix_decision :: "risk_level \<Rightarrow> execution_mode \<Rightarrow> string \<Rightarrow> policy_decision" where
  "matrix_decision Low ModeConfirm src = pe_allow ''low-risk tool call'' src"
| "matrix_decision Low ModeYolo src = pe_allow ''low-risk tool call'' src"
| "matrix_decision Medium ModeConfirm src = pe_confirm ''medium-risk tool call'' src"
| "matrix_decision Medium ModeYolo src = pe_allow ''medium-risk policy-allowed call'' src"
| "matrix_decision High ModeConfirm src = pe_confirm ''high-risk tool call'' src"
| "matrix_decision High ModeYolo src = pe_confirm ''high-risk tool call'' src"
| "matrix_decision Critical ModeConfirm src = pe_deny ''critical-risk tool call'' src"
| "matrix_decision Critical ModeYolo src = pe_deny ''critical-risk tool call'' src"
| "matrix_decision _ ModeHuman src = pe_deny ''human mode proposes only'' src"
| "matrix_decision _ ModeDryRun src = pe_deny ''dry-run mode plans only'' src"
| "matrix_decision _ ModeReplay src = pe_deny ''replay mode does not execute live tools'' src"

section \<open>Path rules\<close>

definition is_wildcard :: "char \<Rightarrow> bool" where
  "is_wildcard c \<longleftrightarrow> c = CHR ''*'' \<or> c = CHR ''?'' \<or> c = CHR ''[''"

definition drop_last_slash :: "string \<Rightarrow> string" where
  "drop_last_slash p = (if ends_with p ''/'' then butlast p else p)"

definition pattern_matches :: "(string \<Rightarrow> string \<Rightarrow> bool) \<Rightarrow> string \<Rightarrow> string \<Rightarrow> bool" where
  "pattern_matches glob normalized pat =
     (let p = normalize_path pat in
      if p = ''.'' then True
      else if ends_with p ''/'' then starts_with normalized p
      else if glob p normalized \<or> normalized = p \<or> starts_with normalized (p @ ''/'') then True
      else if list_ex is_wildcard p then
        (let prefix = takeWhile (\<lambda>c. \<not> is_wildcard c) p;
             prefix_path = drop_last_slash (normalize_path prefix)
         in prefix_path \<noteq> [] \<and> (normalized = prefix_path \<or> starts_with normalized (prefix_path @ ''/'')))
      else False)"

definition matches_any_path :: "(string \<Rightarrow> string \<Rightarrow> bool) \<Rightarrow> string list \<Rightarrow> string \<Rightarrow> bool" where
  "matches_any_path glob patterns p = list_ex (pattern_matches glob (normalize_path p)) patterns"

definition is_denied_secret_path :: "string \<Rightarrow> bool" where
  "is_denied_secret_path p =
     (let lower = to_ascii_lowercase p in
      lower = ''.env'' \<or> ends_with lower ''/.env'' \<or> str_contains lower ''/.env.'' \<or>
      has_extension lower ''key'' \<or> has_extension lower ''pem'' \<or>
      str_contains lower ''secret'' \<or> str_contains lower ''credential'')"

datatype path_access = PathRead | PathWrite

definition extract_path :: "json \<Rightarrow> string option" where
  "extract_path input = Option.bind
     (case json_get input ''path'' of Some v \<Rightarrow> Some v | None \<Rightarrow> json_get input ''cwd'') as_str"

definition is_search_tool :: "string \<Rightarrow> bool" where
  "is_search_tool name \<longleftrightarrow>
     name \<in> {''search'', ''builtin:search'', ''find_files'', ''builtin:find_files''}"

definition default_search_path :: "policy_request \<Rightarrow> string" where
  "default_search_path rq = (case pr_workspace_root rq of
       None \<Rightarrow> ''.''
     | Some ws \<Rightarrow>
         (case strip_path_prefix (pr_working_dir rq) ws of
            Some rel \<Rightarrow> if rel = [] then ''.'' else rel
          | None \<Rightarrow> pr_working_dir rq))"

definition absolute_in :: "string \<Rightarrow> string \<Rightarrow> string" where
  "absolute_in working_dir p = (if is_absolute p then p else path_join working_dir p)"

definition matches_memory :: "(string \<Rightarrow> string option) \<Rightarrow> string list \<Rightarrow> policy_request \<Rightarrow> string \<Rightarrow> bool" where
  "matches_memory canon memory_paths rq p =
     (let absolute = absolute_in (pr_working_dir rq) p in
      case canon absolute of
        Some canonical \<Rightarrow>
          list_ex (\<lambda>mem.
            let mem_abs = (if is_absolute mem then mem
                 else case pr_workspace_root rq of Some ws \<Rightarrow> path_join ws mem | None \<Rightarrow> mem)
            in case canon mem_abs of
                 Some canonical_mem \<Rightarrow> path_components canonical = path_components canonical_mem
               | None \<Rightarrow> path_ends_with canonical mem \<or> path_ends_with absolute mem) memory_paths
      | None \<Rightarrow> list_ex (\<lambda>mem. path_ends_with absolute mem \<or> path_ends_with p mem) memory_paths)"

definition deny_patterns :: "path_policy \<Rightarrow> path_access \<Rightarrow> string list" where
  "deny_patterns pp access = (case access of PathRead \<Rightarrow> pp_deny_read pp | PathWrite \<Rightarrow> pp_deny_write pp)"

definition allow_patterns :: "path_policy \<Rightarrow> path_access \<Rightarrow> string list" where
  "allow_patterns pp access = (case access of PathRead \<Rightarrow> pp_allow_read pp | PathWrite \<Rightarrow> pp_allow_write pp)"

definition evaluate_path :: "(string \<Rightarrow> string \<Rightarrow> bool) \<Rightarrow> (string \<Rightarrow> string option) \<Rightarrow> policy_config
    \<Rightarrow> policy_request \<Rightarrow> path_access \<Rightarrow> string \<Rightarrow> policy_decision" where
  "evaluate_path glob canon config rq access p =
     (if access = PathWrite \<and> matches_memory canon (pcf_memory_paths config) rq p then
        pe_confirm (''direct write to memory file is restricted; use memory proposal instead: '' @ p)
          ''policies.toml:paths.memory_write_restricted''
      else if is_denied_secret_path p \<or> matches_any_path glob (deny_patterns (pcf_paths config) access) p then
        pe_deny (''path denied by policy: '' @ p) ''policies.toml:paths.deny''
      else if \<not> matches_any_path glob (allow_patterns (pcf_paths config) access) p then
        pe_deny (''path not allowlisted: '' @ p) ''policies.toml:paths.allow''
      else matrix_decision (pr_risk rq) (pr_mode rq) ''policies.toml:paths.allow'')"

definition evaluate_path_tool :: "(string \<Rightarrow> string \<Rightarrow> bool) \<Rightarrow> (string \<Rightarrow> string option) \<Rightarrow> policy_config
    \<Rightarrow> policy_request \<Rightarrow> path_access \<Rightarrow> policy_decision" where
  "evaluate_path_tool glob canon config rq access =
     (case extract_path (pr_input rq) of
        Some p \<Rightarrow> evaluate_path glob canon config rq access p
      | None \<Rightarrow>
          if is_search_tool (pr_tool_name rq)
          then evaluate_path glob canon config rq access (default_search_path rq)
          else pe_deny ''missing path in tool input'' ''policies.toml:paths.invalid_input'')"

section \<open>Commands\<close>

definition normalize_command :: "string \<Rightarrow> string" where
  "normalize_command command = join '' '' (split_whitespace command)"

definition matches_command :: "string list \<Rightarrow> string \<Rightarrow> bool" where
  "matches_command patterns command =
     (let normalized = normalize_command command
      in list_ex (\<lambda>p. normalized = p \<or> starts_with normalized (p @ '' '') \<or>
           str_contains normalized ('' '' @ p @ '' '')) patterns)"

definition starts_with_any :: "string \<Rightarrow> string list \<Rightarrow> bool" where
  "starts_with_any command ps = list_ex (\<lambda>p. command = p \<or> starts_with command (p @ '' '')) ps"

text \<open>
  Slicing a string at a byte offset panics off a character boundary. The tests after it are
  not reached then; \<open>or_test\<close> is \<open>||\<close> on tests that may panic.
\<close>

definition byte_len :: "string \<Rightarrow> nat" where
  "byte_len s = length (utf8_bytes s)"

fun byte_suffix :: "nat \<Rightarrow> string \<Rightarrow> string option" where
  "byte_suffix n [] = (if n = 0 then Some [] else None)"
| "byte_suffix n (c # cs) =
     (if byte_len (c # cs) = n then Some (c # cs)
      else if byte_len (c # cs) < n then None else byte_suffix n cs)"

definition ends_with_ignore_ascii_case :: "string \<Rightarrow> string \<Rightarrow> bool option" where
  "ends_with_ignore_ascii_case txt sfx =
     (if byte_len txt \<ge> byte_len sfx
      then map_option (\<lambda>t. to_ascii_lowercase t = to_ascii_lowercase sfx) (byte_suffix (byte_len sfx) txt)
      else Some False)"

definition or_test :: "bool option \<Rightarrow> bool option \<Rightarrow> bool option" where
  "or_test a b = (case a of None \<Rightarrow> None | Some True \<Rightarrow> Some True | Some False \<Rightarrow> b)"

fun any_test :: "('a \<Rightarrow> bool option) \<Rightarrow> 'a list \<Rightarrow> bool option" where
  "any_test p [] = Some False"
| "any_test p (x # xs) = or_test (p x) (any_test p xs)"

definition is_secret_token :: "string \<Rightarrow> bool option" where
  "is_secret_token raw =
     (let token = to_ascii_lowercase (trim_matches (\<lambda>c. c = CHR 0x27 \<or> c = CHR 0x22) raw)
      in or_test (Some (str_contains token ''.env''))
         (or_test (ends_with_ignore_ascii_case token ''.key'')
         (or_test (ends_with_ignore_ascii_case token ''.pem'')
         (or_test (Some (starts_with token ''secrets/''))
         (or_test (Some (str_contains token ''/secrets/''))
         (or_test (Some (str_contains token ''/secret/''))
         (or_test (Some (starts_with token ''secret.''))
           (ends_with_ignore_ascii_case token ''.secret''))))))))"

definition is_secret_command :: "string \<Rightarrow> bool option" where
  "is_secret_command command = any_test is_secret_token (split_whitespace command)"

definition critical_command :: "string \<Rightarrow> bool" where
  "critical_command normalized \<longleftrightarrow>
     str_contains normalized ''rm -rf /'' \<or> str_contains normalized ''mkfs'' \<or>
     str_contains normalized ''dd if='' \<or> str_contains normalized '':(){'' \<or>
     str_contains normalized ''chmod 777''"

definition indirect_command :: "string \<Rightarrow> bool" where
  "indirect_command normalized \<longleftrightarrow>
     contains_shell_metacharacters normalized \<or>
     str_contains normalized ''/dev/tcp'' \<or> str_contains normalized ''/dev/udp'' \<or>
     str_contains normalized ''python -c'' \<or> str_contains normalized ''python3 -c'' \<or>
     str_contains normalized ''sh -c'' \<or> str_contains normalized ''bash -c'' \<or>
     starts_with_any normalized [''env'', ''xargs'', ''sudo -u''] \<or>
     str_contains normalized '' env '' \<or> str_contains normalized '' xargs '' \<or>
     str_contains normalized '' sudo -u ''"

definition classify_bash :: "string \<Rightarrow> risk_level option" where
  "classify_bash command =
     (let normalized = normalize_command command in
      if critical_command normalized then Some Critical
      else (case is_secret_command command of
          None \<Rightarrow> None
        | Some secret \<Rightarrow> Some (
            if secret then High
            else if indirect_command normalized then High
            else if starts_with_any normalized [''sudo'', ''docker'', ''git push'', ''ssh'', ''curl'', ''wget'']
            then High
            else if starts_with_any normalized [''rm'', ''mv'', ''cp'', ''mkdir'', ''cargo install'',
               ''npm install'', ''pnpm install'', ''yarn add'', ''pip install''] then Medium
            else if starts_with_any normalized [''ls'', ''cat'', ''grep'', ''rg'', ''find'', ''cargo check'',
               ''git status'', ''git diff''] then Low
            else Medium)))"

definition request_command :: "policy_request \<Rightarrow> string" where
  "request_command rq = (case Option.bind (json_get (pr_input rq) ''command'') as_str of None \<Rightarrow> [] | Some c \<Rightarrow> c)"

definition bash_after_secrets :: "policy_config \<Rightarrow> policy_request \<Rightarrow> string \<Rightarrow> policy_decision" where
  "bash_after_secrets config rq command =
     (if pr_mode rq = ModeYolo \<and> matches_command (bp_yolo_allow (pcf_bash config)) command \<and> pr_risk rq \<le> Medium
      then pe_allow (''bash command yolo-allowlisted: '' @ command) ''policies.toml:tools.bash.yolo_allow''
      else if pr_mode rq = ModeYolo
      then pe_confirm (''bash command not yolo-allowlisted: '' @ command) ''policies.toml:tools.bash.default_confirm''
      else (case bp_default (pcf_bash config) of
          PaAllow \<Rightarrow> pe_allow ''bash default allow'' ''policies.toml:tools.bash.default''
        | PaConfirm \<Rightarrow> matrix_decision (pr_risk rq) (pr_mode rq) ''policies.toml:tools.bash.default''
        | PaDeny \<Rightarrow> pe_deny ''bash default deny'' ''policies.toml:tools.bash.default''))"

definition evaluate_bash :: "policy_config \<Rightarrow> policy_request \<Rightarrow> policy_decision option" where
  "evaluate_bash config rq =
     (let command = request_command rq in
      if matches_command (bp_always_deny (pcf_bash config)) command
      then Some (pe_deny (''bash command denied: '' @ command) ''policies.toml:tools.bash.always_deny'')
      else if matches_command (bp_always_confirm (pcf_bash config)) command
      then Some (pe_confirm (''bash command requires confirmation: '' @ command)
             ''policies.toml:tools.bash.always_confirm'')
      else (case is_secret_command command of
          None \<Rightarrow> None
        | Some secret \<Rightarrow>
            if secret
            then Some (pe_deny (''bash command accesses secret paths: '' @ command) ''policies.toml:tools.bash.secret_paths'')
            else Some (bash_after_secrets config rq command)))"

section \<open>Network\<close>

definition evaluate_network :: "(string \<Rightarrow> string option) \<Rightarrow> policy_config \<Rightarrow> policy_request \<Rightarrow> policy_decision" where
  "evaluate_network url_host config rq =
     (case Option.bind (Option.bind (json_get (pr_input rq) ''url'') as_str) url_host of
        None \<Rightarrow> pe_deny ''invalid or missing web_fetch URL'' ''policies.toml:network.invalid_input''
      | Some host \<Rightarrow>
          if host \<in> set (np_deny_domains (pcf_network config))
          then pe_deny (''network domain denied: '' @ host) ''policies.toml:network.deny_domains''
          else if host \<in> set (np_allow_domains (pcf_network config))
          then matrix_decision (pr_risk rq) (pr_mode rq) ''policies.toml:network.allow_domains''
          else (case np_default (pcf_network config) of
              PaAllow \<Rightarrow> matrix_decision (pr_risk rq) (pr_mode rq) ''policies.toml:network.default''
            | PaConfirm \<Rightarrow> pe_confirm (''network access requires confirmation: '' @ host) ''policies.toml:network.default''
            | PaDeny \<Rightarrow> pe_deny (''network domain not allowed: '' @ host) ''policies.toml:network.default''))"

section \<open>The engine\<close>

record policy_world =
  pw_glob :: "string \<Rightarrow> string \<Rightarrow> bool"
  pw_canonicalize :: "string \<Rightarrow> string option"
  pw_url_host :: "string \<Rightarrow> string option"

text \<open>The rule set the tool's name selects, \<open>None\<close> for the risk matrix alone; the inner option
  is the panic.\<close>

definition evaluate_tool_policy :: "policy_world \<Rightarrow> policy_config \<Rightarrow> policy_request \<Rightarrow> policy_decision option option" where
  "evaluate_tool_policy pw config rq =
     (let name = pr_tool_name rq in
      if name \<in> {''read'', ''builtin:read'', ''search'', ''builtin:search'', ''find_files'', ''builtin:find_files''}
      then Some (Some (evaluate_path_tool (pw_glob pw) (pw_canonicalize pw) config rq PathRead))
      else if name \<in> {''write'', ''builtin:write'', ''patch'', ''builtin:patch''}
      then Some (Some (evaluate_path_tool (pw_glob pw) (pw_canonicalize pw) config rq PathWrite))
      else if name \<in> {''bash'', ''builtin:bash''} then Some (evaluate_bash config rq)
      else if name \<in> {''web_fetch'', ''builtin:web_fetch''}
      then Some (Some (evaluate_network (pw_url_host pw) config rq))
      else None)"

definition evaluate :: "policy_world \<Rightarrow> policy_config \<Rightarrow> policy_request \<Rightarrow> policy_decision option" where
  "evaluate pw config rq =
     (if pr_user_approved rq then Some (pe_allow ''user approved for session'' ''session:user_approved'')
      else (case evaluate_tool_policy pw config rq of
          Some decision \<Rightarrow> decision
        | None \<Rightarrow> Some (matrix_decision (pr_risk rq) (pr_mode rq) ''default:risk_mode_matrix'')))"

section \<open>The wrapper\<close>

text \<open>The events the wrapper publishes, and what a composition hook may answer.\<close>

datatype policy_event =
    PvHookStarted string string
  | PvSkillPolicyApplied string "string list"
  | PvHookCompleted string string string
  | PvHookFailed string string string

datatype hook_outcome =
    HoContinue
  | HoBlock string
  | HoAddContext message
  | HoAnnotate json
  | HoSwitchModel string "string option" "string option"
  | HoAggregated "hook_outcome list"

text \<open>
  \<open>skills\<close> is the active skills' policy when it restricts tools: what it allows, and the
  sorted names. \<open>hook\<close> is the \<open>before_tool_policy\<close> hook's result, its error as text;
  \<open>debug\<close> is the derived \<open>Debug\<close> of an outcome, which only the event carries.
\<close>

definition runtime_evaluate :: "(hook_outcome \<Rightarrow> string) \<Rightarrow> (policy_request \<Rightarrow> policy_decision option)
    \<Rightarrow> ((string \<Rightarrow> bool) \<times> string list) option \<Rightarrow> (policy_request \<Rightarrow> string + hook_outcome) \<Rightarrow> policy_request
    \<Rightarrow> policy_event list \<times> policy_decision option" where
  "runtime_evaluate debug base skills hook rq =
     (let pt = ''before_tool_policy''; started = PvHookStarted pt pt in
      case (case skills of None \<Rightarrow> None
            | Some (allows, names) \<Rightarrow> if allows (pr_tool_name rq) then None else Some names) of
        Some names \<Rightarrow>
          ([started, PvSkillPolicyApplied ''active_skill_set'' names,
            PvHookCompleted pt pt ''Block (skill policy)''],
           Some (decision_denied (''Tool '' @ [CHR 0x27] @ pr_tool_name rq @ [CHR 0x27] @
             '' is outside the active skill allowance'') ''skill.policy''))
      | None \<Rightarrow>
          (case hook rq of
             Inr outcome \<Rightarrow>
               ([started, PvHookCompleted pt pt (debug outcome)],
                (case outcome of
                   HoBlock reason \<Rightarrow> Some (decision_denied reason ''hook.before_tool_policy'')
                 | _ \<Rightarrow> base rq))
           | Inl err \<Rightarrow>
               ([started, PvHookFailed pt pt err],
                Some (decision_denied (''before_tool_policy hook failed to evaluate: '' @ err)
                  ''hook.before_tool_policy.error''))))"

section \<open>Lemmas: decisions\<close>

lemma decision_simps [simp]:
  "pd_status (pe_allow r src) = Allowed" "pd_status (pe_confirm r src) = Confirm"
  "pd_status (pe_deny r src) = Denied" "pd_source (pe_allow r src) = src"
  "pd_source (pe_confirm r src) = src" "pd_source (pe_deny r src) = src"
  by (simp_all add: pe_allow_def pe_confirm_def pe_deny_def)

text \<open>How permissive a decision is.\<close>

fun strictness :: "policy_status \<Rightarrow> nat" where
  "strictness Allowed = 0"
| "strictness Confirm = 1"
| "strictness Denied = 2"

lemma matrix_status:
  "pd_status (matrix_decision risk mode src) =
     (if mode = ModeConfirm then (if risk = Low then Allowed else if risk = Critical then Denied else Confirm)
      else if mode = ModeYolo then (if risk = High then Confirm else if risk = Critical then Denied else Allowed)
      else Denied)"
  by (cases risk; cases mode) simp_all

lemma matrix_antitone:
  "risk \<le> risk' \<Longrightarrow> strictness (pd_status (matrix_decision risk mode src)) \<le>
     strictness (pd_status (matrix_decision risk' mode src))"
  by (cases risk; cases risk'; simp add: matrix_status)

lemma evaluate_path_status:
  "pd_status (evaluate_path glob canon config rq access p) =
     (if access = PathWrite \<and> matches_memory canon (pcf_memory_paths config) rq p then Confirm
      else if is_denied_secret_path p \<or> matches_any_path glob (deny_patterns (pcf_paths config) access) p \<or>
        \<not> matches_any_path glob (allow_patterns (pcf_paths config) access) p then Denied
      else pd_status (matrix_decision (pr_risk rq) (pr_mode rq) []))"
  by (simp add: evaluate_path_def matrix_status)

section \<open>Lemmas: panics\<close>

definition is_ascii :: "string \<Rightarrow> bool" where
  "is_ascii s \<longleftrightarrow> (\<forall>c \<in> set s. (of_char c :: nat) < 128)"

lemma byte_len_Cons: "byte_len (c # cs) = length (utf8_char c) + byte_len cs"
  by (simp add: byte_len_def utf8_bytes_def)

lemma byte_len_ascii: "is_ascii s \<Longrightarrow> byte_len s = length s"
  by (induction s) (auto simp: byte_len_Cons is_ascii_def utf8_char_def Let_def, simp add: byte_len_def utf8_bytes_def)

lemma byte_suffix_ascii: "is_ascii s \<Longrightarrow> n \<le> length s \<Longrightarrow> byte_suffix n s = Some (drop (length s - n) s)"
proof (induction s)
  case (Cons c cs)
  have a: "is_ascii cs" using Cons.prems by (simp add: is_ascii_def)
  show ?case
  proof (cases "n = length (c # cs)")
    case True
    then show ?thesis using byte_len_ascii [OF Cons.prems(1)] by simp
  next
    case False
    then have "n \<le> length cs" using Cons.prems(2) by simp
    then show ?thesis using Cons.IH [OF a] byte_len_ascii [OF Cons.prems(1)]
      by (simp add: Suc_diff_le)
  qed
qed simp

lemma ends_with_ignore_ascii:
  assumes "is_ascii s" "is_ascii e"
  shows "ends_with_ignore_ascii_case s e \<noteq> None"
  using byte_suffix_ascii [OF assms(1), of "length e"]
  by (cases "length e \<le> length s")
    (auto simp: ends_with_ignore_ascii_case_def byte_len_ascii [OF assms(1)] byte_len_ascii [OF assms(2)])

lemma or_test_total: "a \<noteq> None \<Longrightarrow> b \<noteq> None \<Longrightarrow> or_test a b \<noteq> None"
  by (auto simp: or_test_def split: bool.splits)

lemma any_test_total: "(\<And>x. x \<in> set xs \<Longrightarrow> p x \<noteq> None) \<Longrightarrow> any_test p xs \<noteq> None"
  by (induction xs) (simp_all add: or_test_total)

lemma to_ascii_lower_ascii: "(of_char c :: nat) < 128 \<Longrightarrow> (of_char (to_ascii_lower c) :: nat) < 128"
  by (auto simp: to_ascii_lower_def Let_def)

lemma is_secret_token_ascii:
  assumes "is_ascii s"
  shows "is_secret_token s \<noteq> None"
proof -
  have "is_ascii (to_ascii_lowercase (trim_matches p s))" for p
    using assms set_trim_matches [of p s]
    by (auto simp: is_ascii_def to_ascii_lowercase_def intro: to_ascii_lower_ascii)
  then have e: "is_ascii e \<Longrightarrow> ends_with_ignore_ascii_case (to_ascii_lowercase (trim_matches p s)) e \<noteq> None" for p e
    by (rule ends_with_ignore_ascii)
  show ?thesis unfolding is_secret_token_def Let_def
    by (intro or_test_total e) (simp_all add: is_ascii_def)
qed

lemma split_ws_acc_set: "w \<in> set (split_ws_acc acc s) \<Longrightarrow> set w \<subseteq> set acc \<union> set s"
  by (induction acc s arbitrary: w rule: split_ws_acc.induct) (fastforce split: if_splits)+

lemma is_secret_command_ascii: "is_ascii command \<Longrightarrow> is_secret_command command \<noteq> None"
  unfolding is_secret_command_def split_whitespace_def
  using split_ws_acc_set [of _ "[]" command]
  by (intro any_test_total is_secret_token_ascii) (fastforce simp: is_ascii_def)

lemma evaluate_bash_panics_iff:
  "evaluate_bash config rq = None \<longleftrightarrow>
     \<not> matches_command (bp_always_deny (pcf_bash config)) (request_command rq) \<and>
     \<not> matches_command (bp_always_confirm (pcf_bash config)) (request_command rq) \<and>
     is_secret_command (request_command rq) = None"
  by (auto simp: evaluate_bash_def Let_def split: option.splits)

section \<open>Lemmas: commands\<close>

lemma evaluate_bash_allowed:
  assumes "evaluate_bash config rq = Some d" "pd_status d = Allowed"
  shows "\<not> matches_command (bp_always_deny (pcf_bash config)) (request_command rq) \<and>
    \<not> matches_command (bp_always_confirm (pcf_bash config)) (request_command rq) \<and>
    is_secret_command (request_command rq) = Some False \<and>
    (pr_mode rq = ModeYolo \<longrightarrow>
       matches_command (bp_yolo_allow (pcf_bash config)) (request_command rq) \<and> pr_risk rq \<le> Medium)"
  using assms
  by (auto simp: evaluate_bash_def bash_after_secrets_def Let_def split: if_splits option.splits)

section \<open>Properties\<close>

text \<open>The risk matrix is monotone: a higher risk is never treated more permissively in the same
  mode, \<open>yolo\<close> is never stricter than \<open>confirm\<close>, and the modes that only propose, plan or
  replay deny at every risk.\<close>

theorem matrix_monotone:
  assumes "risk \<le> risk'"
  shows "strictness (pd_status (matrix_decision risk mode src)) \<le>
      strictness (pd_status (matrix_decision risk' mode src)) \<and>
    strictness (pd_status (matrix_decision risk ModeYolo src)) \<le>
      strictness (pd_status (matrix_decision risk ModeConfirm src)) \<and>
    (mode \<notin> {ModeConfirm, ModeYolo} \<longrightarrow> pd_status (matrix_decision risk mode src) = Denied)"
  using matrix_antitone [OF assms] by (auto simp: matrix_status)

theorem matrix_monotone_witness:
  "strictness (pd_status (matrix_decision Medium ModeYolo [])) \<le>
     strictness (pd_status (matrix_decision High ModeYolo []))"
  using matrix_monotone [of Medium High ModeYolo "[]"] by simp

text \<open>The access a path tool asks for, and the path that is checked.\<close>

definition path_access_of :: "string \<Rightarrow> path_access option" where
  "path_access_of name =
     (if name \<in> {''read'', ''builtin:read'', ''search'', ''builtin:search'', ''find_files'', ''builtin:find_files''}
      then Some PathRead
      else if name \<in> {''write'', ''builtin:write'', ''patch'', ''builtin:patch''} then Some PathWrite
      else None)"

definition checked_path :: "policy_request \<Rightarrow> string option" where
  "checked_path rq = (case extract_path (pr_input rq) of
       Some p \<Rightarrow> Some p
     | None \<Rightarrow> if is_search_tool (pr_tool_name rq) then Some (default_search_path rq) else None)"

lemma evaluate_path_call:
  assumes "\<not> pr_user_approved rq" "path_access_of (pr_tool_name rq) = Some access"
  shows "evaluate pw config rq = Some (case checked_path rq of
      Some p \<Rightarrow> evaluate_path (pw_glob pw) (pw_canonicalize pw) config rq access p
    | None \<Rightarrow> pe_deny ''missing path in tool input'' ''policies.toml:paths.invalid_input'')"
  using assms
  by (auto simp: evaluate_def evaluate_tool_policy_def Let_def path_access_of_def evaluate_path_tool_def
      checked_path_def split: option.splits if_splits)

text \<open>C34: a file or search call that is not pre-approved is allowed exactly when its path is given
  (or is the default of a search), is not a secret path, matches no deny rule and some allow
  rule of its access, is not a direct write to a memory file, and the risk matrix allows it.\<close>

theorem path_call_allowed_iff:
  assumes "\<not> pr_user_approved rq" "path_access_of (pr_tool_name rq) = Some access"
  shows "map_option pd_status (evaluate pw config rq) = Some Allowed \<longleftrightarrow>
    (\<exists>p. checked_path rq = Some p \<and> \<not> is_denied_secret_path p \<and>
       \<not> matches_any_path (pw_glob pw) (deny_patterns (pcf_paths config) access) p \<and>
       matches_any_path (pw_glob pw) (allow_patterns (pcf_paths config) access) p \<and>
       \<not> (access = PathWrite \<and> matches_memory (pw_canonicalize pw) (pcf_memory_paths config) rq p) \<and>
       pd_status (matrix_decision (pr_risk rq) (pr_mode rq) []) = Allowed)"
  unfolding evaluate_path_call [OF assms]
  by (cases "checked_path rq") (auto simp: evaluate_path_status)

definition sample_request :: "string \<Rightarrow> json \<Rightarrow> risk_level \<Rightarrow> execution_mode \<Rightarrow> policy_request" where
  "sample_request name input risk mode =
     \<lparr>pr_tool_call_id = ''c'', pr_tool_name = name, pr_namespace = BuiltIn, pr_annotations = [],
      pr_input = input, pr_risk = risk, pr_mode = mode, pr_working_dir = ''/w'',
      pr_workspace_root = Some ''/w'', pr_user_approved = False\<rparr>"

text \<open>Globs without wildcards match only themselves; no path of the sample exists.\<close>

definition sample_policy_world :: policy_world where
  "sample_policy_world = \<lparr>pw_glob = (=), pw_canonicalize = (\<lambda>_. None), pw_url_host = (\<lambda>_. None)\<rparr>"

theorem path_call_allowed_iff_witness:
  "map_option pd_status (evaluate sample_policy_world policy_config_default
      (sample_request ''write'' (VObject [(''path'', VString ''config/.env'')]) Low ModeYolo)) \<noteq> Some Allowed"
  by (subst path_call_allowed_iff [where access = PathWrite])
    (simp_all add: sample_request_def path_access_of_def checked_path_def extract_path_def,
      simp add: is_denied_secret_path_def to_ascii_lowercase_def to_ascii_lower_def Let_def ends_with_iff)

text \<open>Path rules compare the text of the path and do not resolve \<open>..\<close>: with the default
  policy, a write to \<open>docs/../.git/config\<close> is allowed although writes under \<open>.git/\<close> are
  denied, because the text starts with the allowed \<open>docs/\<close>.\<close>

theorem path_rules_ignore_parent_steps:
  "''.git/'' \<in> set (pp_deny_write (pcf_paths policy_config_default)) \<and>
   map_option pd_status (evaluate sample_policy_world policy_config_default
      (sample_request ''write'' (VObject [(''path'', VString ''docs/../.git/config'')]) Medium ModeYolo)) = Some Allowed"
  by code_simp

text \<open>A bash call that is not pre-approved and is allowed matches no always-deny and no
  always-confirm rule, names no secret path, and in \<open>yolo\<close> mode matches a rule of the yolo
  allow list at a risk no higher than medium.\<close>

theorem bash_call_allowed:
  assumes "evaluate pw config rq = Some d" "pd_status d = Allowed"
    and "\<not> pr_user_approved rq" "pr_tool_name rq \<in> {''bash'', ''builtin:bash''}"
  shows "\<not> matches_command (bp_always_deny (pcf_bash config)) (request_command rq) \<and>
    \<not> matches_command (bp_always_confirm (pcf_bash config)) (request_command rq) \<and>
    is_secret_command (request_command rq) = Some False \<and>
    (pr_mode rq = ModeYolo \<longrightarrow>
       matches_command (bp_yolo_allow (pcf_bash config)) (request_command rq) \<and> pr_risk rq \<le> Medium)"
proof (rule evaluate_bash_allowed [OF _ assms(2)])
  show "evaluate_bash config rq = Some d"
    using assms(1,3,4) by (auto simp: evaluate_def evaluate_tool_policy_def Let_def)
qed

lemma sample_bash_allowed:
  "evaluate sample_policy_world policy_config_default
     (sample_request ''bash'' (VObject [(''command'', VString ''ls'')]) Low ModeYolo) =
   Some (pe_allow ''bash command yolo-allowlisted: ls'' ''policies.toml:tools.bash.yolo_allow'')"
  by code_simp

theorem bash_call_allowed_witness:
  "matches_command (bp_yolo_allow (pcf_bash policy_config_default)) ''ls'' \<and>
   is_secret_command ''ls'' = Some False"
  using bash_call_allowed [OF sample_bash_allowed]
  by (simp add: sample_request_def request_command_def)

text \<open>Evaluating a request never panics when the command it carries, if any, is ASCII.\<close>

theorem ascii_never_panics:
  assumes "is_ascii (request_command rq)"
  shows "evaluate pw config rq \<noteq> None"
proof -
  have "evaluate_bash config rq \<noteq> None"
    using is_secret_command_ascii [OF assms] by (simp add: evaluate_bash_panics_iff)
  then show ?thesis by (simp add: evaluate_def evaluate_tool_policy_def Let_def)
qed

theorem ascii_never_panics_witness:
  "evaluate sample_policy_world policy_config_default
     (sample_request ''bash'' (VObject [(''command'', VString ''cat a.key'')]) Low ModeYolo) \<noteq> None"
  by (rule ascii_never_panics) (simp add: sample_request_def request_command_def is_ascii_def)

text \<open>A bash command with a non-ASCII argument can make the engine panic: the check for secret
  file extensions slices the argument at a byte offset that may lie inside a character.\<close>

theorem non_ascii_command_panics:
  "evaluate sample_policy_world policy_config_default
     (sample_request ''bash'' (VObject [(''command'', VString (''echo '' @ [CHR 0xE9, CHR 0xE9] @ ''a''))]) Low ModeConfirm) = None"
  by code_simp

text \<open>In replay mode, whose matrix denies every call because live tools are not executed, a
  command on the always-confirm list is offered for confirmation instead.\<close>

theorem replay_mode_offers_command:
  "pd_status (matrix_decision Medium ModeReplay []) = Denied \<and>
   map_option pd_status (evaluate sample_policy_world policy_config_default
     (sample_request ''bash'' (VObject [(''command'', VString ''rm x'')]) Medium ModeReplay)) = Some Confirm"
  by code_simp

text \<open>The runtime's wrapper fails closed: it allows only what the engine itself allows, only if
  the active skills admit the tool and the composition hook ran without error and did not block.\<close>

theorem wrapper_fails_closed:
  assumes "snd (runtime_evaluate debug base skills hook rq) = Some d" "pd_status d = Allowed"
  shows "base rq = Some d \<and> (\<forall>allows names. skills = Some (allows, names) \<longrightarrow> allows (pr_tool_name rq)) \<and>
    (\<exists>outcome. hook rq = Inr outcome \<and> (\<forall>reason. outcome \<noteq> HoBlock reason))"
  using assms
  by (auto simp: runtime_evaluate_def Let_def decision_denied_def split: option.splits sum.splits
      hook_outcome.splits if_splits)

theorem wrapper_fails_closed_witness:
  "\<exists>outcome. (\<lambda>_. Inr HoContinue :: string + hook_outcome) (sample_request ''read'' VNull Low ModeYolo) = Inr outcome \<and>
     (\<forall>reason. outcome \<noteq> HoBlock reason)"
  using wrapper_fails_closed [of "\<lambda>_. []" "\<lambda>_. Some (pe_allow [] [])" None "\<lambda>_. Inr HoContinue"
      "sample_request ''read'' VNull Low ModeYolo" "pe_allow [] []"]
  by (simp add: runtime_evaluate_def)

end
