(* ===== verification/Steering_Queue.thy ===== *)
theory Steering_Queue
  imports Core_Types
begin

text \<open>
  The steering queue: the trait and its acknowledgements (\<open>gestalt-core/src/session_queue.rs\<close>)
  and the in-memory queue of the runtime (\<open>gestalt-runtime/src/session_queue.rs\<close>). The
  mutex makes every operation atomic, so an operation is a function on the state. The client
  side is a locale: what a run of enqueues and drains delivers, from laws the in-memory
  queue is then proved to have. The abstract queue is the list of pending messages with a
  bound; the in-memory queue refines it.
\<close>

datatype queue_ack = Queued | Duplicate | Conflict | Full | SessionNotActive | SessionClosing

datatype queue_lifecycle = Active | Closing | Completed

record queue_state =
  qs_lifecycle :: queue_lifecycle
  qs_messages :: "queued_session_message list"
  qs_idempotent :: "string \<rightharpoonup> queued_session_message"

record steering_queue =
  sq_state :: queue_state
  sq_capacity :: nat

definition default_capacity :: nat where
  "default_capacity = 64"

definition with_capacity :: "nat \<Rightarrow> steering_queue" where
  "with_capacity capacity =
     \<lparr>sq_state = \<lparr>qs_lifecycle = Completed, qs_messages = [], qs_idempotent = Map.empty\<rparr>,
      sq_capacity = capacity\<rparr>"

definition queue_new :: steering_queue where
  "queue_new = with_capacity default_capacity"

definition active_with_capacity :: "nat \<Rightarrow> steering_queue" where
  "active_with_capacity capacity =
     (let q = with_capacity capacity
      in q\<lparr>sq_state := (sq_state q)\<lparr>qs_lifecycle := Active\<rparr>\<rparr>)"

definition same_payload :: "queued_session_message \<Rightarrow> queued_session_message \<Rightarrow> bool" where
  "same_payload previous message \<longleftrightarrow> qm_content previous = qm_content message \<and>
     qm_source previous = qm_source message \<and>
     qm_injected_at_turn previous = qm_injected_at_turn message"

definition push_message :: "queued_session_message \<Rightarrow> steering_queue \<Rightarrow> queue_ack \<times> steering_queue" where
  "push_message m q =
     (let st = sq_state q in
      if length (qs_messages st) \<ge> sq_capacity q then (Full, q)
      else (Queued, q\<lparr>sq_state := st\<lparr>
          qs_idempotent := (case qm_idempotency_key m of
              None \<Rightarrow> qs_idempotent st | Some k \<Rightarrow> (qs_idempotent st)(k \<mapsto> m)),
          qs_messages := qs_messages st @ [m]\<rparr>\<rparr>))"

definition enqueue :: "queued_session_message \<Rightarrow> steering_queue \<Rightarrow> queue_ack \<times> steering_queue" where
  "enqueue m q =
     (case qs_lifecycle (sq_state q) of
        Completed \<Rightarrow> (SessionNotActive, q)
      | Closing \<Rightarrow> (SessionClosing, q)
      | Active \<Rightarrow>
          (case Option.bind (qm_idempotency_key m) (qs_idempotent (sq_state q)) of
             Some previous \<Rightarrow> (if same_payload previous m then Duplicate else Conflict, q)
           | None \<Rightarrow> push_message m q))"

definition drain :: "steering_queue \<Rightarrow> queued_session_message list \<times> steering_queue" where
  "drain q = (qs_messages (sq_state q), q\<lparr>sq_state := (sq_state q)\<lparr>qs_messages := []\<rparr>\<rparr>)"

definition update_lifecycle :: "queue_lifecycle \<Rightarrow> steering_queue \<Rightarrow> steering_queue" where
  "update_lifecycle state q =
     (let st = (sq_state q)\<lparr>qs_lifecycle := state\<rparr>
      in q\<lparr>sq_state := (if state = Completed then st\<lparr>qs_messages := [], qs_idempotent := Map.empty\<rparr> else st)\<rparr>)"

definition queue_len :: "steering_queue \<Rightarrow> nat" where
  "queue_len q = length (qs_messages (sq_state q))"

definition queue_is_empty :: "steering_queue \<Rightarrow> bool" where
  "queue_is_empty q \<longleftrightarrow> queue_len q = 0"

section \<open>The invariant\<close>

text \<open>Within capacity; a message is filed under its own key, and pending keyed messages are
  filed, one for each key.\<close>

definition pending_keys :: "queued_session_message list \<Rightarrow> string list" where
  "pending_keys ms = List.map_filter qm_idempotency_key ms"

definition queue_ok :: "steering_queue \<Rightarrow> bool" where
  "queue_ok q \<longleftrightarrow> length (qs_messages (sq_state q)) \<le> sq_capacity q \<and>
     (\<forall>k m. qs_idempotent (sq_state q) k = Some m \<longrightarrow> qm_idempotency_key m = Some k) \<and>
     (\<forall>m \<in> set (qs_messages (sq_state q)). \<forall>k. qm_idempotency_key m = Some k \<longrightarrow>
        qs_idempotent (sq_state q) k = Some m) \<and>
     distinct (pending_keys (qs_messages (sq_state q)))"

lemma pending_keys_simps [simp]:
  "pending_keys [] = []"
  "pending_keys (xs @ ys) = pending_keys xs @ pending_keys ys"
  "pending_keys (m # xs) = (case qm_idempotency_key m of None \<Rightarrow> [] | Some k \<Rightarrow> [k]) @ pending_keys xs"
  by (simp_all add: pending_keys_def List.map_filter_def split: option.splits)

lemma set_pending_keys: "k \<in> set (pending_keys ms) \<longleftrightarrow> (\<exists>m \<in> set ms. qm_idempotency_key m = Some k)"
  by (induction ms) (auto split: option.splits)

lemma queue_ok_new: "queue_ok (with_capacity c)" "queue_ok (active_with_capacity c)"
  by (simp_all add: queue_ok_def with_capacity_def active_with_capacity_def Let_def)

lemma queue_okI:
  assumes "length (qs_messages (sq_state q)) \<le> sq_capacity q"
    and "\<And>k m. qs_idempotent (sq_state q) k = Some m \<Longrightarrow> qm_idempotency_key m = Some k"
    and "\<And>m k. m \<in> set (qs_messages (sq_state q)) \<Longrightarrow> qm_idempotency_key m = Some k \<Longrightarrow>
        qs_idempotent (sq_state q) k = Some m"
    and "distinct (pending_keys (qs_messages (sq_state q)))"
  shows "queue_ok q"
  unfolding queue_ok_def using assms by blast

lemma queue_okD:
  assumes "queue_ok q"
  shows "length (qs_messages (sq_state q)) \<le> sq_capacity q"
    and "qs_idempotent (sq_state q) k = Some m \<Longrightarrow> qm_idempotency_key m = Some k"
    and "m \<in> set (qs_messages (sq_state q)) \<Longrightarrow> qm_idempotency_key m = Some k \<Longrightarrow>
        qs_idempotent (sq_state q) k = Some m"
    and "distinct (pending_keys (qs_messages (sq_state q)))"
  using assms unfolding queue_ok_def by blast+

lemma push_message_full: "sq_capacity q \<le> length (qs_messages (sq_state q)) \<Longrightarrow> push_message m q = (Full, q)"
  by (simp add: push_message_def)

lemma push_message_room:
  assumes "length (qs_messages (sq_state q)) < sq_capacity q"
  shows "fst (push_message m q) = Queued"
    and "sq_capacity (snd (push_message m q)) = sq_capacity q"
    and "qs_lifecycle (sq_state (snd (push_message m q))) = qs_lifecycle (sq_state q)"
    and "qs_messages (sq_state (snd (push_message m q))) = qs_messages (sq_state q) @ [m]"
    and "qs_idempotent (sq_state (snd (push_message m q))) =
      (case qm_idempotency_key m of None \<Rightarrow> qs_idempotent (sq_state q)
       | Some k \<Rightarrow> (qs_idempotent (sq_state q))(k \<mapsto> m))"
  using assms by (simp_all add: push_message_def Let_def)

lemma queue_ok_push:
  assumes "queue_ok q" "Option.bind (qm_idempotency_key m) (qs_idempotent (sq_state q)) = None"
  shows "queue_ok (snd (push_message m q))"
proof (cases "length (qs_messages (sq_state q)) < sq_capacity q")
  case False
  then show ?thesis using assms(1) by (simp add: push_message_full)
next
  case True
  show ?thesis
  proof (cases "qm_idempotency_key m")
    case None
    show ?thesis
      by (rule queue_okI; simp only: push_message_room [OF True] None option.case)
        (use queue_okD [OF assms(1)] True None in \<open>auto simp: queue_okD(2) [OF assms(1)]\<close>)
  next
    case (Some k)
    then have n: "qs_idempotent (sq_state q) k = None" using assms(2) by simp
    then have fresh: "k \<notin> set (pending_keys (qs_messages (sq_state q)))"
      using queue_okD(3) [OF assms(1)] unfolding set_pending_keys by fastforce
    show ?thesis
    proof (rule queue_okI; simp only: push_message_room [OF True] Some option.case)
      show "length (qs_messages (sq_state q) @ [m]) \<le> sq_capacity q" using True by simp
      show "distinct (pending_keys (qs_messages (sq_state q) @ [m]))"
        using fresh queue_okD(4) [OF assms(1)] Some by simp
    next
      fix k' m'
      assume "((qs_idempotent (sq_state q))(k \<mapsto> m)) k' = Some m'"
      then show "qm_idempotency_key m' = Some k'"
        using queue_okD(2) [OF assms(1)] Some by (metis fun_upd_apply option.inject)
    next
      fix m' k'
      assume "m' \<in> set (qs_messages (sq_state q) @ [m])" "qm_idempotency_key m' = Some k'"
      then show "((qs_idempotent (sq_state q))(k \<mapsto> m)) k' = Some m'"
        using queue_okD(3) [OF assms(1)] Some n by fastforce
    qed
  qed
qed

lemma queue_ok_enqueue: "queue_ok q \<Longrightarrow> queue_ok (snd (enqueue m q))"
  by (auto simp: enqueue_def queue_ok_push split: queue_lifecycle.splits option.splits)

lemma queue_ok_drain: "queue_ok q \<Longrightarrow> queue_ok (snd (drain q))"
  by (rule queue_okI) (auto simp: drain_def dest: queue_okD(2))

lemma queue_ok_lifecycle: "queue_ok q \<Longrightarrow> queue_ok (update_lifecycle st q)"
  by (rule queue_okI)
    (auto simp: update_lifecycle_def Let_def dest: queue_okD split: if_splits)

section \<open>What a client sees\<close>

text \<open>
  The interface of the trait, as the loop relies on it: the pending messages of a state, an
  enqueue that appends the message exactly when it answers \<open>Queued\<close>, and a drain that
  hands out everything pending.
\<close>

locale message_queue =
  fixes enq :: "'m \<Rightarrow> 'q \<Rightarrow> queue_ack \<times> 'q"
    and drn :: "'q \<Rightarrow> 'm list \<times> 'q"
    and pending :: "'q \<Rightarrow> 'm list"
    and ok :: "'q \<Rightarrow> bool"
    and room :: "'q \<Rightarrow> nat"
  assumes enq_ok: "ok q \<Longrightarrow> ok (snd (enq m q))"
    and drn_ok: "ok q \<Longrightarrow> ok (snd (drn q))"
    and enq_pending: "pending (snd (enq m q)) = pending q @ (if fst (enq m q) = Queued then [m] else [])"
    and drn_all: "fst (drn q) = pending q"
    and drn_empty: "pending (snd (drn q)) = []"
    and room_enq: "room (snd (enq m q)) = room q"
    and room_drn: "room (snd (drn q)) = room q"
    and ok_room: "ok q \<Longrightarrow> length (pending q) \<le> room q"
begin

text \<open>A schedule of enqueues and drains, by any number of clients.\<close>

fun accepted :: "'m option list \<Rightarrow> 'q \<Rightarrow> 'm list" where
  "accepted [] q = []"
| "accepted (Some m # ops) q =
     (if fst (enq m q) = Queued then [m] else []) @ accepted ops (snd (enq m q))"
| "accepted (None # ops) q = accepted ops (snd (drn q))"

fun delivered :: "'m option list \<Rightarrow> 'q \<Rightarrow> 'm list" where
  "delivered [] q = []"
| "delivered (Some m # ops) q = delivered ops (snd (enq m q))"
| "delivered (None # ops) q = fst (drn q) @ delivered ops (snd (drn q))"

fun final :: "'m option list \<Rightarrow> 'q \<Rightarrow> 'q" where
  "final [] q = q"
| "final (Some m # ops) q = final ops (snd (enq m q))"
| "final (None # ops) q = final ops (snd (drn q))"

lemma delivered_fifo: "delivered ops q @ pending (final ops q) = pending q @ accepted ops q"
  by (induction ops q rule: delivered.induct) (simp_all add: enq_pending drn_all drn_empty)

lemma final_ok: "ok q \<Longrightarrow> ok (final ops q)"
  by (induction ops q rule: final.induct) (simp_all add: enq_ok drn_ok)

lemma final_room: "room (final ops q) = room q"
  by (induction ops q rule: final.induct) (simp_all add: room_enq room_drn)

lemma final_bounded: "ok q \<Longrightarrow> length (pending (final ops q)) \<le> room q"
  using final_ok ok_room final_room by metis

end

lemma push_message_pending:
  "qs_messages (sq_state (snd (push_message m q))) =
     qs_messages (sq_state q) @ (if fst (push_message m q) = Queued then [m] else [])"
  "sq_capacity (snd (push_message m q)) = sq_capacity q"
  "qs_lifecycle (sq_state (snd (push_message m q))) = qs_lifecycle (sq_state q)"
  by (simp_all add: push_message_def Let_def)

lemma enqueue_pending:
  "qs_messages (sq_state (snd (enqueue m q))) =
     qs_messages (sq_state q) @ (if fst (enqueue m q) = Queued then [m] else [])"
  "sq_capacity (snd (enqueue m q)) = sq_capacity q"
  "qs_lifecycle (sq_state (snd (enqueue m q))) = qs_lifecycle (sq_state q)"
  by (auto simp: enqueue_def push_message_pending split: queue_lifecycle.splits option.splits)

interpretation memory_queue: message_queue enqueue drain "\<lambda>q. qs_messages (sq_state q)" queue_ok sq_capacity
proof unfold_locales
  show "queue_ok q \<Longrightarrow> queue_ok (snd (drain q))" for q by (rule queue_ok_drain)
qed (simp_all add: enqueue_pending queue_ok_enqueue queue_okD(1) drain_def)

section \<open>Acknowledgements\<close>

lemma enqueue_ack:
  "fst (enqueue m q) = Queued \<longleftrightarrow>
     qs_lifecycle (sq_state q) = Active \<and>
     Option.bind (qm_idempotency_key m) (qs_idempotent (sq_state q)) = None \<and>
     length (qs_messages (sq_state q)) < sq_capacity q"
  by (auto simp: enqueue_def push_message_def Let_def split: queue_lifecycle.splits option.splits)

lemma enqueue_rejected: "fst (enqueue m q) \<noteq> Queued \<Longrightarrow> snd (enqueue m q) = q"
  by (auto simp: enqueue_def push_message_def Let_def split: queue_lifecycle.splits option.splits if_splits)

lemma enqueue_keyed:
  assumes "qs_lifecycle (sq_state q) = Active" "qm_idempotency_key m = Some k"
    and "qs_idempotent (sq_state q) k = Some p"
  shows "fst (enqueue m q) = (if same_payload p m then Duplicate else Conflict)"
  using assms by (simp add: enqueue_def)

lemma enqueue_files_key:
  assumes "fst (enqueue m q) = Queued" "qm_idempotency_key m = Some k"
  shows "qs_idempotent (sq_state (snd (enqueue m q))) k = Some m"
  using assms
  by (auto simp: enqueue_def push_message_def Let_def split: queue_lifecycle.splits option.splits if_splits)

section \<open>Properties\<close>

text \<open>Schedules of the in-memory queue: \<open>Some m\<close> enqueues, \<open>None\<close> drains.\<close>

type_synonym queue_ops = "queued_session_message option list"

definition accepted_by :: "queue_ops \<Rightarrow> steering_queue \<Rightarrow> queued_session_message list" where
  "accepted_by ops q = memory_queue.accepted ops q"

definition delivered_by :: "queue_ops \<Rightarrow> steering_queue \<Rightarrow> queued_session_message list" where
  "delivered_by ops q = memory_queue.delivered ops q"

definition state_after :: "queue_ops \<Rightarrow> steering_queue \<Rightarrow> steering_queue" where
  "state_after ops q = memory_queue.final ops q"

lemma state_after_simps [simp]:
  "state_after [] q = q"
  "state_after (Some m # ops) q = state_after ops (snd (enqueue m q))"
  "state_after (None # ops) q = state_after ops (snd (drain q))"
  by (simp_all add: state_after_def)

text \<open>C37: under any schedule of enqueues and drains, the messages drained followed by those still
  pending are the ones pending before followed by those whose enqueue answered \<open>Queued\<close>, in
  that order: the queue is first-in first-out, delivers each accepted message once and drops none.\<close>

theorem queue_fifo:
  "delivered_by ops q @ qs_messages (sq_state (state_after ops q)) =
     qs_messages (sq_state q) @ accepted_by ops q"
  unfolding delivered_by_def state_after_def accepted_by_def by (rule memory_queue.delivered_fifo)

text \<open>From a new queue, no schedule leaves more messages pending than the capacity, and the
  pending messages with idempotency keys have distinct keys.\<close>

theorem queue_bounded:
  "length (qs_messages (sq_state (state_after ops (active_with_capacity c)))) \<le> c \<and>
   distinct (pending_keys (qs_messages (sq_state (state_after ops (active_with_capacity c)))))"
proof -
  have "queue_ok (state_after ops (active_with_capacity c))"
    unfolding state_after_def by (rule memory_queue.final_ok [OF queue_ok_new(2)])
  then show ?thesis
    using memory_queue.final_bounded [OF queue_ok_new(2), of ops c] queue_okD(4)
    by (simp add: state_after_def active_with_capacity_def with_capacity_def Let_def)
qed

lemma enqueue_keeps_key:
  assumes "qs_idempotent (sq_state q) k = Some p" "qm_idempotency_key p = Some k"
  shows "qs_idempotent (sq_state (snd (enqueue m q))) k = Some p"
  using assms
  by (auto simp: enqueue_def push_message_def Let_def split: queue_lifecycle.splits option.splits)

lemma state_after_keeps_key:
  assumes "qm_idempotency_key p = Some k"
  shows "qs_idempotent (sq_state q) k = Some p \<Longrightarrow> qs_lifecycle (sq_state q) = Active \<Longrightarrow>
    qs_idempotent (sq_state (state_after ops q)) k = Some p \<and>
    qs_lifecycle (sq_state (state_after ops q)) = Active"
proof (induction ops arbitrary: q)
  case (Cons x ops)
  show ?case
  proof (cases x)
    case None
    then show ?thesis using Cons by (simp add: drain_def)
  next
    case (Some m)
    then show ?thesis using Cons enqueue_keeps_key [OF _ assms] by (simp add: enqueue_pending(3))
  qed
qed simp

text \<open>An idempotency key is accepted once while the session is active: after a message with
  the key was queued, every later enqueue with the same key, whatever was enqueued or drained
  between, answers \<open>Duplicate\<close> if content, source and injection turn agree and \<open>Conflict\<close>
  otherwise, and does not change the queue.\<close>

theorem queue_idempotent:
  assumes "fst (enqueue m q) = Queued"
    and "qm_idempotency_key m = Some k" "qm_idempotency_key m' = Some k"
  shows "enqueue m' (state_after ops (snd (enqueue m q))) =
    (if same_payload m m' then Duplicate else Conflict, state_after ops (snd (enqueue m q)))"
proof -
  have "qs_lifecycle (sq_state (snd (enqueue m q))) = Active"
    using assms(1) by (simp add: enqueue_ack enqueue_pending(3))
  from state_after_keeps_key [OF assms(2) enqueue_files_key [OF assms(1,2)] this, of ops]
  show ?thesis using assms(3) by (simp add: enqueue_def)
qed

definition sample_message :: "string \<Rightarrow> queued_session_message" where
  "sample_message txt = \<lparr>qm_id = txt, qm_content = txt, qm_source = SrcUser,
     qm_idempotency_key = Some ''k'', qm_injected_at_turn = None\<rparr>"

theorem queue_idempotent_witness:
  "fst (enqueue (sample_message ''b'')
     (state_after [None] (snd (enqueue (sample_message ''a'') (active_with_capacity 1))))) = Conflict"
  by (subst queue_idempotent [where k = "''k''"])
    (simp_all add: enqueue_ack active_with_capacity_def with_capacity_def same_payload_def sample_message_def Let_def)

text \<open>An enqueue answers \<open>Queued\<close> exactly when the session is active, the key (if any) is not
  on file and there is room; with any other answer it leaves the queue as it was.\<close>

theorem enqueue_answer:
  "(fst (enqueue m q) = Queued \<longleftrightarrow>
      qs_lifecycle (sq_state q) = Active \<and>
      Option.bind (qm_idempotency_key m) (qs_idempotent (sq_state q)) = None \<and>
      length (qs_messages (sq_state q)) < sq_capacity q) \<and>
   (fst (enqueue m q) = Queued \<or> snd (enqueue m q) = q)"
  using enqueue_ack enqueue_rejected by blast

end
