(* ===== verification/Tool_Exchanges.thy ===== *)
theory Tool_Exchanges
  imports Turn
begin

text \<open>
  Grouping the tool calls of a history with their results (\<open>context/tool_exchanges.rs\<close>), and a
  specification of the grouping: an exchange is complete exactly when the results that follow
  the assistant message before anyone else speaks answer all its calls.
\<close>

section \<open>The scan\<close>

record tool_exchange =
  te_assistant_idx :: nat
  te_result_idxs :: "nat list"
  te_use_ids :: "string list"

definition is_complete :: "tool_exchange \<Rightarrow> bool" where
  "is_complete e \<longleftrightarrow> length (te_result_idxs e) = length (te_use_ids e)"

text \<open>The indices of the results of one assistant message: \<open>i\<close> is the index of the next message
  and \<open>unresolved\<close> the ids still without a result.\<close>

fun scan_results :: "nat \<Rightarrow> string list \<Rightarrow> message list \<Rightarrow> nat list" where
  "scan_results i unresolved [] = []"
| "scan_results i unresolved (m # ms) = (case m of
       MToolResult u _ _ _ _ _ _ \<Rightarrow>
         if u \<in> set unresolved then
           (let rest = remove1 u unresolved
            in i # (if rest = [] then [] else scan_results (Suc i) rest ms))
         else if unresolved = [] then [] else scan_results (Suc i) unresolved ms
     | MAssistant _ \<Rightarrow> []
     | MUser _ _ \<Rightarrow> []
     | MSystem _ \<Rightarrow> if unresolved = [] then [] else scan_results (Suc i) unresolved ms)"

fun group_from :: "nat \<Rightarrow> message list \<Rightarrow> tool_exchange list" where
  "group_from i [] = []"
| "group_from i (m # ms) =
     (let ids = tool_use_ids m
      in (if ids = [] then []
          else [\<lparr>te_assistant_idx = i, te_result_idxs = scan_results (Suc i) ids ms, te_use_ids = ids\<rparr>])
         @ group_from (Suc i) ms)"

definition group_tool_exchanges :: "message list \<Rightarrow> tool_exchange list" where
  "group_tool_exchanges history = group_from 0 history"

section \<open>What the scan finds\<close>

fun result_use_id :: "message \<Rightarrow> string" where
  "result_use_id (MToolResult u _ _ _ _ _ _) = u"
| "result_use_id _ = []"

fun is_tool_result :: "message \<Rightarrow> bool" where
  "is_tool_result (MToolResult _ _ _ _ _ _ _) = True"
| "is_tool_result _ = False"

lemma scan_results_range:
  "j \<in> set (scan_results i u ms) \<Longrightarrow> i \<le> j \<and> j < i + length ms \<and> is_tool_result (ms ! (j - i)) \<and>
     result_use_id (ms ! (j - i)) \<in> set u"
proof (induction ms arbitrary: i u)
  case (Cons m ms)
  have step: "i \<le> j \<and> j < i + length (m # ms) \<and> is_tool_result ((m # ms) ! (j - i)) \<and>
      result_use_id ((m # ms) ! (j - i)) \<in> set u"
    if "j \<in> set (scan_results (Suc i) v ms)" "set v \<subseteq> set u" for v
    using Cons.IH [OF that(1)] that(2) by (auto simp: nth_Cons')
  show ?case
  proof (cases m)
    case (MToolResult x c e f t h a)
    then show ?thesis using Cons.prems step [of "remove1 x u"] step [of u] set_remove1_subset [of x u]
      by (auto simp: Let_def split: if_splits)
  next
    case (MSystem t)
    then show ?thesis using Cons.prems step [of u] by (auto split: if_splits)
  qed (use Cons.prems in auto)
qed simp

lemma scan_results_sorted: "sorted_wrt (<) (scan_results i u ms)"
proof (induction ms arbitrary: i u)
  case (Cons m ms)
  have later: "j \<in> set (scan_results (Suc i) v ms) \<Longrightarrow> i < j" for j v
    using scan_results_range by fastforce
  show ?case using Cons.IH later by (auto simp: Let_def split: message.splits)
qed simp

lemma scan_results_length: "length (scan_results i u ms) \<le> length u"
proof (induction ms arbitrary: i u)
  case (Cons m ms)
  show ?case
  proof (cases m)
    case (MToolResult x c e f t h a)
    have "x \<in> set u \<Longrightarrow> Suc (length (remove1 x u)) = length u"
      using length_pos_if_in_set [of x u] by (simp add: length_remove1)
    then show ?thesis using Cons.IH [of "Suc i" u] Cons.IH [of "Suc i" "remove1 x u"] MToolResult
      by (auto simp: Let_def)
  next
    case (MSystem t)
    then show ?thesis using Cons.IH by simp
  qed simp_all
qed simp

text \<open>The results that follow before the next user or assistant message.\<close>

fun following_results :: "message list \<Rightarrow> string list" where
  "following_results [] = []"
| "following_results (m # ms) = (case m of
       MToolResult u _ _ _ _ _ _ \<Rightarrow> u # following_results ms
     | MSystem _ \<Rightarrow> following_results ms
     | _ \<Rightarrow> [])"

lemma scan_results_complete:
  "length (scan_results i u ms) = length u \<longleftrightarrow> mset u \<subseteq># mset (following_results ms)"
proof (induction ms arbitrary: i u)
  case (Cons m ms)
  show ?case
  proof (cases m)
    case (MToolResult x c e f t h a)
    show ?thesis
    proof (cases "x \<in> set u")
      case True
      have "mset u \<subseteq># add_mset x (mset (following_results ms)) \<longleftrightarrow>
          mset (remove1 x u) \<subseteq># mset (following_results ms)"
        using True by (simp add: subset_eq_diff_conv)
      moreover have "length u = Suc (length (remove1 x u))"
        using True length_pos_if_in_set [OF True] by (simp add: length_remove1)
      ultimately show ?thesis using Cons.IH [of "Suc i" "remove1 x u"] MToolResult True
        by (cases "remove1 x u = []") (simp_all add: Let_def)
    next
      case False
      then have "x \<notin># mset u" by simp
      then have "mset u \<subseteq># add_mset x M \<longleftrightarrow> mset u \<subseteq># M" for M
        using subset_eq_diff_conv [of "mset u" "{#x#}" M] by simp
      then show ?thesis using Cons.IH [of "Suc i" u] MToolResult False by auto
    qed
  next
    case (MSystem t)
    then show ?thesis using Cons.IH [of "Suc i" u] by auto
  qed simp_all
qed simp

section \<open>The groups\<close>

lemma group_from_wf:
  "e \<in> set (group_from i ms) \<Longrightarrow>
     i \<le> te_assistant_idx e \<and> te_assistant_idx e < i + length ms \<and>
     te_use_ids e = tool_use_ids (ms ! (te_assistant_idx e - i)) \<and> te_use_ids e \<noteq> [] \<and>
     te_result_idxs e = scan_results (Suc (te_assistant_idx e)) (te_use_ids e)
        (drop (Suc (te_assistant_idx e - i)) ms)"
proof (induction i ms rule: group_from.induct)
  case (2 i m ms)
  show ?case
  proof (cases "e \<in> set (group_from (Suc i) ms)")
    case True
    note ih = "2.IH" [OF refl True]
    then have "te_assistant_idx e - i = Suc (te_assistant_idx e - Suc i)" by linarith
    then show ?thesis using ih by auto
  next
    case False
    then show ?thesis using "2.prems" by (auto simp: Let_def split: if_splits)
  qed
qed simp

lemma group_wf:
  assumes "e \<in> set (group_tool_exchanges ms)"
  shows "te_assistant_idx e < length ms" "te_use_ids e = tool_use_ids (ms ! te_assistant_idx e)"
    "te_use_ids e \<noteq> []"
    "te_result_idxs e = scan_results (Suc (te_assistant_idx e)) (te_use_ids e)
        (drop (Suc (te_assistant_idx e)) ms)"
  using group_from_wf [OF assms [unfolded group_tool_exchanges_def]] by auto

lemma group_result:
  assumes "e \<in> set (group_tool_exchanges ms)" "j \<in> set (te_result_idxs e)"
  shows "te_assistant_idx e < j" "j < length ms" "is_tool_result (ms ! j)"
    "result_use_id (ms ! j) \<in> set (te_use_ids e)"
proof -
  let ?i = "Suc (te_assistant_idx e)"
  have "j \<in> set (scan_results ?i (te_use_ids e) (drop ?i ms))"
    using assms(2) group_wf(4) [OF assms(1)] by simp
  from scan_results_range [OF this] group_wf(1) [OF assms(1)]
  show "te_assistant_idx e < j" "j < length ms" "is_tool_result (ms ! j)"
    "result_use_id (ms ! j) \<in> set (te_use_ids e)"
    by auto
qed

lemma group_from_covers:
  "k < length ms \<Longrightarrow> tool_use_ids (ms ! k) \<noteq> [] \<Longrightarrow>
     \<exists>e \<in> set (group_from i ms). te_assistant_idx e = i + k"
proof (induction i ms arbitrary: k rule: group_from.induct)
  case (2 i m ms)
  show ?case
  proof (cases k)
    case 0
    then show ?thesis using "2.prems" by (auto simp: Let_def)
  next
    case (Suc l)
    then have "\<exists>e \<in> set (group_from (Suc i) ms). te_assistant_idx e = Suc i + l"
      using "2.prems" by (intro "2.IH" [OF refl]) auto
    then show ?thesis using Suc by (auto simp: Let_def)
  qed
qed simp

lemma group_covers:
  assumes "k < length ms" "tool_use_ids (ms ! k) \<noteq> []"
  obtains e where "e \<in> set (group_tool_exchanges ms)" "te_assistant_idx e = k"
  using group_from_covers [OF assms, of 0] by (auto simp: group_tool_exchanges_def)

lemma complete_iff:
  assumes "e \<in> set (group_tool_exchanges ms)"
  shows "is_complete e \<longleftrightarrow>
    mset (te_use_ids e) \<subseteq># mset (following_results (drop (Suc (te_assistant_idx e)) ms))"
  using scan_results_complete group_wf(4) [OF assms] by (simp add: is_complete_def)

section \<open>Exchanges do not overlap\<close>

lemma scan_results_between:
  "j \<in> set (scan_results i u ms) \<Longrightarrow> i \<le> k \<Longrightarrow> k < j \<Longrightarrow> tool_use_ids (ms ! (k - i)) = []"
proof (induction ms arbitrary: i u)
  case (Cons m ms)
  have step: "tool_use_ids ((m # ms) ! (k - i)) = []"
    if "j \<in> set (scan_results (Suc i) v ms)" "tool_use_ids m = []" for v
  proof (cases "k = i")
    case False
    then have "Suc i \<le> k" "k - i = Suc (k - Suc i)" using Cons.prems(2) by auto
    then show ?thesis using Cons.IH [OF that(1) _ Cons.prems(3)] by simp
  qed (use that in simp)
  show ?case
  proof (cases m)
    case (MToolResult x c e f t h a)
    then have "tool_use_ids m = []" by (simp add: tool_use_ids_def)
    then show ?thesis using Cons.prems MToolResult step
      by (auto simp: Let_def split: if_splits)
  next
    case (MSystem t)
    then show ?thesis using Cons.prems step by (auto simp: tool_use_ids_def split: if_splits)
  qed (use Cons.prems in auto)
qed simp

lemma group_from_sorted: "sorted_wrt (<) (concat (map te_result_idxs (group_from i ms)))"
proof (induction i ms rule: group_from.induct)
  case (2 i m ms)
  let ?ids = "tool_use_ids m"
  have before: "j < k"
    if j: "j \<in> set (scan_results (Suc i) ?ids ms)"
      and e: "e \<in> set (group_from (Suc i) ms)" and k: "k \<in> set (te_result_idxs e)" for j e k
  proof -
    let ?a = "te_assistant_idx e"
    note wf = group_from_wf [OF e]
    have a: "Suc i \<le> ?a" "?a < Suc i + length ms" "tool_use_ids (ms ! (?a - Suc i)) \<noteq> []"
      using wf by auto
    have jr: "is_tool_result (ms ! (j - Suc i))" using scan_results_range [OF j] by simp
    have "\<not> ?a < j" using scan_results_between [OF j a(1)] a(3) by blast
    moreover have "?a \<noteq> j" using jr a(3)
      by (cases "ms ! (j - Suc i)") (auto simp: tool_use_ids_def)
    moreover have "?a < k" using wf k scan_results_range by fastforce
    ultimately show ?thesis by linarith
  qed
  show ?case using "2.IH" before
    by (auto simp: Let_def sorted_wrt_append scan_results_sorted)
qed simp

lemma sorted_concat_filter:
  "sorted_wrt (<) (concat (map f xs)) \<Longrightarrow> sorted_wrt (<) (concat (map f (filter P xs)))"
  by (induction xs) (auto simp: sorted_wrt_append)

lemma subseq_subset: "subseq xs ys \<Longrightarrow> set xs \<subseteq> set ys"
  by (induction rule: list_emb.induct) auto

lemma subseq_sorted_wrt: "subseq xs ys \<Longrightarrow> sorted_wrt P ys \<Longrightarrow> sorted_wrt P xs"
  by (induction rule: list_emb.induct) (auto dest: subseq_subset)

end
