(* ===== verification/Context_Accounting.thy ===== *)
theory Context_Accounting
  imports Context_Types
begin

text \<open>
  The numbers the context pipeline decides by (\<open>context/accounting.rs\<close>, the estimates of
  \<open>context/assembler.rs\<close> and the policy check of the core's \<open>context.rs\<close>). The scaled limits are
  computed in IEEE double precision: \<open>round53\<close> rounds an integer to 53 significant bits, half
  to even, which is what the conversion to \<open>f64\<close> and the multiplication do.
\<close>

section \<open>Token estimates\<close>

definition estimate_text_tokens :: "string \<Rightarrow> nat" where
  "estimate_text_tokens text = saturating_add (length (utf8_bytes text)) 3 div 4 + 1"

text \<open>\<open>jt\<close> is the compact text of a JSON value.\<close>

fun estimate_block_tokens :: "(json \<Rightarrow> string) \<Rightarrow> content_block \<Rightarrow> nat" where
  "estimate_block_tokens jt (CbText t) = estimate_text_tokens t"
| "estimate_block_tokens jt (CbThinking t) = estimate_text_tokens t"
| "estimate_block_tokens jt (CbImage b) =
     saturating_add (saturating_add (estimate_text_tokens (bs_media_type b))
       (length (utf8_bytes (bs_data b)) div 8)) 8"
| "estimate_block_tokens jt (CbDocument b title trust) =
     saturating_add (saturating_add (saturating_add (estimate_text_tokens (bs_media_type b))
       (estimate_text_tokens (bs_data b)))
       (case title of None \<Rightarrow> 0 | Some t \<Rightarrow> estimate_text_tokens t)) 8"
| "estimate_block_tokens jt (CbToolUse i nm input) =
     saturating_add (saturating_add (saturating_add (estimate_text_tokens i)
       (estimate_text_tokens nm)) (estimate_text_tokens (jt input))) 8"

fun estimate_message_tokens :: "(json \<Rightarrow> string) \<Rightarrow> message \<Rightarrow> nat" where
  "estimate_message_tokens jt (MSystem t) = saturating_add (estimate_text_tokens t) 4"
| "estimate_message_tokens jt (MUser content _) =
     saturating_add (sum_list (map (estimate_block_tokens jt) content)) 4"
| "estimate_message_tokens jt (MAssistant content) =
     saturating_add (sum_list (map (estimate_block_tokens jt) content)) 4"
| "estimate_message_tokens jt (MToolResult _ t _ _ _ _ _) = saturating_add (estimate_text_tokens t) 4"

lemma estimate_text_pos: "0 < estimate_text_tokens t"
  by (simp add: estimate_text_tokens_def)

lemma estimate_message_pos: "4 \<le> estimate_message_tokens jt m"
  by (cases m) (auto simp: saturating_add_def usize_max_def)

section \<open>Double precision\<close>

fun bit_length :: "nat \<Rightarrow> nat" where
  "bit_length n = (if n = 0 then 0 else Suc (bit_length (n div 2)))"

declare bit_length.simps [simp del]

definition round53 :: "nat \<Rightarrow> nat" where
  "round53 m =
     (let k = bit_length m - 53; q = m div 2 ^ k; r = m mod 2 ^ k
      in (if 2 * r > 2 ^ k \<or> (2 * r = 2 ^ k \<and> odd q) then q + 1 else q) * 2 ^ k)"

definition f64_negative :: "f64 \<Rightarrow> bool" where
  "f64_negative x \<longleftrightarrow> bit x 63"

definition f64_exponent :: "f64 \<Rightarrow> nat" where
  "f64_exponent x = unat x div 2 ^ 52 mod 2 ^ 11"

definition f64_fraction :: "f64 \<Rightarrow> nat" where
  "f64_fraction x = unat x mod 2 ^ 52"

definition f64_is_finite :: "f64 \<Rightarrow> bool" where
  "f64_is_finite x \<longleftrightarrow> f64_exponent x \<noteq> 2047"

text \<open>A finite magnitude is \<open>f64_mantissa x * 2 ^ f64_scale x / 2 ^ f64_bias\<close>.\<close>

definition f64_bias :: nat where
  "f64_bias = 1075"

definition f64_mantissa :: "f64 \<Rightarrow> nat" where
  "f64_mantissa x = (if f64_exponent x = 0 then 0 else 2 ^ 52) + f64_fraction x"

definition f64_scale :: "f64 \<Rightarrow> nat" where
  "f64_scale x = max 1 (f64_exponent x)"

text \<open>\<open>(0.0..=1.0).contains(&x)\<close> of a finite \<open>x\<close>; negative zero is zero.\<close>

definition f64_in_unit :: "f64 \<Rightarrow> bool" where
  "f64_in_unit x \<longleftrightarrow>
     (if f64_negative x then f64_mantissa x = 0
      else f64_mantissa x * 2 ^ f64_scale x \<le> 2 ^ f64_bias)"

section \<open>Accounting\<close>

definition usable_limit :: "token_budget \<Rightarrow> context_management_policy \<Rightarrow> nat" where
  "usable_limit b p =
     saturating_sub (saturating_sub (tb_model_limit b) (tb_reserved_output b)) (cm_buffer_tokens p)"

text \<open>\<open>((limit as f64) * ratio).floor() as usize\<close>, zero unless positive: a cast to \<open>usize\<close> maps
  not-a-number to zero and cuts at the largest \<open>usize\<close>.\<close>

definition scaled_limit :: "nat \<Rightarrow> f64 \<Rightarrow> nat" where
  "scaled_limit limit ratio =
     (if f64_exponent ratio = 2047 then
        (if f64_fraction ratio \<noteq> 0 \<or> limit = 0 \<or> f64_negative ratio then 0 else usize_max)
      else if f64_negative ratio then 0
      else min usize_max
        (round53 (round53 limit * f64_mantissa ratio) * 2 ^ f64_scale ratio div 2 ^ f64_bias))"

definition tool_result_budget :: "token_budget \<Rightarrow> context_management_policy \<Rightarrow> nat" where
  "tool_result_budget b p = scaled_limit (usable_limit b p) (cm_tool_result_budget_ratio p)"

definition compaction_target :: "token_budget \<Rightarrow> context_management_policy \<Rightarrow> nat" where
  "compaction_target b p = scaled_limit (usable_limit b p) (cm_compaction_target_ratio p)"

definition projected_next_turn_growth :: "token_budget \<Rightarrow> nat" where
  "projected_next_turn_growth b = max (tb_minimum_turn_budget b) (tb_reserved_output b div 2)"

definition needs_management :: "token_budget \<Rightarrow> context_management_policy \<Rightarrow> nat \<Rightarrow> bool" where
  "needs_management b p current_total_tokens \<longleftrightarrow>
     cm_enabled p \<and> current_total_tokens > usable_limit b p"

section \<open>The policy check\<close>

definition validate_ratio :: "string \<Rightarrow> f64 \<Rightarrow> config_error + unit" where
  "validate_ratio field value =
     (if \<not> f64_is_finite value then
        Inl (InvalidValue (''context.management.'' @ field) ''must be finite'')
      else if \<not> f64_in_unit value then
        Inl (InvalidValue (''context.management.'' @ field) ''must be between 0.0 and 1.0'')
      else Inr ())"

definition validate_policy :: "context_management_policy \<Rightarrow> config_error + unit" where
  "validate_policy p =
     (case validate_ratio ''tool_result_budget_ratio'' (cm_tool_result_budget_ratio p) of
        Inl e \<Rightarrow> Inl e
      | Inr _ \<Rightarrow>
          (case validate_ratio ''compaction_target_ratio'' (cm_compaction_target_ratio p) of
             Inl e \<Rightarrow> Inl e
           | Inr _ \<Rightarrow>
               if trim (cm_profile p) = [] then
                 Inl (InvalidValue ''context.management.profile'' ''must not be empty'')
               else Inr ()))"

lemma validate_policy_ratios:
  assumes "validate_policy p = Inr ()"
  shows "f64_is_finite (cm_tool_result_budget_ratio p)" "f64_in_unit (cm_tool_result_budget_ratio p)"
    "f64_is_finite (cm_compaction_target_ratio p)" "f64_in_unit (cm_compaction_target_ratio p)"
  using assms by (auto simp: validate_policy_def validate_ratio_def split: sum.splits if_splits)

section \<open>Rounding\<close>

lemma bit_length_0 [simp]: "bit_length 0 = 0"
  by (subst bit_length.simps) simp

lemma bit_length_pos: "0 < n \<Longrightarrow> bit_length n = Suc (bit_length (n div 2))"
  by (subst bit_length.simps) simp

lemma bit_length_bounds: "0 < n \<Longrightarrow> 2 ^ (bit_length n - 1) \<le> n \<and> n < 2 ^ bit_length n"
proof (induction n rule: bit_length.induct)
  case (1 n)
  show ?case
  proof (cases "n div 2 = 0")
    case True
    then have "n = 1" using "1.prems" by linarith
    then show ?thesis using bit_length_pos [of 1] by simp
  next
    case False
    then have ih: "2 ^ (bit_length (n div 2) - 1) \<le> n div 2" "n div 2 < 2 ^ bit_length (n div 2)"
      using "1.IH" "1.prems" by auto
    have b: "bit_length n = Suc (bit_length (n div 2))" "0 < bit_length (n div 2)"
      using "1.prems" False bit_length_pos [of n] bit_length_pos [of "n div 2"] by auto
    then have "(2::nat) ^ (bit_length n - 1) = 2 * 2 ^ (bit_length (n div 2) - 1)"
      by (simp flip: power_Suc)
    then show ?thesis using ih b by simp linarith
  qed
qed

lemma round53_le:
  assumes "p \<le> y" "y = a * 2 ^ j" "a < 2 ^ 53 \<or> a = 2 ^ 53"
  shows "round53 p \<le> y"
proof (cases "p = 0")
  case True
  then show ?thesis by (simp add: round53_def)
next
  case False
  define k where "k = bit_length p - 53"
  define q where "q = p div 2 ^ k"
  have up: "round53 p \<le> (q + 1) * 2 ^ k" and exact: "p mod 2 ^ k = 0 \<Longrightarrow> round53 p = p"
    unfolding round53_def Let_def k_def [symmetric] q_def [symmetric]
    by (auto simp: q_def)
  show ?thesis
  proof (cases "p mod 2 ^ k = 0")
    case True
    then show ?thesis using exact assms(1) by simp
  next
    case rem: False
    have p: "p = q * 2 ^ k + p mod 2 ^ k" unfolding q_def by (rule div_mult_mod_eq [symmetric])
    have "k \<le> j"
    proof (rule ccontr)
      assume "\<not> k \<le> j"
      then have kj: "j + 1 \<le> k" "0 < k" by auto
      then have bl: "bit_length p = k + 53" by (simp add: k_def)
      have "y \<le> 2 ^ 53 * 2 ^ j" using assms by auto
      also have "\<dots> = 2 ^ (53 + j)" by (rule power_add [symmetric])
      also have "\<dots> \<le> 2 ^ (52 + k)" using kj by (intro power_increasing) auto
      finally have y: "y \<le> 2 ^ (52 + k)" .
      have "2 ^ (k + 53 - 1) \<le> p" using bit_length_bounds [of p] False bl by simp
      then have low: "2 ^ (52 + k) \<le> p" by (simp add: add.commute)
      then have "p = 2 ^ (52 + k)" using y assms(1) by linarith
      then have "p mod 2 ^ k = 0" by (simp add: power_add)
      then show False using rem by simp
    qed
    then have dvd: "2 ^ k dvd y" using assms(2) by (simp add: le_imp_power_dvd)
    then obtain c where c: "y = c * 2 ^ k" by (metis dvd_div_mult_self)
    have "q * 2 ^ k < c * 2 ^ k" using p rem assms(1) c by linarith
    then have "q < c" by simp
    then have "(q + 1) * 2 ^ k \<le> c * 2 ^ k" by (intro mult_right_mono) auto
    then show ?thesis using up c by simp
  qed
qed

lemma bit_length_small: "n < 2 ^ 53 \<Longrightarrow> bit_length n \<le> 53"
proof (rule ccontr)
  assume n: "n < 2 ^ 53" and "\<not> bit_length n \<le> 53"
  then have b: "53 \<le> bit_length n - 1" "0 < n" by (auto intro: gr0I)
  then have "(2::nat) ^ 53 \<le> 2 ^ (bit_length n - 1)" by (intro power_increasing) auto
  then show False using bit_length_bounds [OF b(2)] n by linarith
qed

lemma round53_exact: "n < 2 ^ 53 \<Longrightarrow> round53 n = n"
  using bit_length_small [of n] by (simp add: round53_def)

lemma f64_mantissa_bound: "f64_mantissa x < 2 ^ 53"
proof -
  have "f64_fraction x < 2 ^ 52" by (simp add: f64_fraction_def)
  then show ?thesis by (simp add: f64_mantissa_def)
qed

lemma scaled_limit_le:
  assumes "f64_is_finite ratio" "f64_in_unit ratio" "limit < 2 ^ 53"
  shows "scaled_limit limit ratio \<le> limit"
proof (cases "f64_negative ratio")
  case True
  then show ?thesis using assms(1) by (simp add: scaled_limit_def f64_is_finite_def)
next
  case False
  let ?m = "f64_mantissa ratio" and ?s = "f64_scale ratio"
  have unit: "?m * 2 ^ ?s \<le> 2 ^ f64_bias" using assms(2) False by (simp add: f64_in_unit_def)
  have s: "?s \<le> f64_bias" if "?m \<noteq> 0"
  proof -
    have "2 ^ ?s \<le> ?m * 2 ^ ?s" using that by simp
    also note unit
    finally show ?thesis by (simp add: power_increasing_iff)
  qed
  show ?thesis
  proof (cases "?m = 0")
    case True
    then show ?thesis using False assms(1)
      by (simp add: scaled_limit_def f64_is_finite_def round53_def)
  next
    case m: False
    then have split: "(2::nat) ^ f64_bias = 2 ^ (f64_bias - ?s) * 2 ^ ?s"
      using s by (simp flip: power_add)
    then have "?m \<le> 2 ^ (f64_bias - ?s)" using unit by simp
    then have "limit * ?m \<le> limit * 2 ^ (f64_bias - ?s)" by simp
    then have r: "round53 (limit * ?m) \<le> limit * 2 ^ (f64_bias - ?s)"
      by (rule round53_le) (use assms(3) in auto)
    have "round53 (limit * ?m) * 2 ^ ?s \<le> limit * 2 ^ (f64_bias - ?s) * 2 ^ ?s"
      using r by (rule mult_right_mono) simp
    also have "\<dots> = limit * 2 ^ f64_bias" using split by (simp add: mult.assoc)
    finally have "round53 (limit * ?m) * 2 ^ ?s div 2 ^ f64_bias \<le> limit"
      by (metis div_le_mono nonzero_mult_div_cancel_right power_not_zero zero_neq_numeral)
    then show ?thesis using False assms(1,3)
      by (simp add: scaled_limit_def f64_is_finite_def round53_exact)
  qed
qed

end
