(* ===== verification/Tool_Clearing.thy ===== *)
theory Tool_Clearing
  imports Tool_Exchanges Context_Accounting
begin

text \<open>
  Clearing old tool results (\<open>context/tool_clearing.rs\<close>): which results may be replaced by a
  tombstone, which part of the history is protected, and the replacement itself. The lemmas:
  only eligible results before the protected part change, each at most once and for fewer
  tokens, and clearing goes on until the budget holds or nothing eligible is left.
\<close>

section \<open>Eligibility and the protected part\<close>

definition resolve_tool_retention :: "string option \<Rightarrow> retention_snapshot \<Rightarrow> tool_retention option" where
  "resolve_tool_retention tool_name retention = (case tool_name of
       None \<Rightarrow> None
     | Some name \<Rightarrow> (case cid_from_str name of
           Inr canonical \<Rightarrow> rs_policies retention canonical
         | Inl _ \<Rightarrow> rs_policies retention \<lparr>id_namespace = BuiltIn, id_name = name\<rparr>))"

definition is_tool_eligible :: "string option \<Rightarrow> retention_snapshot \<Rightarrow> bool" where
  "is_tool_eligible tool_name retention =
     (case resolve_tool_retention tool_name retention of None \<Rightarrow> False | Some p \<Rightarrow> clearable p)"

definition render_tombstone :: "string \<Rightarrow> string \<Rightarrow> string \<Rightarrow> string" where
  "render_tombstone tool_use_id tool_name output_hash =
     ''<tombstone tool_use_id='' @ [CHR 0x22] @ tool_use_id @ [CHR 0x22] @ '' tool_name='' @ [CHR 0x22] @
     tool_name @ [CHR 0x22] @ '' output_hash='' @ [CHR 0x22] @ output_hash @ [CHR 0x22] @ '' />''"

fun is_user_message :: "message \<Rightarrow> bool" where
  "is_user_message (MUser _ _) = True"
| "is_user_message _ = False"

text \<open>Both scans run over the reversed history: the index of a message is the length of the rest.\<close>

fun window_scan :: "nat \<Rightarrow> nat \<Rightarrow> message list \<Rightarrow> nat" where
  "window_scan keep seen [] = 0"
| "window_scan keep seen (m # ms) =
     (if is_user_message m then
        (if seen + 1 \<ge> keep then length ms else window_scan keep (seen + 1) ms)
      else window_scan keep seen ms)"

definition find_recent_window_start :: "message list \<Rightarrow> nat \<Rightarrow> nat" where
  "find_recent_window_start history keep_recent_turns =
     (if keep_recent_turns = 0 then length history
      else window_scan keep_recent_turns 0 (rev history))"

fun tail_scan :: "(json \<Rightarrow> string) \<Rightarrow> nat \<Rightarrow> nat \<Rightarrow> message list \<Rightarrow> nat" where
  "tail_scan jt keep acc [] = 0"
| "tail_scan jt keep acc (m # ms) =
     (let acc' = acc + estimate_message_tokens jt m
      in if acc' > keep then length ms + 1 else tail_scan jt keep acc' ms)"

definition find_recent_protected_start :: "(json \<Rightarrow> string) \<Rightarrow> message list \<Rightarrow> nat \<Rightarrow> nat \<Rightarrow> nat" where
  "find_recent_protected_start jt history keep_recent_turns keep_recent_tokens =
     min (find_recent_window_start history keep_recent_turns)
       (tail_scan jt keep_recent_tokens 0 (rev history))"

definition total_tool_results_tokens :: "(json \<Rightarrow> string) \<Rightarrow> message list \<Rightarrow> nat" where
  "total_tool_results_tokens jt history =
     sum_list (map (estimate_message_tokens jt) (filter is_tool_result history))"

section \<open>Clearing\<close>

type_synonym clearing = "session_message list \<times> clear_action list \<times> nat"

text \<open>The message a result is replaced by, if it may be.\<close>

definition tombstone_of :: "retention_snapshot \<Rightarrow> message \<Rightarrow> (string \<times> string \<times> string \<times> message) option" where
  "tombstone_of retention m = (case m of
       MToolResult u content is_err failure tool_name output_hash artifact_refs \<Rightarrow>
         if is_err then None
         else if \<not> is_tool_eligible tool_name retention then None
         else (let hash = (case output_hash of None \<Rightarrow> [] | Some h \<Rightarrow> h);
                   nm = (case tool_name of None \<Rightarrow> [] | Some n \<Rightarrow> n)
               in if hash = [] then None
                  else Some (u, nm, hash,
                    MToolResult u (render_tombstone u nm hash) False None tool_name output_hash artifact_refs))
     | _ \<Rightarrow> None)"

definition first_artifact :: "string \<Rightarrow> string \<Rightarrow> message \<Rightarrow> artifact_ref option" where
  "first_artifact run_id hash m = (case m of
       MToolResult _ _ _ _ _ _ (Some (a # _)) \<Rightarrow>
         Some \<lparr>ar_run_id = run_id, ar_relative_path = a, ar_content_hash = hash\<rparr>
     | _ \<Rightarrow> None)"

definition clear_result :: "(json \<Rightarrow> string) \<Rightarrow> string \<Rightarrow> session_message list \<Rightarrow> retention_snapshot
    \<Rightarrow> nat \<Rightarrow> clearing \<Rightarrow> clearing" where
  "clear_result jt run_id history retention idx st = (case st of (projected, actions, needed) \<Rightarrow>
     (let msg = history ! idx
      in case tombstone_of retention (sm_message msg) of
           None \<Rightarrow> st
         | Some (u, nm, hash, tomb) \<Rightarrow>
             (let original = estimate_message_tokens jt (sm_message msg);
                  saved = saturating_sub original (estimate_message_tokens jt tomb)
              in if saved > 0 then
                   (projected[idx := (projected ! idx)\<lparr>sm_message := tomb\<rparr>],
                    actions @ [\<lparr>ca_message_index = idx, ca_message_id = sm_id msg, ca_tool_use_id = u,
                       ca_tool_name = nm, ca_original_tokens = original, ca_output_hash = hash,
                       ca_artifact = first_artifact run_id hash (sm_message msg)\<rparr>],
                    saturating_sub needed saved)
                 else st)))"

fun clear_results :: "(json \<Rightarrow> string) \<Rightarrow> string \<Rightarrow> session_message list \<Rightarrow> retention_snapshot
    \<Rightarrow> nat list \<Rightarrow> clearing \<Rightarrow> clearing" where
  "clear_results jt run_id history retention [] st = st"
| "clear_results jt run_id history retention (idx # idxs) st =
     (if snd (snd st) = 0 then st
      else clear_results jt run_id history retention idxs (clear_result jt run_id history retention idx st))"

fun clear_exchanges :: "(json \<Rightarrow> string) \<Rightarrow> string \<Rightarrow> session_message list \<Rightarrow> retention_snapshot
    \<Rightarrow> tool_exchange list \<Rightarrow> clearing \<Rightarrow> clearing" where
  "clear_exchanges jt run_id history retention [] st = st"
| "clear_exchanges jt run_id history retention (e # es) st =
     (if snd (snd st) = 0 then st
      else clear_exchanges jt run_id history retention es
        (clear_results jt run_id history retention (te_result_idxs e) st))"

definition clearing_candidates :: "nat \<Rightarrow> tool_exchange list \<Rightarrow> tool_exchange list" where
  "clearing_candidates protected_start es =
     filter (\<lambda>e. is_complete e \<and> te_assistant_idx e < protected_start \<and>
       \<not> list_ex (\<lambda>i. i \<ge> protected_start) (te_result_idxs e)) es"

definition clear_eligible_tool_results :: "(json \<Rightarrow> string) \<Rightarrow> string \<Rightarrow> session_message list
    \<Rightarrow> retention_snapshot \<Rightarrow> nat \<Rightarrow> nat \<Rightarrow> nat \<Rightarrow> session_message list \<times> clear_action list" where
  "clear_eligible_tool_results jt run_id history retention budget
       keep_recent_turns keep_recent_tokens =
     (let plain = map sm_message history;
          current = total_tool_results_tokens jt plain
      in if current \<le> budget then (history, [])
         else
           (let start = find_recent_protected_start jt plain keep_recent_turns keep_recent_tokens;
                candidates = clearing_candidates start (group_tool_exchanges plain)
            in case clear_exchanges jt run_id history retention candidates
                 (history, [], saturating_sub current budget)
               of (projected, actions, _) \<Rightarrow> (projected, actions)))"

section \<open>The loop as one pass\<close>

lemma clear_results_done: "snd (snd st) = 0 \<Longrightarrow> clear_results jt run h r idxs st = st"
  by (cases idxs) auto

lemma clear_results_append:
  "clear_results jt run h r (xs @ ys) st = clear_results jt run h r ys (clear_results jt run h r xs st)"
  by (induction xs arbitrary: st) (auto simp: clear_results_done)

lemma clear_exchanges_eq:
  "clear_exchanges jt run h r es st = clear_results jt run h r (concat (map te_result_idxs es)) st"
  by (induction es arbitrary: st) (auto simp: clear_results_append clear_results_done)

section \<open>What a pass does\<close>

text \<open>How many tokens replacing the result at an index saves; zero when it may not be replaced.\<close>

definition saving :: "(json \<Rightarrow> string) \<Rightarrow> retention_snapshot \<Rightarrow> message \<Rightarrow> nat" where
  "saving jt retention m = (case tombstone_of retention m of
       None \<Rightarrow> 0
     | Some (u, nm, hash, tomb) \<Rightarrow> estimate_message_tokens jt m - estimate_message_tokens jt tomb)"

definition cleared_message :: "retention_snapshot \<Rightarrow> message \<Rightarrow> message" where
  "cleared_message retention m = (case tombstone_of retention m of
       None \<Rightarrow> m | Some (u, nm, hash, tomb) \<Rightarrow> tomb)"

text \<open>The state of a pass that has cleared exactly the indices \<open>done\<close>.\<close>

definition cleared_at :: "retention_snapshot \<Rightarrow> session_message list \<Rightarrow> nat list \<Rightarrow> session_message list" where
  "cleared_at retention history done = map (\<lambda>i. if i \<in> set done
     then (history ! i)\<lparr>sm_message := cleared_message retention (sm_message (history ! i))\<rparr>
     else history ! i) [0..<length history]"

lemma cleared_at_length [simp]: "length (cleared_at r h done) = length h"
  by (simp add: cleared_at_def)

lemma cleared_at_nth:
  "i < length h \<Longrightarrow> cleared_at r h done ! i =
     (if i \<in> set done then (h ! i)\<lparr>sm_message := cleared_message r (sm_message (h ! i))\<rparr> else h ! i)"
  by (simp add: cleared_at_def)

lemma cleared_at_Nil [simp]: "cleared_at r h [] = h"
  by (simp add: cleared_at_def map_nth)

lemma cleared_at_snoc:
  assumes "i < length h" "i \<notin> set done"
  shows "cleared_at r h (done @ [i]) =
    (cleared_at r h done)[i := (cleared_at r h done ! i)\<lparr>sm_message := cleared_message r (sm_message (h ! i))\<rparr>]"
  using assms by (intro nth_equalityI) (auto simp: cleared_at_nth nth_list_update)

definition action_for :: "(json \<Rightarrow> string) \<Rightarrow> string \<Rightarrow> retention_snapshot \<Rightarrow> session_message list \<Rightarrow> nat \<Rightarrow> clear_action" where
  "action_for jt run_id retention history i =
     (case the (tombstone_of retention (sm_message (history ! i))) of (u, nm, hash, tomb) \<Rightarrow>
       \<lparr>ca_message_index = i, ca_message_id = sm_id (history ! i), ca_tool_use_id = u,
        ca_tool_name = nm, ca_original_tokens = estimate_message_tokens jt (sm_message (history ! i)),
        ca_output_hash = hash, ca_artifact = first_artifact run_id hash (sm_message (history ! i))\<rparr>)"

lemma action_for_index [simp]: "ca_message_index (action_for jt run r h i) = i"
  by (simp add: action_for_def split: prod.split)

lemma clear_result_eq:
  assumes "idx < length h" "idx \<notin> set done"
  shows "clear_result jt run h r idx (cleared_at r h done, acts, need) =
    (if saving jt r (sm_message (h ! idx)) > 0
     then (cleared_at r h (done @ [idx]), acts @ [action_for jt run r h idx],
           need - saving jt r (sm_message (h ! idx)))
     else (cleared_at r h done, acts, need))"
  using assms
  by (auto simp: clear_result_def saving_def action_for_def cleared_at_snoc cleared_message_def
      saturating_sub_def Let_def split: option.splits prod.splits)

text \<open>A pass over distinct indices clears some of them, in order, each with a saving; it has saved
  what it needed, or cleared every index with a saving.\<close>

lemma clear_results_spec:
  assumes "\<forall>i \<in> set idxs. i < length h" "distinct (done @ idxs)"
  shows "\<exists>new. clear_results jt run h r idxs (cleared_at r h done, acts, need) =
      (cleared_at r h (done @ new), acts @ map (action_for jt run r h) new,
       need - sum_list (map (\<lambda>i. saving jt r (sm_message (h ! i))) new)) \<and>
    subseq new idxs \<and> (\<forall>i \<in> set new. saving jt r (sm_message (h ! i)) > 0) \<and>
    (need \<le> sum_list (map (\<lambda>i. saving jt r (sm_message (h ! i))) new) \<or>
     (\<forall>i \<in> set idxs. saving jt r (sm_message (h ! i)) > 0 \<longrightarrow> i \<in> set new))"
  using assms
proof (induction idxs arbitrary: "done" acts need)
  case Nil
  then show ?case by (intro exI [of _ "[]"]) simp
next
  case (Cons idx idxs)
  show ?case
  proof (cases "need = 0")
    case True
    then show ?thesis by (intro exI [of _ "[]"]) simp
  next
    case False
    have i: "idx < length h" "idx \<notin> set done" using Cons.prems by auto
    let ?s = "saving jt r (sm_message (h ! idx))"
    show ?thesis
    proof (cases "?s > 0")
      case True
      from Cons.IH [of "done @ [idx]" "acts @ [action_for jt run r h idx]" "need - ?s"] Cons.prems
      obtain new where new: "clear_results jt run h r idxs (cleared_at r h (done @ [idx]),
            acts @ [action_for jt run r h idx], need - ?s) =
          (cleared_at r h ((done @ [idx]) @ new), (acts @ [action_for jt run r h idx]) @ map (action_for jt run r h) new,
           need - ?s - sum_list (map (\<lambda>i. saving jt r (sm_message (h ! i))) new))"
        "subseq new idxs" "\<forall>i \<in> set new. saving jt r (sm_message (h ! i)) > 0"
        "need - ?s \<le> sum_list (map (\<lambda>i. saving jt r (sm_message (h ! i))) new) \<or>
          (\<forall>i \<in> set idxs. saving jt r (sm_message (h ! i)) > 0 \<longrightarrow> i \<in> set new)"
        by auto
      then show ?thesis using False True i
        by (intro exI [of _ "idx # new"]) (auto simp: clear_result_eq)
    next
      case no: False
      from Cons.IH [of "done" acts need] Cons.prems
      obtain new where "clear_results jt run h r idxs (cleared_at r h done, acts, need) =
          (cleared_at r h (done @ new), acts @ map (action_for jt run r h) new,
           need - sum_list (map (\<lambda>i. saving jt r (sm_message (h ! i))) new))"
        "subseq new idxs" "\<forall>i \<in> set new. saving jt r (sm_message (h ! i)) > 0"
        "need \<le> sum_list (map (\<lambda>i. saving jt r (sm_message (h ! i))) new) \<or>
          (\<forall>i \<in> set idxs. saving jt r (sm_message (h ! i)) > 0 \<longrightarrow> i \<in> set new)"
        by auto
      then show ?thesis using False no i
        by (intro exI [of _ new]) (auto simp: clear_result_eq)
    qed
  qed
qed

section \<open>Tokens\<close>

definition tool_tokens :: "(json \<Rightarrow> string) \<Rightarrow> message \<Rightarrow> nat" where
  "tool_tokens jt m = (if is_tool_result m then estimate_message_tokens jt m else 0)"

lemma total_tool_tokens: "total_tool_results_tokens jt ms = sum_list (map (tool_tokens jt) ms)"
  by (induction ms) (auto simp: total_tool_results_tokens_def tool_tokens_def)

lemma tombstone_of_SomeD:
  assumes "tombstone_of r m = Some (u, nm, hash, tomb)"
  shows "\<exists>content fl tn arts. m = MToolResult u content False fl (Some tn) (Some hash) arts \<and> nm = tn \<and>
    is_tool_eligible (Some tn) r \<and> hash \<noteq> [] \<and>
    tomb = MToolResult u (render_tombstone u tn hash) False None (Some tn) (Some hash) arts"
  using assms
  by (auto simp: tombstone_of_def is_tool_eligible_def resolve_tool_retention_def Let_def
      split: message.splits if_splits option.splits)

lemma savingD:
  assumes "0 < saving jt r m"
  obtains u content fl tn hash arts where
    "m = MToolResult u content False fl (Some tn) (Some hash) arts" "is_tool_eligible (Some tn) r"
    "cleared_message r m = MToolResult u (render_tombstone u tn hash) False None (Some tn) (Some hash) arts"
    "estimate_message_tokens jt (cleared_message r m) + saving jt r m = estimate_message_tokens jt m"
proof -
  from assms obtain u nm hash tomb where t: "tombstone_of r m = Some (u, nm, hash, tomb)"
    by (auto simp: saving_def split: option.splits)
  then have c: "cleared_message r m = tomb" by (simp add: cleared_message_def)
  have "estimate_message_tokens jt tomb + saving jt r m = estimate_message_tokens jt m"
    using assms t by (simp add: saving_def)
  with tombstone_of_SomeD [OF t] c show ?thesis by (auto intro: that)
qed

lemma saving_cleared [simp]: "saving jt r (cleared_message r m) = 0"
proof (cases "tombstone_of r m")
  case None
  then show ?thesis by (simp add: saving_def cleared_message_def)
next
  case (Some x)
  obtain u nm hash tomb where x: "x = (u, nm, hash, tomb)" by (cases x) auto
  from tombstone_of_SomeD [OF Some [unfolded x]] have "tombstone_of r tomb = Some (u, nm, hash, tomb)"
    by (auto simp: tombstone_of_def)
  then show ?thesis using Some x by (simp add: saving_def cleared_message_def)
qed

lemma saving_tokens:
  assumes "0 < saving jt r m"
  shows "tool_tokens jt (cleared_message r m) + saving jt r m = tool_tokens jt m"
  using savingD [OF assms] by (metis is_tool_result.simps(1) tool_tokens_def)

lemma cleared_at_tokens:
  assumes "distinct cs" "\<forall>i \<in> set cs. i < length h \<and> 0 < saving jt r (sm_message (h ! i))"
  shows "sum_list (map (\<lambda>x. tool_tokens jt (sm_message x)) (cleared_at r h cs)) +
    sum_list (map (\<lambda>i. saving jt r (sm_message (h ! i))) cs) =
    sum_list (map (\<lambda>x. tool_tokens jt (sm_message x)) h)"
  using assms
proof (induction cs rule: rev_induct)
  case (snoc i cs)
  let ?f = "\<lambda>x. tool_tokens jt (sm_message x)"
  let ?xs = "cleared_at r h cs"
  have i: "i < length h" "i \<notin> set cs" using snoc.prems by auto
  then have nth: "?xs ! i = h ! i" by (simp add: cleared_at_nth)
  have "sum_list (map ?f (cleared_at r h (cs @ [i]))) + ?f (h ! i) =
      sum_list (map ?f ?xs) + tool_tokens jt (cleared_message r (sm_message (h ! i)))"
  proof -
    have "?f (h ! i) \<le> sum_list (map ?f ?xs)"
      using elem_le_sum_list [of i "map ?f ?xs"] i nth by simp
    then show ?thesis using i nth
      by (simp add: cleared_at_snoc map_update sum_list_update)
  qed
  moreover have "tool_tokens jt (cleared_message r (sm_message (h ! i))) +
      saving jt r (sm_message (h ! i)) = ?f (h ! i)"
    using snoc.prems by (intro saving_tokens) simp
  ultimately show ?case using snoc by simp
qed simp

section \<open>The result of clearing\<close>

lemma candidate_indices:
  assumes "i \<in> set (concat (map te_result_idxs (clearing_candidates start (group_tool_exchanges ms))))"
  shows "i < start" "i < length ms"
  using assms group_result(2) by (fastforce simp: clearing_candidates_def list_ex_iff)+

lemma clear_eligible_spec:
  assumes "clear_eligible_tool_results jt run h r budget turns toks = (proj, acts)"
  obtains cs where "sorted_wrt (<) cs" "proj = cleared_at r h cs" "acts = map (action_for jt run r h) cs"
    "\<forall>i \<in> set cs. i < length h \<and> 0 < saving jt r (sm_message (h ! i)) \<and>
       i < find_recent_protected_start jt (map sm_message h) turns toks"
    "total_tool_results_tokens jt (map sm_message proj) \<le> budget \<or>
     (\<forall>i \<in> set (concat (map te_result_idxs (clearing_candidates
          (find_recent_protected_start jt (map sm_message h) turns toks)
          (group_tool_exchanges (map sm_message h))))). 0 < saving jt r (sm_message (h ! i)) \<longrightarrow> i \<in> set cs)"
proof (cases "total_tool_results_tokens jt (map sm_message h) \<le> budget")
  case True
  then show ?thesis using assms that [of "[]"] by (simp add: clear_eligible_tool_results_def)
next
  case False
  define plain where "plain = map sm_message h"
  define start where "start = find_recent_protected_start jt plain turns toks"
  define idxs where "idxs = concat (map te_result_idxs (clearing_candidates start (group_tool_exchanges plain)))"
  define need where "need = total_tool_results_tokens jt plain - budget"
  have sorted: "sorted_wrt (<) idxs"
    unfolding idxs_def clearing_candidates_def group_tool_exchanges_def
    by (rule sorted_concat_filter) (rule group_from_sorted)
  then have dist: "distinct ([] @ idxs)" by (simp add: strict_sorted_iff)
  have range: "\<forall>i \<in> set idxs. i < length h"
    using candidate_indices(2) by (auto simp: idxs_def plain_def simp del: set_concat) fastforce
  have run: "clear_results jt run h r idxs (h, [], need) = (proj, acts, snd (snd (clear_results jt run h r idxs (h, [], need))))"
    using assms False
    by (auto simp: clear_eligible_tool_results_def Let_def clear_exchanges_eq saturating_sub_def
        plain_def start_def idxs_def need_def split: prod.splits)
  obtain cs where cs: "proj = cleared_at r h cs" "acts = map (action_for jt run r h) cs"
      "subseq cs idxs" "\<forall>i \<in> set cs. saving jt r (sm_message (h ! i)) > 0"
      "need \<le> sum_list (map (\<lambda>i. saving jt r (sm_message (h ! i))) cs) \<or>
       (\<forall>i \<in> set idxs. saving jt r (sm_message (h ! i)) > 0 \<longrightarrow> i \<in> set cs)"
    using clear_results_spec [OF range dist, of jt run r "[]" need] run by auto
  have sub: "set cs \<subseteq> set idxs" using cs(3) by (rule subseq_subset)
  have ok: "\<forall>i \<in> set cs. i < length h \<and> 0 < saving jt r (sm_message (h ! i))"
    using sub range cs(4) by auto
  have s: "sorted_wrt (<) cs" using cs(3) sorted by (rule subseq_sorted_wrt)
  have "total_tool_results_tokens jt (map sm_message proj) +
      sum_list (map (\<lambda>i. saving jt r (sm_message (h ! i))) cs) = total_tool_results_tokens jt plain"
    using cleared_at_tokens [OF _ ok] s cs(1)
    by (simp add: total_tool_tokens plain_def comp_def strict_sorted_iff)
  then have "need \<le> sum_list (map (\<lambda>i. saving jt r (sm_message (h ! i))) cs) \<Longrightarrow>
      total_tool_results_tokens jt (map sm_message proj) \<le> budget"
    using False by (simp add: need_def plain_def)
  moreover have "\<forall>i \<in> set cs. i < start" using sub candidate_indices(1) by (auto simp: idxs_def simp del: set_concat)
  ultimately show ?thesis using that [OF s cs(1,2)] ok cs(5)
    by (auto simp: idxs_def start_def plain_def simp del: set_concat)
qed

section \<open>A sample history\<close>

definition sample_id :: "nat \<Rightarrow> message_id" where
  "sample_id n = \<lparr>mi_session = ''s'', mi_namespace = ''n'', mi_sequence = n\<rparr>"

definition sample_exchange :: "session_message list" where
  "sample_exchange =
     [\<lparr>sm_id = sample_id 0, sm_message = MUser [CbText ''go''] None, sm_metadata = None\<rparr>,
      \<lparr>sm_id = sample_id 1, sm_message = MAssistant [CbToolUse ''x'' ''read'' VNull], sm_metadata = None\<rparr>,
      \<lparr>sm_id = sample_id 2, sm_message = MToolResult ''x'' (replicate 80 CHR ''a'') False None
          (Some ''read'') (Some ''h'') None, sm_metadata = None\<rparr>,
      \<lparr>sm_id = sample_id 3, sm_message = MUser [CbText ''next''] None, sm_metadata = None\<rparr>]"

definition sample_retention :: retention_snapshot where
  "sample_retention = \<lparr>rs_policies =
     [\<lparr>id_namespace = BuiltIn, id_name = ''read''\<rparr> \<mapsto> from_clearable True True], rs_fingerprint = []\<rparr>"

abbreviation sample_clearing :: "session_message list \<times> clear_action list" where
  "sample_clearing \<equiv> clear_eligible_tool_results (\<lambda>_. []) ''r'' sample_exchange sample_retention 10 1 0"

lemma length_utf8_replicate: "length (utf8_bytes (replicate n c)) = n * length (utf8_char c)"
  by (induction n) (simp_all add: utf8_bytes_def)

lemma sample_groups: "group_tool_exchanges (map sm_message sample_exchange) =
    [\<lparr>te_assistant_idx = 1, te_result_idxs = [2], te_use_ids = [''x'']\<rparr>]"
  by (simp add: group_tool_exchanges_def sample_exchange_def tool_use_ids_def List.map_filter_def Let_def)

lemma sample_protected: "find_recent_protected_start (\<lambda>_. []) (map sm_message sample_exchange) (Suc 0) 0 = 3"
  by (simp add: find_recent_protected_start_def find_recent_window_start_def sample_exchange_def Let_def
     saturating_add_def usize_max_def)

lemma sample_tombstone: "tombstone_of sample_retention (sm_message (sample_exchange ! 2)) =
    Some (''x'', ''read'', ''h'', MToolResult ''x'' (render_tombstone ''x'' ''read'' ''h'') False None
          (Some ''read'') (Some ''h'') None)"
  by (simp add: tombstone_of_def sample_exchange_def is_tool_eligible_def resolve_tool_retention_def
     cid_from_str_def sample_retention_def from_clearable_def Let_def)

lemma sample_cleared: "map ca_message_index (snd sample_clearing) = [2]"
  by (simp add: clear_eligible_tool_results_def sample_groups sample_protected clearing_candidates_def
     is_complete_def Let_def clear_result_def sample_tombstone)
   (simp add: sample_exchange_def total_tool_results_tokens_def estimate_text_tokens_def
     length_utf8_replicate saturating_add_def usize_max_def render_tombstone_def utf8_bytes_def utf8_char_def
     saturating_sub_def Let_def)

lemma sample_left: "10 < total_tool_results_tokens (\<lambda>_. []) (map sm_message (fst sample_clearing))"
  by (simp add: clear_eligible_tool_results_def sample_groups sample_protected clearing_candidates_def
     is_complete_def Let_def clear_result_def sample_tombstone)
   (simp add: sample_exchange_def total_tool_results_tokens_def estimate_text_tokens_def
     length_utf8_replicate saturating_add_def usize_max_def render_tombstone_def utf8_bytes_def utf8_char_def
     saturating_sub_def Let_def)

section \<open>Properties\<close>

text \<open>C31: Clearing keeps every message of the history in its place and under its id, and replaces only
  tool results before the protected recent part that are no errors, have an output hash and come
  from a tool whose retention policy makes them clearable; the tombstone answers the same tool
  call and costs fewer tokens. The actions it reports are exactly the replacements, in order.\<close>

theorem clearing_safe:
  assumes "clear_eligible_tool_results jt run h r budget turns toks = (proj, acts)"
  shows "length proj = length h \<and>
    (\<forall>i < length h. proj ! i = h ! i \<or>
      i < find_recent_protected_start jt (map sm_message h) turns toks \<and>
      (\<exists>u content fl tn hash arts.
        sm_message (h ! i) = MToolResult u content False fl (Some tn) (Some hash) arts \<and>
        is_tool_eligible (Some tn) r \<and>
        proj ! i = (h ! i)\<lparr>sm_message := MToolResult u (render_tombstone u tn hash) False None (Some tn) (Some hash) arts\<rparr>) \<and>
      estimate_message_tokens jt (sm_message (proj ! i)) < estimate_message_tokens jt (sm_message (h ! i))) \<and>
    map ca_message_index acts = filter (\<lambda>i. proj ! i \<noteq> h ! i) [0..<length h]"
proof -
  obtain cs where cs: "sorted_wrt (<) cs" "proj = cleared_at r h cs" "acts = map (action_for jt run r h) cs"
      "\<forall>i \<in> set cs. i < length h \<and> 0 < saving jt r (sm_message (h ! i)) \<and>
         i < find_recent_protected_start jt (map sm_message h) turns toks"
    using clear_eligible_spec [OF assms] by metis
  have changed: "proj ! i = (h ! i)\<lparr>sm_message := cleared_message r (sm_message (h ! i))\<rparr> \<and>
      estimate_message_tokens jt (sm_message (proj ! i)) < estimate_message_tokens jt (sm_message (h ! i))"
    if "i \<in> set cs" for i
  proof -
    have i: "i < length h" "0 < saving jt r (sm_message (h ! i))" using cs(4) that by auto
    then have "proj ! i = (h ! i)\<lparr>sm_message := cleared_message r (sm_message (h ! i))\<rparr>"
      using cs(2) that by (simp add: cleared_at_nth)
    moreover have "estimate_message_tokens jt (cleared_message r (sm_message (h ! i))) +
        saving jt r (sm_message (h ! i)) = estimate_message_tokens jt (sm_message (h ! i))"
      using savingD [OF i(2)] by metis
    ultimately show ?thesis using i(2) by simp
  qed
  have same: "proj ! i = h ! i" if "i < length h" "i \<notin> set cs" for i
    using cs(2) that by (simp add: cleared_at_nth)
  have differs: "proj ! i \<noteq> h ! i" if "i \<in> set cs" for i
    using changed [OF that] by (metis less_irrefl)
  have "set cs = set (filter (\<lambda>i. proj ! i \<noteq> h ! i) [0..<length h])"
    using cs(4) differs same by fastforce
  then have "cs = filter (\<lambda>i. proj ! i \<noteq> h ! i) [0..<length h]"
    using cs(1) by (intro strict_sorted_equal) (auto simp: sorted_wrt_filter)
  then have acts: "map ca_message_index acts = filter (\<lambda>i. proj ! i \<noteq> h ! i) [0..<length h]"
    by (simp add: cs(3) comp_def)
  have replaced: "\<exists>u content fl tn hash arts.
        sm_message (h ! i) = MToolResult u content False fl (Some tn) (Some hash) arts \<and>
        is_tool_eligible (Some tn) r \<and>
        proj ! i = (h ! i)\<lparr>sm_message := MToolResult u (render_tombstone u tn hash) False None (Some tn) (Some hash) arts\<rparr>"
    if "i \<in> set cs" for i
  proof -
    have "0 < saving jt r (sm_message (h ! i))" using cs(4) that by simp
    then show ?thesis using changed [OF that] by (elim savingD) simp
  qed
  show ?thesis
  proof (intro conjI allI impI)
    fix i assume "i < length h"
    then show "proj ! i = h ! i \<or>
      i < find_recent_protected_start jt (map sm_message h) turns toks \<and>
      (\<exists>u content fl tn hash arts.
        sm_message (h ! i) = MToolResult u content False fl (Some tn) (Some hash) arts \<and>
        is_tool_eligible (Some tn) r \<and>
        proj ! i = (h ! i)\<lparr>sm_message := MToolResult u (render_tombstone u tn hash) False None (Some tn) (Some hash) arts\<rparr>) \<and>
      estimate_message_tokens jt (sm_message (proj ! i)) < estimate_message_tokens jt (sm_message (h ! i))"
      using same changed replaced cs(4) by (cases "i \<in> set cs") blast+
  qed (simp_all add: cs(2) acts [unfolded cs(2)])
qed

theorem clearing_safe_witness:
  "filter (\<lambda>i. fst sample_clearing ! i \<noteq> sample_exchange ! i) [0..<length sample_exchange] = [2]"
  using clearing_safe [of "\<lambda>_. []" "''r''" sample_exchange sample_retention 10 1 0 "fst sample_clearing"
      "snd sample_clearing"] sample_cleared by simp

text \<open>Clearing goes on until the tool results fit their budget, or until no result of a complete
  exchange before the protected part can be replaced at a saving any more.\<close>

theorem clearing_exhaustive:
  assumes "clear_eligible_tool_results jt run h r budget turns toks = (proj, acts)"
    and "budget < total_tool_results_tokens jt (map sm_message proj)"
    and "e \<in> set (group_tool_exchanges (map sm_message h))" "is_complete e"
    and "\<forall>i \<in> set (te_assistant_idx e # te_result_idxs e).
       i < find_recent_protected_start jt (map sm_message h) turns toks"
    and "i \<in> set (te_result_idxs e)"
  shows "saving jt r (sm_message (proj ! i)) = 0"
proof -
  obtain cs where cs: "proj = cleared_at r h cs" "\<forall>i \<in> set (concat (map te_result_idxs (clearing_candidates
          (find_recent_protected_start jt (map sm_message h) turns toks)
          (group_tool_exchanges (map sm_message h))))). 0 < saving jt r (sm_message (h ! i)) \<longrightarrow> i \<in> set cs"
    using clear_eligible_spec [OF assms(1)] assms(2) by (metis not_less)
  have "e \<in> set (clearing_candidates (find_recent_protected_start jt (map sm_message h) turns toks)
      (group_tool_exchanges (map sm_message h)))"
    using assms(3-5) by (auto simp: clearing_candidates_def list_ex_iff)
  then have "0 < saving jt r (sm_message (h ! i)) \<longrightarrow> i \<in> set cs" using cs(2) assms(6) by auto
  moreover have "i < length h" using group_result(2) [OF assms(3,6)] by simp
  ultimately show ?thesis using cs(1) by (auto simp: cleared_at_nth)
qed

theorem clearing_exhaustive_witness:
  "saving (\<lambda>_. []) sample_retention (sm_message (fst sample_clearing ! 2)) = 0"
proof (rule clearing_exhaustive [where e = "\<lparr>te_assistant_idx = 1, te_result_idxs = [2], te_use_ids = [''x'']\<rparr>"])
  show "clear_eligible_tool_results (\<lambda>_. []) ''r'' sample_exchange sample_retention 10 1 0 =
      (fst sample_clearing, snd sample_clearing)" by simp
qed (use sample_left in \<open>simp_all add: sample_groups sample_protected is_complete_def\<close>)

end
