(* ===== verification/Compaction_Plan.thy ===== *)
theory Compaction_Plan
  imports Tool_Clearing
begin

text \<open>
  Planning which part of the history to compact (\<open>context/compaction.rs\<close>). The code trims the
  range from the right until it fits and then shrinks it until it splits no tool exchange; the
  lemmas show that the two loops find the largest end that does both.
\<close>

section \<open>The plan\<close>

fun trim_end :: "nat list \<Rightarrow> nat \<Rightarrow> nat \<Rightarrow> nat \<Rightarrow> nat" where
  "trim_end tokens start limit e =
     (if e > start then
        (if sum_list (take (e - start) (drop start tokens)) \<le> limit then e
         else trim_end tokens start limit (e - 1))
      else e)"

declare trim_end.simps [simp del]

definition splits_exchange :: "nat \<Rightarrow> nat \<Rightarrow> tool_exchange \<Rightarrow> bool" where
  "splits_exchange start e ex \<longleftrightarrow>
     te_assistant_idx ex \<ge> start \<and> te_assistant_idx ex < e \<and>
     (\<not> is_complete ex \<or> list_ex (\<lambda>r. r \<ge> e) (te_result_idxs ex))"

fun adjust_pass :: "nat \<Rightarrow> tool_exchange list \<Rightarrow> nat \<times> bool \<Rightarrow> nat \<times> bool" where
  "adjust_pass start [] st = st"
| "adjust_pass start (ex # exs) st =
     adjust_pass start exs (if splits_exchange start (fst st) ex then (te_assistant_idx ex, True) else st)"

lemma adjust_pass_le: "fst (adjust_pass start exs st) \<le> fst st"
proof (induction exs arbitrary: st)
  case (Cons ex exs)
  have "fst (adjust_pass start exs (te_assistant_idx ex, True)) \<le> te_assistant_idx ex"
    using Cons.IH [of "(te_assistant_idx ex, True)"] by simp
  then show ?case using Cons.IH [of st] by (auto simp: splits_exchange_def)
qed simp

lemma adjust_pass_less:
  "adjust_pass start exs (e, False) = (e', True) \<Longrightarrow> e' < e"
proof (induction exs)
  case (Cons ex exs)
  show ?case
  proof (cases "splits_exchange start e ex")
    case True
    then show ?thesis using Cons.prems adjust_pass_le [of start exs "(te_assistant_idx ex, True)"]
      by (auto simp: splits_exchange_def)
  next
    case False
    then show ?thesis using Cons by simp
  qed
qed simp

function adjust_loop :: "nat \<Rightarrow> tool_exchange list \<Rightarrow> nat \<Rightarrow> nat" where
  "adjust_loop start exs e = (case adjust_pass start exs (e, False) of
     (e', adjusted) \<Rightarrow> if adjusted then adjust_loop start exs e' else e')"
  by pat_completeness auto
termination
  by (relation "measure (\<lambda>(start, exs, e). e)") (auto dest: adjust_pass_less [OF sym])

declare adjust_loop.simps [simp del]

definition plan_compaction_range :: "(json \<Rightarrow> string) \<Rightarrow> message list \<Rightarrow> nat \<Rightarrow> nat \<Rightarrow> nat \<Rightarrow> nat
    \<Rightarrow> history_range option" where
  "plan_compaction_range jt history last_checkpoint_end recent_protected_start
       compactor_input_limit min_tokens_to_compact =
     (let start = last_checkpoint_end
      in if start \<ge> recent_protected_start \<or> start \<ge> length history then None
         else
           (let message_tokens = map (estimate_message_tokens jt) history;
                trimmed = trim_end message_tokens start compactor_input_limit
                  (min recent_protected_start (length history));
                e = adjust_loop start (group_tool_exchanges history) trimmed
            in if e \<le> start then None
               else if min_tokens_to_compact = 0 then Some \<lparr>hr_start = start, hr_end = e\<rparr>
               else if sum_list (take (e - start) (drop start message_tokens)) < min_tokens_to_compact
               then None
               else Some \<lparr>hr_start = start, hr_end = e\<rparr>))"

section \<open>The specification\<close>

definition range_tokens :: "(json \<Rightarrow> string) \<Rightarrow> message list \<Rightarrow> nat \<Rightarrow> nat \<Rightarrow> nat" where
  "range_tokens jt history start e =
     sum_list (take (e - start) (drop start (map (estimate_message_tokens jt) history)))"

text \<open>A range may end at \<open>e\<close> if it fits the limit and every exchange that begins in it is complete
  and ends in it.\<close>

definition good_end :: "(json \<Rightarrow> string) \<Rightarrow> message list \<Rightarrow> nat \<Rightarrow> nat \<Rightarrow> nat \<Rightarrow> nat \<Rightarrow> bool" where
  "good_end jt history start protected_start limit e \<longleftrightarrow>
     start \<le> e \<and> e \<le> protected_start \<and> e \<le> length history \<and> range_tokens jt history start e \<le> limit \<and>
     (\<forall>ex \<in> set (group_tool_exchanges history). start \<le> te_assistant_idx ex \<and> te_assistant_idx ex < e \<longrightarrow>
        is_complete ex \<and> (\<forall>r \<in> set (te_result_idxs ex). start < r \<and> r < e))"

lemma range_tokens_mono: "e \<le> e' \<Longrightarrow> range_tokens jt h s e \<le> range_tokens jt h s e'"
proof -
  assume le: "e \<le> e'"
  define xs where "xs = drop s (map (estimate_message_tokens jt) h)"
  have "take (e' - s) xs = take (e - s) xs @ take (e' - s - (e - s)) (drop (e - s) xs)"
    using le by (metis take_add diff_le_mono le_add_diff_inverse)
  then show ?thesis by (simp add: range_tokens_def xs_def [symmetric])
qed

lemma trim_end_spec:
  assumes "s \<le> e0"
  shows "s \<le> trim_end toks s limit e0 \<and> trim_end toks s limit e0 \<le> e0 \<and>
    sum_list (take (trim_end toks s limit e0 - s) (drop s toks)) \<le> limit \<and>
    (\<forall>e. trim_end toks s limit e0 < e \<and> e \<le> e0 \<longrightarrow> limit < sum_list (take (e - s) (drop s toks)))"
  using assms
proof (induction toks s limit e0 rule: trim_end.induct)
  case (1 toks s limit e0)
  show ?case
  proof (cases "e0 > s \<and> \<not> sum_list (take (e0 - s) (drop s toks)) \<le> limit")
    case True
    then have eq: "trim_end toks s limit e0 = trim_end toks s limit (e0 - 1)"
      by (subst trim_end.simps) simp
    have ih: "s \<le> trim_end toks s limit (e0 - 1) \<and> trim_end toks s limit (e0 - 1) \<le> e0 - 1 \<and>
        sum_list (take (trim_end toks s limit (e0 - 1) - s) (drop s toks)) \<le> limit \<and>
        (\<forall>e. trim_end toks s limit (e0 - 1) < e \<and> e \<le> e0 - 1 \<longrightarrow> limit < sum_list (take (e - s) (drop s toks)))"
      using True by (intro "1.IH") auto
    show ?thesis unfolding eq
    proof (intro conjI allI impI)
      fix e assume e: "trim_end toks s limit (e0 - 1) < e \<and> e \<le> e0"
      show "limit < sum_list (take (e - s) (drop s toks))"
      proof (cases "e = e0")
        case False
        then show ?thesis using ih e by auto
      qed (use True in simp)
    qed (use ih in auto)
  next
    case False
    then have "trim_end toks s limit e0 = e0" by (subst trim_end.simps) auto
    then show ?thesis using False "1.prems" by auto
  qed
qed

lemma splits_exchange_good:
  assumes "splits_exchange s e ex" "ex \<in> set (group_tool_exchanges h)"
    and "good_end jt h s p limit e'" "e' \<le> e"
  shows "e' \<le> te_assistant_idx ex"
  using assms by (fastforce simp: splits_exchange_def good_end_def list_ex_iff)

lemma adjust_pass_spec:
  assumes "set exs \<subseteq> set (group_tool_exchanges h)" "s \<le> fst st"
  shows "s \<le> fst (adjust_pass s exs st) \<and>
    (good_end jt h s p limit e' \<longrightarrow> e' \<le> fst st \<longrightarrow> e' \<le> fst (adjust_pass s exs st))"
  using assms
proof (induction exs arbitrary: st)
  case (Cons ex exs)
  show ?case
  proof (cases "splits_exchange s (fst st) ex")
    case True
    then have "s \<le> te_assistant_idx ex" by (simp add: splits_exchange_def)
    with Cons.IH [of "(te_assistant_idx ex, True)"] Cons.prems
    have ih: "s \<le> fst (adjust_pass s exs (te_assistant_idx ex, True))"
      "good_end jt h s p limit e' \<longrightarrow> e' \<le> te_assistant_idx ex \<longrightarrow>
         e' \<le> fst (adjust_pass s exs (te_assistant_idx ex, True))" by auto
    have "ex \<in> set (group_tool_exchanges h)" using Cons.prems by simp
    from splits_exchange_good [OF True this] ih True show ?thesis by auto
  next
    case False
    then show ?thesis using Cons by simp
  qed
qed simp

lemma adjust_pass_no_split:
  "adjust_pass s exs (e, False) = (e', False) \<Longrightarrow> e' = e \<and> (\<forall>ex \<in> set exs. \<not> splits_exchange s e ex)"
proof (induction exs)
  case (Cons ex exs)
  have stays: "snd (adjust_pass s xs (a, True))" for xs a
  proof (induction xs arbitrary: a)
    case (Cons x xs)
    then show ?case by simp
  qed simp
  show ?case
  proof (cases "splits_exchange s e ex")
    case True
    then show ?thesis using Cons.prems stays [of exs "te_assistant_idx ex"] by simp
  next
    case False
    then show ?thesis using Cons by simp
  qed
qed simp

lemma adjust_loop_spec:
  assumes "exs = group_tool_exchanges h" "s \<le> e"
  shows "s \<le> adjust_loop s exs e \<and> adjust_loop s exs e \<le> e \<and>
    (\<forall>ex \<in> set exs. \<not> splits_exchange s (adjust_loop s exs e) ex) \<and>
    (good_end jt h s p limit e' \<longrightarrow> e' \<le> e \<longrightarrow> e' \<le> adjust_loop s exs e)"
  using assms
proof (induction s exs e rule: adjust_loop.induct)
  case (1 s exs e)
  obtain e1 adj where pass: "adjust_pass s exs (e, False) = (e1, adj)" by fastforce
  show ?case
  proof (cases adj)
    case True
    then have eq: "adjust_loop s exs e = adjust_loop s exs e1"
      using pass by (subst adjust_loop.simps) simp
    have less: "e1 < e" using pass True adjust_pass_less by simp
    have spec: "s \<le> e1" "good_end jt h s p limit e' \<longrightarrow> e' \<le> e \<longrightarrow> e' \<le> e1"
      using adjust_pass_spec [of exs h s "(e, False)" jt p limit e'] "1.prems" pass by auto
    from "1.IH" [OF pass [symmetric] True "1.prems"(1) spec(1)] less spec(2) show ?thesis
      unfolding eq by auto
  next
    case False
    then have "adjust_loop s exs e = e1" using pass by (subst adjust_loop.simps) simp
    then show ?thesis using adjust_pass_no_split [of s exs e e1] pass False "1.prems"(2) by auto
  qed
qed

lemma good_end_iff:
  assumes "s \<le> e" "e \<le> p" "e \<le> length h"
  shows "good_end jt h s p limit e \<longleftrightarrow> range_tokens jt h s e \<le> limit \<and>
    (\<forall>ex \<in> set (group_tool_exchanges h). \<not> splits_exchange s e ex)"
proof -
  have "start < r" if "ex \<in> set (group_tool_exchanges h)" "start \<le> te_assistant_idx ex"
    "r \<in> set (te_result_idxs ex)" for ex r start
    using group_result(1) [OF that(1,3)] that(2) by simp
  then show ?thesis using assms
    by (fastforce simp: good_end_def splits_exchange_def list_ex_iff not_le)
qed

lemma planned_end:
  fixes jt h s p limit
  defines "e \<equiv> adjust_loop s (group_tool_exchanges h)
      (trim_end (map (estimate_message_tokens jt) h) s limit (min p (length h)))"
  assumes "s < p" "s < length h"
  shows "good_end jt h s p limit e" "good_end jt h s p limit e' \<Longrightarrow> e' \<le> e"
proof -
  define t where "t = trim_end (map (estimate_message_tokens jt) h) s limit (min p (length h))"
  have t: "s \<le> t" "t \<le> min p (length h)" "range_tokens jt h s t \<le> limit"
    "\<And>x. t < x \<Longrightarrow> x \<le> min p (length h) \<Longrightarrow> limit < range_tokens jt h s x"
    using trim_end_spec [of s "min p (length h)" "map (estimate_message_tokens jt) h" limit] assms(2,3)
    by (auto simp: t_def range_tokens_def)
  have e: "s \<le> e" "e \<le> t" "\<forall>ex \<in> set (group_tool_exchanges h). \<not> splits_exchange s e ex"
    and greatest: "good_end jt h s p limit x \<Longrightarrow> x \<le> t \<Longrightarrow> x \<le> e" for x
    using adjust_loop_spec [OF refl t(1), of h] by (auto simp: e_def t_def)
  show "good_end jt h s p limit e"
    using e t range_tokens_mono [OF e(2), of jt h s] by (subst good_end_iff) auto
  show "e' \<le> e" if "good_end jt h s p limit e'"
  proof (rule greatest [OF that], rule ccontr)
    assume "\<not> e' \<le> t"
    then have "limit < range_tokens jt h s e'" using that by (intro t(4)) (auto simp: good_end_def)
    then show False using that by (simp add: good_end_def)
  qed
qed

lemma plan_compaction_some:
  assumes "plan_compaction_range jt h s p limit wanted = Some r"
  shows "hr_start r = s" "s < hr_end r" "hr_end r \<le> length h" "good_end jt h s p limit (hr_end r)"
proof -
  have "s < p \<and> s < length h" using assms by (auto simp: plan_compaction_range_def split: if_splits)
  then have "good_end jt h s p limit (adjust_loop s (group_tool_exchanges h)
      (trim_end (map (estimate_message_tokens jt) h) s limit (min p (length h))))"
    using planned_end by blast
  then show "hr_start r = s" "s < hr_end r" "hr_end r \<le> length h" "good_end jt h s p limit (hr_end r)"
    using assms by (auto simp: plan_compaction_range_def Let_def good_end_def split: if_splits)
qed

section \<open>Properties\<close>

text \<open>C32: A compaction range is planned exactly if there is one worth its while: it starts where the
  last checkpoint is and ends at the largest index that is not in the protected recent part,
  keeps the range within the compactor's input limit and splits no tool exchange, provided the
  range is not empty and has the tokens wanted.\<close>

theorem compaction_range_correct:
  "plan_compaction_range jt h s p limit wanted = Some r \<longleftrightarrow>
     hr_start r = s \<and> s < hr_end r \<and> good_end jt h s p limit (hr_end r) \<and>
     (\<forall>e. good_end jt h s p limit e \<longrightarrow> e \<le> hr_end r) \<and> wanted \<le> range_tokens jt h s (hr_end r)"
proof (cases "s < p \<and> s < length h")
  case True
  define e where "e = adjust_loop s (group_tool_exchanges h)
      (trim_end (map (estimate_message_tokens jt) h) s limit (min p (length h)))"
  have good: "good_end jt h s p limit e" and best: "good_end jt h s p limit x \<Longrightarrow> x \<le> e" for x
    using planned_end True unfolding e_def by blast+
  have plan: "plan_compaction_range jt h s p limit wanted =
      (if s < e \<and> wanted \<le> range_tokens jt h s e then Some \<lparr>hr_start = s, hr_end = e\<rparr> else None)"
    using True by (simp add: plan_compaction_range_def Let_def e_def range_tokens_def not_less not_le)
  have "r = \<lparr>hr_start = s, hr_end = e\<rparr> \<longleftrightarrow> hr_start r = s \<and> hr_end r = e"
    by (metis history_range.surjective history_range.select_convs old.unit.exhaust)
  then show ?thesis using good best unfolding plan by (auto intro: antisym)
next
  case False
  then have "plan_compaction_range jt h s p limit wanted = None"
    by (auto simp: plan_compaction_range_def not_less)
  moreover have "\<not> (s < e \<and> good_end jt h s p limit e)" for e
    using False by (auto simp: good_end_def)
  ultimately show ?thesis by auto
qed

theorem compaction_range_correct_witness:
  "plan_compaction_range (\<lambda>_. []) (map sm_message sample_exchange) 0 2 1000 0 =
     Some \<lparr>hr_start = 0, hr_end = 1\<rparr>"
proof (subst compaction_range_correct, intro conjI allI impI)
  show "good_end (\<lambda>_. []) (map sm_message sample_exchange) 0 2 1000 (hr_end \<lparr>hr_start = 0, hr_end = 1\<rparr>)"
    by (simp add: good_end_def sample_groups)
      (simp add: range_tokens_def sample_exchange_def estimate_text_tokens_def utf8_bytes_def utf8_char_def
        saturating_add_def usize_max_def Let_def)
  fix e assume "good_end (\<lambda>_. []) (map sm_message sample_exchange) 0 2 1000 e"
  then show "e \<le> hr_end \<lparr>hr_start = 0, hr_end = 1\<rparr>"
    by (auto simp: good_end_def sample_groups is_complete_def)
qed simp_all

end
