(* ===== verification/Projection.thy ===== *)
theory Projection
  imports Compaction_Plan Paths
begin

text \<open>
  Checkpoints and the projected history (\<open>context/projection.rs\<close> and the projection part of
  \<open>context/mod.rs\<close>): loading the active checkpoint from its artifact, and the projection that puts
  it in the place of the messages it summarises and tombstones in the place of cleared results.
\<close>

section \<open>Checkpoints\<close>

record compaction_checkpoint =
  ck_v :: nat
  ck_checkpoint_id :: string
  ck_history_range :: history_range
  ck_history_range_hash :: string
  ck_policy_version :: string
  ck_compactor_model :: string
  ck_prompt_hash :: string
  ck_goal :: string
  ck_constraints :: "string list"
  ck_completed_work :: "string list"
  ck_in_progress_work :: "string list"
  ck_blocked_items :: "string list"
  ck_key_decisions :: "string list"
  ck_next_steps :: "string list"
  ck_critical_context :: string
  ck_relevant_references :: "string list"

abbreviation newline :: string where
  "newline \<equiv> [CHR 0x0A]"

definition render_list :: "string \<Rightarrow> string list \<Rightarrow> string" where
  "render_list heading items =
     ''**'' @ heading @ '':**'' @ newline @ concat (map (\<lambda>item. ''- '' @ item @ newline) items) @ newline"

definition render_markdown :: "compaction_checkpoint \<Rightarrow> string" where
  "render_markdown c =
     ''### Session Checkpoint Summary (ID: '' @ ck_checkpoint_id c @ '')'' @ newline @ newline @
     ''**Goal:** '' @ ck_goal c @ newline @ newline @
     render_list ''Constraints'' (ck_constraints c) @
     render_list ''Completed Work'' (ck_completed_work c) @
     render_list ''In Progress Work'' (ck_in_progress_work c) @
     render_list ''Blocked Items'' (ck_blocked_items c) @
     render_list ''Key Decisions'' (ck_key_decisions c) @
     render_list ''Next Steps'' (ck_next_steps c) @
     ''**Critical Context:**'' @ newline @ ck_critical_context c @ newline @ newline @
     render_list ''Relevant References'' (ck_relevant_references c)"

definition checkpoint_message :: "string \<Rightarrow> compaction_checkpoint \<Rightarrow> session_message" where
  "checkpoint_message session_id c =
     \<lparr>sm_id = \<lparr>mi_session = session_id, mi_namespace = ''checkpoint:'' @ ck_checkpoint_id c,
        mi_sequence = hr_end (ck_history_range c)\<rparr>,
      sm_message = MSystem (render_markdown c), sm_metadata = None\<rparr>"

section \<open>Loading a checkpoint\<close>

definition range_debug :: "history_range \<Rightarrow> string" where
  "range_debug r = ''HistoryRange { start: '' @ dec (hr_start r) @ '', end: '' @ dec (hr_end r) @ '' }''"

definition pipeline_failed :: "string \<Rightarrow> harness_error" where
  "pipeline_failed msg = HContext (PipelineFailed msg)"

definition read_failed :: "string \<Rightarrow> harness_error" where
  "read_failed reason = HTrace (ReadFailed reason)"

definition resolve_artifact_dir :: "file_system \<Rightarrow> string \<Rightarrow> string \<Rightarrow> harness_error + string" where
  "resolve_artifact_dir fs current_dir run_id =
     (let missing = Inl (read_failed (''artifact run directory not found for run_id: '' @ run_id))
      in case path_parent current_dir of
           None \<Rightarrow> missing
         | Some run_dir \<Rightarrow> (case path_parent run_dir of
             None \<Rightarrow> missing
           | Some runs_dir \<Rightarrow> (case fs_read_dir fs runs_dir of
               None \<Rightarrow> missing
             | Some entries \<Rightarrow>
                 (case find_first (\<lambda>(name, is_dir). is_dir \<and> (name = run_id \<or> ends_with name (''-'' @ run_id))) entries of
                    None \<Rightarrow> missing
                  | Some (name, _) \<Rightarrow> Inr (path_join (path_join runs_dir name) ''artifacts'')))))"

definition resolve_checkpoint_artifact_path :: "file_system \<Rightarrow> string \<Rightarrow> string \<Rightarrow> harness_error + string" where
  "resolve_checkpoint_artifact_path fs base_dir relative =
     (if is_absolute relative then
        Inl (pipeline_failed (''checkpoint artifact path must be relative: '' @ relative))
      else if list_ex (\<lambda>c. c = ''..'' \<or> c = ''/'') (path_components relative) then
        Inl (pipeline_failed (''checkpoint artifact path escapes artifact directory: '' @ relative))
      else (case fs_canonicalize fs base_dir of
          Inl err \<Rightarrow> Inl (read_failed (''failed to canonicalize artifact directory '' @ base_dir @ '': '' @ err))
        | Inr canonical_base \<Rightarrow>
            (let resolved = path_join base_dir relative
             in case fs_canonicalize fs resolved of
                  Inl err \<Rightarrow> Inl (read_failed
                    (''failed to canonicalize checkpoint artifact path '' @ resolved @ '': '' @ err))
                | Inr canonical_resolved \<Rightarrow>
                    if path_starts_with canonical_resolved canonical_base then Inr canonical_resolved
                    else Inl (pipeline_failed
                      (''checkpoint artifact path escapes artifact directory: '' @ relative)))))"

definition checkpoint_file :: "string \<Rightarrow> string" where
  "checkpoint_file i = ''checkpoint_'' @ i @ ''.json''"

definition checkpoint_path :: "file_system \<Rightarrow> compaction_checkpoint_ref \<Rightarrow> string \<Rightarrow> string
    \<Rightarrow> harness_error + string" where
  "checkpoint_path fs r dir current_run_id = (case cc_artifact r of
       None \<Rightarrow> Inr (path_join dir (checkpoint_file (cc_checkpoint_id r)))
     | Some art \<Rightarrow>
         (case (if ar_run_id art = [] \<or> ar_run_id art = current_run_id then Inr dir
                else resolve_artifact_dir fs dir (ar_run_id art)) of
            Inl e \<Rightarrow> Inl e
          | Inr base_dir \<Rightarrow>
              if ar_relative_path art = [] then
                Inr (path_join base_dir (checkpoint_file (cc_checkpoint_id r)))
              else resolve_checkpoint_artifact_path fs base_dir (ar_relative_path art)))"

text \<open>\<open>parse\<close> reads a checkpoint from JSON.\<close>

definition check_loaded :: "compaction_checkpoint_ref \<Rightarrow> compaction_checkpoint
    \<Rightarrow> harness_error + compaction_checkpoint option" where
  "check_loaded r loaded =
     (if ck_checkpoint_id loaded \<noteq> cc_checkpoint_id r then
        Inl (pipeline_failed (''checkpoint id mismatch: expected '' @ cc_checkpoint_id r @ '', got '' @ ck_checkpoint_id loaded))
      else if ck_history_range loaded \<noteq> cc_source_range r then
        Inl (pipeline_failed (''checkpoint source range mismatch: expected '' @ range_debug (cc_source_range r) @
          '', got '' @ range_debug (ck_history_range loaded)))
      else if ck_history_range_hash loaded \<noteq> cc_source_hash r then
        Inl (pipeline_failed (''checkpoint source hash mismatch: expected '' @ cc_source_hash r @ '', got '' @
          ck_history_range_hash loaded))
      else Inr (Some loaded))"

definition load_checkpoint :: "prompt_codec \<Rightarrow> file_system \<Rightarrow> (string \<Rightarrow> string + compaction_checkpoint)
    \<Rightarrow> compaction_checkpoint_ref option \<Rightarrow> string option \<Rightarrow> string
    \<Rightarrow> harness_error + compaction_checkpoint option" where
  "load_checkpoint px fs parse ref_opt artifacts_dir current_run_id =
     (case ref_opt of None \<Rightarrow> Inr None
      | Some r \<Rightarrow> (case artifacts_dir of None \<Rightarrow> Inr None
      | Some dir \<Rightarrow> (case checkpoint_path fs r dir current_run_id of Inl e \<Rightarrow> Inl e
      | Inr path \<Rightarrow> (case fs_read fs path of
          Inl err \<Rightarrow> Inl (read_failed (''checkpoint file not found: '' @ path @ '', err: '' @ err))
      | Inr content \<Rightarrow>
          (case cc_artifact r of
             Some art \<Rightarrow>
               if px_sha256 px content \<noteq> ar_content_hash art then
                 Inl (pipeline_failed (''checkpoint artifact content hash mismatch: expected '' @
                   ar_content_hash art @ '', got '' @ px_sha256 px content))
               else (case parse content of
                   Inl err \<Rightarrow> Inl (read_failed (''failed to parse checkpoint: '' @ err))
                 | Inr loaded \<Rightarrow> check_loaded r loaded)
           | None \<Rightarrow> (case parse content of
                   Inl err \<Rightarrow> Inl (read_failed (''failed to parse checkpoint: '' @ err))
                 | Inr loaded \<Rightarrow> check_loaded r loaded))))))"

section \<open>The projected history\<close>

fun find_index :: "('a \<Rightarrow> bool) \<Rightarrow> 'a list \<Rightarrow> nat option" where
  "find_index p [] = None"
| "find_index p (x # xs) = (if p x then Some 0 else map_option Suc (find_index p xs))"

text \<open>A \<open>BTreeMap\<close> is iterated in the order of its keys.\<close>

definition cleared_values :: "(string \<rightharpoonup> cleared_tool_result_ref) \<Rightarrow> cleared_tool_result_ref list" where
  "cleared_values m = map (\<lambda>k. the (m k)) (sorted_list_of_set (dom m))"

definition canonical_items :: "session_message list \<Rightarrow> projected_item list" where
  "canonical_items h = map (\<lambda>i. ItCanonical (sm_id (h ! i)) i (sm_message (h ! i))) [0..<length h]"

definition history_slice :: "history_range \<Rightarrow> 'a list \<Rightarrow> 'a list" where
  "history_slice r xs = take (hr_end r - hr_start r) (drop (hr_start r) xs)"

text \<open>The items after the active checkpoint, the update of the checkpoint and whether it was applied;
  \<open>None\<close> is the panic of slicing a range that ends before it starts.\<close>

definition apply_checkpoint :: "prompt_codec \<Rightarrow> session_message list \<Rightarrow> compaction_checkpoint_ref option
    \<Rightarrow> compaction_checkpoint option \<Rightarrow> string
    \<Rightarrow> (projected_item list \<times> compaction_checkpoint_ref state_update \<times> bool) option" where
  "apply_checkpoint px h active checkpoint session_id =
     (let items = canonical_items h
      in case active of
           None \<Rightarrow> Some (items, Unchanged, False)
         | Some r \<Rightarrow> (case checkpoint of
             None \<Rightarrow> Some (items, Clear, False)
           | Some cp \<Rightarrow>
               (let range = cc_source_range r
                in if hr_end range \<le> length h then
                     (if hr_end range < hr_start range then None
                      else if px_sha256 px (px_history px (history_slice range h)) = cc_source_hash r then
                        Some (take (hr_start range) items @
                           ItCheckpoint r range (sm_message (checkpoint_message session_id cp)) #
                           drop (hr_end range) items, Unchanged, True)
                      else Some (items, Clear, False))
                   else Some (items, Clear, False))))"

definition is_compacted :: "session_message list \<Rightarrow> compaction_checkpoint_ref option \<Rightarrow> bool
    \<Rightarrow> cleared_tool_result_ref \<Rightarrow> bool" where
  "is_compacted h active applied persisted =
     (if applied then
        (case active of None \<Rightarrow> False
         | Some r \<Rightarrow> (case find_index (\<lambda>m. sm_id m = ct_message_id persisted) h of
             None \<Rightarrow> False
           | Some i \<Rightarrow> hr_start (cc_source_range r) \<le> i \<and> i < hr_end (cc_source_range r)))
      else False)"

text \<open>The tombstone a persisted reference asks for at an item, if the item is its result.\<close>

definition persisted_tombstone :: "cleared_tool_result_ref \<Rightarrow> projected_item \<Rightarrow> projected_item option" where
  "persisted_tombstone persisted item = (case item of
       ItCanonical i k (MToolResult u content is_err fl tool_name output_hash arts) \<Rightarrow>
         if u = ct_tool_use_id persisted \<and> output_hash = Some (ct_output_hash persisted) then
           Some (ItTombstone (ct_message_id persisted) k
             (MToolResult (ct_tool_use_id persisted)
               (render_tombstone (ct_tool_use_id persisted) (case tool_name of None \<Rightarrow> [] | Some n \<Rightarrow> n)
                  (ct_output_hash persisted))
               False None tool_name (Some (ct_output_hash persisted))
               (map_option (\<lambda>art. [ar_relative_path art]) (ct_artifact persisted))))
         else None
     | _ \<Rightarrow> None)"

definition is_canonical_of :: "message_id \<Rightarrow> projected_item \<Rightarrow> bool" where
  "is_canonical_of i item = (case item of ItCanonical j _ _ \<Rightarrow> j = i | _ \<Rightarrow> False)"

type_synonym tombstoning = "projected_item list \<times> string list \<times> cleared_tool_result_ref list"

definition apply_tombstone :: "session_message list \<Rightarrow> compaction_checkpoint_ref option \<Rightarrow> bool
    \<Rightarrow> cleared_tool_result_ref \<Rightarrow> tombstoning \<Rightarrow> tombstoning" where
  "apply_tombstone h active applied persisted st = (case st of (items, removed, effective) \<Rightarrow>
     if is_compacted h active applied persisted then st
     else (case find_index (is_canonical_of (ct_message_id persisted)) items of
         None \<Rightarrow> (items, removed @ [ct_tool_use_id persisted], effective)
       | Some idx \<Rightarrow> (case persisted_tombstone persisted (items ! idx) of
             None \<Rightarrow> (items, removed @ [ct_tool_use_id persisted], effective)
           | Some tomb \<Rightarrow> (items[idx := tomb], removed, effective @ [persisted]))))"

record projection_application =
  pa_items :: "projected_item list"
  pa_checkpoint_update :: "compaction_checkpoint_ref state_update"
  pa_removed :: "string list"
  pa_effective_checkpoint :: "compaction_checkpoint_ref option"
  pa_effective_cleared :: "cleared_tool_result_ref list"

definition build_projected_history :: "prompt_codec \<Rightarrow> session_message list \<Rightarrow> context_projection_state
    \<Rightarrow> compaction_checkpoint option \<Rightarrow> string \<Rightarrow> projection_application option" where
  "build_projected_history px h state checkpoint session_id =
     (case apply_checkpoint px h (cs_active_checkpoint state) checkpoint session_id of
        None \<Rightarrow> None
      | Some (items, update, applied) \<Rightarrow>
          (case fold (apply_tombstone h (cs_active_checkpoint state) applied)
                  (cleared_values (cs_cleared state)) (items, [], []) of
             (items', removed, effective) \<Rightarrow>
               Some \<lparr>pa_items = items', pa_checkpoint_update = update, pa_removed = removed,
                  pa_effective_checkpoint = (if applied then cs_active_checkpoint state else None),
                  pa_effective_cleared = effective\<rparr>))"

section \<open>What a projection covers\<close>

definition span_end :: "nat \<Rightarrow> projected_item list \<Rightarrow> nat" where
  "span_end n items = (if items = [] then n else item_end (last items))"

lemma span_end_simps [simp]:
  "span_end n [] = n" "span_end n (x # xs) = span_end (item_end x) xs"
  by (auto simp: span_end_def)

lemma contiguous_append:
  "contiguous n (xs @ ys) \<longleftrightarrow> contiguous n xs \<and> contiguous (span_end n xs) ys"
  by (induction xs arbitrary: n) auto

lemma span_end_append: "span_end n (xs @ ys) = span_end (span_end n xs) ys"
  by (induction xs arbitrary: n) auto

lemma contiguous_cong:
  "map (\<lambda>x. (item_start x, item_end x)) xs = map (\<lambda>x. (item_start x, item_end x)) ys \<Longrightarrow>
     contiguous n xs = contiguous n ys \<and> span_end n xs = span_end n ys"
proof (induction xs arbitrary: n ys)
  case (Cons x xs)
  then obtain y zs where "ys = y # zs" "item_start x = item_start y" "item_end x = item_end y"
    "map (\<lambda>x. (item_start x, item_end x)) xs = map (\<lambda>x. (item_start x, item_end x)) zs" by auto
  then show ?case using Cons.IH [of zs "item_end y"] by simp
qed simp

lemma contiguous_canonical:
  "a \<le> b \<Longrightarrow> contiguous a (map (\<lambda>i. ItCanonical (f i) i (g i)) [a..<b]) \<and>
     span_end a (map (\<lambda>i. ItCanonical (f i) i (g i)) [a..<b]) = b"
proof (induction b)
  case (Suc b)
  then show ?case
    by (cases "a = Suc b") (auto simp: contiguous_append span_end_append)
qed simp

text \<open>Every item is a canonical message, the tombstone of one, or the checkpoint.\<close>

fun item_ok :: "prompt_codec \<Rightarrow> session_message list \<Rightarrow> compaction_checkpoint_ref option \<Rightarrow> projected_item \<Rightarrow> bool" where
  "item_ok px h active (ItCanonical i k m) \<longleftrightarrow> k < length h \<and> i = sm_id (h ! k) \<and> m = sm_message (h ! k)"
| "item_ok px h active (ItTombstone i k m) \<longleftrightarrow> k < length h \<and> i = sm_id (h ! k) \<and>
     is_tool_result (sm_message (h ! k)) \<and> is_tool_result m \<and>
     result_use_id m = result_use_id (sm_message (h ! k))"
| "item_ok px h active (ItCheckpoint r rng m) \<longleftrightarrow> active = Some r \<and> rng = cc_source_range r \<and>
     px_sha256 px (px_history px (history_slice rng h)) = cc_source_hash r"

lemma find_index_SomeD: "find_index p xs = Some i \<Longrightarrow> i < length xs \<and> p (xs ! i)"
  by (induction xs arbitrary: i) (auto split: if_splits)

lemma canonical_items_ok: "x \<in> set (canonical_items h) \<Longrightarrow> item_ok px h act x"
  by (auto simp: canonical_items_def)

lemma apply_checkpoint_ok:
  assumes "apply_checkpoint px h act ck sid = Some (items, update, applied)"
    and "\<And>r. act = Some r \<Longrightarrow> \<not> hr_is_empty (cc_source_range r)"
  shows "contiguous 0 items \<and> span_end 0 items = length h \<and>
    (\<forall>it \<in> set items. item_ok px h (if applied then act else None) it)"
proof -
  have plain: "contiguous 0 (canonical_items h) \<and> span_end 0 (canonical_items h) = length h"
    using contiguous_canonical [of 0 "length h"] by (simp add: canonical_items_def)
  show ?thesis
  proof (cases applied)
    case False
    then have "items = canonical_items h" using assms(1)
      by (auto simp: apply_checkpoint_def Let_def split: option.splits if_splits)
    then show ?thesis using plain canonical_items_ok False by auto
  next
    case True
    then obtain r cp where r: "act = Some r" "hr_end (cc_source_range r) \<le> length h"
        "px_sha256 px (px_history px (history_slice (cc_source_range r) h)) = cc_source_hash r"
        "items = take (hr_start (cc_source_range r)) (canonical_items h) @
           ItCheckpoint r (cc_source_range r) (sm_message (checkpoint_message sid cp)) #
           drop (hr_end (cc_source_range r)) (canonical_items h)"
      using assms(1) by (auto simp: apply_checkpoint_def Let_def split: option.splits if_splits)
    define a b where "a = hr_start (cc_source_range r)" and "b = hr_end (cc_source_range r)"
    have ab: "a < b" "b \<le> length h" using assms(2) [OF r(1)] r(2) by (auto simp: hr_is_empty_def a_def b_def)
    let ?c = "\<lambda>i. ItCanonical (sm_id (h ! i)) i (sm_message (h ! i))"
    have parts: "take a (canonical_items h) = map ?c [0..<a]" "drop b (canonical_items h) = map ?c [b..<length h]"
      using ab by (simp_all add: canonical_items_def take_map drop_map)
    have "contiguous 0 (map ?c [0..<a]) \<and> span_end 0 (map ?c [0..<a]) = a"
      "contiguous b (map ?c [b..<length h]) \<and> span_end b (map ?c [b..<length h]) = length h"
      by (rule contiguous_canonical, use ab in simp)+
    moreover have "\<forall>it \<in> set items. item_ok px h act it"
      using r(1,3) canonical_items_ok unfolding r(4)
      by (auto dest!: in_set_takeD in_set_dropD)
    ultimately show ?thesis using ab True unfolding r(4)
      by (simp add: contiguous_append span_end_append parts r(1) flip: a_def b_def)
  qed
qed

lemma apply_tombstone_ok:
  assumes "apply_tombstone h act applied p (items, removed, effective) = (items', removed', effective')"
    and "\<forall>it \<in> set items. item_ok px h a it"
  shows "map (\<lambda>x. (item_start x, item_end x)) items' = map (\<lambda>x. (item_start x, item_end x)) items \<and>
    (\<forall>it \<in> set items'. item_ok px h a it)"
proof (cases "items' = items")
  case True
  then show ?thesis using assms(2) by simp
next
  case False
  then obtain idx tomb where idx: "find_index (is_canonical_of (ct_message_id p)) items = Some idx"
      "persisted_tombstone p (items ! idx) = Some tomb" "items' = items[idx := tomb]"
    using assms(1) by (auto simp: apply_tombstone_def split: if_splits option.splits)
  from find_index_SomeD [OF idx(1)] obtain k m where item: "idx < length items"
      "items ! idx = ItCanonical (ct_message_id p) k m"
    by (auto simp: is_canonical_of_def split: projected_item.splits)
  have ok: "item_ok px h a (items ! idx)" using assms(2) item(1) by simp
  have t: "item_start tomb = item_start (items ! idx)" "item_end tomb = item_end (items ! idx)" "item_ok px h a tomb"
    using idx(2) ok unfolding item(2)
    by (auto simp: persisted_tombstone_def split: message.splits if_splits)
  then have "map (\<lambda>x. (item_start x, item_end x)) items' = map (\<lambda>x. (item_start x, item_end x)) items"
    using item(1) unfolding idx(3) by (intro nth_equalityI) (auto simp: nth_list_update)
  then show ?thesis using t(3) assms(2) set_update_subset_insert [of items idx tomb] unfolding idx(3) by blast
qed

lemma fold_tombstones_ok:
  assumes "fold (apply_tombstone h act applied) ps (items, removed, effective) = (items', removed', effective')"
    and "\<forall>it \<in> set items. item_ok px h a it"
  shows "map (\<lambda>x. (item_start x, item_end x)) items' = map (\<lambda>x. (item_start x, item_end x)) items \<and>
    (\<forall>it \<in> set items'. item_ok px h a it)"
  using assms
proof (induction ps arbitrary: items removed effective)
  case (Cons p ps)
  obtain i1 r1 e1 where step: "apply_tombstone h act applied p (items, removed, effective) = (i1, r1, e1)"
    by (metis prod_cases3)
  from apply_tombstone_ok [OF step Cons.prems(2)]
  have one: "map (\<lambda>x. (item_start x, item_end x)) i1 = map (\<lambda>x. (item_start x, item_end x)) items"
    "\<forall>it \<in> set i1. item_ok px h a it" by auto
  have "fold (apply_tombstone h act applied) ps (i1, r1, e1) = (items', removed', effective')"
    using Cons.prems(1) step by simp
  from Cons.IH [OF this one(2)] one(1) show ?case by simp
qed simp

lemma build_projected_ok:
  assumes "build_projected_history px h st ck sid = Some a"
    and "\<And>r. cs_active_checkpoint st = Some r \<Longrightarrow> \<not> hr_is_empty (cc_source_range r)"
  shows "contiguous 0 (pa_items a)" "span_end 0 (pa_items a) = length h"
    "\<forall>it \<in> set (pa_items a). item_ok px h (pa_effective_checkpoint a) it"
proof -
  from assms(1) obtain items update applied items' removed effective where
    app: "apply_checkpoint px h (cs_active_checkpoint st) ck sid = Some (items, update, applied)"
    and fld: "fold (apply_tombstone h (cs_active_checkpoint st) applied) (cleared_values (cs_cleared st))
        (items, [], []) = (items', removed, effective)"
    and a: "pa_items a = items'"
      "pa_effective_checkpoint a = (if applied then cs_active_checkpoint st else None)"
    by (auto simp: build_projected_history_def split: option.splits prod.splits)
  note base = apply_checkpoint_ok [OF app assms(2)]
  with fold_tombstones_ok [OF fld] have
    same: "map (\<lambda>x. (item_start x, item_end x)) items' = map (\<lambda>x. (item_start x, item_end x)) items"
    and ok: "\<forall>it \<in> set items'. item_ok px h (if applied then cs_active_checkpoint st else None) it" by auto
  from contiguous_cong [OF same, of 0] base show "contiguous 0 (pa_items a)" "span_end 0 (pa_items a) = length h"
    by (auto simp: a)
  show "\<forall>it \<in> set (pa_items a). item_ok px h (pa_effective_checkpoint a) it" using ok by (simp add: a)
qed

section \<open>A sample checkpoint\<close>

definition sample_checkpoint :: compaction_checkpoint where
  "sample_checkpoint = \<lparr>ck_v = 1, ck_checkpoint_id = ''c'', ck_history_range = \<lparr>hr_start = 0, hr_end = 3\<rparr>,
     ck_history_range_hash = ''h'', ck_policy_version = [], ck_compactor_model = [], ck_prompt_hash = [],
     ck_goal = ''g'', ck_constraints = [''k''], ck_completed_work = [], ck_in_progress_work = [],
     ck_blocked_items = [], ck_key_decisions = [], ck_next_steps = [], ck_critical_context = ''x'',
     ck_relevant_references = [''r'']\<rparr>"

definition sample_checkpoint_ref :: compaction_checkpoint_ref where
  "sample_checkpoint_ref = \<lparr>cc_checkpoint_id = ''c'', cc_source_range = \<lparr>hr_start = 0, hr_end = 3\<rparr>,
     cc_source_hash = ''h'',
     cc_artifact = Some \<lparr>ar_run_id = [], ar_relative_path = ''c.json'', ar_content_hash = ''h''\<rparr>\<rparr>"

definition sample_files :: file_system where
  "sample_files = \<lparr>fs_canonicalize = Inr, fs_exists = (\<lambda>_. True), fs_read = (\<lambda>_. Inr ''{}''),
     fs_read_dir = (\<lambda>_. None)\<rparr>"

definition sample_codec :: prompt_codec where
  "sample_codec = \<lparr>px_sha256 = (\<lambda>_. ''h''), px_message = (\<lambda>_. []), px_messages = (\<lambda>_. []),
     px_history = (\<lambda>_. []), px_segment = (\<lambda>_ _ _. [])\<rparr>"

definition sample_state :: context_projection_state where
  "sample_state = context_state_default\<lparr>cs_active_checkpoint := Some sample_checkpoint_ref\<rparr>"

lemma sample_path: "resolve_checkpoint_artifact_path sample_files ''/a'' ''c.json'' = Inr ''/a/c.json''"
  by code_simp

lemma sample_load: "load_checkpoint sample_codec sample_files (\<lambda>_. Inr sample_checkpoint)
    (Some sample_checkpoint_ref) (Some ''/a'') [] = Inr (Some sample_checkpoint)"
  using sample_path
  by (simp add: load_checkpoint_def checkpoint_path_def sample_checkpoint_ref_def sample_checkpoint_def
      sample_codec_def) (simp add: sample_files_def check_loaded_def)

lemma sample_projection: "\<exists>a. build_projected_history sample_codec sample_exchange sample_state
    (Some sample_checkpoint) ''s'' = Some a"
  by (simp add: build_projected_history_def apply_checkpoint_def sample_state_def sample_checkpoint_ref_def
      sample_exchange_def sample_codec_def context_state_default_def Let_def split: prod.splits)

section \<open>Properties\<close>

text \<open>A checkpoint is used only if it is the one the session refers to: its id, range and source
  hash are those of the reference, and where the reference names an artifact, the text it was
  read from has the recorded hash.\<close>

theorem loaded_checkpoint_is_referenced:
  assumes "load_checkpoint px fs parse (Some r) dir run_id = Inr (Some c)"
  shows "ck_checkpoint_id c = cc_checkpoint_id r \<and> ck_history_range c = cc_source_range r \<and>
    ck_history_range_hash c = cc_source_hash r \<and>
    (\<forall>art. cc_artifact r = Some art \<longrightarrow>
       (\<exists>path content. fs_read fs path = Inr content \<and> parse content = Inr c \<and>
          px_sha256 px content = ar_content_hash art))"
  using assms
  by (auto simp: load_checkpoint_def check_loaded_def split: option.splits sum.splits if_splits)

theorem loaded_checkpoint_is_referenced_witness:
  "ck_history_range sample_checkpoint = cc_source_range sample_checkpoint_ref"
  using loaded_checkpoint_is_referenced [OF sample_load] by simp

text \<open>The path of a checkpoint artifact that is followed lies in the artifact directory after both
  are resolved, whatever symbolic links or parent steps the recorded path has.\<close>

theorem artifact_path_contained:
  assumes "resolve_checkpoint_artifact_path fs base_dir relative = Inr p"
  shows "\<exists>base. fs_canonicalize fs base_dir = Inr base \<and> path_starts_with p base \<and>
    fs_canonicalize fs (path_join base_dir relative) = Inr p \<and> ''..'' \<notin> set (path_components relative)"
  using assms
  by (auto simp: resolve_checkpoint_artifact_path_def Let_def list_ex_iff split: sum.splits if_splits)

theorem artifact_path_contained_witness:
  "fs_canonicalize sample_files ''/a'' = Inr ''/a'' \<and> path_starts_with ''/a/c.json'' ''/a''"
  using artifact_path_contained [OF sample_path] by (simp add: sample_files_def)

text \<open>C33: The projected history loses nothing and repeats nothing: its items cover the indices of the
  canonical history from the first to the last without gap or overlap, and each is the message
  of its index, a tombstone that answers the same tool call, or the active checkpoint over
  exactly the range whose hash it carries.\<close>

theorem projection_covers_history:
  assumes "build_projected_history px h st ck sid = Some a"
    and "\<And>r. cs_active_checkpoint st = Some r \<Longrightarrow> \<not> hr_is_empty (cc_source_range r)"
  shows "contiguous 0 (pa_items a) \<and> span_end 0 (pa_items a) = length h \<and>
    (\<forall>it \<in> set (pa_items a). item_ok px h (pa_effective_checkpoint a) it)"
  using build_projected_ok [OF assms] by blast

theorem projection_covers_history_witness:
  "\<exists>a. build_projected_history sample_codec sample_exchange sample_state (Some sample_checkpoint) ''s'' = Some a \<and>
     span_end 0 (pa_items a) = 4"
proof -
  have "\<not> hr_is_empty (cc_source_range r)" if "cs_active_checkpoint sample_state = Some r" for r
    using that by (auto simp: sample_state_def sample_checkpoint_ref_def hr_is_empty_def context_state_default_def)
  moreover have "length sample_exchange = 4" by (simp add: sample_exchange_def)
  ultimately show ?thesis using sample_projection projection_covers_history by metis
qed

end
