(* ===== verification/Checkpoint_Validation.thy ===== *)
theory Checkpoint_Validation
  imports Projection
begin

text \<open>
  The check a new checkpoint must pass before it replaces messages
  (\<open>context/checkpoint_validation.rs\<close>): its range, hash and required parts, and whether it mentions
  what the user asked to keep. The lemmas state what an accepted checkpoint guarantees.
\<close>

section \<open>Text\<close>

datatype validation_error =
  RangeMismatch | HashMismatch | ConstraintViolation string | SummaryTooLarge

definition is_ascii_whitespace :: "char \<Rightarrow> bool" where
  "is_ascii_whitespace c \<longleftrightarrow> c \<in> {CHR '' '', CHR 0x09, CHR 0x0A, CHR 0x0C, CHR 0x0D}"

definition normalize_text :: "string \<Rightarrow> string" where
  "normalize_text text = map (\<lambda>c. if is_ascii_alphanumeric c \<or> is_ascii_whitespace c
     then to_ascii_lower c else CHR '' '') text"

definition looks_protected :: "string \<Rightarrow> bool" where
  "looks_protected line = (let normalized = normalize_text line
     in if length (utf8_bytes normalized) < 16 then False
        else list_ex (str_contains normalized)
          [''must'', ''should'', ''do not'', ''dont'', ''never'', ''always'', ''required'', ''important'',
           ''keep'', ''preserve''])"

definition significant_words :: "string \<Rightarrow> string list" where
  "significant_words text =
     filter (\<lambda>w. w \<notin> set [''that'', ''this'', ''with'', ''from'', ''have'', ''will'', ''your'', ''into'',
         ''then'', ''they'', ''them'', ''when'', ''were''])
       (filter (\<lambda>w. length (utf8_bytes w) \<ge> 4) (split_whitespace (normalize_text text)))"

definition checkpoint_mentions_anchor :: "string \<Rightarrow> string \<Rightarrow> bool" where
  "checkpoint_mentions_anchor checkpoint_text anchor =
     (let words = significant_words anchor
      in if words = [] then False
         else length (filter (str_contains checkpoint_text) words) \<ge> min 2 (length words))"

section \<open>What the source range holds\<close>

fun is_document :: "content_block \<Rightarrow> bool" where
  "is_document (CbDocument _ _ _) = True"
| "is_document _ = False"

definition message_has_reference :: "message \<Rightarrow> bool" where
  "message_has_reference m = (case m of
       MUser content _ \<Rightarrow> list_ex is_document content
     | MAssistant content \<Rightarrow> list_ex is_document content
     | MToolResult _ _ _ _ _ _ arts \<Rightarrow> (case arts of None \<Rightarrow> False | Some rs \<Rightarrow> rs \<noteq> [])
     | MSystem _ \<Rightarrow> False)"

definition is_untrusted_document :: "content_block \<Rightarrow> bool" where
  "is_untrusted_document b = (case b of CbDocument _ _ Untrusted \<Rightarrow> True | _ \<Rightarrow> False)"

definition message_has_untrusted_content :: "message \<Rightarrow> bool" where
  "message_has_untrusted_content m = (case m of
       MUser content _ \<Rightarrow> list_ex is_untrusted_document content
     | MAssistant content \<Rightarrow> list_ex is_untrusted_document content
     | MToolResult _ _ _ _ _ _ _ \<Rightarrow> True
     | MSystem _ \<Rightarrow> False)"

definition render_checkpoint_text :: "compaction_checkpoint \<Rightarrow> string" where
  "render_checkpoint_text c = normalize_text (join '' '' [ck_goal c, ck_critical_context c,
     join '' '' (ck_constraints c), join '' '' (ck_key_decisions c), join '' '' (ck_next_steps c)])"

definition block_text :: "content_block \<Rightarrow> string option" where
  "block_text b = (case b of CbText t \<Rightarrow> Some t | CbDocument source _ _ \<Rightarrow> Some (bs_data source) | _ \<Rightarrow> None)"

definition trim_bullet :: "string \<Rightarrow> string" where
  "trim_bullet line = dropWhile (\<lambda>c. c \<in> set ''-*0123456789.) '') (trim line)"

definition protected_lines :: "string \<Rightarrow> string list" where
  "protected_lines text = filter looks_protected (map trim_bullet (lines_of text))"

definition message_protected_lines :: "message \<Rightarrow> string list" where
  "message_protected_lines m = (case m of
       MUser content _ \<Rightarrow> concat (map (\<lambda>b. case block_text b of None \<Rightarrow> [] | Some t \<Rightarrow> protected_lines t) content)
     | _ \<Rightarrow> [])"

definition extract_protected_anchors :: "message list \<Rightarrow> string list" where
  "extract_protected_anchors history =
     take 4 (remdups_adj (sort_key (\<lambda>a. - int (length (utf8_bytes a)))
       (concat (map message_protected_lines history))))"

definition document_anchors :: "content_block \<Rightarrow> string list" where
  "document_anchors b = (case b of
       CbDocument source title _ \<Rightarrow>
         (case title of None \<Rightarrow> [] | Some t \<Rightarrow> [t]) @
         [case lines_of (bs_data source) of [] \<Rightarrow> [] | l # _ \<Rightarrow> l]
     | _ \<Rightarrow> [])"

definition message_reference_anchors :: "message \<Rightarrow> string list" where
  "message_reference_anchors m = (case m of
       MUser content _ \<Rightarrow> concat (map document_anchors content)
     | MAssistant content \<Rightarrow> concat (map document_anchors content)
     | MToolResult _ _ _ _ _ _ arts \<Rightarrow> (case arts of None \<Rightarrow> [] | Some rs \<Rightarrow> rs)
     | MSystem _ \<Rightarrow> [])"

definition extract_reference_anchors :: "message list \<Rightarrow> string list" where
  "extract_reference_anchors history =
     take 4 (filter (\<lambda>a. trim a \<noteq> []) (concat (map message_reference_anchors history)))"

section \<open>The check\<close>

definition check_protected :: "compaction_checkpoint \<Rightarrow> message list \<Rightarrow> bool" where
  "check_protected c source =
     (let anchors = extract_protected_anchors source
      in anchors = [] \<or>
         length (filter (checkpoint_mentions_anchor (render_checkpoint_text c)) anchors) \<ge> min (length anchors) 2)"

definition check_references :: "compaction_checkpoint \<Rightarrow> message list \<Rightarrow> bool" where
  "check_references c source =
     (let anchors = extract_reference_anchors source
      in anchors = [] \<or>
         list_ex (checkpoint_mentions_anchor (normalize_text (join '' '' (ck_relevant_references c)))) anchors)"

text \<open>\<open>None\<close> is the panic of slicing the history out of range.\<close>

definition validate_checkpoint :: "(json \<Rightarrow> string) \<Rightarrow> compaction_checkpoint \<Rightarrow> message list
    \<Rightarrow> history_range \<Rightarrow> string \<Rightarrow> (validation_error + unit) option" where
  "validate_checkpoint jt c history expected_range expected_hash =
     (if hr_end expected_range < hr_start expected_range \<or> length history < hr_end expected_range then None
      else Some (let source = history_slice expected_range history in
        if ck_history_range c \<noteq> expected_range then Inl RangeMismatch
        else if ck_history_range_hash c \<noteq> expected_hash then Inl HashMismatch
        else if trim (ck_goal c) = [] then Inl (ConstraintViolation ''goal is empty'')
        else if trim (ck_critical_context c) = [] then Inl (ConstraintViolation ''critical_context is empty'')
        else if list_ex (\<lambda>i. trim i = []) (ck_constraints c) then
          Inl (ConstraintViolation ''constraints contain an empty item'')
        else if list_ex (\<lambda>i. trim i = []) (ck_relevant_references c) then
          Inl (ConstraintViolation ''relevant_references contain an empty item'')
        else if list_ex is_user_message source \<and> ck_constraints c = [] then
          Inl (ConstraintViolation ''user constraints were present in source history but checkpoint constraints are empty'')
        else if list_ex message_has_reference source \<and> ck_relevant_references c = [] then
          Inl (ConstraintViolation ''source history contains references but checkpoint relevant_references are empty'')
        else if list_ex message_has_untrusted_content source \<and> ck_relevant_references c = [] then
          Inl (ConstraintViolation ''untrusted source content requires relevant references in the checkpoint'')
        else if \<not> check_protected c source then
          Inl (ConstraintViolation ''checkpoint omitted explicit protected context from the compacted range'')
        else if \<not> check_references c source then
          Inl (ConstraintViolation ''checkpoint references do not preserve any source reference anchors'')
        else if estimate_text_tokens (render_markdown c) + 4 \<ge>
            sum_list (map (estimate_message_tokens jt) source) then Inl SummaryTooLarge
        else Inr ()))"

lemma validate_checkpoint_accepts:
  assumes "validate_checkpoint jt c history rng hash = Some (Inr ())"
  shows "ck_history_range c = rng" "ck_history_range_hash c = hash"
    "trim (ck_goal c) \<noteq> []" "trim (ck_critical_context c) \<noteq> []"
    "\<exists>m \<in> set (history_slice rng history). is_user_message m \<Longrightarrow> ck_constraints c \<noteq> []"
    "\<exists>m \<in> set (history_slice rng history). is_tool_result m \<Longrightarrow> ck_relevant_references c \<noteq> []"
    "estimate_text_tokens (render_markdown c) + 4 <
       sum_list (map (estimate_message_tokens jt) (history_slice rng history))"
proof -
  show "ck_history_range c = rng" "ck_history_range_hash c = hash"
    "trim (ck_goal c) \<noteq> []" "trim (ck_critical_context c) \<noteq> []"
    "\<exists>m \<in> set (history_slice rng history). is_user_message m \<Longrightarrow> ck_constraints c \<noteq> []"
    "estimate_text_tokens (render_markdown c) + 4 <
       sum_list (map (estimate_message_tokens jt) (history_slice rng history))"
    using assms by (auto simp: validate_checkpoint_def Let_def list_ex_iff split: if_splits)
  have "is_tool_result m \<Longrightarrow> message_has_untrusted_content m" for m
    by (cases m) (auto simp: message_has_untrusted_content_def)
  then show "\<exists>m \<in> set (history_slice rng history). is_tool_result m \<Longrightarrow> ck_relevant_references c \<noteq> []"
    using assms by (auto simp: validate_checkpoint_def Let_def list_ex_iff split: if_splits)
qed

lemma checkpoint_message_tokens:
  assumes "validate_checkpoint jt c history rng hash = Some (Inr ())"
  shows "estimate_message_tokens jt (sm_message (checkpoint_message sid c)) <
    sum_list (map (estimate_message_tokens jt) (history_slice rng history))"
  using validate_checkpoint_accepts(7) [OF assms]
  by (simp add: checkpoint_message_def saturating_add_def)

section \<open>Properties\<close>

text \<open>A range whose anchors have no word of four letters or more that counts can never be
  compacted: a protected instruction such as ``do not do it or no'', or documents whose titles
  and first lines have no such word, make the check reject every checkpoint.\<close>

theorem wordless_anchors_block_compaction:
  assumes "anchors = extract_protected_anchors (history_slice rng history) \<or>
      anchors = extract_reference_anchors (history_slice rng history)"
    and "anchors \<noteq> []" "\<forall>a \<in> set anchors. significant_words a = []"
  shows "validate_checkpoint jt c history rng hash \<noteq> Some (Inr ())"
proof -
  have none: "\<not> checkpoint_mentions_anchor t a" if "a \<in> set anchors" for t a
    using assms(3) that by (simp add: checkpoint_mentions_anchor_def)
  then have "filter (checkpoint_mentions_anchor t) anchors = []" for t
    by (simp add: filter_empty_conv)
  moreover have "\<not> list_ex (checkpoint_mentions_anchor t) anchors" for t
    using none by (simp add: list_ex_iff)
  ultimately have "\<not> check_protected c (history_slice rng history) \<or> \<not> check_references c (history_slice rng history)"
    using assms(1,2) by (auto simp: check_protected_def check_references_def Let_def min_def split: if_splits)
  then show ?thesis by (auto simp: validate_checkpoint_def Let_def)
qed

theorem wordless_anchors_block_compaction_witness:
  "\<forall>jt c hash. validate_checkpoint jt c [MUser [CbText ''do not do it or no''] None]
     \<lparr>hr_start = 0, hr_end = 1\<rparr> hash \<noteq> Some (Inr ())"
proof (intro allI)
  fix jt c hash
  have "extract_protected_anchors (history_slice \<lparr>hr_start = 0, hr_end = 1\<rparr>
      [MUser [CbText ''do not do it or no''] None]) = [''do not do it or no'']"
    "significant_words ''do not do it or no'' = []"
    by code_simp+
  then show "validate_checkpoint jt c [MUser [CbText ''do not do it or no''] None]
     \<lparr>hr_start = 0, hr_end = 1\<rparr> hash \<noteq> Some (Inr ())"
    by (intro wordless_anchors_block_compaction [OF disjI1]) auto
qed

end
