(* ===== verification/Compactor.thy ===== *)
theory Compactor
  imports Checkpoint_Validation Assembler Turn
begin

text \<open>
  Asking a model for a checkpoint (\<open>gestalt-runtime/src/compaction.rs\<close>): the prompt, the JSON object
  in the answer and the checkpoint built from it. \<open>parse\<close> reads JSON, \<open>decode\<close> is the decoder
  derived for the answer's structure, and \<open>stream\<close> yields the items of the provider's stream.
\<close>

section \<open>The prompt\<close>

record compactor_output =
  co_goal :: string
  co_constraints :: "string list"
  co_completed_work :: "string list"
  co_in_progress_work :: "string list"
  co_blocked_items :: "string list"
  co_key_decisions :: "string list"
  co_next_steps :: "string list"
  co_critical_context :: string
  co_relevant_references :: "string list"

definition role_name :: "message \<Rightarrow> string" where
  "role_name m = (case m of MSystem _ \<Rightarrow> ''System'' | MUser _ _ \<Rightarrow> ''User''
     | MAssistant _ \<Rightarrow> ''Assistant'' | MToolResult _ _ _ _ _ _ _ \<Rightarrow> ''ToolResult'')"

definition compactor_content :: "(json \<Rightarrow> string) \<Rightarrow> message \<Rightarrow> string" where
  "compactor_content jt m = (case m of
       MSystem content \<Rightarrow> content
     | MUser content _ \<Rightarrow> concat (map (\<lambda>b. case b of CbText t \<Rightarrow> t
           | CbDocument source _ _ \<Rightarrow> bs_data source | _ \<Rightarrow> []) content)
     | MAssistant content \<Rightarrow> concat (map (\<lambda>b. case b of CbText t \<Rightarrow> t
           | CbToolUse _ name input \<Rightarrow> ''Tool Use: '' @ name @ '' with input: '' @ jt input @ newline
           | _ \<Rightarrow> []) content)
     | MToolResult _ content is_err _ tool_name output_hash _ \<Rightarrow>
         ''Tool Result: '' @ (case tool_name of None \<Rightarrow> ''unknown'' | Some n \<Rightarrow> n) @
         '' ('' @ (if is_err then ''failed'' else ''succeeded'') @ '')'' @ newline @
         ''Output Hash: '' @ (case output_hash of None \<Rightarrow> ''none'' | Some h \<Rightarrow> h) @ newline @
         ''Snippet: '' @ take 300 content @ newline)"

definition compactor_entry :: "(json \<Rightarrow> string) \<Rightarrow> nat \<times> message \<Rightarrow> string" where
  "compactor_entry jt im = (case im of (i, m) \<Rightarrow>
     if is_checkpoint_message m then []
     else ''Message '' @ dec i @ '' ('' @ role_name m @ ''):'' @ newline @
       compactor_content jt m @ newline @ newline)"

definition json_quote :: "string \<Rightarrow> string" where
  "json_quote s = [CHR 0x22] @ s @ [CHR 0x22]"

definition compactor_schema_lines :: "string list" where
  "compactor_schema_lines =
     [''{'',
      ''  '' @ json_quote ''goal'' @ '': '' @ json_quote ''The overall goal of the session'' @ '','',
      ''  '' @ json_quote ''constraints'' @ '': ['' @ json_quote ''Constraint 1'' @ '', '' @ json_quote ''Constraint 2'' @ ''],'',
      ''  '' @ json_quote ''completed_work'' @ '': ['' @ json_quote ''Completed item 1'' @ '', '' @ json_quote ''Completed item 2'' @ ''],'',
      ''  '' @ json_quote ''in_progress_work'' @ '': ['' @ json_quote ''In progress item 1'' @ ''],'',
      ''  '' @ json_quote ''blocked_items'' @ '': ['' @ json_quote ''Blocked item 1'' @ ''],'',
      ''  '' @ json_quote ''key_decisions'' @ '': ['' @ json_quote ''Decision 1'' @ ''],'',
      ''  '' @ json_quote ''next_steps'' @ '': ['' @ json_quote ''Next step 1'' @ ''],'',
      ''  '' @ json_quote ''critical_context'' @ '': '' @ json_quote ''Any critical background or context'' @ '','',
      ''  '' @ json_quote ''relevant_references'' @ '': ['' @ json_quote ''Reference 1'' @ '']'',
      ''}'']"

definition build_compactor_prompt :: "(json \<Rightarrow> string) \<Rightarrow> message list \<Rightarrow> compaction_checkpoint option
    \<Rightarrow> message list" where
  "build_compactor_prompt jt history_to_compact previous =
     [MSystem ''You are an expert context compactor helper.'',
      MUser [CbText (
        ''You are an expert context compactor. Your job is to compress a range of conversational history into a structured checkpoint summary JSON object.'' @ newline @ newline @
        (case previous of None \<Rightarrow> []
         | Some prev \<Rightarrow> ''Here is the PREVIOUS checkpoint summary which summarizes the history prior to the current chunk:'' @ newline @
             render_markdown prev @ newline) @
        ''Please summarize the following new sequence of messages. Integrate it with any previous checkpoint details to produce the NEW consolidated checkpoint summary.'' @ newline @ newline @
        ''Output MUST be a single JSON object with EXACTLY the following structure:'' @ newline @
        concat (map (\<lambda>l. l @ newline) compactor_schema_lines) @
        newline @ ''Be extremely precise. Do not drop important user constraints or completed work. Ensure that '' @
        [CHR 0x27] @ ''goal'' @ [CHR 0x27] @ '' and '' @ [CHR 0x27] @ ''critical_context'' @ [CHR 0x27] @
        '' are not empty.'' @ newline @ newline @
        ''--- Messages to Compact ---'' @ newline @
        concat (map (compactor_entry jt) (List.enumerate 0 history_to_compact)))] None]"

section \<open>The answer\<close>

text \<open>The slice from the first opening to the last closing brace; it panics when it would start more
  than one past its end: the outer \<open>None\<close>.\<close>

definition parse_json_from_response :: "json_parser \<Rightarrow> string \<Rightarrow> json option option" where
  "parse_json_from_response parse text =
     (let parsed = trim text
      in case find_index (\<lambda>c. c = CHR ''{'') parsed of
           None \<Rightarrow> Some None
         | Some start \<Rightarrow> (case find_index (\<lambda>c. c = CHR ''}'') (rev parsed) of
               None \<Rightarrow> Some None
             | Some back \<Rightarrow>
                 (let after_end = length parsed - back
                  in if after_end < start then None
                     else (case parse (take (after_end - start) (drop start parsed)) of
                         Inr v \<Rightarrow> Some (Some v)
                       | Inl _ \<Rightarrow> Some None))))"

fun drain_stream :: "json_parser \<Rightarrow> (harness_error + agent_event) list \<Rightarrow> turn_accumulator
    \<Rightarrow> harness_error + turn_accumulator" where
  "drain_stream parse [] acc = Inr acc"
| "drain_stream parse (Inl e # rest) acc = Inl e"
| "drain_stream parse (Inr ev # rest) acc = drain_stream parse rest (snd (acc_push parse ev acc))"

text \<open>The temperature and top-p are the bits of 0.1 and 1.0.\<close>

definition compactor_request :: "(json \<Rightarrow> string) \<Rightarrow> string \<Rightarrow> message list \<Rightarrow> compaction_checkpoint option
    \<Rightarrow> provider_request" where
  "compactor_request jt model history previous =
     \<lparr>rq_model = model, rq_messages = build_compactor_prompt jt history previous, rq_tools = [],
      rq_tool_name_map = [], rq_max_tokens = 4096, rq_temperature = Some 0x3DCCCCCD,
      rq_top_p = Some 0x3F800000, rq_stop_sequences = [], rq_cache_plan = None, rq_metadata = VNull,
      rq_reasoning_effort = None, rq_text_verbosity = None\<rparr>"

definition checkpoint_of :: "prompt_codec \<Rightarrow> (json \<Rightarrow> string) \<Rightarrow> string \<Rightarrow> message list \<Rightarrow> history_range
    \<Rightarrow> string \<Rightarrow> string \<Rightarrow> compaction_checkpoint option \<Rightarrow> string \<Rightarrow> compactor_output
    \<Rightarrow> compaction_checkpoint" where
  "checkpoint_of px jt model history rng range_hash policy_version previous text out =
     \<lparr>ck_v = 1, ck_checkpoint_id = px_sha256 px text, ck_history_range = rng,
      ck_history_range_hash = range_hash, ck_policy_version = policy_version, ck_compactor_model = model,
      ck_prompt_hash = px_sha256 px (px_messages px (build_compactor_prompt jt history previous)),
      ck_goal = co_goal out, ck_constraints = co_constraints out, ck_completed_work = co_completed_work out,
      ck_in_progress_work = co_in_progress_work out, ck_blocked_items = co_blocked_items out,
      ck_key_decisions = co_key_decisions out, ck_next_steps = co_next_steps out,
      ck_critical_context = co_critical_context out, ck_relevant_references = co_relevant_references out\<rparr>"

definition run_compactor :: "prompt_codec \<Rightarrow> (json \<Rightarrow> string) \<Rightarrow> json_parser
    \<Rightarrow> (json \<Rightarrow> string + compactor_output)
    \<Rightarrow> (provider_request \<Rightarrow> harness_error + (harness_error + agent_event) list)
    \<Rightarrow> string \<Rightarrow> message list \<Rightarrow> history_range \<Rightarrow> string \<Rightarrow> string
    \<Rightarrow> compaction_checkpoint option \<Rightarrow> harness_error + compaction_checkpoint" where
  "run_compactor px jt parse decode stream model history rng range_hash policy_version previous =
     (case stream (compactor_request jt model history previous) of
        Inl e \<Rightarrow> Inl e
      | Inr items \<Rightarrow> (case drain_stream parse items acc_default of
          Inl e \<Rightarrow> Inl e
      | Inr acc \<Rightarrow> (case acc_finish parse acc of
          Inl e \<Rightarrow> Inl e
      | Inr turn \<Rightarrow>
          (let text = full_text turn
           in case parse_json_from_response parse text of
                None \<Rightarrow> Inl (HPanic ''byte range starts after its end'')
              | Some None \<Rightarrow> Inl (HProvider (UnexpectedResponse
                  (''Failed to parse JSON compaction checkpoint from response: '' @ text)))
              | Some (Some v) \<Rightarrow> (case decode v of
                    Inl err \<Rightarrow> Inl (HProvider (UnexpectedResponse (''Compaction JSON format mismatch: '' @ err)))
                  | Inr out \<Rightarrow> Inr (checkpoint_of px jt model history rng range_hash policy_version
                      previous text out))))))"

lemma run_compactor_range:
  assumes "run_compactor px jt parse decode stream model h rng hash pv prev = Inr c"
  shows "ck_history_range c = rng" "ck_history_range_hash c = hash"
  using assms
  by (auto simp: run_compactor_def checkpoint_of_def Let_def split: sum.splits option.splits)

section \<open>Properties\<close>

text \<open>An answer of the compaction model whose only closing brace stands before its first opening
  brace makes the parser panic, instead of being reported as an unexpected response.\<close>

theorem compactor_answer_panics:
  "parse_json_from_response parse ''} then {'' = None"
  by (simp add: parse_json_from_response_def trim_def trim_matches_def is_whitespace_def)

end
