(* ===== verification/Context_Pipeline.thy ===== *)
theory Context_Pipeline
  imports Compactor Events
begin

text \<open>
  The runtime's context pipeline (\<open>context/mod.rs\<close>, with the writing of artifacts from
  \<open>trace/context_artifacts.rs\<close>): planning a packet, composing it with patches, the manifest, and
  \<open>prepare_context\<close>, which clears tool results and compacts history until a request fits. An
  operation yields the events it emits and its result; a caller that fails to take an event
  stops the operation there. The record \<open>pipeline\<close> holds what the code calls outside.
\<close>

section \<open>Emitting operations\<close>

type_synonym 'a emitting = "agent_event list \<times> (harness_error + 'a)"

definition yield_ok :: "'a \<Rightarrow> 'a emitting" where
  "yield_ok x = ([], Inr x)"

definition yield_error :: "harness_error \<Rightarrow> 'a emitting" where
  "yield_error e = ([], Inl e)"

definition and_then :: "'a emitting \<Rightarrow> ('a \<Rightarrow> 'b emitting) \<Rightarrow> 'b emitting" where
  "and_then m f = (case m of (evs, r) \<Rightarrow> (case r of
       Inl e \<Rightarrow> (evs, Inl e)
     | Inr x \<Rightarrow> (case f x of (evs', r') \<Rightarrow> (evs @ evs', r'))))"

definition emitting_event :: "agent_event \<Rightarrow> unit emitting" where
  "emitting_event ev = ([ev], Inr ())"

definition lift_error :: "harness_error + 'a \<Rightarrow> 'a emitting" where
  "lift_error r = ([], r)"

section \<open>The pipeline\<close>

record context_assembler =
  cb_version :: string
  cb_system_messages :: "message list"
  cb_assemble :: "context_plan \<Rightarrow> context_error + context_packet"

record context_patch =
  cpt_message :: message
  cpt_stability :: context_stability
  cpt_source :: "context_source_ref option"
  cpt_omissions :: "context_omission list"

text \<open>\<open>cx_count\<close> and \<open>cx_stream\<close> are the provider's, \<open>cx_write\<close> is the error of writing a file, if any,
  \<open>cx_report\<close> builds the context report and gives its id, and the two hashes are over serialised
  manifests and checkpoints.\<close>

record pipeline =
  cx_base :: context_assembler
  cx_patches :: "context_patch list"
  cx_codec :: prompt_codec
  cx_json_text :: "json \<Rightarrow> string"
  cx_files :: file_system
  cx_write :: "string \<Rightarrow> string option"
  cx_report :: "projection_manifest \<Rightarrow> context_packet \<Rightarrow> trace_error + string"
  cx_parse_checkpoint :: "string \<Rightarrow> string + compaction_checkpoint"
  cx_parse :: json_parser
  cx_decode :: "json \<Rightarrow> string + compactor_output"
  cx_stream :: "provider_request \<Rightarrow> harness_error + (harness_error + agent_event) list"
  cx_count :: "provider_request \<Rightarrow> harness_error + nat"
  cx_manifest_hash :: "projection_manifest \<Rightarrow> string"
  cx_checkpoint_hash :: "compaction_checkpoint \<Rightarrow> string"

section \<open>Planning a packet\<close>

text \<open>The pipeline renders messages for its estimates with code of its own.\<close>

definition render_block_estimate :: "content_block \<Rightarrow> content_block" where
  "render_block_estimate b = (case b of
       CbDocument source title Trusted \<Rightarrow> CbDocument source title Trusted
     | CbDocument source title Untrusted \<Rightarrow> CbText (render_untrusted_document source title)
     | CbText t \<Rightarrow> CbText t
     | CbThinking t \<Rightarrow> CbThinking t
     | CbImage source \<Rightarrow> CbImage source
     | CbToolUse i name input \<Rightarrow> CbToolUse i name input)"

definition render_message_estimate :: "message \<Rightarrow> message" where
  "render_message_estimate m = (case m of
       MSystem content \<Rightarrow> MSystem content
     | MUser content md \<Rightarrow> MUser (map render_block_estimate content) md
     | MAssistant content \<Rightarrow> MAssistant (map render_block_estimate content)
     | MToolResult u content e f t h a \<Rightarrow>
         MToolResult u (render_untrusted_text ''tool_result'' content) e f t h a)"

text \<open>The messages kept, newest first, from a reversed history.\<close>

fun keep_history :: "(json \<Rightarrow> string) \<Rightarrow> nat \<Rightarrow> session_message list \<Rightarrow> session_message list" where
  "keep_history jt remaining [] = []"
| "keep_history jt remaining (m # ms) =
     (if remaining < 4 then []
      else (let cost = estimate_message_tokens jt (render_message_estimate (sm_message m))
        in if cost \<le> remaining then m # keep_history jt (saturating_sub remaining cost) ms else []))"

definition history_omission :: "(json \<Rightarrow> string) \<Rightarrow> nat \<times> session_message \<Rightarrow> context_omission" where
  "history_omission jt im = (case im of (i, m) \<Rightarrow>
     \<lparr>om_kind = ''history'', om_path_or_label = ''history_message_'' @ dec i,
      om_trust = trust_label (sm_message m), om_reason = ''budget_exhausted'',
      om_token_estimate = estimate_message_tokens jt (render_message_estimate (sm_message m)),
      om_authority = None\<rparr>)"

definition plan_context :: "(json \<Rightarrow> string) \<Rightarrow> context_assembler \<Rightarrow> session_message list \<Rightarrow> token_budget
    \<Rightarrow> context_plan" where
  "plan_context jt B history budget =
     (let sys_tokens = total_tokens jt (cb_system_messages B);
          available = available_total budget;
          kept = (if sys_tokens < available \<and> \<not> exhausted budget
            then keep_history jt (saturating_sub (saturating_sub available sys_tokens) 24) (rev history)
            else []);
          dropped = length history - length kept
      in \<lparr>pn_history = rev kept,
          pn_omissions = map (history_omission jt) (List.enumerate 0 (take dropped history)),
          pn_budget_exhausted = (exhausted budget \<or> dropped > 0)\<rparr>)"

section \<open>Composing with patches\<close>

definition is_stable :: "context_stability \<Rightarrow> bool" where
  "is_stable s \<longleftrightarrow> s = SessionStatic \<or> s = ActivationStatic"

definition compose_messages_with_prefix :: "message list \<Rightarrow> context_patch list \<Rightarrow> message list \<times> nat" where
  "compose_messages_with_prefix base patches =
     (let prefix_len = length (stable_prefix base);
          stable = filter (\<lambda>p. is_stable (cpt_stability p)) patches;
          unstable = filter (\<lambda>p. \<not> is_stable (cpt_stability p)) patches
      in (take prefix_len base @ map cpt_message stable @ map cpt_message unstable @ drop prefix_len base,
          prefix_len + length stable))"

definition compose_messages :: "message list \<Rightarrow> context_patch list \<Rightarrow> message list" where
  "compose_messages base patches = fst (compose_messages_with_prefix base patches)"

definition rebuild_packet :: "prompt_codec \<Rightarrow> context_packet \<Rightarrow> message list \<Rightarrow> nat \<Rightarrow> context_packet" where
  "rebuild_packet px packet messages stable_len =
     (let pk = packet\<lparr>pk_packet_hash := px_sha256 px (px_messages px messages @ '':'' @ pk_pipeline_version packet),
            pk_message_hashes := map (\<lambda>m. px_sha256 px (px_message px m)) messages,
            pk_messages := messages\<rparr>
      in if pk_cache_plan packet = None then pk
         else (let stable = take stable_len messages;
                   snapshot = prompt_snapshot_new px stable 0;
                   segments = prompt_segment_from px SegSnapshot SessionStatic stable #
                     tail_segments px (drop stable_len messages)
               in pk\<lparr>pk_snapshot_hash := Some (pst_snapshot_hash snapshot),
                     pk_cache_prefix_hash := Some (pst_prefix_hash snapshot),
                     pk_segments := segments,
                     pk_cache_plan := Some (with_segments segments (cache_plan_new StratSnapshot snapshot))\<rparr>))"

definition add_patch_notes :: "context_patch list \<Rightarrow> context_packet \<Rightarrow> context_packet" where
  "add_patch_notes patches pk = fold (\<lambda>p pk.
     pk\<lparr>pk_sources := pk_sources pk @ (case cpt_source p of None \<Rightarrow> [] | Some s \<Rightarrow> [s]),
        pk_omissions := pk_omissions pk @ cpt_omissions p\<rparr>) patches pk"

text \<open>The assembler's error is unwrapped.\<close>

definition build_packet_with_plan :: "pipeline \<Rightarrow> session_message list \<Rightarrow> token_budget
    \<Rightarrow> harness_error + (context_packet \<times> context_plan)" where
  "build_packet_with_plan P history budget =
     (let plan = plan_context (cx_json_text P) (cx_base P) history budget
      in case cb_assemble (cx_base P) plan of
           Inl e \<Rightarrow> Inl (HPanic ''called Result::unwrap() on an Err value'')
         | Inr packet \<Rightarrow>
             if cx_patches P = [] then Inr (packet, plan)
             else (case compose_messages_with_prefix (pk_messages packet) (cx_patches P) of
               (messages, stable_len) \<Rightarrow>
                 Inr (add_patch_notes (cx_patches P) (rebuild_packet (cx_codec P) packet messages stable_len), plan)))"

definition process_history :: "pipeline \<Rightarrow> session_message list \<Rightarrow> token_budget \<Rightarrow> harness_error + message list" where
  "process_history P history budget =
     (case cb_assemble (cx_base P) (plan_context (cx_json_text P) (cx_base P) history budget) of
        Inl e \<Rightarrow> Inl (HPanic ''called Result::unwrap() on an Err value'')
      | Inr packet \<Rightarrow> Inr (compose_messages (pk_messages packet) (cx_patches P)))"

definition unbounded_budget :: "token_budget \<Rightarrow> token_budget" where
  "unbounded_budget b = b\<lparr>tb_model_limit := usize_max, tb_reserved_output := 0, tb_used_system := 0,
     tb_used_history := 0, tb_used_sources := 0, tb_used_tools := 0, tb_used_memory := 0,
     tb_minimum_turn_budget := 0\<rparr>"

definition build_management_packet_with_plan :: "pipeline \<Rightarrow> session_message list \<Rightarrow> token_budget
    \<Rightarrow> harness_error + (context_packet \<times> context_plan)" where
  "build_management_packet_with_plan P history budget =
     build_packet_with_plan P history (unbounded_budget budget)"

definition request_with :: "provider_request \<Rightarrow> context_packet \<Rightarrow> provider_request" where
  "request_with template packet =
     template\<lparr>rq_messages := pk_messages packet, rq_cache_plan := pk_cache_plan packet\<rparr>"

definition request_token_estimate :: "pipeline \<Rightarrow> provider_request \<Rightarrow> context_packet \<Rightarrow> harness_error + nat" where
  "request_token_estimate P template packet = cx_count P (request_with template packet)"

section \<open>Manifests\<close>

definition checked_artifacts_dir :: "context_management_policy \<Rightarrow> string option \<Rightarrow> harness_error + string option" where
  "checked_artifacts_dir policy dir =
     (if cm_enabled policy \<and> cm_durability policy = DurRequired \<and> dir = None then
        Inl (HContext (DurabilityFailed
          ''context management durability is required but no artifact directory was provided''))
      else Inr dir)"

definition cleared_result_refs :: "clear_action list \<Rightarrow> cleared_tool_result_ref list" where
  "cleared_result_refs actions = map (\<lambda>a. \<lparr>ct_tool_use_id = ca_tool_use_id a, ct_message_id = ca_message_id a,
     ct_output_hash = ca_output_hash a, ct_artifact = ca_artifact a\<rparr>) actions"

definition omitted_message_ids :: "session_message list \<Rightarrow> session_message list \<Rightarrow> message_id list" where
  "omitted_message_ids canonical projected =
     filter (\<lambda>i. i \<notin> set (map sm_id projected)) (map sm_id canonical)"

definition synthetic_message_id :: "string \<Rightarrow> nat \<Rightarrow> message_id" where
  "synthetic_message_id sid n = \<lparr>mi_session = sid, mi_namespace = ''synthetic'', mi_sequence = n\<rparr>"

definition message_role :: "message \<Rightarrow> string" where
  "message_role m = (case m of MSystem _ \<Rightarrow> ''system'' | MUser _ _ \<Rightarrow> ''user'' | MAssistant _ \<Rightarrow> ''assistant''
     | MToolResult _ _ _ _ _ _ _ \<Rightarrow> ''toolresult'')"

definition message_metadata_ref :: "prompt_codec \<Rightarrow> string \<Rightarrow> session_message list \<Rightarrow> context_plan \<Rightarrow> nat \<Rightarrow> nat
    \<Rightarrow> nat \<times> message \<Rightarrow> projection_metadata" where
  "message_metadata_ref px sid canonical plan start_idx end_idx im = (case im of (idx, m) \<Rightarrow>
     (let entry = (if idx \<ge> start_idx \<and> idx < end_idx \<and> idx - start_idx < length (pn_history plan)
            then Some (pn_history plan ! (idx - start_idx)) else None)
      in \<lparr>pmd_message_id = (case entry of None \<Rightarrow> synthetic_message_id sid idx | Some e \<Rightarrow> sm_id e),
          pmd_role = message_role m,
          pmd_original_index = (case entry of None \<Rightarrow> None
             | Some e \<Rightarrow> find_index (\<lambda>c. sm_id c = sm_id e) canonical),
          pmd_is_tombstone = (case m of MToolResult _ content _ _ _ _ _ \<Rightarrow> starts_with content ''<tombstone'' | _ \<Rightarrow> False),
          pmd_is_checkpoint = is_checkpoint_message m,
          pmd_hash = px_sha256 px (px_message px m)\<rparr>))"

definition build_manifest :: "pipeline \<Rightarrow> prepare_request \<Rightarrow> context_packet \<Rightarrow> context_plan
    \<Rightarrow> compaction_checkpoint_ref option \<Rightarrow> cleared_tool_result_ref list \<Rightarrow> projection_manifest" where
  "build_manifest P q packet plan checkpoint_ref cleared =
     (let end_idx = (if pn_budget_exhausted plan then saturating_sub (length (pk_messages packet)) 1
            else length (pk_messages packet));
          start_idx = saturating_sub end_idx (length (pn_history plan));
          partial = \<lparr>pm_v = 1, pm_manifest_id = [], pm_session_id = pq_session_id q, pm_run_id = pq_run_id q,
            pm_turn_id = pq_turn_id q, pm_policy = pq_policy q, pm_token_estimate = pk_token_estimate packet,
            pm_stable_prefix_hash = pk_cache_prefix_hash packet, pm_checkpoint_ref = checkpoint_ref,
            pm_cleared_results = cleared,
            pm_omitted_messages = omitted_message_ids (pq_history q) (pn_history plan),
            pm_messages_metadata = map (message_metadata_ref (cx_codec P) (pq_session_id q) (pq_history q) plan start_idx end_idx)
              (List.enumerate 0 (pk_messages packet)),
            pm_retention_fingerprint = Some (rs_fingerprint (pq_tool_retention q)),
            pm_context_report_ref = Some (''context_report_'' @ pk_packet_hash packet @ ''.json'')\<rparr>
      in partial\<lparr>pm_manifest_id := cx_manifest_hash P partial\<rparr>)"

section \<open>Artifacts\<close>

text \<open>The diagnostic of a failed write that the durability mode tolerates.\<close>

definition persistence_result :: "string option \<Rightarrow> durability_mode \<Rightarrow> string
    \<Rightarrow> harness_error + (string \<times> string) option" where
  "persistence_result result durability code = (case result of
       None \<Rightarrow> Inr None
     | Some err \<Rightarrow> if durability = DurRequired then Inl (HTrace (WriteFailed err)) else Inr (Some (code, err)))"

definition persist_file :: "pipeline \<Rightarrow> string \<Rightarrow> string \<Rightarrow> durability_mode \<Rightarrow> string
    \<Rightarrow> harness_error + (string \<times> string) option" where
  "persist_file P dir name durability code =
     (if durability = DurDisabled then Inr None
      else persistence_result (cx_write P (path_join dir name)) durability code)"

definition persist_manifest :: "pipeline \<Rightarrow> projection_manifest \<Rightarrow> string \<Rightarrow> durability_mode
    \<Rightarrow> harness_error + (string \<times> string) option" where
  "persist_manifest P manifest dir durability =
     persist_file P dir (''projection_manifest_'' @ pm_manifest_id manifest @ ''.json'') durability
       ''PROJECTION_MANIFEST_PERSISTENCE_FAILED''"

definition persist_checkpoint :: "pipeline \<Rightarrow> compaction_checkpoint \<Rightarrow> string \<Rightarrow> durability_mode
    \<Rightarrow> harness_error + (string \<times> string) option" where
  "persist_checkpoint P c dir durability =
     persist_file P dir (checkpoint_file (ck_checkpoint_id c)) durability
       ''COMPACTION_CHECKPOINT_PERSISTENCE_FAILED''"

definition emit_diagnostic :: "(string \<times> string) option \<Rightarrow> unit emitting" where
  "emit_diagnostic d = (case d of None \<Rightarrow> yield_ok ()
     | Some (code, msg) \<Rightarrow> emitting_event (EvError (code @ '': '' @ msg) True))"

definition persist_context_artifacts :: "pipeline \<Rightarrow> projection_manifest \<Rightarrow> context_packet
    \<Rightarrow> string option \<Rightarrow> durability_mode \<Rightarrow> unit emitting" where
  "persist_context_artifacts P manifest packet artifacts_dir durability = (case artifacts_dir of
       None \<Rightarrow> yield_ok ()
     | Some dir \<Rightarrow>
         and_then (lift_error (persist_manifest P manifest dir durability)) (\<lambda>d1.
         and_then (emit_diagnostic d1) (\<lambda>_.
         (case cx_report P manifest packet of
            Inl e \<Rightarrow> yield_error (HTrace e)
          | Inr report_id \<Rightarrow>
              and_then (lift_error (persist_file P dir (''context_report_'' @ report_id @ ''.json'') durability
                  ''CONTEXT_REPORT_PERSISTENCE_FAILED'')) emit_diagnostic))))"

end
