(* ===== verification/Context_Preparation.thy ===== *)
theory Context_Preparation
  imports Context_Pipeline Effects
begin

text \<open>
  \<open>prepare_context\<close> of the runtime's pipeline (\<open>context/mod.rs\<close>): it loads the checkpoint, projects
  the history, and unless management is off it clears tool results and then compacts history
  until the request fits. The lemmas carry what holds of the result of an operation.
\<close>

section \<open>The stages\<close>

definition persist_policy :: "prepare_request \<Rightarrow> durability_mode" where
  "persist_policy q = cm_durability (pq_policy q)"

text \<open>The end of every successful branch: the manifest, the artifacts and the prepared context.\<close>

definition finish_prepare :: "pipeline \<Rightarrow> prepare_request \<Rightarrow> string option \<Rightarrow> context_packet \<Rightarrow> context_plan
    \<Rightarrow> compaction_checkpoint_ref option \<Rightarrow> cleared_tool_result_ref list \<Rightarrow> context_state_delta
    \<Rightarrow> prepared_context emitting" where
  "finish_prepare P q dir packet plan checkpoint_ref cleared delta =
     (let manifest = build_manifest P q packet plan checkpoint_ref cleared
      in and_then (persist_context_artifacts P manifest packet dir (persist_policy q)) (\<lambda>_.
         yield_ok \<lparr>pcx_packet = packet, pcx_manifest = manifest, pcx_state_delta = delta\<rparr>))"

definition basic_delta :: "prepare_request \<Rightarrow> compaction_checkpoint_ref state_update \<Rightarrow> string list
    \<Rightarrow> context_state_delta" where
  "basic_delta q update removed = delta_default\<lparr>dl_active_checkpoint := update, dl_cleared_remove := removed,
     dl_policy_fingerprint := Some (rs_fingerprint (pq_tool_retention q))\<rparr>"

definition action_tombstone :: "clear_action \<Rightarrow> message" where
  "action_tombstone a = MToolResult (ca_tool_use_id a)
     (render_tombstone (ca_tool_use_id a) (ca_tool_name a) (ca_output_hash a)) False None
     (Some (ca_tool_name a)) (Some (ca_output_hash a))
     (map_option (\<lambda>art. [ar_relative_path art]) (ca_artifact a))"

definition tombstone_item :: "clear_action \<Rightarrow> projected_item list \<Rightarrow> projected_item list" where
  "tombstone_item a items =
     (if ca_message_index a < length items then
        (case items ! ca_message_index a of
           ItCanonical i k m \<Rightarrow> items[ca_message_index a := ItTombstone (ca_message_id a) k (action_tombstone a)]
         | _ \<Rightarrow> items)
      else items)"

definition is_checkpoint_item :: "projected_item \<Rightarrow> bool" where
  "is_checkpoint_item it = (case it of ItCheckpoint _ _ _ \<Rightarrow> True | _ \<Rightarrow> False)"

text \<open>What clearing leaves: the history, the actions, and the items with the new tombstones.\<close>

record cleared_projection =
  cl_history :: "session_message list"
  cl_actions :: "clear_action list"
  cl_items :: "projected_item list"

definition clear_projection :: "pipeline \<Rightarrow> prepare_request \<Rightarrow> projected_item list \<Rightarrow> cleared_projection" where
  "clear_projection P q items =
     (case clear_eligible_tool_results (cx_json_text P) (pq_run_id q)
         (to_session_messages (pq_session_id q) items) (pq_tool_retention q)
         (tool_result_budget (pq_token_budget q) (pq_policy q))
         (cm_keep_recent_turns (pq_policy q)) (cm_keep_recent_tokens (pq_policy q)) of
        (cleared, actions) \<Rightarrow> \<lparr>cl_history = cleared, cl_actions = actions,
           cl_items = fold tombstone_item actions items\<rparr>)"

definition exhaustion :: "string \<Rightarrow> string \<Rightarrow> 'a emitting" where
  "exhaustion details msg =
     and_then (emitting_event (EvAux (AuxContextExhaustion details)))
       (\<lambda>_. yield_error (HContext (CtxExhausted msg)))"

definition management_failed :: "string \<Rightarrow> 'a emitting" where
  "management_failed msg =
     and_then (emitting_event (EvAux (AuxContextManagementFailed msg)))
       (\<lambda>_. yield_error (HContext (PipelineFailed msg)))"

fun validation_debug :: "validation_error \<Rightarrow> string" where
  "validation_debug RangeMismatch = ''RangeMismatch''"
| "validation_debug HashMismatch = ''HashMismatch''"
| "validation_debug (ConstraintViolation s) =
     ''ConstraintViolation('' @ [CHR 0x22] @ s @ [CHR 0x22] @ '')''"
| "validation_debug SummaryTooLarge = ''SummaryTooLarge''"

definition checkpoint_artifact_ref :: "pipeline \<Rightarrow> string \<Rightarrow> compaction_checkpoint \<Rightarrow> artifact_ref" where
  "checkpoint_artifact_ref P run_id c = \<lparr>ar_run_id = run_id,
     ar_relative_path = checkpoint_file (ck_checkpoint_id c), ar_content_hash = cx_checkpoint_hash P c\<rparr>"

definition store_checkpoint :: "pipeline \<Rightarrow> prepare_request \<Rightarrow> string option \<Rightarrow> compaction_checkpoint
    \<Rightarrow> artifact_ref option emitting" where
  "store_checkpoint P q dir c = (case dir of
       None \<Rightarrow> yield_ok None
     | Some d \<Rightarrow>
         and_then (lift_error (persist_checkpoint P c d (persist_policy q))) (\<lambda>diag.
         and_then (emit_diagnostic diag) (\<lambda>_.
         yield_ok (if diag = None \<and> persist_policy q \<noteq> DurDisabled
           then Some (checkpoint_artifact_ref P (pq_run_id q) c) else None))))"

definition still_active :: "session_message list \<Rightarrow> compaction_checkpoint_ref \<Rightarrow> cleared_tool_result_ref \<Rightarrow> bool" where
  "still_active h r persisted = (case find_index (\<lambda>m. sm_id m = ct_message_id persisted) h of
       None \<Rightarrow> False | Some i \<Rightarrow> i \<ge> hr_end (cc_source_range r))"

text \<open>The compaction of a planned range, once the canonical range is known.\<close>

definition compact_range :: "pipeline \<Rightarrow> prepare_request \<Rightarrow> string option \<Rightarrow> nat \<Rightarrow> projection_application
    \<Rightarrow> compaction_checkpoint option \<Rightarrow> cleared_projection \<Rightarrow> history_range \<Rightarrow> history_range
    \<Rightarrow> prepared_context emitting" where
  "compact_range P q dir usable app previous C rng canonical_range =
     (let h = pq_history q;
          range_hash = px_sha256 (cx_codec P) (px_history (cx_codec P) (history_slice canonical_range h))
      in if hr_end canonical_range < hr_start canonical_range \<or> length h < hr_end canonical_range then
           yield_error (HPanic ''range end index out of range for slice'')
         else case run_compactor (cx_codec P) (cx_json_text P) (cx_parse P) (cx_decode P) (cx_stream P) (pq_model q)
             (map sm_message (history_slice rng (cl_history C))) canonical_range range_hash
             (cb_version (cx_base P)) previous of
           Inl err \<Rightarrow> management_failed (''Compaction model call failed: '' @ error_to_string err)
         | Inr c \<Rightarrow>
             and_then (lift_error (build_management_packet_with_plan P
                 (checkpoint_message (pq_session_id q) c # drop (hr_end rng) (cl_history C)) (pq_token_budget q)))
               (\<lambda>(packet, plan).
             and_then (lift_error (request_token_estimate P (pq_request_template q) packet)) (\<lambda>est.
             if est > usable then
               exhaustion (''Token estimate '' @ dec est @ '' exceeds usable limit '' @ dec usable @ '' even after compaction.'')
                 (''Token estimate '' @ dec est @ '' exceeds limit '' @ dec usable)
             else (case validate_checkpoint (cx_json_text P) c (map sm_message h) canonical_range range_hash of
                 None \<Rightarrow> yield_error (HPanic ''range end index out of range for slice'')
               | Some (Inl e) \<Rightarrow> management_failed (''Checkpoint validation failed: '' @ validation_debug e)
               | Some (Inr _) \<Rightarrow>
                   and_then (store_checkpoint P q dir c) (\<lambda>artifact.
                   and_then (emitting_event (EvAux (AuxContextCompacted (ck_checkpoint_id c) rng canonical_range))) (\<lambda>_.
                   let r = \<lparr>cc_checkpoint_id = ck_checkpoint_id c, cc_source_range = ck_history_range c,
                            cc_source_hash = ck_history_range_hash c, cc_artifact = artifact\<rparr>;
                       refs = cleared_result_refs (cl_actions C)
                   in finish_prepare P q dir packet plan (Some r)
                        (filter (still_active h r) (pa_effective_cleared app @ refs))
                        ((basic_delta q (SetTo r) (pa_removed app))\<lparr>dl_cleared := refs,
                           dl_context_epoch := Some (saturating_add (cs_context_epoch (pq_context_state q)) 1)\<rparr>)))))))"

definition finish_cleared :: "pipeline \<Rightarrow> prepare_request \<Rightarrow> string option \<Rightarrow> projection_application
    \<Rightarrow> cleared_projection \<Rightarrow> context_packet \<Rightarrow> context_plan \<Rightarrow> prepared_context emitting" where
  "finish_cleared P q dir app C packet plan =
     (let refs = cleared_result_refs (cl_actions C)
      in finish_prepare P q dir packet plan (pa_effective_checkpoint app) (pa_effective_cleared app @ refs)
           ((basic_delta q (pa_checkpoint_update app) (pa_removed app))\<lparr>dl_cleared := refs\<rparr>))"

text \<open>Compaction, when clearing was not enough.\<close>

definition compact_history :: "pipeline \<Rightarrow> prepare_request \<Rightarrow> string option \<Rightarrow> nat \<Rightarrow> projection_application
    \<Rightarrow> compaction_checkpoint option \<Rightarrow> cleared_projection \<Rightarrow> context_packet \<Rightarrow> context_plan
    \<Rightarrow> prepared_context emitting" where
  "compact_history P q dir usable app previous C packet plan =
     (let plain = map sm_message (cl_history C);
          start = (case find_index is_checkpoint_item (cl_items C) of None \<Rightarrow> 0 | Some i \<Rightarrow> i);
          protected_start = find_recent_protected_start (cx_json_text P) plain
            (cm_keep_recent_turns (pq_policy q)) (cm_keep_recent_tokens (pq_policy q));
          wanted = saturating_sub (pk_token_estimate packet) (compaction_target (pq_token_budget q) (pq_policy q))
      in case plan_compaction_range (cx_json_text P) plain start protected_start usable wanted of
           Some rng \<Rightarrow> (case map_projected_range (cl_items C) rng of
               None \<Rightarrow> yield_error (HPanic ''index out of bounds'')
             | Some canonical_range \<Rightarrow>
                 and_then (emitting_event (EvAux (AuxContextCompactionStarted rng canonical_range))) (\<lambda>_.
                   compact_range P q dir usable app previous C rng canonical_range))
         | None \<Rightarrow>
             and_then (lift_error (request_token_estimate P (pq_request_template q) packet)) (\<lambda>est.
               if est > usable then
                 exhaustion (''Token estimate '' @ dec (pk_token_estimate packet) @ '' exceeds usable limit '' @
                     dec usable @ '' and no compaction range could be planned.'')
                   (''Token estimate '' @ dec (pk_token_estimate packet) @ '' exceeds limit '' @ dec usable)
               else finish_cleared P q dir app C packet plan))"

text \<open>Management: what the request costs now, after clearing, and after compaction.\<close>

definition manage_context :: "pipeline \<Rightarrow> prepare_request \<Rightarrow> string option \<Rightarrow> nat \<Rightarrow> projection_application
    \<Rightarrow> compaction_checkpoint option \<Rightarrow> context_packet \<Rightarrow> context_plan \<Rightarrow> prepared_context emitting" where
  "manage_context P q dir usable app previous packet plan =
     and_then (lift_error (request_token_estimate P (pq_request_template q) packet)) (\<lambda>est.
     and_then (emitting_event (EvAux (AuxContextPressure usable est))) (\<lambda>_.
     if saturating_add est (projected_next_turn_growth (pq_token_budget q)) \<le> usable then
       finish_prepare P q dir packet plan (pa_effective_checkpoint app) (pa_effective_cleared app)
         (basic_delta q (pa_checkpoint_update app) (pa_removed app))
     else (let C = clear_projection P q (pa_items app)
       in and_then (lift_error (build_management_packet_with_plan P (cl_history C) (pq_token_budget q)))
         (\<lambda>(cleared_packet, cleared_plan).
          and_then (if cl_actions C = [] then yield_ok () else
              emitting_event (EvAux (AuxContextClearing (length (cl_actions C))
                (saturating_sub (pk_token_estimate packet) (pk_token_estimate cleared_packet))))) (\<lambda>_.
          and_then (lift_error (request_token_estimate P (pq_request_template q) cleared_packet)) (\<lambda>est2.
          if est2 \<le> usable then finish_cleared P q dir app C cleared_packet cleared_plan
          else compact_history P q dir usable app previous C cleared_packet cleared_plan))))))"

definition management_on :: "prepare_request \<Rightarrow> bool" where
  "management_on q \<longleftrightarrow> cm_enabled (pq_policy q) \<and> tb_model_limit (pq_token_budget q) > 0 \<and>
     usable_limit (pq_token_budget q) (pq_policy q) > 0"

definition pipeline_prepare :: "pipeline \<Rightarrow> prepare_request \<Rightarrow> prepared_context emitting" where
  "pipeline_prepare P q =
     and_then (lift_error (checked_artifacts_dir (pq_policy q) (pq_artifacts_dir q))) (\<lambda>dir.
     and_then (lift_error (load_checkpoint (cx_codec P) (cx_files P) (cx_parse_checkpoint P)
         (cs_active_checkpoint (pq_context_state q)) dir (pq_run_id q))) (\<lambda>previous.
     case build_projected_history (cx_codec P) (pq_history q) (pq_context_state q) previous (pq_session_id q) of
       None \<Rightarrow> yield_error (HPanic ''slice index starts after its end'')
     | Some app \<Rightarrow>
         and_then (case validate_policy (pq_policy q) of Inl e \<Rightarrow> yield_error (HConfig e) | Inr u \<Rightarrow> yield_ok u) (\<lambda>_.
         (let plain = to_session_messages (pq_session_id q) (pa_items app);
              usable = usable_limit (pq_token_budget q) (pq_policy q)
          in if management_on q then
               and_then (lift_error (build_management_packet_with_plan P plain (pq_token_budget q))) (\<lambda>(packet, plan).
                 manage_context P q dir usable app previous packet plan)
             else
               and_then (lift_error (build_packet_with_plan P plain (pq_token_budget q))) (\<lambda>(packet, plan).
                 finish_prepare P q dir packet plan (pa_effective_checkpoint app) (pa_effective_cleared app)
                   (basic_delta q (pa_checkpoint_update app) (pa_removed app)))))))"

section \<open>Results of emitting operations\<close>

text \<open>\<open>result_ok m Q\<close>: if the operation returns, its value satisfies \<open>Q\<close>.\<close>

definition result_ok :: "'a emitting \<Rightarrow> ('a \<Rightarrow> bool) \<Rightarrow> bool" where
  "result_ok m Q \<longleftrightarrow> (case snd m of Inl e \<Rightarrow> True | Inr x \<Rightarrow> Q x)"

lemma result_ok_simps [simp]:
  "result_ok (yield_ok x) Q \<longleftrightarrow> Q x" "result_ok (yield_error e) Q"
  "result_ok (emitting_event ev) R \<longleftrightarrow> R ()"
  by (simp_all add: result_ok_def yield_ok_def yield_error_def emitting_event_def)

lemma result_ok_lift: "result_ok (lift_error r) Q \<longleftrightarrow> (\<forall>x. r = Inr x \<longrightarrow> Q x)"
  by (auto simp: result_ok_def lift_error_def split: sum.splits)

lemma result_ok_then: "result_ok (and_then m f) Q \<longleftrightarrow> result_ok m (\<lambda>x. result_ok (f x) Q)"
  by (auto simp: result_ok_def and_then_def split: prod.splits sum.splits)

lemma result_ok_any: "(\<And>x. Q x) \<Longrightarrow> result_ok m Q"
  by (auto simp: result_ok_def split: sum.splits)

lemma result_ok_mono: "result_ok m R \<Longrightarrow> (\<And>x. R x \<Longrightarrow> Q x) \<Longrightarrow> result_ok m Q"
  by (auto simp: result_ok_def split: sum.splits)

lemma result_ok_exhaustion [simp]: "result_ok (exhaustion d m) Q" "result_ok (management_failed m) Q"
  by (simp_all add: exhaustion_def management_failed_def result_ok_then)

lemma result_ok_store: "(\<And>x. Q x) \<Longrightarrow> result_ok (store_checkpoint P q dir c) Q"
  by (rule result_ok_any)

lemma result_ok_finish:
  "Q \<lparr>pcx_packet = packet, pcx_manifest = build_manifest P q packet plan r cleared, pcx_state_delta = delta\<rparr> \<Longrightarrow>
     result_ok (finish_prepare P q dir packet plan r cleared delta) Q"
  by (simp add: finish_prepare_def Let_def result_ok_then result_ok_any)

end
