(* ===== verification/Preparation_Properties.thy ===== *)
theory Preparation_Properties
  imports Context_Preparation
begin

text \<open>
  What a prepared context guarantees: the request fits the limit, the context state stays
  consistent with the history, and what becomes of a checkpoint that was not written. Each is
  carried through the stages of \<open>Context_Preparation\<close> by the rules for results.
\<close>

section \<open>A prepared request fits\<close>

definition fits :: "pipeline \<Rightarrow> prepare_request \<Rightarrow> prepared_context \<Rightarrow> bool" where
  "fits P q pc \<longleftrightarrow> (\<exists>n. cx_count P (request_with (pq_request_template q) (pcx_packet pc)) = Inr n \<and>
     n \<le> usable_limit (pq_token_budget q) (pq_policy q))"

text \<open>The provider's count is a \<open>usize\<close>.\<close>

definition counts_usize :: "pipeline \<Rightarrow> bool" where
  "counts_usize P \<longleftrightarrow> (\<forall>r n. cx_count P r = Inr n \<longrightarrow> n \<le> usize_max)"

lemma growth_fits:
  assumes "counts_usize P" "request_token_estimate P template packet = Inr n" "saturating_add n g \<le> usable"
  shows "n \<le> usable"
  using assms by (fastforce simp: counts_usize_def request_token_estimate_def saturating_add_def min_def split: if_splits)

lemma fits_finish:
  assumes "request_token_estimate P (pq_request_template q) packet = Inr n"
    and "n \<le> usable_limit (pq_token_budget q) (pq_policy q)"
  shows "result_ok (finish_prepare P q dir packet plan r cleared delta) (fits P q)"
  using assms by (intro result_ok_finish) (auto simp: fits_def request_token_estimate_def)

lemma fits_finish_cleared:
  assumes "request_token_estimate P (pq_request_template q) packet = Inr n"
    and "n \<le> usable_limit (pq_token_budget q) (pq_policy q)"
  shows "result_ok (finish_cleared P q dir app C packet plan) (fits P q)"
  unfolding finish_cleared_def Let_def using assms by (rule fits_finish)

lemma fits_compact_range:
  "result_ok (compact_range P q dir (usable_limit (pq_token_budget q) (pq_policy q)) app prev C rng crng) (fits P q)"
  by (auto simp: compact_range_def Let_def result_ok_then result_ok_lift split: sum.splits option.splits
      intro!: result_ok_store fits_finish)

lemma fits_compact_history:
  "result_ok (compact_history P q dir (usable_limit (pq_token_budget q) (pq_policy q)) app prev C packet plan) (fits P q)"
  by (auto simp: compact_history_def Let_def result_ok_then result_ok_lift fits_compact_range split: option.splits
      intro!: fits_finish_cleared)

lemma fits_manage:
  assumes "counts_usize P"
  shows "result_ok (manage_context P q dir (usable_limit (pq_token_budget q) (pq_policy q)) app prev packet plan) (fits P q)"
  using growth_fits [OF assms]
  by (auto simp: manage_context_def Let_def result_ok_then result_ok_lift fits_compact_history
      intro!: fits_finish fits_finish_cleared)

lemma fits_prepare:
  assumes "management_on q" "counts_usize P"
  shows "result_ok (pipeline_prepare P q) (fits P q)"
  using assms
  by (auto simp: pipeline_prepare_def Let_def result_ok_then result_ok_lift fits_manage split: option.splits sum.splits)

section \<open>The context state stays consistent with the history\<close>

text \<open>The active checkpoint summarises a non-empty beginning of the history, with its hash.\<close>

definition covers_beginning :: "prompt_codec \<Rightarrow> session_message list \<Rightarrow> compaction_checkpoint_ref \<Rightarrow> bool" where
  "covers_beginning px h r \<longleftrightarrow> hr_start (cc_source_range r) = 0 \<and> 0 < hr_end (cc_source_range r) \<and>
     hr_end (cc_source_range r) \<le> length h \<and>
     px_sha256 px (px_history px (history_slice (cc_source_range r) h)) = cc_source_hash r"

lemma covers_beginning_append:
  "covers_beginning px h r \<Longrightarrow> covers_beginning px (h @ later) r"
  by (auto simp: covers_beginning_def history_slice_def)

definition checkpoint_ok :: "prompt_codec \<Rightarrow> session_message list \<Rightarrow> context_projection_state \<Rightarrow> bool" where
  "checkpoint_ok px h st \<longleftrightarrow> (\<forall>r. cs_active_checkpoint st = Some r \<longrightarrow> covers_beginning px h r)"

definition same_shape :: "projected_item list \<Rightarrow> projected_item list \<Rightarrow> bool" where
  "same_shape xs ys \<longleftrightarrow> list_all2 (\<lambda>x y. item_start x = item_start y \<and> item_end x = item_end y \<and>
     (is_checkpoint_item x \<longleftrightarrow> is_checkpoint_item y)) xs ys"

lemma same_shape_refl: "same_shape xs xs"
  by (simp add: same_shape_def list_all2_refl)

lemma same_shape_trans: "same_shape xs ys \<Longrightarrow> same_shape ys zs \<Longrightarrow> same_shape xs zs"
  unfolding same_shape_def by (erule list_all2_trans [rotated]) auto

lemma same_shape_tombstone: "same_shape (tombstone_item a items) items"
proof (cases "ca_message_index a < length items")
  case True
  show ?thesis
  proof (cases "items ! ca_message_index a")
    case (ItCanonical i k m)
    then show ?thesis using True
      by (auto simp: tombstone_item_def same_shape_def list_all2_conv_all_nth nth_list_update is_checkpoint_item_def)
  qed (use True same_shape_refl in \<open>simp_all add: tombstone_item_def\<close>)
qed (simp add: tombstone_item_def same_shape_refl)

lemma same_shape_fold: "same_shape (fold tombstone_item acts items) items"
  by (induction acts arbitrary: items) (auto intro: same_shape_refl same_shape_trans same_shape_tombstone)

lemma same_shape_contiguous:
  "same_shape xs ys \<Longrightarrow> contiguous n xs = contiguous n ys \<and> span_end n xs = span_end n ys"
  by (rule contiguous_cong) (auto simp: same_shape_def list_all2_conv_all_nth intro: nth_equalityI)

lemma same_shape_find:
  "same_shape xs ys \<Longrightarrow> find_index is_checkpoint_item xs = find_index is_checkpoint_item ys"
  unfolding same_shape_def by (induction rule: list_all2_induct) auto

lemma same_shape_start: "same_shape xs ys \<Longrightarrow> i < length xs \<Longrightarrow> item_start (xs ! i) = item_start (ys ! i)"
  by (simp add: same_shape_def list_all2_conv_all_nth)

lemma same_shape_length: "same_shape xs ys \<Longrightarrow> length xs = length ys"
  by (simp add: same_shape_def list_all2_lengthD)

lemma item_end_le: "contiguous n xs \<Longrightarrow> i < length xs \<Longrightarrow> item_end (xs ! i) \<le> span_end n xs"
proof (induction xs arbitrary: n i)
  case (Cons x xs)
  show ?case
  proof (cases i)
    case 0
    have "item_end x \<le> span_end (item_end x) xs"
    proof (cases xs)
      case (Cons y ys)
      then have "item_end x < item_end y" "item_end y \<le> span_end (item_end x) xs"
        using Cons.IH [of "item_end x" 0] Cons.prems by auto
      then show ?thesis by simp
    qed simp
    then show ?thesis using 0 by simp
  next
    case (Suc k)
    then show ?thesis using Cons.IH [of "item_end x" k] Cons.prems by simp
  qed
qed simp

lemma checkpoint_item_start:
  assumes "contiguous 0 items" "\<forall>it \<in> set items. item_ok px h active it"
    and "\<And>r. active = Some r \<Longrightarrow> hr_start (cc_source_range r) = 0"
    and "start = (case find_index is_checkpoint_item items of None \<Rightarrow> 0 | Some i \<Rightarrow> i)" "start < length items"
  shows "item_start (items ! start) = 0"
proof (cases "find_index is_checkpoint_item items")
  case None
  then show ?thesis using assms by (cases items) auto
next
  case (Some i)
  then have i: "start = i" "i < length items" "is_checkpoint_item (items ! i)"
    using assms(4) find_index_SomeD [OF Some] by auto
  then obtain r rng m where item: "items ! i = ItCheckpoint r rng m"
    by (auto simp: is_checkpoint_item_def split: projected_item.splits)
  then have "item_ok px h active (ItCheckpoint r rng m)" using assms(2) i(2) nth_mem by metis
  then show ?thesis using assms(3) item i(1) by auto
qed

lemma compacted_range_ok:
  assumes "contiguous 0 items" "span_end 0 items = length h" "item_start (items ! hr_start rng) = 0"
    and "hr_start rng < hr_end rng" "hr_end rng \<le> length items"
    and "map_projected_range items rng = Some crng"
  shows "hr_start crng = 0 \<and> 0 < hr_end crng \<and> hr_end crng \<le> length h"
proof -
  have crng: "hr_start crng = 0" "hr_end crng = item_end (items ! (hr_end rng - 1))"
    using assms(3,6) by (auto simp: map_projected_range_def split: if_splits)
  have "item_start (items ! hr_start rng) < item_end (items ! (hr_end rng - 1))"
    using contiguous_order [OF assms(1), of "hr_start rng" "hr_end rng - 1"] assms(4,5) by auto
  moreover have "item_end (items ! (hr_end rng - 1)) \<le> length h"
    using item_end_le [OF assms(1), of "hr_end rng - 1"] assms(2,4,5) by auto
  ultimately show ?thesis using crng by simp
qed

text \<open>A new checkpoint covers the beginning of the history and passed the check.\<close>

definition accepted :: "pipeline \<Rightarrow> session_message list \<Rightarrow> compaction_checkpoint_ref \<Rightarrow> bool" where
  "accepted P h r \<longleftrightarrow> (\<exists>c. ck_checkpoint_id c = cc_checkpoint_id r \<and>
     validate_checkpoint (cx_json_text P) c (map sm_message h) (cc_source_range r) (cc_source_hash r) = Some (Inr ()))"

definition delta_ok :: "pipeline \<Rightarrow> prepare_request \<Rightarrow> prepared_context \<Rightarrow> bool" where
  "delta_ok P q pc \<longleftrightarrow> (\<forall>r. dl_active_checkpoint (pcx_state_delta pc) = SetTo r \<longrightarrow>
     covers_beginning (cx_codec P) (pq_history q) r \<and> accepted P (pq_history q) r)"

lemma build_update:
  "build_projected_history px h st ck sid = Some app \<Longrightarrow> pa_checkpoint_update app \<noteq> SetTo r"
  by (auto simp: build_projected_history_def apply_checkpoint_def Let_def
      split: option.splits prod.splits if_splits)

lemma delta_finish:
  assumes "\<And>r. dl_active_checkpoint delta = SetTo r \<Longrightarrow>
      covers_beginning (cx_codec P) (pq_history q) r \<and> accepted P (pq_history q) r"
  shows "result_ok (finish_prepare P q dir packet plan r cleared delta) (delta_ok P q)"
  using assms by (intro result_ok_finish) (simp add: delta_ok_def)

lemma basic_delta_active [simp]: "dl_active_checkpoint (basic_delta q u removed) = u"
  by (simp add: basic_delta_def)

lemma delta_compact_range:
  assumes "hr_start crng = 0 \<and> 0 < hr_end crng \<and> hr_end crng \<le> length (pq_history q)"
  shows "result_ok (compact_range P q dir usable app prev C rng crng) (delta_ok P q)"
proof -
  have "covers_beginning (cx_codec P) (pq_history q) r \<and> accepted P (pq_history q) r"
    if "validate_checkpoint (cx_json_text P) c (map sm_message (pq_history q)) crng
        (px_sha256 (cx_codec P) (px_history (cx_codec P) (history_slice crng (pq_history q)))) = Some (Inr ())"
      "r = \<lparr>cc_checkpoint_id = ck_checkpoint_id c, cc_source_range = ck_history_range c,
         cc_source_hash = ck_history_range_hash c, cc_artifact = art\<rparr>" for c r art
    using assms that validate_checkpoint_accepts(1,2) [OF that(1)]
    by (auto simp: covers_beginning_def accepted_def)
  then show ?thesis
    by (auto simp: compact_range_def Let_def result_ok_then result_ok_lift split: sum.splits option.splits
        intro!: result_ok_store delta_finish)
qed

definition no_new_checkpoint :: "projection_application \<Rightarrow> bool" where
  "no_new_checkpoint app \<longleftrightarrow> (\<forall>r. pa_checkpoint_update app \<noteq> SetTo r)"

lemma delta_finish_cleared:
  "no_new_checkpoint app \<Longrightarrow> result_ok (finish_cleared P q dir app C packet plan) (delta_ok P q)"
  unfolding finish_cleared_def Let_def by (rule delta_finish) (simp add: no_new_checkpoint_def)

lemma delta_compact_history:
  assumes "no_new_checkpoint app" "same_shape (cl_items C) (pa_items app)"
    and "length (cl_history C) = length (pa_items app)"
    and "contiguous 0 (pa_items app)" "span_end 0 (pa_items app) = length (pq_history q)"
    and "\<forall>it \<in> set (pa_items app). item_ok px h active it"
    and "\<And>r. active = Some r \<Longrightarrow> hr_start (cc_source_range r) = 0"
  shows "result_ok (compact_history P q dir usable app prev C packet plan) (delta_ok P q)"
proof -
  define start where "start = (case find_index is_checkpoint_item (cl_items C) of None \<Rightarrow> 0 | Some i \<Rightarrow> i)"
  have shape: "contiguous 0 (cl_items C)" "span_end 0 (cl_items C) = length (pq_history q)"
    "length (cl_items C) = length (cl_history C)"
    using same_shape_contiguous [OF assms(2), of 0] same_shape_length [OF assms(2)] assms(3,4,5) by auto
  have range: "hr_start crng = 0 \<and> 0 < hr_end crng \<and> hr_end crng \<le> length (pq_history q)"
    if plan: "plan_compaction_range jt (map sm_message (cl_history C)) start p limit wanted = Some rng"
      and crng: "map_projected_range (cl_items C) rng = Some crng" for jt p limit wanted rng crng
  proof -
    have rng: "hr_start rng = start" "start < hr_end rng" "hr_end rng \<le> length (cl_items C)"
      using plan_compaction_some [OF plan] shape(3) by auto
    have "item_start (pa_items app ! start) = 0"
      using rng(2,3) same_shape_length [OF assms(2)]
      by (intro checkpoint_item_start [OF assms(4,6,7)]) (auto simp: start_def same_shape_find [OF assms(2)])
    then have "item_start (cl_items C ! hr_start rng) = 0"
      using same_shape_start [OF assms(2), of start] rng by simp
    then show ?thesis using rng crng by (intro compacted_range_ok [OF shape(1,2)]) auto
  qed
  show ?thesis unfolding compact_history_def Let_def start_def [symmetric]
    using range assms(1)
    by (auto simp: result_ok_then result_ok_lift split: option.splits
        intro!: delta_compact_range delta_finish_cleared)
qed

lemma clear_projection_shape:
  "same_shape (cl_items (clear_projection P q items)) items \<and>
   length (cl_history (clear_projection P q items)) = length items"
proof -
  obtain cleared acts where clear: "clear_eligible_tool_results (cx_json_text P) (pq_run_id q)
         (to_session_messages (pq_session_id q) items) (pq_tool_retention q)
         (tool_result_budget (pq_token_budget q) (pq_policy q))
         (cm_keep_recent_turns (pq_policy q)) (cm_keep_recent_tokens (pq_policy q)) = (cleared, acts)"
    by fastforce
  then have "length cleared = length items"
    using clear_eligible_spec [OF clear] by (metis cleared_at_length length_map to_session_messages_def)
  then show ?thesis using clear same_shape_fold by (simp add: clear_projection_def)
qed

lemma delta_prepare:
  assumes "checkpoint_ok (cx_codec P) (pq_history q) (pq_context_state q)"
  shows "result_ok (pipeline_prepare P q) (delta_ok P q)"
proof -
  have nonempty: "\<not> hr_is_empty (cc_source_range r)" "hr_start (cc_source_range r) = 0"
    if "cs_active_checkpoint (pq_context_state q) = Some r" for r
    using assms that by (auto simp: checkpoint_ok_def covers_beginning_def hr_is_empty_def)
  have manage: "result_ok (manage_context P q dir usable app prev packet plan) (delta_ok P q)"
    and plain: "no_new_checkpoint app"
    if build: "build_projected_history (cx_codec P) (pq_history q) (pq_context_state q) ck (pq_session_id q) = Some app"
    for dir usable app prev packet plan ck
  proof -
    show new: "no_new_checkpoint app" using build_update [OF build] by (simp add: no_new_checkpoint_def)
    note ok = build_projected_ok [OF build nonempty(1)]
    have active: "hr_start (cc_source_range r) = 0" if "pa_effective_checkpoint app = Some r" for r
      using build that nonempty(2)
      by (auto simp: build_projected_history_def split: option.splits prod.splits if_splits)
    note clear = clear_projection_shape [of P q "pa_items app"]
    show "result_ok (manage_context P q dir usable app prev packet plan) (delta_ok P q)"
      using new delta_compact_history [OF new clear [THEN conjunct1] clear [THEN conjunct2] ok active]
      by (auto simp: manage_context_def Let_def result_ok_then result_ok_lift no_new_checkpoint_def
          intro!: delta_finish delta_finish_cleared)
  qed
  show ?thesis using manage plain
    by (auto simp: pipeline_prepare_def Let_def result_ok_then result_ok_lift no_new_checkpoint_def
        split: option.splits sum.splits intro!: delta_finish)
qed

section \<open>A checkpoint that is not written\<close>

definition no_artifact :: "prepared_context \<Rightarrow> bool" where
  "no_artifact pc \<longleftrightarrow> (\<forall>r. dl_active_checkpoint (pcx_state_delta pc) = SetTo r \<longrightarrow> cc_artifact r = None)"

lemma no_artifact_finish:
  "(\<And>r. dl_active_checkpoint delta = SetTo r \<Longrightarrow> cc_artifact r = None) \<Longrightarrow>
     result_ok (finish_prepare P q dir packet plan r cleared delta) no_artifact"
  by (intro result_ok_finish) (simp add: no_artifact_def)

lemma result_ok_store_disabled:
  "persist_policy q = DurDisabled \<Longrightarrow> Q None \<Longrightarrow> result_ok (store_checkpoint P q dir c) Q"
  by (simp add: store_checkpoint_def result_ok_then result_ok_lift result_ok_any split: option.splits)

lemma no_artifact_compact_history:
  assumes "persist_policy q = DurDisabled" "no_new_checkpoint app"
  shows "result_ok (compact_history P q dir usable app prev C packet plan) no_artifact"
  using assms
  by (auto simp: compact_history_def compact_range_def finish_cleared_def no_new_checkpoint_def Let_def
      result_ok_then result_ok_lift split: option.splits sum.splits
      intro!: no_artifact_finish result_ok_store_disabled)

lemma no_artifact_prepare:
  assumes "persist_policy q = DurDisabled"
  shows "result_ok (pipeline_prepare P q) no_artifact"
proof -
  have manage: "result_ok (manage_context P q dir usable app prev packet plan) no_artifact"
    if "no_new_checkpoint app" for dir usable app prev packet plan
    using that no_artifact_compact_history [OF assms that]
    by (auto simp: manage_context_def finish_cleared_def no_new_checkpoint_def Let_def result_ok_then
        result_ok_lift intro!: no_artifact_finish)
  have "no_new_checkpoint app" if "build_projected_history px h st ck sid = Some app" for px h st ck sid app
    using build_update [OF that] by (simp add: no_new_checkpoint_def)
  then show ?thesis using manage
    by (auto simp: pipeline_prepare_def Let_def result_ok_then result_ok_lift
        split: option.splits sum.splits intro!: no_artifact_finish) (auto simp: no_new_checkpoint_def)
qed

section \<open>A sample compaction\<close>

text \<open>A request of three messages that does not fit until the first two are compacted: the assembler
  sends the planned history, the provider counts 400 tokens for a message, and no file can be read.\<close>

definition compactable_history :: "session_message list" where
  "compactable_history =
     [\<lparr>sm_id = sample_id 0, sm_message = MUser [CbText ''do it''] None, sm_metadata = None\<rparr>,
      \<lparr>sm_id = sample_id 1, sm_message = MAssistant [CbText (replicate 2000 CHR ''a'')], sm_metadata = None\<rparr>,
      \<lparr>sm_id = sample_id 2, sm_message = MUser [CbText ''go''] None, sm_metadata = None\<rparr>]"

definition packet_of :: "message list \<Rightarrow> context_packet" where
  "packet_of ms = \<lparr>pk_messages = ms, pk_packet_hash = [], pk_pipeline_version = [], pk_tokenizer_id = [],
     pk_token_estimate = 0, pk_sources = [], pk_omissions = [], pk_message_hashes = [],
     pk_strategy = StratDynamic, pk_snapshot_hash = None, pk_cache_prefix_hash = None, pk_segments = [],
     pk_cache_plan = None, pk_prompt_source = None\<rparr>"

definition sample_summary :: compactor_output where
  "sample_summary = \<lparr>co_goal = ''g'', co_constraints = [''k''], co_completed_work = [],
     co_in_progress_work = [], co_blocked_items = [], co_key_decisions = [], co_next_steps = [],
     co_critical_context = ''x'', co_relevant_references = [''r'']\<rparr>"

definition sample_pipeline :: pipeline where
  "sample_pipeline = \<lparr>cx_base = \<lparr>cb_version = [], cb_system_messages = [],
       cb_assemble = (\<lambda>plan. Inr (packet_of (map sm_message (pn_history plan))))\<rparr>,
     cx_patches = [], cx_codec = sample_codec, cx_json_text = (\<lambda>_. []), cx_files = sample_files\<lparr>fs_read := \<lambda>_. Inl ''not found''\<rparr>,
     cx_write = (\<lambda>_. None), cx_report = (\<lambda>_ _. Inr []), cx_parse_checkpoint = (\<lambda>_. Inl []),
     cx_parse = (\<lambda>_. Inr VNull), cx_decode = (\<lambda>_. Inr sample_summary),
     cx_stream = (\<lambda>_. Inr [Inr (EvText ''{}'')]), cx_count = (\<lambda>r. Inr (400 * min 9 (length (rq_messages r)))),
     cx_manifest_hash = (\<lambda>_. []), cx_checkpoint_hash = (\<lambda>_. [])\<rparr>"

definition sample_request :: prepare_request where
  "sample_request = \<lparr>pq_history = compactable_history, pq_context_state = context_state_default,
     pq_token_budget = \<lparr>tb_model_limit = 1000, tb_reserved_output = 0, tb_used_system = 0, tb_used_history = 0,
       tb_used_sources = 0, tb_used_tools = 0, tb_used_memory = 0, tb_minimum_turn_budget = 0\<rparr>,
     pq_request_template = compactor_request (\<lambda>_. []) [] [] None, pq_model = [], pq_session_id = [], pq_run_id = [],
     pq_turn_id = 0,
     pq_policy = context_policy_default\<lparr>cm_buffer_tokens := 0, cm_keep_recent_turns := 1,
       cm_keep_recent_tokens := 0, cm_durability := DurDisabled\<rparr>,
     pq_artifacts_dir = Some ''/a'', pq_tool_retention = sample_retention\<rparr>"

lemma sample_policy_valid: "validate_policy (pq_policy sample_request) = Inr ()"
  by (simp add: sample_request_def context_policy_default_def validate_policy_def validate_ratio_def f64_is_finite_def f64_in_unit_def
    f64_exponent_def f64_fraction_def f64_negative_def f64_mantissa_def f64_scale_def f64_bias_def Let_def trim_def trim_matches_def is_whitespace_def)

lemma sample_tokens:
  "estimate_message_tokens jt (MUser [CbText ''do it''] None) = 7"
  "estimate_message_tokens jt (MAssistant [CbText (replicate 2000 CHR ''a'')]) = 505"
  "estimate_message_tokens jt (MUser [CbText ''go''] None) = 6"
  by (simp_all add: estimate_text_tokens_def length_utf8_replicate utf8_bytes_def utf8_char_def saturating_add_def usize_max_def)

lemma sample_plan:
  "build_management_packet_with_plan sample_pipeline compactable_history (pq_token_budget sample_request) =
     Inr (packet_of (map sm_message compactable_history),
       \<lparr>pn_history = compactable_history, pn_omissions = [], pn_budget_exhausted = False\<rparr>)"
  by (simp add: build_management_packet_with_plan_def build_packet_with_plan_def plan_context_def sample_pipeline_def
     sample_request_def compactable_history_def total_tokens_def unbounded_budget_def available_total_def exhausted_def
     saturating_sub_def usize_max_def Let_def render_message_estimate_def render_block_estimate_def sample_tokens del: estimate_message_tokens.simps)

lemma sample_groups2: "group_tool_exchanges (map sm_message compactable_history) = []"
  by (simp add: group_tool_exchanges_def compactable_history_def tool_use_ids_def List.map_filter_def Let_def)

lemma sample_cleared2: "clear_projection sample_pipeline sample_request (canonical_items compactable_history) =
   \<lparr>cl_history = compactable_history, cl_actions = [], cl_items = canonical_items compactable_history\<rparr>"
  by (simp add: clear_projection_def clear_eligible_tool_results_def total_tool_results_tokens_def canonical_items_def to_session_messages_def
    compactable_history_def upt_rec)

definition sample_app :: projection_application where
  "sample_app = \<lparr>pa_items = canonical_items compactable_history, pa_checkpoint_update = Unchanged, pa_removed = [],
     pa_effective_checkpoint = None, pa_effective_cleared = []\<rparr>"

lemma sample_app: "build_projected_history sample_codec compactable_history context_state_default None [] =
   Some sample_app"
  by (simp add: sample_app_def build_projected_history_def apply_checkpoint_def context_state_default_def Let_def cleared_values_def)

definition sample_new_checkpoint :: compaction_checkpoint where
  "sample_new_checkpoint = checkpoint_of sample_codec (\<lambda>_. []) [] (map sm_message (take 2 compactable_history))
     \<lparr>hr_start = 0, hr_end = 2\<rparr> ''h'' [] None ''{}'' sample_summary"

lemma sample_compactor: "run_compactor sample_codec (\<lambda>_. []) (\<lambda>_. Inr VNull) (\<lambda>_. Inr sample_summary)
    (\<lambda>_. Inr [Inr (EvText ''{}'')]) [] (map sm_message (take 2 compactable_history)) \<lparr>hr_start = 0, hr_end = 2\<rparr> ''h'' [] None =
   Inr sample_new_checkpoint"
  by (simp add: run_compactor_def sample_new_checkpoint_def acc_push_def acc_default_def acc_finish_def Let_def full_text_def
     parse_json_from_response_def trim_def trim_matches_def is_whitespace_def)

lemma sample_range: "plan_compaction_range (\<lambda>_. []) (map sm_message compactable_history) 0 2 1000 0 =
   Some \<lparr>hr_start = 0, hr_end = 2\<rparr>"
  by (simp add: plan_compaction_range_def sample_groups2 adjust_loop.simps) (simp add: compactable_history_def Let_def trim_end.simps [of _ _ _ "Suc (Suc 0)"] sample_tokens del: estimate_message_tokens.simps)

lemma sample_protected2: "find_recent_protected_start (\<lambda>_. []) (map sm_message compactable_history) (Suc 0) 0 = 2"
  by (simp add: find_recent_protected_start_def find_recent_window_start_def compactable_history_def Let_def
     saturating_add_def usize_max_def)

lemma length_utf8_le: "length (utf8_bytes s) \<le> 4 * length s"
  by (induction s) (auto simp: utf8_bytes_def utf8_char_def Let_def)

lemma sample_rendering: "estimate_text_tokens (render_markdown sample_new_checkpoint) \<le> 300"
proof -
  have "length (render_markdown sample_new_checkpoint) \<le> 290"
    by (simp add: sample_new_checkpoint_def checkpoint_of_def sample_summary_def render_markdown_def render_list_def sample_codec_def)
  then show ?thesis using length_utf8_le [of "render_markdown sample_new_checkpoint"]
    by (auto simp: estimate_text_tokens_def saturating_add_def usize_max_def)
qed

lemma sample_valid: "validate_checkpoint (\<lambda>_. []) sample_new_checkpoint (map sm_message compactable_history)
   \<lparr>hr_start = 0, hr_end = 2\<rparr> ''h'' = Some (Inr ())"
proof -
  have "check_protected sample_new_checkpoint [MUser [CbText ''do it''] None, m]" if "message_protected_lines m = []" for m
    using that by (simp add: check_protected_def extract_protected_anchors_def message_protected_lines_def block_text_def
       protected_lines_def lines_of_def split_on.simps Let_def strip_cr_def trim_bullet_def trim_def trim_matches_def is_whitespace_def
       looks_protected_def normalize_text_def utf8_bytes_def utf8_char_def is_ascii_alphanumeric_def is_ascii_whitespace_def)
  then show ?thesis using sample_rendering
  apply (simp add: validate_checkpoint_def compactable_history_def history_slice_def 
      Let_def sample_tokens check_references_def extract_reference_anchors_def message_reference_anchors_def message_has_reference_def
     message_has_untrusted_content_def is_untrusted_document_def document_anchors_def message_protected_lines_def del: estimate_message_tokens.simps)
   apply (simp add: sample_new_checkpoint_def checkpoint_of_def sample_summary_def trim_def trim_matches_def is_whitespace_def)
  done
qed


lemma sample_fields:
  "cx_codec sample_pipeline = sample_codec" "cx_json_text sample_pipeline = (\<lambda>_. [])"
  "cx_parse sample_pipeline = (\<lambda>_. Inr VNull)" "cx_decode sample_pipeline = (\<lambda>_. Inr sample_summary)"
  "cx_stream sample_pipeline = (\<lambda>_. Inr [Inr (EvText ''{}'')])" "cb_version (cx_base sample_pipeline) = []"
  "request_token_estimate sample_pipeline t p = Inr (400 * min 9 (length (pk_messages p)))"
  "pq_history sample_request = compactable_history" "pq_context_state sample_request = context_state_default"
  "usable_limit (pq_token_budget sample_request) (pq_policy sample_request) = 1000"
  "projected_next_turn_growth (pq_token_budget sample_request) = 0" "persist_policy sample_request = DurDisabled"
  "pq_model sample_request = []" "pq_session_id sample_request = []" "pq_artifacts_dir sample_request = Some ''/a''"
  "cm_keep_recent_turns (pq_policy sample_request) = 1" "cm_keep_recent_tokens (pq_policy sample_request) = 0"
  "management_on sample_request"
  by (simp_all add: sample_pipeline_def sample_request_def context_policy_default_def request_token_estimate_def request_with_def
    compactor_request_def usable_limit_def projected_next_turn_growth_def persist_policy_def saturating_sub_def management_on_def)

lemma sample_stages:
  "checked_artifacts_dir (pq_policy sample_request) dir = Inr dir"
  "load_checkpoint px fs ps (cs_active_checkpoint context_state_default) dir rn = Inr None"
  "find_index is_checkpoint_item (canonical_items compactable_history) = None"
  "map_projected_range (canonical_items compactable_history) \<lparr>hr_start = 0, hr_end = 2\<rparr> = Some \<lparr>hr_start = 0, hr_end = 2\<rparr>"
  "px_sha256 sample_codec x = ''h''"
  "persist_context_artifacts sample_pipeline m p (Some d) DurDisabled = yield_ok ()"
  "store_checkpoint sample_pipeline sample_request (Some d) c = yield_ok None"
  "history_slice \<lparr>hr_start = 0, hr_end = 2\<rparr> compactable_history = take 2 compactable_history"
  by (simp_all add: checked_artifacts_dir_def sample_request_def load_checkpoint_def context_state_default_def canonical_items_def
    compactable_history_def upt_rec is_checkpoint_item_def map_projected_range_def sample_codec_def persist_context_artifacts_def
    persist_manifest_def persist_file_def emit_diagnostic_def and_then_def yield_ok_def lift_error_def sample_pipeline_def store_checkpoint_def
    persist_checkpoint_def persist_policy_def history_slice_def numeral_2_eq_2 )

lemma sample_go: "estimate_text_tokens ''go'' = 2"
  by (simp add: estimate_text_tokens_def utf8_bytes_def utf8_char_def saturating_add_def usize_max_def)

lemma sample_compacted_plan:
  "build_management_packet_with_plan sample_pipeline (checkpoint_message [] sample_new_checkpoint # drop 2 compactable_history)
     (pq_token_budget sample_request) = Inr (packet_of (map sm_message (checkpoint_message [] sample_new_checkpoint # drop 2 compactable_history)),
       \<lparr>pn_history = checkpoint_message [] sample_new_checkpoint # drop 2 compactable_history, pn_omissions = [], pn_budget_exhausted = False\<rparr>)"
  using sample_rendering
  by (simp add: build_management_packet_with_plan_def build_packet_with_plan_def plan_context_def sample_pipeline_def
     sample_request_def compactable_history_def total_tokens_def unbounded_budget_def available_total_def exhausted_def checkpoint_message_def
     saturating_sub_def saturating_add_def usize_max_def Let_def render_message_estimate_def render_block_estimate_def sample_go)

lemma sample_compact_range: "\<exists>pc r. snd (compact_range sample_pipeline sample_request (Some ''/a'') 1000 sample_app None
    \<lparr>cl_history = compactable_history, cl_actions = [], cl_items = canonical_items compactable_history\<rparr>
    \<lparr>hr_start = 0, hr_end = 2\<rparr> \<lparr>hr_start = 0, hr_end = 2\<rparr>) = Inr pc \<and>
   dl_active_checkpoint (pcx_state_delta pc) = SetTo r"
  using sample_compactor sample_compacted_plan sample_valid
  by (simp add: compact_range_def sample_fields sample_stages and_then_def lift_error_def yield_ok_def packet_of_def
     emitting_event_def finish_prepare_def Let_def) (simp add: compactable_history_def sample_fields)

lemma snd_then: "snd (and_then m f) = (case snd m of Inl e \<Rightarrow> Inl e | Inr x \<Rightarrow> snd (f x))"
  by (simp add: and_then_def split: prod.splits sum.splits)

lemma sample_compact_history:
  assumes "C = \<lparr>cl_history = compactable_history, cl_actions = [], cl_items = canonical_items compactable_history\<rparr>"
    and "pk_token_estimate packet = 0"
  shows "snd (compact_history sample_pipeline sample_request dir 1000 sample_app None C packet plan) =
    snd (compact_range sample_pipeline sample_request dir 1000 sample_app None C
      \<lparr>hr_start = 0, hr_end = 2\<rparr> \<lparr>hr_start = 0, hr_end = 2\<rparr>)"
  using assms by (simp add: compact_history_def sample_fields sample_stages sample_protected2 sample_range saturating_sub_def
    Let_def snd_then emitting_event_def)

lemma sample_prepared: "\<exists>pc r. snd (pipeline_prepare sample_pipeline sample_request) = Inr pc \<and>
   dl_active_checkpoint (pcx_state_delta pc) = SetTo r"
proof -
  have items: "pa_items sample_app = canonical_items compactable_history" by (simp add: sample_app_def)
  have plain: "to_session_messages [] (canonical_items compactable_history) = compactable_history"
    by (simp add: to_session_messages_def canonical_items_def compactable_history_def upt_rec)
  have len: "length compactable_history = 3" by (simp add: compactable_history_def)
  show ?thesis using sample_app sample_compact_range
    by (simp add: pipeline_prepare_def snd_then sample_fields sample_stages lift_error_def yield_ok_def sample_policy_valid
      plain items sample_plan manage_context_def Let_def emitting_event_def sample_cleared2 packet_of_def sample_compact_history
      saturating_add_def usize_max_def len)
qed
section \<open>Properties\<close>



text \<open>Preparing keeps the context state consistent with the history: if the active checkpoint
  covers a non-empty beginning of the history, and its hash, then so does the active checkpoint
  after the prepared changes are applied and the turn's message is appended; and a checkpoint
  it makes active has passed the check against exactly the messages it replaces.\<close>

theorem context_state_consistent:
  fixes m :: message
  assumes "checkpoint_ok (cx_codec P) (s_history s) (s_context_state s)"
    and "pq_history q = s_history s" "pq_context_state q = s_context_state s"
    and "snd (pipeline_prepare P q) = Inr pc"
  defines "s' \<equiv> fst (append_message m (apply_context_state_delta (pcx_state_delta pc) s))"
  shows "checkpoint_ok (cx_codec P) (s_history s') (s_context_state s') \<and>
    (\<forall>r. dl_active_checkpoint (pcx_state_delta pc) = SetTo r \<longrightarrow>
       (\<exists>c. ck_checkpoint_id c = cc_checkpoint_id r \<and>
          validate_checkpoint (cx_json_text P) c (map sm_message (s_history s)) (cc_source_range r)
            (cc_source_hash r) = Some (Inr ())))"
proof
  have ok: "delta_ok P q pc" using delta_prepare [of P q] assms by (simp add: result_ok_def)
  have new: "cs_active_checkpoint (s_context_state s') =
      apply_update (dl_active_checkpoint (pcx_state_delta pc)) (cs_active_checkpoint (s_context_state s))"
    by (simp add: s'_def append_message_def apply_context_state_delta_def Let_def)
  have "covers_beginning (cx_codec P) (s_history s) r"
    if "cs_active_checkpoint (s_context_state s') = Some r" for r
    using that ok assms(1,2) unfolding new
    by (cases "dl_active_checkpoint (pcx_state_delta pc)")
      (auto simp: apply_update_def delta_ok_def checkpoint_ok_def)
  moreover have "\<exists>m'. s_history s' = s_history s @ [m']"
    by (simp add: s'_def append_message_def Let_def)
  ultimately show "checkpoint_ok (cx_codec P) (s_history s') (s_context_state s')"
    by (auto simp: checkpoint_ok_def covers_beginning_append)
  show "\<forall>r. dl_active_checkpoint (pcx_state_delta pc) = SetTo r \<longrightarrow>
       (\<exists>c. ck_checkpoint_id c = cc_checkpoint_id r \<and>
          validate_checkpoint (cx_json_text P) c (map sm_message (s_history s)) (cc_source_range r)
            (cc_source_hash r) = Some (Inr ()))"
    using ok assms(2) by (auto simp: delta_ok_def accepted_def)
qed

definition compactable_session :: session where
  "compactable_session = sample_session\<lparr>s_history := compactable_history, s_context_state := context_state_default\<rparr>"

theorem context_state_consistent_witness:
  "\<exists>r m. sm_message m = MAssistant [] \<and> covers_beginning sample_codec (compactable_history @ [m]) r"
proof -
  obtain pc r where pc: "snd (pipeline_prepare sample_pipeline sample_request) = Inr pc"
    "dl_active_checkpoint (pcx_state_delta pc) = SetTo r" using sample_prepared by blast
  have "checkpoint_ok (cx_codec sample_pipeline) (s_history compactable_session) (s_context_state compactable_session)"
    by (simp add: checkpoint_ok_def compactable_session_def context_state_default_def)
  from context_state_consistent [OF this _ _ pc(1), of "MAssistant []"]
  have ok: "checkpoint_ok sample_codec (s_history s') (s_context_state s')"
    if "s' = fst (append_message (MAssistant []) (apply_context_state_delta (pcx_state_delta pc) compactable_session))"
    for s' using that by (simp add: sample_fields compactable_session_def)
  then show ?thesis using pc(2)
    by (simp add: compactable_session_def checkpoint_ok_def append_message_def Let_def
      apply_context_state_delta_def apply_update_def) (meson session_message.select_convs(2))
qed

text \<open>With durability disabled a compaction names a checkpoint that was not written: when no file
  of that name happens to exist, every later preparation of the session with an artifact
  directory fails, whatever its history and budget.\<close>

theorem unwritten_checkpoint_blocks_session:
  assumes "persist_policy q = DurDisabled" "snd (pipeline_prepare P q) = Inr pc"
    and "dl_active_checkpoint (pcx_state_delta pc) = SetTo r"
    and "pq_policy later = pq_policy q" "pq_artifacts_dir later = Some dir"
    and "cs_active_checkpoint (pq_context_state later) = Some r"
    and "fs_read (cx_files P) (path_join dir (checkpoint_file (cc_checkpoint_id r))) = Inl err"
  shows "\<exists>reason. pipeline_prepare P later = ([], Inl (HTrace (ReadFailed reason)))"
proof -
  have "cc_artifact r = None"
    using no_artifact_prepare [OF assms(1), of P] assms(2,3) by (simp add: result_ok_def no_artifact_def)
  moreover have "checked_artifacts_dir (pq_policy later) (Some dir) = Inr (Some dir)"
    by (simp add: checked_artifacts_dir_def)
  ultimately show ?thesis using assms(5,6,7)
    by (simp add: pipeline_prepare_def and_then_def lift_error_def load_checkpoint_def checkpoint_path_def read_failed_def)
qed

theorem unwritten_checkpoint_blocks_session_witness: "\<exists>r reason. pipeline_prepare sample_pipeline
    (sample_request\<lparr>pq_context_state := context_state_default\<lparr>cs_active_checkpoint := Some r\<rparr>\<rparr>) =
  ([], Inl (HTrace (ReadFailed reason)))"
proof -
  obtain pc r where pc: "snd (pipeline_prepare sample_pipeline sample_request) = Inr pc"
    "dl_active_checkpoint (pcx_state_delta pc) = SetTo r"
    using sample_prepared by blast
  show ?thesis
    by (intro exI [of _ r], rule unwritten_checkpoint_blocks_session [OF _ pc])
      (simp_all add: sample_pipeline_def sample_request_def persist_policy_def)
qed

end
