(* ===== verification/Loop_Context.thy ===== *)
theory Loop_Context
  imports Loop_Safety Executor_Properties Preparation_Properties
begin

text \<open>
  The agent loop and the context pipeline together. The locale states what an invariant of the
  session must survive: an appended message, a new token budget, a next-turn override, and the
  changes of a prepared context. Every operation of the loop then keeps it. It is interpreted
  on the consistency of the context state, with the runtime's pipeline preparing the contexts.
\<close>

section \<open>Invariants of the session\<close>

locale session_invariant =
  fixes L :: agent_loop and I :: "session \<Rightarrow> bool"
  assumes appended: "I s \<Longrightarrow> I (fst (append_message m s))"
    and budgeted: "I s \<Longrightarrow> I (s\<lparr>s_token_budget := b\<rparr>)"
    and overridden: "I s \<Longrightarrow> I (s\<lparr>s_next_turn_override := ov\<rparr>)"
    and prepared: "I s \<Longrightarrow> snd (al_prepare L k q) = Inr pc \<Longrightarrow> pq_history q = s_history s \<Longrightarrow>
      pq_context_state q = s_context_state s \<Longrightarrow> I (apply_context_state_delta (pcx_state_delta pc) s)"
begin

lemma wp_drain:
  assumes "I (ls_session st)"
  shows "wp (drain_session_messages L turn st) (\<lambda>r _. I (ls_session (snd r))) (\<lambda>_ _. True) w"
proof (cases "al_queue_drain L")
  case None
  then show ?thesis using assms by (simp add: drain_session_messages_def)
next
  case (Some drain)
  have inj: "wp (fold_act (inject_message L turn) messages st) (\<lambda>st' _. I (ls_session st')) (\<lambda>_ _. True) w'" for messages w'
    by (rule wp_fold [where I = "\<lambda>_ st' _. I (ls_session st')"])
      (auto simp: inject_message_def assms simp del: wp_then intro!: wp_then_any appended)
  have tail: "wp (fold_act (inject_message L turn) messages st)
      (\<lambda>st'. wp (then_act (al_emit L ev) (ret (n, st'))) (\<lambda>r _. I (ls_session (snd r))) (\<lambda>_ _. True)) (\<lambda>_ _. True) w'" for messages ev w' and n :: nat
    by (rule wp_conseq [OF inj], rule wp_then_any) simp_all
  show ?thesis unfolding drain_session_messages_def Some option.case wp_bind wp_ask wp_if wp_lift
    using tail assms by (simp split: sum.splits)
qed

lemma wp_prepared:
  assumes "I s" "pq_history q = s_history s" "pq_context_state q = s_context_state s"
  shows "wp (prepare_context L q) (\<lambda>pc _. I (apply_context_state_delta (pcx_state_delta pc) s)) (\<lambda>_ _. True) w"
  unfolding prepare_context_def wp_bind wp_ask
  by (auto simp: prepared [OF assms(1) _ assms(2,3)] simp del: wp_then split: prod.splits sum.splits
      intro!: wp_then_any) (metis assms prepared snd_conv)

lemma wp_build:
  assumes "I (ls_session st)"
  shows "wp (build_request L turn st) (\<lambda>r _. I (ls_session (snd r))) (\<lambda>_ _. True) w"
proof -
  let ?s = "(ls_session st)\<lparr>s_next_turn_override := None\<rparr>"
  have "I ?s" using assms by (rule overridden)
  then have prep: "wp (bind_act (prepare_context L q) f) (\<lambda>r _. I (ls_session (snd r))) (\<lambda>_ _. True) w1"
    if "pq_history q = s_history ?s" "pq_context_state q = s_context_state ?s"
      "\<And>pc w2. I (apply_context_state_delta (pcx_state_delta pc) ?s) \<Longrightarrow>
         wp (f pc) (\<lambda>r _. I (ls_session (snd r))) (\<lambda>_ _. True) w2" for q f w1
    unfolding wp_bind by (rule wp_conseq [OF wp_prepared]) (use that in auto)
  show ?thesis unfolding build_request_def Let_def
    by (rule wp_then_any, rule wp_then_any, rule wp_then_any, rule wp_bind_any, rule prep)
      ((simp; fail) | intro wp_then_any wp_bind_any)+
qed

lemma reacted: "react_event ev ss = Inr ss' \<Longrightarrow> I (ls_session (ss_state ss)) \<Longrightarrow> I (ls_session (ss_state ss'))"
  by (cases ev) (auto simp: react_event_def record_usage_event_def budgeted split: if_splits)

lemma wp_stream:
  assumes "I (ls_session (ss_state ss))"
  shows "wp (stream_loop L hash items ss) (\<lambda>ss' _. I (ls_session (ss_state ss'))) (\<lambda>_ _. True) w"
  using assms
proof (induction items arbitrary: ss w)
  case Nil
  then show ?case unfolding stream_loop.simps wp_bind select_cancel_def wp_ask wp_if wp_then
    by (auto intro: wp_any)
next
  case (Cons item items)
  have step: "wp (fold_act (stream_event_step L) evs ss1) (\<lambda>ss' _. I (ls_session (ss_state ss'))) (\<lambda>_ _. True) w'"
    if "I (ls_session (ss_state ss1))" for evs ss1 w'
    by (rule wp_fold [where I = "\<lambda>_ ss' _. I (ls_session (ss_state ss'))"])
      (use that in \<open>auto simp: stream_event_step_def simp del: wp_then split: sum.splits intro!: wp_then_any
        elim!: reacted\<close>)
  have more: "wp (fold_act (stream_event_step L) evs (ss\<lparr>ss_acc := acc\<rparr>))
      (\<lambda>ss'. wp (stream_loop L hash items ss') (\<lambda>ss'' _. I (ls_session (ss_state ss''))) (\<lambda>_ _. True)) (\<lambda>_ _. True) w'"
    for evs acc w'
    by (rule wp_conseq [OF step]) (auto intro: wp_conseq [OF Cons.IH] simp: Cons.prems)
  show ?case
  proof (cases item)
    case (Inl err)
    show ?thesis unfolding Inl stream_loop.simps
      by (rule wp_bind_any) (simp only: sum.case split: if_split, intro conjI impI wp_then_any, simp_all)
  next
    case (Inr ev)
    then show ?thesis using more
      by (auto simp: select_cancel_def intro: wp_any split: prod.splits)
  qed
qed

lemma wp_response:
  assumes "I (ls_session st)"
  shows "wp (stream_response L request st) (\<lambda>(_, _, _, st') _. I (ls_session st')) (\<lambda>_ _. True) w"
proof -
  let ?Q = "\<lambda>(turn, reason, proposed, st') _. I (ls_session st')"
  have finish: "wp (finish_response L hash ss) ?Q (\<lambda>_ _. True) w'"
    if "I (ls_session (ss_state ss))" for hash ss w'
    unfolding finish_response_def Let_def
    by (intro wp_then_any wp_bind_any) (simp add: appended that)
  have receive: "wp (receive_response L hash st res) ?Q (\<lambda>_ _. True) w'" for hash res w'
  proof (cases res)
    case (Inl e)
    show ?thesis unfolding receive_response_def Inl sum.case by (rule wp_then_any) simp
  next
    case (Inr items)
    show ?thesis unfolding receive_response_def Inr sum.case wp_bind
      by (rule wp_conseq [OF wp_stream]) (simp_all add: finish assms)
  qed
  have start: "wp (if c then then_act m (fail HCancelled) else bind_act q (receive_response L hash st)) ?Q (\<lambda>_ _. True) w'"
    for c m q hash w'
    by (cases c; simp only: if_True if_False) (rule wp_then_any wp_bind_any, simp add: receive)+
  show ?thesis unfolding stream_response_def
    by (rule wp_then_any, rule wp_then_any, rule wp_bind_any, rule start)
qed

lemma wp_results:
  assumes "I (ls_session st)"
  shows "wp (fold_act (result_step L calls) results st) (\<lambda>st' _. I (ls_session st')) (\<lambda>_ _. True) w"
proof (rule wp_fold [where I = "\<lambda>_ st' _. I (ls_session st')"], goal_cases)
  case (1 ys r zs st1 w1)
  then show ?case unfolding result_step_def Let_def
    by (cases r) (auto simp: appended simp del: wp_then intro!: wp_then_any)
qed (use assms in simp_all)

lemma wp_turn:
  assumes "I (ls_session st)"
  shows "wp (run_turn L turn request st) (\<lambda>r _. I (ls_session (snd r))) (\<lambda>_ _. True) w"
proof -
  have exec: "wp (bind_act b (\<lambda>(results, grants).
         bind_act (fold_act (result_step L calls) results (st1\<lparr>ls_grants := grants\<rparr>)) (\<lambda>st2.
           ret (ToolExecuted, st2)))) (\<lambda>r _. I (ls_session (snd r))) (\<lambda>_ _. True) w'"
    if "I (ls_session st1)" for b :: "(tool_result list \<times> session_grant list) action" and calls st1 w'
    by (intro wp_bind_any) (auto intro!: wp_conseq [OF wp_results] simp: that split: prod.splits)
  show ?thesis unfolding run_turn_def wp_bind [of "stream_response _ _ _"]
    by (rule wp_conseq [OF wp_response [OF assms]])
      (auto simp: Let_def exec simp del: wp_then wp_bind intro!: wp_then_any split: prod.splits)
qed

lemma wp_next_turn_events:
  assumes "I s"
  shows "wp (next_turn_events L evs s) (\<lambda>r _. I (snd r)) (\<lambda>_ _. True) w"
  using assms
proof (induction evs arbitrary: s w)
  case (Cons ev evs)
  have more: "wp (then_act (al_emit L ev) (next_turn_events L evs s')) (\<lambda>r _. I (snd r)) (\<lambda>_ _. True) w'"
    if "I s'" for ev s' w' using that by (intro wp_then_any Cons.IH)
  have stop: "wp (then_act (al_emit L ev) (ret (Some reason, s))) (\<lambda>r _. I (snd r)) (\<lambda>_ _. True) w'" for ev reason w'
    by (rule wp_then_any) (simp add: Cons.prems)
  show ?case by (cases ev) (simp_all only: next_turn_events.simps agent_event.case more stop overridden Cons.prems)
qed simp

lemma wp_next_turn:
  assumes "I s"
  shows "wp (next_turn_hooks_run L turn hs s) (\<lambda>r _. I (snd r)) (\<lambda>_ _. True) w"
  using assms
proof (induction hs arbitrary: s w)
  case (Cons h hs)
  have some: "wp (bind_act (next_turn_events L events s) (\<lambda>(blocked, s'). case blocked of
           Some reason \<Rightarrow> ret (Some reason, s')
         | None \<Rightarrow> next_turn_hooks_run L turn hs s')) (\<lambda>r _. I (snd r)) (\<lambda>_ _. True) w1" for events w1
    unfolding wp_bind
    by (rule wp_conseq [OF wp_next_turn_events [OF Cons.prems]])
      (auto intro!: wp_conseq [OF Cons.IH] split: option.splits)
  have err: "wp (if e = HCancelled then fail HCancelled
         else then_act (al_emit L ev) (next_turn_hooks_run L turn hs s)) (\<lambda>r _. I (snd r)) (\<lambda>_ _. True) w1" for e ev w1
    by (cases "e = HCancelled") (simp, simp only: if_False, rule wp_then_any, rule Cons.IH, rule Cons.prems)
  show ?case unfolding next_turn_hooks_run.simps
    by (rule wp_bind_any) (simp only: some err split: sum.split, blast intro: some err)
qed simp

lemma wp_request:
  assumes "I (ls_session st)"
  shows "wp (request_turn L turns st) (\<lambda>r _. I (ls_session (snd r))) (\<lambda>_ _. True) w"
  unfolding request_turn_def wp_bind [of "build_request _ _ _"]
proof (rule wp_conseq [OF wp_build [OF assms]])
  fix q :: "provider_request \<times> loop_state" and w1
  assume "I (ls_session (snd q))"
  moreover obtain request st1 where q: "q = (request, st1)" by (cases q)
  ultimately have "I (ls_session st1)" by simp
  then show "wp (case q of (request, st1) \<Rightarrow> bind_act (run_turn L turns request st1) (\<lambda>(outcome, st2).
      then_act (emit_checkpoint L st2)
        (ret (stop_reason_of L (ls_session st2) (saturating_add turns 1) outcome, st2))))
     (\<lambda>r _. I (ls_session (snd r))) (\<lambda>_ _. True) w1"
    unfolding q prod.case wp_bind
    by (auto intro!: wp_conseq [OF wp_turn] wp_then_any simp del: wp_then split: prod.splits)
qed simp

lemma wp_whole_turn:
  assumes "I (ls_session st)"
  shows "wp (loop_turn L turns st) (\<lambda>r _. I (ls_session (snd r))) (\<lambda>_ _. True) w"
  unfolding loop_turn_def wp_bind
  by (rule wp_conseq [OF wp_drain [OF assms]])
    (auto intro!: wp_then_any wp_request simp del: wp_then split: prod.splits)

lemma wp_hooks:
  assumes "I (ls_session st)"
  shows "wp (invoke_next_turn_hooks L turn st) (\<lambda>r _. I (ls_session (snd r))) (\<lambda>_ _. True) w"
  unfolding invoke_next_turn_hooks_def wp_bind
  by (rule wp_conseq [OF wp_next_turn [OF assms]]) (auto split: prod.splits)

lemma wp_loop:
  "I (ls_session st) \<Longrightarrow> wp (run_loop L turns st) (\<lambda>(_, _, st') _. I (ls_session st')) (\<lambda>_ _. True) w"
proof (induction "unat (al_max_turns L) - turns" arbitrary: turns st w rule: less_induct)
  case less
  let ?Q = "\<lambda>(_ :: stop_reason, _ :: nat, st') _. I (ls_session st')"
  have next_turn: "wp (bind_act (invoke_next_turn_hooks L (saturating_add turns 1) st1) (\<lambda>(blocked, st2). case blocked of
             Some block_reason \<Rightarrow> stop_blocked L block_reason (saturating_add turns 1) st2
           | None \<Rightarrow> run_loop L (saturating_add turns 1) st2)) ?Q (\<lambda>_ _. True) w1"
    if "I (ls_session st1)" "turns < unat (al_max_turns L)" for st1 w1
    unfolding wp_bind
  proof (rule wp_conseq [OF wp_hooks [OF that(1)]])
    fix r :: "string option \<times> loop_state" and w2
    assume i: "I (ls_session (snd r))"
    have "wp (run_loop L (saturating_add turns 1) (snd r)) ?Q (\<lambda>_ _. True) w2"
      using less.hyps [of "saturating_add turns 1"] i that(2) turns_step [OF that(2)] by simp
    moreover have "wp (stop_blocked L reason n (snd r)) ?Q (\<lambda>_ _. True) w2" for reason n
      unfolding stop_blocked_def by (intro wp_then_any) (simp add: i)
    ultimately show "wp (case r of (blocked, st2) \<Rightarrow> case blocked of
             Some block_reason \<Rightarrow> stop_blocked L block_reason (saturating_add turns 1) st2
           | None \<Rightarrow> run_loop L (saturating_add turns 1) st2) ?Q (\<lambda>_ _. True) w2"
      by (cases r) (auto split: option.splits)
  qed simp
  have stopped: "wp (then_act m (ret (reason, n, st1))) ?Q (\<lambda>_ _. True) w1"
    if "I (ls_session st1)" for m :: "unit action" and reason n st1 w1
    by (rule wp_then_any) (simp add: that)
  show ?case
  proof (subst run_loop.simps, rule wp_bind_any)
    fix c w1
    have turn: "wp (bind_act (loop_turn L turns st) (\<lambda>(stop, st1). case stop of
         Some reason \<Rightarrow>
           then_act (if reason = EndTurn \<or> reason = ToolUse then ret () else al_emit L (EvStop reason))
             (ret (reason, saturating_add turns 1, st1))
       | None \<Rightarrow> bind_act (invoke_next_turn_hooks L (saturating_add turns 1) st1) (\<lambda>(blocked, st2). case blocked of
             Some block_reason \<Rightarrow> stop_blocked L block_reason (saturating_add turns 1) st2
           | None \<Rightarrow> run_loop L (saturating_add turns 1) st2))) ?Q (\<lambda>_ _. True) w1"
      if t: "turns < unat (al_max_turns L)" unfolding wp_bind [of "loop_turn _ _ _"]
    proof (rule wp_conseq [OF wp_whole_turn [OF less.prems]])
      fix r :: "stop_reason option \<times> loop_state" and w2
      assume i: "I (ls_session (snd r))"
      show "wp (case r of (stop, st1) \<Rightarrow> case stop of
         Some reason \<Rightarrow>
           then_act (if reason = EndTurn \<or> reason = ToolUse then ret () else al_emit L (EvStop reason))
             (ret (reason, saturating_add turns 1, st1))
       | None \<Rightarrow> bind_act (invoke_next_turn_hooks L (saturating_add turns 1) st1) (\<lambda>(blocked, st2). case blocked of
             Some block_reason \<Rightarrow> stop_blocked L block_reason (saturating_add turns 1) st2
           | None \<Rightarrow> run_loop L (saturating_add turns 1) st2)) ?Q (\<lambda>_ _. True) w2"
        using i next_turn [OF _ t] stopped by (cases r; cases "fst r"; simp only: prod.case option.case fst_conv snd_conv)
    qed simp
    show "wp (if c then fail HCancelled
     else if turns \<ge> unat (al_max_turns L) then
       then_act (al_emit L (EvStop MaxTurns)) (ret (MaxTurns, turns, st))
     else if exhausted (s_token_budget (ls_session st)) then
       then_act (al_emit L (EvStop BudgetExhausted)) (ret (BudgetExhausted, turns, st))
     else bind_act (loop_turn L turns st) (\<lambda>(stop, st1). case stop of
         Some reason \<Rightarrow>
           then_act (if reason = EndTurn \<or> reason = ToolUse then ret () else al_emit L (EvStop reason))
             (ret (reason, saturating_add turns 1, st1))
       | None \<Rightarrow> bind_act (invoke_next_turn_hooks L (saturating_add turns 1) st1) (\<lambda>(blocked, st2). case blocked of
             Some block_reason \<Rightarrow> stop_blocked L block_reason (saturating_add turns 1) st2
           | None \<Rightarrow> run_loop L (saturating_add turns 1) st2))) ?Q (\<lambda>_ _. True) w1"
      using turn stopped [OF less.prems] by (auto simp: not_le simp del: wp_then wp_bind)
  qed
qed

lemma wp_whole_run:
  assumes "I s"
  shows "wp (run L s) (\<lambda>(_, s') _. I s') (\<lambda>_ _. True) w"
  unfolding run_def
proof (rule wp_then_any, rule wp_then_any, subst wp_bind, rule wp_conseq [OF wp_loop])
  show "I (ls_session (initial_state s))" using assms by (simp add: initial_state_def)
  fix r :: "stop_reason \<times> nat \<times> loop_state" and w1 :: world
  assume "(case r of (_, _, st') \<Rightarrow> \<lambda>_. I (ls_session st')) w1"
  then show "wp (case r of (reason, turns, st) \<Rightarrow> then_act (close_queue L)
     (then_act (session_end_hooks L (ls_session st)) (ret (result_of reason turns st, ls_session st))))
     (\<lambda>(_, s') _. I s') (\<lambda>_ _. True) w1"
    by (cases r) (auto intro!: wp_then_any simp del: wp_then)
qed simp

lemma run_keeps: "I s \<Longrightarrow> run L s w = (Inr (result, s'), w') \<Longrightarrow> I s'"
  using wp_InrD [OF wp_whole_run] by fastforce

end

section \<open>With the runtime's pipeline\<close>

text \<open>A loop whose contexts the pipeline \<open>P\<close> prepares and whose provider counts as \<open>P\<close> does.\<close>

definition with_pipeline :: "pipeline \<Rightarrow> agent_loop \<Rightarrow> agent_loop" where
  "with_pipeline P L = L\<lparr>al_prepare := \<lambda>_. pipeline_prepare P\<rparr>"

lemma delta_keeps_consistent:
  assumes "checkpoint_ok (cx_codec P) (s_history s) (s_context_state s)"
    and "snd (pipeline_prepare P q) = Inr pc" "pq_history q = s_history s" "pq_context_state q = s_context_state s"
  shows "checkpoint_ok (cx_codec P) (s_history s) (s_context_state (apply_context_state_delta (pcx_state_delta pc) s))"
proof -
  have "delta_ok P q pc" using delta_prepare [of P q] assms by (simp add: result_ok_def)
  then show ?thesis using assms(1,3)
    by (cases "dl_active_checkpoint (pcx_state_delta pc)")
      (auto simp: checkpoint_ok_def delta_ok_def apply_context_state_delta_def apply_update_def Let_def)
qed

interpretation context_consistency: session_invariant "with_pipeline P L"
  "\<lambda>s. checkpoint_ok (cx_codec P) (s_history s) (s_context_state s)"
proof unfold_locales
  fix s :: session and m :: message
  assume "checkpoint_ok (cx_codec P) (s_history s) (s_context_state s)"
  then show "checkpoint_ok (cx_codec P) (s_history (fst (append_message m s)))
      (s_context_state (fst (append_message m s)))"
    by (simp add: append_message_def Let_def checkpoint_ok_def covers_beginning_append)
next
  fix s :: session and k q pc
  assume "checkpoint_ok (cx_codec P) (s_history s) (s_context_state s)"
    "snd (al_prepare (with_pipeline P L) k q) = Inr pc"
    "pq_history q = s_history s" "pq_context_state q = s_context_state s"
  then show "checkpoint_ok (cx_codec P) (s_history (apply_context_state_delta (pcx_state_delta pc) s))
      (s_context_state (apply_context_state_delta (pcx_state_delta pc) s))"
    using delta_keeps_consistent by (simp add: with_pipeline_def)
qed simp_all

lemma wp_built_fits:
  assumes "\<And>r n. cx_count P r = Inr n \<Longrightarrow> n \<le> usize_max"
    and "cm_enabled (s_context_policy (ls_session st))" "0 < tb_model_limit (s_token_budget (ls_session st))"
    and "0 < usable_limit (s_token_budget (ls_session st)) (s_context_policy (ls_session st))"
  shows "wp (build_request (with_pipeline P L) turn st) (\<lambda>r _. \<exists>n. cx_count P (fst r) = Inr n \<and>
     n \<le> usable_limit (s_token_budget (ls_session st)) (s_context_policy (ls_session st))) (\<lambda>_ _. True) w"
proof -
  let ?Q = "\<lambda>r _. \<exists>n. cx_count P (fst r) = Inr n \<and>
     n \<le> usable_limit (s_token_budget (ls_session st)) (s_context_policy (ls_session st))"
  have prep: "wp (bind_act (prepare_context (with_pipeline P L) q) f) ?Q (\<lambda>_ _. True) w1"
    if "management_on q" "pq_token_budget q = s_token_budget (ls_session st)" "pq_policy q = s_context_policy (ls_session st)"
      "\<And>pc w2. (\<exists>n. cx_count P (request_with (pq_request_template q) (pcx_packet pc)) = Inr n \<and>
           n \<le> usable_limit (s_token_budget (ls_session st)) (s_context_policy (ls_session st))) \<Longrightarrow>
         wp (f pc) ?Q (\<lambda>_ _. True) w2" for q f w1
  proof -
    have "wp (prepare_context (with_pipeline P L) q) (\<lambda>pc _. fits P q pc) (\<lambda>_ _. True) w1"
      using fits_prepare [OF that(1), of P] assms(1)
      by (auto simp: prepare_context_def with_pipeline_def counts_usize_def result_ok_def simp del: wp_then
        split: prod.splits sum.splits intro!: wp_then_any)
    then show ?thesis unfolding wp_bind
      by (rule wp_conseq) (use that in \<open>auto simp: fits_def\<close>)
  qed
  show ?thesis unfolding build_request_def Let_def
    by (rule wp_then_any, rule wp_then_any, rule wp_then_any, rule wp_bind_any, rule prep)
      ((use assms in \<open>simp add: management_on_def request_with_def; fail\<close>) | intro wp_then_any wp_bind_any)+
qed

section \<open>A sample run\<close>

text \<open>A loop of one turn over the sample pipeline, in a session with room for every request.\<close>

definition piped_loop :: agent_loop where
  "piped_loop = with_pipeline sample_pipeline
     \<lparr>al_env = sample_env, al_max_turns = 1, al_is_cancelled = (\<lambda>_. False),
      al_provider_id = ''p'', al_default_model = ''m'', al_adapt_tools = (\<lambda>_. ([], [])),
      al_count_request_tokens = (\<lambda>_. cx_count sample_pipeline), 
      al_stream = (\<lambda>_ _. Inr [Inr (EvText ''done''), Inr (EvStop EndTurn)]),
      al_descriptors = (\<lambda>_. []), al_prepare = (\<lambda>_. pipeline_prepare sample_pipeline),
      al_queue_drain = None, al_run_id = None, al_artifacts_dir = None, al_parse = (\<lambda>_. Inr (VObject [])),
      al_request_hash = (\<lambda>_. []), al_retention_fingerprint = (\<lambda>_. [])\<rparr>"

definition roomy_session :: session where
  "roomy_session = sample_session
     \<lparr>s_history := compactable_history,
      s_token_budget := (pq_token_budget sample_request)\<lparr>tb_model_limit := 4000\<rparr>,
      s_context_policy := pq_policy sample_request\<rparr>"

lemma sample_packet_built: "\<exists>packet plan. build_management_packet_with_plan sample_pipeline h b = Inr (packet, plan)"
  by (simp add: build_management_packet_with_plan_def build_packet_with_plan_def sample_pipeline_def Let_def)

lemma roomy_prepare:
  assumes "pq_policy q = pq_policy sample_request" "pq_context_state q = context_state_default"
    and "pq_artifacts_dir q = None" "pq_token_budget q = s_token_budget roomy_session"
  shows "\<exists>evs pc. pipeline_prepare sample_pipeline q = (evs, Inr pc)"
proof -
  have on: "management_on q" using assms
    by (simp add: management_on_def roomy_session_def sample_request_def usable_limit_def context_policy_default_def saturating_sub_def)
  have app: "\<exists>app. build_projected_history px h context_state_default None sid = Some app" for px h sid
    by (simp add: build_projected_history_def apply_checkpoint_def context_state_default_def Let_def cleared_values_def)
  have room: "saturating_add (400 * min 9 n) (projected_next_turn_growth (pq_token_budget q))
      \<le> usable_limit (pq_token_budget q) (pq_policy q)" for n
    using assms by (simp add: usable_limit_def projected_next_turn_growth_def roomy_session_def sample_request_def
      context_policy_default_def saturating_sub_def saturating_add_def usize_max_def)
  obtain packet plan where built: "build_management_packet_with_plan sample_pipeline
      (to_session_messages (pq_session_id q) (pa_items (the (build_projected_history sample_codec (pq_history q) context_state_default None (pq_session_id q)))))
      (pq_token_budget q) = Inr (packet, plan)"
    using sample_packet_built by blast
  show ?thesis using app [of sample_codec "pq_history q" "pq_session_id q"] on built room
    by (auto simp: pipeline_prepare_def assms(1-3) sample_stages sample_policy_valid sample_fields and_then_def lift_error_def yield_ok_def
      manage_context_def emitting_event_def Let_def finish_prepare_def persist_context_artifacts_def)
qed

lemma quiet_emit: "(\<And>w. Q () w) \<Longrightarrow> wp (emit sample_env ev) Q F w"
  by (simp add: emit_def emit_fn_def sample_env_def registry_new_def)

lemma piped_fields:
  "al_env piped_loop = sample_env" "al_hooks piped_loop = registry_new" "al_max_turns piped_loop = 1"
  "al_is_cancelled piped_loop = (\<lambda>_. False)" "al_queue_drain piped_loop = None" 
  "al_prepare piped_loop = (\<lambda>_. pipeline_prepare sample_pipeline)"
  "al_adapt_tools piped_loop x = ([],[])"
  "al_artifacts_dir piped_loop = None" "al_emit piped_loop = emit sample_env"
  "al_count_request_tokens piped_loop k r = Inr (400 * min 9 (length (rq_messages r)))"
  "al_stream piped_loop = (\<lambda>_ _. Inr [Inr (EvText ''done''), Inr (EvStop EndTurn)])"
  "al_parse piped_loop = (\<lambda>_. Inr (VObject []))"
  by (simp_all add: fun_eq_iff al_emit_def piped_loop_def with_pipeline_def al_hooks_def sample_env_def sample_pipeline_def)

lemma for_emit: "(\<And>w. Q () w) \<Longrightarrow> wp (for_act (emit sample_env) evs) Q F w"
  by (induction evs arbitrary: w) (auto intro!: quiet_emit)

lemma piped_build:
  assumes "\<And>r w. s_token_budget (ls_session (snd r)) = s_token_budget roomy_session \<Longrightarrow> Q r w" "ls_session st = roomy_session"
  shows "wp (build_request piped_loop 0 st) Q F w"
proof -
  have prep: "\<exists>evs pc. pipeline_prepare sample_pipeline q = (evs, Inr pc)"
    if "pq_policy q = s_context_policy roomy_session" "pq_context_state q = s_context_state roomy_session"
      "pq_artifacts_dir q = None" "pq_token_budget q = s_token_budget roomy_session" for q
    using that by (intro roomy_prepare) (simp_all add: roomy_session_def sample_session_def session_new_def)
  have ready: "wp (prepare_context piped_loop q) Q' F w'"
    if "pq_policy q = s_context_policy roomy_session" "pq_context_state q = s_context_state roomy_session"
      "pq_artifacts_dir q = None" "pq_token_budget q = s_token_budget roomy_session" "\<And>pc w. Q' pc w" for q Q' w'
    using prep [OF that(1-4)] that(5)
    by (auto simp: prepare_context_def piped_fields intro!: for_emit)
  have override: "s_next_turn_override roomy_session = None"
    and keep: "s_token_budget (apply_context_state_delta d (s\<lparr>s_next_turn_override := None\<rparr>)) = s_token_budget s" for s d
    by (simp_all add: roomy_session_def sample_session_def session_new_def)
  show ?thesis
    by (auto simp: build_request_def piped_fields registry_new_def assms(2) Let_def warn_override_def override keep
      intro!: quiet_emit ready assms(1))
qed

lemma select_quiet: "wp (select_cancel sample_env) Q F w = Q False (w\<lparr>w_tick := Suc (w_tick w)\<rparr>)"
  by (simp add: select_cancel_def sample_env_def)

lemma piped_turn:
  assumes "\<And>r w. Q r w"
  shows "wp (run_turn piped_loop 0 request st) Q F w"
  by (auto simp: run_turn_def stream_response_def model_hooks_before_def model_hooks_after_def piped_fields registry_new_def
    select_quiet receive_response_def stream_event_step_def react_event_def note_proposal_def finish_response_def Let_def
    acc_push_def acc_record_def acc_default_def acc_finish_def assms intro!: quiet_emit)


lemma piped_run: "\<exists>r s' w'. run piped_loop roomy_session start = (Inr (r, s'), w')"
proof -
  have "\<not> exhausted (s_token_budget roomy_session)"
    by (simp add: exhausted_def available_total_def roomy_session_def sample_request_def)
  moreover have turns: "unat (al_max_turns piped_loop) = 1" by (simp add: piped_fields)
  moreover have "saturating_add 0 1 = 1" by (simp add: saturating_add_def usize_max_def)
  ultimately have "wp (run piped_loop roomy_session) (\<lambda>_ _. True) (\<lambda>_ _. False) start"
    by (auto simp: run_def session_start_hooks_def session_end_hooks_def emit_checkpoint_def initial_state_def close_queue_def
      run_loop.simps [of _ 0] loop_turn_def drain_session_messages_def request_turn_def stop_reason_of_def
      piped_fields registry_new_def intro!: quiet_emit piped_build piped_turn)
  then show ?thesis by (auto simp: wp_def split: prod.splits sum.splits)
qed

section \<open>Properties\<close>

text \<open>C14: in a run whose contexts the runtime's pipeline prepares, the context state stays consistent
  with the history from the start to the end: the active checkpoint always covers a non-empty
  beginning of the history, whose hash it records, whatever is appended and compacted.\<close>

theorem run_keeps_context_consistent:
  assumes "checkpoint_ok (cx_codec P) (s_history s) (s_context_state s)"
    and "run (with_pipeline P L) s w = (Inr (result, s'), w')"
  shows "checkpoint_ok (cx_codec P) (s_history s') (s_context_state s')"
  by (rule context_consistency.run_keeps [OF assms])

theorem run_keeps_context_consistent_witness:
  "\<exists>r s' w'. run piped_loop roomy_session start = (Inr (r, s'), w') \<and>
     checkpoint_ok sample_codec (s_history s') (s_context_state s')"
proof -
  obtain r s' w' where run: "run piped_loop roomy_session start = (Inr (r, s'), w')" using piped_run by blast
  have "checkpoint_ok (cx_codec sample_pipeline) (s_history roomy_session) (s_context_state roomy_session)"
    by (simp add: checkpoint_ok_def roomy_session_def sample_session_def session_new_def context_state_default_def)
  from run_keeps_context_consistent [OF this run [unfolded piped_loop_def]] run show ?thesis
    by (auto simp: sample_fields)
qed

text \<open>C13: a request the loop builds from the runtime's pipeline fits: when context management is on
  and the limit is not zero, the provider counts for it at most the usable limit.\<close>

theorem built_request_fits:
  assumes "\<And>r n. cx_count P r = Inr n \<Longrightarrow> n \<le> usize_max"
    and "cm_enabled (s_context_policy (ls_session st))" "0 < tb_model_limit (s_token_budget (ls_session st))"
    and "0 < usable_limit (s_token_budget (ls_session st)) (s_context_policy (ls_session st))"
    and "build_request (with_pipeline P L) turn st w = (Inr (request, st'), w')"
  shows "\<exists>n. cx_count P request = Inr n \<and>
    n \<le> usable_limit (s_token_budget (ls_session st)) (s_context_policy (ls_session st))"
  using wp_InrD [OF wp_built_fits [OF assms(1-4)] assms(5)] by simp

theorem built_request_fits_witness:
  "\<exists>request st' w'. build_request piped_loop 0 (initial_state roomy_session) start = (Inr (request, st'), w') \<and>
     (\<exists>n. cx_count sample_pipeline request = Inr n \<and> n \<le> 4000)"
proof -
  have "wp (build_request piped_loop 0 (initial_state roomy_session)) (\<lambda>_ _. True) (\<lambda>_ _. False) start"
    by (rule piped_build) (simp_all add: initial_state_def)
  then obtain request st' w' where built:
      "build_request piped_loop 0 (initial_state roomy_session) start = (Inr (request, st'), w')"
    by (auto simp: wp_def split: prod.splits sum.splits)
  have roomy: "cm_enabled (s_context_policy roomy_session)" "0 < tb_model_limit (s_token_budget roomy_session)"
    "usable_limit (s_token_budget roomy_session) (s_context_policy roomy_session) = 4000"
    by (simp_all add: roomy_session_def sample_request_def context_policy_default_def usable_limit_def saturating_sub_def)
  have count: "n \<le> usize_max" if "cx_count sample_pipeline r = Inr n" for r n
    using that by (auto simp: sample_pipeline_def usize_max_def)
  have st: "ls_session (initial_state roomy_session) = roomy_session" by (simp add: initial_state_def)
  show ?thesis
    using built_request_fits [OF count _ _ _ built [unfolded piped_loop_def], unfolded st] roomy built by auto
qed

end
