(* ===== verification/Trace_Redaction.thy ===== *)
theory Trace_Redaction
  imports Events
begin

text \<open>
  Redaction of trace events (\<open>redact_event\<close>, \<open>redact_value\<close>, \<open>redact_string\<close> and
  \<open>looks_like_secret\<close> of \<open>gestalt-runtime/src/trace/mod.rs\<close>): a text is cut into its words, words that
  look like a secret are replaced, and the words are joined by one blank. The lemmas: what is left
  contains no word the detector recognises, redacting twice changes nothing more, the flag says
  whether a word was replaced, and the events redaction leaves alone keep their texts.
\<close>

section \<open>Secrets\<close>

definition is_secret_quote :: "char \<Rightarrow> bool" where
  "is_secret_quote c \<longleftrightarrow> c \<in> {CHR 0x22, CHR 0x27, CHR '','', CHR '';'', CHR '')'', CHR ''(''}"

definition is_jwt_like :: "string \<Rightarrow> bool" where
  "is_jwt_like token \<longleftrightarrow>
     (let parts = split_on CHR ''.'' token
      in length parts = 3 \<and> list_all (\<lambda>part. length (utf8_bytes part) \<ge> 8) parts)"

definition looks_like_secret :: "string \<Rightarrow> bool" where
  "looks_like_secret token \<longleftrightarrow>
     (let trimmed = trim_matches is_secret_quote token;
          lowered = to_ascii_lowercase trimmed
      in starts_with trimmed ''sk-'' \<or> starts_with trimmed ''sk_ant_'' \<or> starts_with trimmed ''sk-ant-''
         \<or> is_jwt_like trimmed
         \<or> (str_contains trimmed ''://'' \<and> CHR ''@'' \<in> set trimmed)
         \<or> str_contains lowered ''api_key='')"

section \<open>Redaction\<close>

definition redact_token :: "string \<Rightarrow> string" where
  "redact_token token = (if looks_like_secret token then ''[REDACTED]'' else token)"

text \<open>The text with its words redacted, and whether a word was replaced.\<close>

definition redact_string :: "string \<Rightarrow> string \<times> bool" where
  "redact_string input =
     (let tokens = split_whitespace input
      in (join '' '' (map redact_token tokens), list_ex looks_like_secret tokens))"

fun redact_value :: "json \<Rightarrow> json \<times> bool" where
  "redact_value (VString text') = (VString (fst (redact_string text')), snd (redact_string text'))"
| "redact_value (VArray items) =
     (let rs = map redact_value items in (VArray (map fst rs), list_ex snd rs))"
| "redact_value (VObject entries) =
     (let rs = map (\<lambda>(k, v). (k, redact_value v)) entries
      in (VObject (map (\<lambda>(k, r). (k, fst r)) rs), list_ex (\<lambda>(k, r). snd r) rs))"
| "redact_value v = (v, False)"

definition redact_option :: "string option \<Rightarrow> string option \<times> bool" where
  "redact_option r = (case r of None \<Rightarrow> (None, False)
     | Some s \<Rightarrow> (Some (fst (redact_string s)), snd (redact_string s)))"

definition redact_event :: "agent_event \<Rightarrow> agent_event \<times> bool" where
  "redact_event ev = (case ev of
       EvAux (AuxUserMessage content) \<Rightarrow>
         (EvAux (AuxUserMessage (fst (redact_string content))), snd (redact_string content))
     | EvText delta \<Rightarrow> (EvText (fst (redact_string delta)), snd (redact_string delta))
     | EvThinking delta \<Rightarrow> (EvThinking (fst (redact_string delta)), snd (redact_string delta))
     | EvToolCallStreamed i name input_delta \<Rightarrow>
         (EvToolCallStreamed i name (fst (redact_string input_delta)), snd (redact_string input_delta))
     | EvToolCallProposed i name input \<Rightarrow>
         (EvToolCallProposed i name (fst (redact_value input)), snd (redact_value input))
     | EvPolicyDecision i tool input_hash risk mode rule decision reason source \<Rightarrow>
         (EvPolicyDecision i tool input_hash risk mode rule decision (fst (redact_option reason)) source,
          snd (redact_option reason))
     | EvToolResult i output is_error truncated tool dir ms out_hash refs source failure \<Rightarrow>
         (EvToolResult i (fst (redact_string output)) is_error truncated tool dir ms out_hash refs source
            failure, snd (redact_string output))
     | EvArtifactCreated path size_bytes mime hash \<Rightarrow> (EvArtifactCreated path size_bytes mime hash, False)
     | EvPolicyViolation i tool reason \<Rightarrow>
         (EvPolicyViolation i tool (fst (redact_string reason)), snd (redact_string reason))
     | EvAux (AuxMemoryProposal diff) \<Rightarrow>
         (EvAux (AuxMemoryProposal (fst (redact_string diff))), snd (redact_string diff))
     | EvVerificationResult status checks failed report findings \<Rightarrow>
         (EvVerificationResult status checks failed (fst (redact_option report)) findings,
          snd (redact_option report))
     | EvError message recoverable \<Rightarrow>
         (EvError (fst (redact_string message)) recoverable, snd (redact_string message))
     | other \<Rightarrow> (other, False))"

section \<open>Words\<close>

definition is_word :: "string \<Rightarrow> bool" where
  "is_word w \<longleftrightarrow> w \<noteq> [] \<and> list_all (\<lambda>c. \<not> is_whitespace c) w"

lemma split_ws_acc_words:
  "list_all (\<lambda>c. \<not> is_whitespace c) acc \<Longrightarrow> list_all is_word (split_ws_acc acc s)"
  by (induction acc s rule: split_ws_acc.induct) (auto simp: is_word_def)

lemma split_words [simp]: "list_all is_word (split_whitespace s)"
  by (simp add: split_whitespace_def split_ws_acc_words)

lemma split_ws_acc_word:
  "list_all (\<lambda>c. \<not> is_whitespace c) w \<Longrightarrow> split_ws_acc acc (w @ s) = split_ws_acc (acc @ w) s"
  by (induction w arbitrary: acc) auto

lemma split_join: "list_all is_word ws \<Longrightarrow> split_whitespace (join '' '' ws) = ws"
proof (induction ws rule: induct_list012)
  case (2 w)
  then show ?case
    using split_ws_acc_word [of w "[]" "[]"] by (auto simp: split_whitespace_def is_word_def)
next
  case (3 w v ws)
  have blank: "is_whitespace CHR '' ''" by (simp add: is_whitespace_def)
  have "split_ws_acc [] (w @ CHR '' '' # join '' '' (v # ws)) = w # split_ws_acc [] (join '' '' (v # ws))"
    using 3 blank by (simp add: split_ws_acc_word is_word_def)
  with 3 show ?case by (simp add: split_whitespace_def)
qed (simp add: split_whitespace_def)

lemma redacted_marker [simp]: "\<not> looks_like_secret ''[REDACTED]''"
  by code_simp

lemma redact_token_clean [simp]: "\<not> looks_like_secret (redact_token w)"
  by (simp add: redact_token_def)

lemma redact_token_id: "\<not> looks_like_secret w \<Longrightarrow> redact_token w = w"
  by (simp add: redact_token_def)

lemma redact_token_word: "is_word w \<Longrightarrow> is_word (redact_token w)"
  by (simp add: redact_token_def is_word_def is_whitespace_def)

lemma redacted_words: "split_whitespace (fst (redact_string s)) = map redact_token (split_whitespace s)"
  using split_words [of s]
  by (simp add: redact_string_def Let_def split_join list.pred_map comp_def list_all_iff redact_token_word)

definition clean_text :: "string \<Rightarrow> bool" where
  "clean_text s \<longleftrightarrow> \<not> list_ex looks_like_secret (split_whitespace s)"

lemma redact_string_clean [simp]: "clean_text (fst (redact_string s))"
  by (simp add: clean_text_def redacted_words list_ex_iff)

lemma redact_string_flag: "snd (redact_string s) \<longleftrightarrow> \<not> clean_text s"
  by (simp add: redact_string_def Let_def clean_text_def)

lemma redact_string_stable [simp]: "fst (redact_string (fst (redact_string s))) = fst (redact_string s)"
  by (simp add: redact_string_def [of "fst (redact_string s)"] Let_def redacted_words redact_token_id
      comp_def) (simp add: redact_string_def Let_def comp_def)

section \<open>Values\<close>

text \<open>No text of the value, keys aside, has a word that looks like a secret.\<close>

fun clean_value :: "json \<Rightarrow> bool" where
  "clean_value (VString s) = clean_text s"
| "clean_value (VArray xs) = list_all clean_value xs"
| "clean_value (VObject kvs) = list_all (\<lambda>kv. clean_value (snd kv)) kvs"
| "clean_value _ = True"

lemma redact_value_clean [simp]: "clean_value (fst (redact_value v))"
proof (induction v)
  case (VObject kvs)
  then show ?case by (fastforce simp: Let_def list_all_iff)
qed (auto simp: Let_def list_all_iff)

lemma redact_value_stable [simp]: "fst (redact_value (fst (redact_value v))) = fst (redact_value v)"
proof (induction v)
  case (VObject kvs)
  then show ?case by (fastforce simp: Let_def)
qed (auto simp: Let_def)

lemma redact_value_flag: "snd (redact_value v) \<longleftrightarrow> \<not> clean_value v"
proof (induction v)
  case (VObject kvs)
  have "snd (redact_value (snd kv)) \<longleftrightarrow> \<not> clean_value (snd kv)" if "kv \<in> set kvs" for kv
    using VObject [OF that, of "snd kv"] by (cases kv) simp
  then show ?case by (simp add: Let_def list_all_iff list_ex_iff case_prod_beta)
qed (auto simp: Let_def redact_string_flag list_all_iff list_ex_iff)

lemma redact_option_simps [simp]:
  "redact_option None = (None, False)"
  "redact_option (Some s) = (Some (fst (redact_string s)), \<not> clean_text s)"
  by (simp_all add: redact_option_def redact_string_flag)

section \<open>Events\<close>

text \<open>The texts and values of an event that redaction covers.\<close>

definition covered_clean :: "agent_event \<Rightarrow> bool" where
  "covered_clean ev = (case ev of
       EvAux (AuxUserMessage s) \<Rightarrow> clean_text s
     | EvAux (AuxMemoryProposal s) \<Rightarrow> clean_text s
     | EvText s \<Rightarrow> clean_text s
     | EvThinking s \<Rightarrow> clean_text s
     | EvToolCallStreamed i nm s \<Rightarrow> clean_text s
     | EvToolCallProposed i nm v \<Rightarrow> clean_value v
     | EvPolicyDecision i t h r m ru d reason src \<Rightarrow> pred_option clean_text reason
     | EvToolResult i s e tr t dir ms h refs src f \<Rightarrow> clean_text s
     | EvPolicyViolation i t s \<Rightarrow> clean_text s
     | EvVerificationResult st ch fa report fs \<Rightarrow> pred_option clean_text report
     | EvError s r \<Rightarrow> clean_text s
     | _ \<Rightarrow> True)"

lemmas redact_event_simps = redact_event_def covered_clean_def redact_string_flag redact_value_flag

lemma redact_event_flag: "snd (redact_event ev) \<longleftrightarrow> \<not> covered_clean ev"
proof (cases ev)
  case (EvAux a)
  then show ?thesis by (cases a) (simp_all add: redact_event_simps)
next
  case (EvPolicyDecision a b c d e f g reason i)
  then show ?thesis by (cases reason) (simp_all add: redact_event_simps)
next
  case (EvVerificationResult a b c report e)
  then show ?thesis by (cases report) (simp_all add: redact_event_simps)
qed (simp_all add: redact_event_simps)

lemma redact_event_clean: "covered_clean (fst (redact_event ev))"
proof (cases ev)
  case (EvAux a)
  then show ?thesis by (cases a) (simp_all add: redact_event_simps)
next
  case (EvPolicyDecision a b c d e f g reason i)
  then show ?thesis by (cases reason) (simp_all add: redact_event_simps)
next
  case (EvVerificationResult a b c report e)
  then show ?thesis by (cases report) (simp_all add: redact_event_simps)
qed (simp_all add: redact_event_simps)

lemma redact_event_stable: "fst (redact_event (fst (redact_event ev))) = fst (redact_event ev)"
proof (cases ev)
  case (EvAux a)
  then show ?thesis by (cases a) (simp_all add: redact_event_def)
next
  case (EvPolicyDecision a b c d e f g reason i)
  then show ?thesis by (cases reason) (simp_all add: redact_event_def)
next
  case (EvVerificationResult a b c report e)
  then show ?thesis by (cases report) (simp_all add: redact_event_def)
qed (simp_all add: redact_event_def)

end
