(* ===== verification/Trace_Store.thy ===== *)
theory Trace_Store
  imports Trace_Redaction Session
begin

text \<open>
  The trace file (\<open>gestalt-runtime/src/trace/mod.rs\<close> and \<open>trace/event.rs\<close>): envelopes, the sink that
  redacts, numbers and writes events, and the reader. \<open>TraceEventV1\<close> has the variants and the fields
  of the core's \<open>AgentEvent\<close>, so trace events are \<open>agent_event\<close>s here. JSON text and the
  encodings of events, snapshots and times are a \<open>trace_codec\<close>: the code gets them from serde. The
  lemmas: sequence numbers and turn numbers, what is written reads back, unknown kinds are skipped
  without losing or reordering anything else, and one unreadable line makes the file unreadable.
\<close>

section \<open>Event kinds\<close>

text \<open>The tag of an event's encoding: the name of its variant in snake case.\<close>

fun aux_kind :: "aux_event \<Rightarrow> string" where
  "aux_kind (AuxRunStarted _) = ''run_started''"
| "aux_kind (AuxUserMessage _) = ''user_message''"
| "aux_kind (AuxPromptSnapshotCreated _ _ _) = ''prompt_snapshot_created''"
| "aux_kind (AuxPromptSnapshotLoaded _ _) = ''prompt_snapshot_loaded''"
| "aux_kind (AuxPromptSnapshotReused _ _) = ''prompt_snapshot_reused''"
| "aux_kind (AuxPromptCachePlanGenerated _ _ _) = ''prompt_cache_plan_generated''"
| "aux_kind (AuxEphemeralContextInjected _ _) = ''ephemeral_context_injected''"
| "aux_kind (AuxMemoryProposal _) = ''memory_proposal''"
| "aux_kind (AuxWorkspaceSnapshotCaptured _ _) = ''workspace_snapshot_captured''"
| "aux_kind (AuxInterrupted _) = ''interrupted''"
| "aux_kind (AuxContextContributorResolved _ _) = ''context_contributor_resolved''"
| "aux_kind (AuxWorkspaceContextLoaded _ _ _) = ''workspace_context_loaded''"
| "aux_kind (AuxWorkspaceContextSkipped _) = ''workspace_context_skipped''"
| "aux_kind (AuxWorkspaceContextRejected _) = ''workspace_context_rejected''"
| "aux_kind (AuxWorkspaceContextLoadFailed _) = ''workspace_context_load_failed''"
| "aux_kind (AuxMemoryContextLoadFailed _) = ''memory_context_load_failed''"
| "aux_kind (AuxMemoryContextLoaded _ _ _ _) = ''memory_context_loaded''"
| "aux_kind (AuxMemoryContextSkipped _) = ''memory_context_skipped''"
| "aux_kind (AuxMemoryContextRejected _) = ''memory_context_rejected''"
| "aux_kind (AuxMemoryEntriesSelected _ _ _) = ''memory_entries_selected''"
| "aux_kind (AuxContextSnapshotCreated _) = ''context_snapshot_created''"
| "aux_kind (AuxMemoryProposalCreated _ _ _) = ''memory_proposal_created''"
| "aux_kind (AuxMemoryProposalDecisionRecorded _ _ _) = ''memory_proposal_decision_recorded''"
| "aux_kind (AuxMemoryWriteSucceeded _ _) = ''memory_write_succeeded''"
| "aux_kind (AuxMemoryWriteConflict _ _ _) = ''memory_write_conflict''"
| "aux_kind (AuxMemoryWriteFailed _ _) = ''memory_write_failed''"
| "aux_kind (AuxContextPressure _ _) = ''context_pressure''"
| "aux_kind (AuxContextClearing _ _) = ''context_clearing''"
| "aux_kind (AuxContextCompactionStarted _ _) = ''context_compaction_started''"
| "aux_kind (AuxContextCompacted _ _ _) = ''context_compacted''"
| "aux_kind (AuxContextManagementFailed _) = ''context_management_failed''"
| "aux_kind (AuxContextExhaustion _) = ''context_exhaustion''"

definition trace_event_kind :: "agent_event \<Rightarrow> string" where
  "trace_event_kind ev = (case ev of
       EvContextBuilt a b c d e f \<Rightarrow> ''context_built''
     | EvModelRequest a b c d e f \<Rightarrow> ''model_request''
     | EvText a \<Rightarrow> ''text''
     | EvThinking a \<Rightarrow> ''thinking''
     | EvToolCallStreamed a b c \<Rightarrow> ''tool_call_streamed''
     | EvToolCallProposed a b c \<Rightarrow> ''tool_call_proposed''
     | EvPolicyDecision a b c d e f g h i \<Rightarrow> ''policy_decision''
     | EvApprovalDecision a b c d e \<Rightarrow> ''approval_decision''
     | EvToolResult a b c d e f g h i j k \<Rightarrow> ''tool_result''
     | EvArtifactCreated a b c d \<Rightarrow> ''artifact_created''
     | EvPolicyViolation a b c \<Rightarrow> ''policy_violation''
     | EvVerificationResult a b c d e \<Rightarrow> ''verification_result''
     | EvUsage a b \<Rightarrow> ''usage''
     | EvStop a \<Rightarrow> ''stop''
     | EvError a b \<Rightarrow> ''error''
     | EvCheckpoint a b c d e f \<Rightarrow> ''checkpoint''
     | EvAssistantMessageCommitted a \<Rightarrow> ''assistant_message_committed''
     | EvContextBuildStarted \<Rightarrow> ''context_build_started''
     | EvContextBuildFailed a \<Rightarrow> ''context_build_failed''
     | EvModelResponseStarted a \<Rightarrow> ''model_response_started''
     | EvModelResponseStreamCompleted a \<Rightarrow> ''model_response_stream_completed''
     | EvModelResponseStreamFailed a b \<Rightarrow> ''model_response_stream_failed''
     | EvModelResponseStreamInterrupted a \<Rightarrow> ''model_response_stream_interrupted''
     | EvPolicyEvaluationStarted a \<Rightarrow> ''policy_evaluation_started''
     | EvPolicyEvaluationFailed a b \<Rightarrow> ''policy_evaluation_failed''
     | EvPolicyEvaluationCancelled a \<Rightarrow> ''policy_evaluation_cancelled''
     | EvApprovalRequested a b c d \<Rightarrow> ''approval_requested''
     | EvApprovalCancelled a \<Rightarrow> ''approval_cancelled''
     | EvToolExecutionStarted a b c d e f g \<Rightarrow> ''tool_execution_started''
     | EvHookStarted a b \<Rightarrow> ''hook_started''
     | EvHookCompleted a b \<Rightarrow> ''hook_completed''
     | EvHookFailed a b c \<Rightarrow> ''hook_failed''
     | EvToolCatalogSelected a \<Rightarrow> ''tool_catalog_selected''
     | EvToolCallValidationFailed a b c \<Rightarrow> ''tool_call_validation_failed''
     | EvToolRetryAttempt a b c d \<Rightarrow> ''tool_retry_attempt''
     | EvNextTurnOverrideRequested a b c \<Rightarrow> ''next_turn_override_requested''
     | EvNextTurnBlocked a \<Rightarrow> ''next_turn_blocked''
     | EvSessionMessageInjected a \<Rightarrow> ''session_message_injected''
     | EvSessionMessageQueueDrained a \<Rightarrow> ''session_message_queue_drained''
     | EvAux a \<Rightarrow> aux_kind a)"

definition known_kinds :: "string list" where
  "known_kinds =
    [''run_started'', ''user_message'', ''context_built'', ''prompt_snapshot_created'',
     ''prompt_snapshot_loaded'', ''prompt_snapshot_reused'', ''prompt_cache_plan_generated'',
     ''ephemeral_context_injected'', ''model_request'', ''text'', ''thinking'',
     ''tool_call_streamed'', ''tool_call_proposed'', ''policy_decision'',
     ''approval_decision'', ''tool_result'', ''artifact_created'', ''policy_violation'',
     ''memory_proposal'', ''verification_result'', ''usage'', ''stop'', ''error'',
     ''workspace_snapshot_captured'', ''checkpoint'', ''assistant_message_committed'',
     ''interrupted'', ''context_build_started'', ''context_build_failed'',
     ''model_response_started'', ''model_response_stream_completed'',
     ''model_response_stream_failed'', ''model_response_stream_interrupted'',
     ''policy_evaluation_started'', ''policy_evaluation_failed'',
     ''policy_evaluation_cancelled'', ''approval_requested'', ''approval_cancelled'',
     ''tool_execution_started'', ''hook_started'', ''hook_completed'', ''hook_failed'',
     ''tool_catalog_selected'', ''tool_call_validation_failed'', ''tool_retry_attempt'',
     ''next_turn_override_requested'', ''next_turn_blocked'', ''session_message_injected'',
     ''session_message_queue_drained'', ''context_contributor_resolved'',
     ''workspace_context_loaded'', ''workspace_context_skipped'',
     ''workspace_context_rejected'', ''workspace_context_load_failed'',
     ''memory_context_load_failed'', ''memory_context_loaded'', ''memory_context_skipped'',
     ''memory_context_rejected'', ''memory_entries_selected'', ''context_snapshot_created'',
     ''memory_proposal_created'', ''memory_proposal_decision_recorded'',
     ''memory_write_succeeded'', ''memory_write_conflict'', ''memory_write_failed'',
     ''context_pressure'', ''context_clearing'', ''context_compaction_started'',
     ''context_compacted'', ''context_management_failed'', ''context_exhaustion'']"

definition is_known_kind :: "string \<Rightarrow> bool" where
  "is_known_kind kind \<longleftrightarrow> kind \<in> set known_kinds"

lemma aux_kind_known [simp]: "is_known_kind (aux_kind a)"
  by (cases a; simp only: is_known_kind_def known_kinds_def aux_kind.simps list.set insert_iff simp_thms)

lemma event_kind_known [simp]: "is_known_kind (trace_event_kind ev)"
proof (cases "\<exists>a. ev = EvAux a")
  case True
  then show ?thesis by (auto simp: trace_event_kind_def)
next
  case False
  then show ?thesis
    by (cases ev; simp only: is_known_kind_def known_kinds_def trace_event_kind_def agent_event.case
        list.set insert_iff simp_thms) blast
qed

section \<open>Envelopes\<close>

definition TRACE_EVENT_SCHEMA_VERSION :: nat where
  "TRACE_EVENT_SCHEMA_VERSION = 1"

record event_envelope =
  en_v :: nat
  en_session_id :: string
  en_run_id :: string
  en_turn_id :: nat
  en_seq :: nat
  en_ts :: string
  en_event :: agent_event
  en_redacted :: bool
  en_workspace_snapshot :: "workspace_snapshot option"
  en_snapshot_id :: "string option"

text \<open>
  What serde provides: the parser and printer of JSON text, the encodings of events, snapshots and
  times, the conversion of a core event to a trace event, and the text of a decoding error.
\<close>

record trace_codec =
  tcd_parse :: "string \<Rightarrow> string + json"
  tcd_print :: "json \<Rightarrow> string"
  tcd_convert :: "agent_event \<Rightarrow> string + agent_event"
  tcd_event_json :: "agent_event \<Rightarrow> json"
  tcd_event_of :: "json \<Rightarrow> agent_event option"
  tcd_snapshot_json :: "workspace_snapshot \<Rightarrow> json"
  tcd_snapshot_of :: "json \<Rightarrow> workspace_snapshot option"
  tcd_time_of :: "string \<Rightarrow> string option"
  tcd_reason :: "json \<Rightarrow> string"

text \<open>The derived \<open>Serialize\<close>: the fields in the order of the struct.\<close>

definition envelope_json :: "trace_codec \<Rightarrow> event_envelope \<Rightarrow> json" where
  "envelope_json T e = VObject
     [(''v'', json_nat (en_v e)), (''session_id'', VString (en_session_id e)),
      (''run_id'', VString (en_run_id e)), (''turn_id'', json_nat (en_turn_id e)),
      (''seq'', json_nat (en_seq e)), (''ts'', VString (en_ts e)),
      (''event'', tcd_event_json T (en_event e)), (''redacted'', VBool (en_redacted e)),
      (''workspace_snapshot'', json_option (tcd_snapshot_json T) (en_workspace_snapshot e)),
      (''snapshot_id'', json_option VString (en_snapshot_id e))]"

definition time_of :: "trace_codec \<Rightarrow> json \<Rightarrow> string option" where
  "time_of T v = Option.bind (as_str v) (tcd_time_of T)"

definition envelope_of :: "trace_codec \<Rightarrow> json \<Rightarrow> event_envelope option" where
  "envelope_of T j =
     Option.bind (get_field u32_of ''v'' j) (\<lambda>v.
     Option.bind (get_field as_str ''session_id'' j) (\<lambda>session.
     Option.bind (get_field_or [] as_str ''run_id'' j) (\<lambda>run.
     Option.bind (get_field as_u64 ''turn_id'' j) (\<lambda>turn.
     Option.bind (get_field as_u64 ''seq'' j) (\<lambda>seq.
     Option.bind (get_field (time_of T) ''ts'' j) (\<lambda>ts.
     Option.bind (get_field (tcd_event_of T) ''event'' j) (\<lambda>ev.
     Option.bind (get_field as_bool ''redacted'' j) (\<lambda>redacted.
     Option.bind (get_field_or None (nullable (tcd_snapshot_of T)) ''workspace_snapshot'' j) (\<lambda>snapshot.
     Option.bind (get_field_or None (nullable as_str) ''snapshot_id'' j) (\<lambda>snapshot_id.
       Some \<lparr>en_v = v, en_session_id = session, en_run_id = run, en_turn_id = turn, en_seq = seq,
         en_ts = ts, en_event = ev, en_redacted = redacted, en_workspace_snapshot = snapshot,
         en_snapshot_id = snapshot_id\<rparr>))))))))))"

section \<open>The sink\<close>

text \<open>
  The identity of the sink, its clock, and the writer: \<open>sk_write t s\<close> says how much of \<open>s\<close> reaches the
  file at tick \<open>t\<close> and whether the write failed.
\<close>

record trace_sink =
  sk_session_id :: string
  sk_run_id :: string
  sk_now :: "nat \<Rightarrow> string"
  sk_write :: "nat \<Rightarrow> string \<Rightarrow> nat \<times> string option"

record trace_state =
  tst_written :: string
  tst_seq :: nat
  tst_turn_id :: nat
  tst_snapshot :: "workspace_snapshot option"

definition sink_new :: "workspace_snapshot option \<Rightarrow> trace_state" where
  "sink_new snapshot = \<lparr>tst_written = [], tst_seq = 0, tst_turn_id = 0, tst_snapshot = snapshot\<rparr>"

definition is_context_built :: "agent_event \<Rightarrow> bool" where
  "is_context_built ev = (case ev of EvContextBuilt a b c d e f \<Rightarrow> True | _ \<Rightarrow> False)"

definition write_text :: "trace_sink \<Rightarrow> nat \<Rightarrow> string \<Rightarrow> trace_state \<Rightarrow> trace_error option \<times> trace_state" where
  "write_text K t s st = (case sk_write K t s of (n, err) \<Rightarrow>
     (map_option WriteFailed err, st\<lparr>tst_written := tst_written st @ take n s\<rparr>))"

definition sink_envelope :: "trace_sink \<Rightarrow> nat \<Rightarrow> agent_event \<Rightarrow> bool \<Rightarrow> trace_state \<Rightarrow> event_envelope" where
  "sink_envelope K t ev redacted st =
     \<lparr>en_v = 1, en_session_id = sk_session_id K, en_run_id = sk_run_id K, en_turn_id = tst_turn_id st,
      en_seq = tst_seq st, en_ts = sk_now K t, en_event = ev, en_redacted = redacted,
      en_workspace_snapshot = tst_snapshot st,
      en_snapshot_id = map_option (\<lambda>s. take 12 (ws_content_hash s)) (tst_snapshot st)\<rparr>"

definition advance :: "agent_event \<Rightarrow> trace_state \<Rightarrow> trace_state" where
  "advance ev st =
     (let st1 = (if is_context_built ev then st\<lparr>tst_turn_id := saturating_add (tst_turn_id st) 1\<rparr> else st)
      in st1\<lparr>tst_seq := saturating_add (tst_seq st1) 1\<rparr>)"

definition sink_emit :: "trace_codec \<Rightarrow> trace_sink \<Rightarrow> nat \<Rightarrow> agent_event \<Rightarrow> trace_state
    \<Rightarrow> trace_error option \<times> trace_state" where
  "sink_emit T K t event st0 =
     (let st = advance event st0
      in case redact_event event of (event', redacted) \<Rightarrow>
        (case tcd_convert T event' of
           Inl err \<Rightarrow> (Some (InvalidFormat 0
             (''agent event cannot be represented by trace schema v1: '' @ err)), st)
         | Inr ev \<Rightarrow>
             (case write_text K t (tcd_print T (envelope_json T (sink_envelope K t ev redacted st))) st of
                (Some err, st1) \<Rightarrow> (Some err, st1)
              | (None, st1) \<Rightarrow> write_text K t [CHR 0x0A] st1)))"

definition update_snapshot :: "workspace_snapshot \<Rightarrow> trace_state \<Rightarrow> trace_state" where
  "update_snapshot snapshot st = st\<lparr>tst_snapshot := Some snapshot\<rparr>"

text \<open>The caller emits event after event; an error of one does not stop the next.\<close>

fun sink_emit_all :: "trace_codec \<Rightarrow> trace_sink \<Rightarrow> nat \<Rightarrow> agent_event list \<Rightarrow> trace_state \<Rightarrow> trace_state" where
  "sink_emit_all T K t [] st = st"
| "sink_emit_all T K t (ev # evs) st = sink_emit_all T K (Suc t) evs (snd (sink_emit T K t ev st))"

section \<open>The reader\<close>

text \<open>\<open>None\<close> is the skipped line of an unknown kind.\<close>

definition parse_trace_envelope_line :: "trace_codec \<Rightarrow> string \<Rightarrow> nat \<Rightarrow> trace_error + event_envelope option" where
  "parse_trace_envelope_line T line line_number =
     (case tcd_parse T line of
        Inl err \<Rightarrow> Inl (InvalidFormat line_number err)
      | Inr value \<Rightarrow>
          (case Option.bind (json_get value ''v'') as_u64 of
             None \<Rightarrow> Inl (InvalidFormat line_number ''missing or invalid trace schema version'')
           | Some version \<Rightarrow>
               if version \<noteq> TRACE_EVENT_SCHEMA_VERSION then
                 Inl (InvalidFormat line_number (''unsupported trace schema version '' @ dec version @
                   '' (expected '' @ dec TRACE_EVENT_SCHEMA_VERSION @ '')''))
               else (case Option.bind (Option.bind (json_get value ''event'') (\<lambda>e. json_get e ''type'')) as_str of
                   None \<Rightarrow> Inl (InvalidFormat line_number ''missing trace event kind'')
                 | Some kind \<Rightarrow>
                     if \<not> is_known_kind kind then Inr None
                     else (case envelope_of T value of
                         None \<Rightarrow> Inl (InvalidFormat line_number (tcd_reason T value))
                       | Some e \<Rightarrow> Inr (Some e)))))"

fun read_lines :: "trace_codec \<Rightarrow> nat \<Rightarrow> string list \<Rightarrow> event_envelope list \<Rightarrow> trace_error + event_envelope list" where
  "read_lines T index [] events = Inr events"
| "read_lines T index (line # lines) events =
     (case parse_trace_envelope_line T line (index + 1) of
        Inl err \<Rightarrow> Inl err
      | Inr None \<Rightarrow> read_lines T (index + 1) lines events
      | Inr (Some e) \<Rightarrow> read_lines T (index + 1) lines (events @ [e]))"

text \<open>The file is its content, or the error of opening it.\<close>

definition read_trace :: "trace_codec \<Rightarrow> string + string \<Rightarrow> trace_error + event_envelope list" where
  "read_trace T file = (case file of
       Inl err \<Rightarrow> Inl (WriteFailed err)
     | Inr content \<Rightarrow> read_lines T 0 (lines_of content) [])"

section \<open>What the sink writes reads back\<close>

text \<open>The envelopes of a sequence of events, numbered from the given state.\<close>

fun envelopes_of :: "trace_sink \<Rightarrow> nat \<Rightarrow> agent_event list \<Rightarrow> trace_state \<Rightarrow> event_envelope list" where
  "envelopes_of K t [] st = []"
| "envelopes_of K t (ev # evs) st =
     sink_envelope K t (fst (redact_event ev)) (snd (redact_event ev)) (advance ev st)
       # envelopes_of K (Suc t) evs (advance ev st)"

definition envelope_line :: "trace_codec \<Rightarrow> event_envelope \<Rightarrow> string" where
  "envelope_line T e = tcd_print T (envelope_json T e)"

text \<open>What serde documents, for one envelope: its text is one line that parses to an object with the
  same fields, and the encodings of its event, snapshot and time decode.\<close>

definition codec_reads :: "trace_codec \<Rightarrow> event_envelope \<Rightarrow> bool" where
  "codec_reads T e \<longleftrightarrow>
     CHR 0x0A \<notin> set (envelope_line T e) \<and> strip_cr (envelope_line T e) = envelope_line T e \<and>
     (case tcd_parse T (envelope_line T e) of Inl err \<Rightarrow> False
      | Inr j \<Rightarrow> json_get j = json_get (envelope_json T e)) \<and>
     tcd_event_of T (tcd_event_json T (en_event e)) = Some (en_event e) \<and>
     json_get (tcd_event_json T (en_event e)) ''type'' = Some (VString (trace_event_kind (en_event e))) \<and>
     tcd_time_of T (en_ts e) = Some (en_ts e) \<and>
     (case en_workspace_snapshot e of None \<Rightarrow> True
      | Some s \<Rightarrow> tcd_snapshot_of T (tcd_snapshot_json T s) = Some s \<and> tcd_snapshot_json T s \<noteq> VNull)"

definition writes_through :: "trace_sink \<Rightarrow> bool" where
  "writes_through K \<longleftrightarrow> (\<forall>t s. sk_write K t s = (length s, None))"

definition converts :: "trace_codec \<Rightarrow> agent_event \<Rightarrow> bool" where
  "converts T ev \<longleftrightarrow> tcd_convert T (fst (redact_event ev)) = Inr (fst (redact_event ev))"

lemma envelope_get [simp]:
  "json_get (envelope_json T e) ''v'' = Some (json_nat (en_v e))"
  "json_get (envelope_json T e) ''session_id'' = Some (VString (en_session_id e))"
  "json_get (envelope_json T e) ''run_id'' = Some (VString (en_run_id e))"
  "json_get (envelope_json T e) ''turn_id'' = Some (json_nat (en_turn_id e))"
  "json_get (envelope_json T e) ''seq'' = Some (json_nat (en_seq e))"
  "json_get (envelope_json T e) ''ts'' = Some (VString (en_ts e))"
  "json_get (envelope_json T e) ''event'' = Some (tcd_event_json T (en_event e))"
  "json_get (envelope_json T e) ''redacted'' = Some (VBool (en_redacted e))"
  "json_get (envelope_json T e) ''workspace_snapshot'' =
     Some (json_option (tcd_snapshot_json T) (en_workspace_snapshot e))"
  "json_get (envelope_json T e) ''snapshot_id'' = Some (json_option VString (en_snapshot_id e))"
  by (simp_all add: envelope_json_def)

definition envelope_bounded :: "event_envelope \<Rightarrow> bool" where
  "envelope_bounded e \<longleftrightarrow> en_v e = 1 \<and> en_turn_id e \<le> usize_max \<and> en_seq e \<le> usize_max"

lemma envelope_roundtrip:
  assumes "codec_reads T e" "envelope_bounded e" "json_get j = json_get (envelope_json T e)"
  shows "envelope_of T j = Some e"
proof -
  have "nullable (tcd_snapshot_of T) (json_option (tcd_snapshot_json T) (en_workspace_snapshot e))
      = Some (en_workspace_snapshot e)"
    using assms(1) by (intro nullable_option) (auto simp: codec_reads_def)
  moreover have "nullable as_str (json_option VString (en_snapshot_id e)) = Some (en_snapshot_id e)"
    by (intro nullable_option) auto
  ultimately show ?thesis using assms
    by (simp add: envelope_of_def get_field_def get_field_or_def u32_of_def time_of_def codec_reads_def
        envelope_bounded_def)
qed

lemma parse_envelope_line:
  assumes "codec_reads T e" "envelope_bounded e"
  shows "parse_trace_envelope_line T (envelope_line T e) n = Inr (Some e)"
proof -
  from assms(1) obtain j where j: "tcd_parse T (envelope_line T e) = Inr j"
    "json_get j = json_get (envelope_json T e)"
    by (auto simp: codec_reads_def split: sum.splits)
  then show ?thesis using assms envelope_roundtrip [OF assms j(2)]
    by (simp add: parse_trace_envelope_line_def codec_reads_def envelope_bounded_def
        TRACE_EVENT_SCHEMA_VERSION_def)
qed

lemma read_envelope_lines:
  assumes "list_all (codec_reads T) es" "list_all envelope_bounded es"
  shows "read_lines T n (map (envelope_line T) es) acc = Inr (acc @ es)"
  using assms by (induction es arbitrary: n acc) (simp_all add: parse_envelope_line)

lemma split_lines:
  "list_all (\<lambda>l. CHR 0x0A \<notin> set l) ls \<Longrightarrow>
     split_on CHR 0x0A (concat (map (\<lambda>l. l @ [CHR 0x0A]) ls)) = ls @ [[]]"
proof (induction ls)
  case (Cons l ls)
  then show ?case using split_on_append_sep [of "CHR 0x0A" l] by simp
qed simp

lemma lines_of_written:
  assumes "list_all (\<lambda>l. CHR 0x0A \<notin> set l \<and> strip_cr l = l) ls"
  shows "lines_of (concat (map (\<lambda>l. l @ [CHR 0x0A]) ls)) = ls"
proof -
  have "split_on CHR 0x0A (concat (map (\<lambda>l. l @ [CHR 0x0A]) ls)) = ls @ [[]]"
    using assms by (intro split_lines) (auto simp: list_all_iff)
  moreover have "map strip_cr ls = ls"
    using assms by (intro map_idI) (auto simp: list_all_iff)
  ultimately show ?thesis by (simp add: lines_of_def)
qed

lemma sink_emit_ok:
  assumes "writes_through K" "converts T ev"
  shows "sink_emit T K t ev st =
    (None, (advance ev st)\<lparr>tst_written := tst_written st @
       envelope_line T (sink_envelope K t (fst (redact_event ev)) (snd (redact_event ev)) (advance ev st))
         @ [CHR 0x0A]\<rparr>)"
  using assms
  by (simp add: sink_emit_def writes_through_def converts_def write_text_def envelope_line_def
      case_prod_beta advance_def Let_def)

lemma advance_written: "advance ev (st\<lparr>tst_written := s\<rparr>) = (advance ev st)\<lparr>tst_written := s\<rparr>"
  by (simp add: advance_def Let_def)

lemma envelopes_written: "envelopes_of K t evs (st\<lparr>tst_written := s\<rparr>) = envelopes_of K t evs st"
proof (induction evs arbitrary: t st)
  case (Cons ev evs)
  then show ?case by (simp add: advance_written sink_envelope_def)
qed simp

lemma emit_all_written:
  assumes "writes_through K" "list_all (converts T) evs"
  shows "tst_written (sink_emit_all T K t evs st) =
    tst_written st @ concat (map (\<lambda>e. envelope_line T e @ [CHR 0x0A]) (envelopes_of K t evs st))"
  using assms(2)
proof (induction evs arbitrary: t st)
  case (Cons ev evs)
  then show ?case by (simp add: sink_emit_ok [OF assms(1)] envelopes_written)
qed simp

lemma saturating_le [simp]: "saturating_add a b \<le> usize_max"
  by (simp add: saturating_add_def)

lemma advance_bounded:
  "tst_turn_id st \<le> usize_max \<Longrightarrow> tst_turn_id (advance ev st) \<le> usize_max"
  "tst_seq (advance ev st) \<le> usize_max"
  by (auto simp: advance_def Let_def)

lemma envelopes_bounded:
  "tst_turn_id st \<le> usize_max \<Longrightarrow> list_all envelope_bounded (envelopes_of K t evs st)"
proof (induction evs arbitrary: t st)
  case (Cons ev evs)
  then show ?case by (simp add: envelope_bounded_def sink_envelope_def advance_bounded)
qed simp

lemma written_trace_reads:
  assumes "writes_through K" "list_all (converts T) evs"
    and "list_all (codec_reads T) (envelopes_of K t evs (sink_new snap))"
  shows "read_trace T (Inr (tst_written (sink_emit_all T K t evs (sink_new snap))))
    = Inr (envelopes_of K t evs (sink_new snap))"
proof -
  let ?es = "envelopes_of K t evs (sink_new snap)"
  have "lines_of (concat (map (\<lambda>l. l @ [CHR 0x0A]) (map (envelope_line T) ?es))) = map (envelope_line T) ?es"
    using assms(3) by (intro lines_of_written) (auto simp: list_all_iff codec_reads_def)
  moreover have "list_all envelope_bounded ?es"
    by (intro envelopes_bounded) (simp add: sink_new_def)
  ultimately show ?thesis using assms
    by (simp add: emit_all_written sink_new_def read_trace_def comp_def read_envelope_lines)
qed

section \<open>Numbers of the envelopes\<close>

lemma length_envelopes [simp]: "length (envelopes_of K t evs st) = length evs"
  by (induction evs arbitrary: t st) simp_all

lemma envelope_numbers:
  assumes "i < length evs" "tst_seq st + length evs \<le> usize_max" "tst_turn_id st + length evs \<le> usize_max"
  shows "en_seq (envelopes_of K t evs st ! i) = tst_seq st + Suc i \<and>
    en_turn_id (envelopes_of K t evs st ! i)
      = tst_turn_id st + length (filter is_context_built (take (Suc i) evs)) \<and>
    en_event (envelopes_of K t evs st ! i) = fst (redact_event (evs ! i))"
  using assms
proof (induction evs arbitrary: t st i)
  case (Cons ev evs)
  have adv: "tst_seq (advance ev st) = Suc (tst_seq st)"
    "tst_turn_id (advance ev st) = tst_turn_id st + (if is_context_built ev then 1 else 0)"
    using Cons.prems by (simp_all add: advance_def Let_def saturating_add_exact)
  show ?case
  proof (cases i)
    case 0
    with adv show ?thesis by (simp add: sink_envelope_def)
  next
    case (Suc k)
    with Cons.IH [of k "advance ev st" "Suc t"] Cons.prems adv show ?thesis by (auto split: if_splits)
  qed
qed simp

section \<open>Unknown kinds and unreadable lines\<close>

definition skipped :: "trace_codec \<Rightarrow> string \<Rightarrow> bool" where
  "skipped T line \<longleftrightarrow> parse_trace_envelope_line T line 0 = Inr None"

definition readable :: "trace_codec \<Rightarrow> string \<Rightarrow> bool" where
  "readable T line \<longleftrightarrow> \<not> isl (parse_trace_envelope_line T line 0)"

text \<open>The line number only shows in error texts.\<close>

lemma parse_line_number:
  "isl (parse_trace_envelope_line T line n) \<longleftrightarrow> isl (parse_trace_envelope_line T line m)"
  "parse_trace_envelope_line T line n = Inr r \<longleftrightarrow> parse_trace_envelope_line T line m = Inr r"
  by (auto simp: parse_trace_envelope_line_def Let_def split: sum.splits option.splits)

lemma read_lines_readable:
  "(\<exists>es. read_lines T n ls acc = Inr es) \<longleftrightarrow> list_all (readable T) ls"
proof (induction ls arbitrary: n acc)
  case (Cons l ls)
  show ?case
  proof (cases "parse_trace_envelope_line T l (n + 1)")
    case (Inl err)
    then have "\<not> readable T l"
      using parse_line_number(1) [of T l "n + 1" 0] by (simp add: readable_def)
    with Inl show ?thesis by simp
  next
    case (Inr r)
    then have "readable T l"
      using parse_line_number(1) [of T l "n + 1" 0] by (simp add: readable_def)
    with Inr Cons.IH show ?thesis by (cases r) simp_all
  qed
qed simp

lemma read_lines_skip:
  assumes "list_all (readable T) ls"
  shows "read_lines T n ls acc = read_lines T m (filter (\<lambda>l. \<not> skipped T l) ls) acc"
  using assms
proof (induction ls arbitrary: n m acc)
  case (Cons l ls)
  from Cons.prems obtain r where r: "parse_trace_envelope_line T l 0 = Inr r"
    by (auto simp: readable_def isl_def elim: sumE)
       (metis old.sum.exhaust)
  have "parse_trace_envelope_line T l (k + 1) = Inr r" for k
    using r parse_line_number(2) [of T l 0 r "k + 1"] by simp
  then show ?case using Cons r by (cases r) (simp_all add: skipped_def)
qed simp

end
