(* ===== verification/Resume.thy ===== *)
theory Resume
  imports Trace_Store Context_Types Paths
begin

text \<open>
  Run manifests and the resume analysis (\<open>trace/run_manifest.rs\<close> and \<open>trace/resume.rs\<close> of
  \<open>gestalt-runtime\<close>): what a run directory says about how its run ended, and the state it can be
  taken up from. The lemmas: the result of the analysis on each of its exits, and a declarative
  reading of the in-flight scan (an operation is in flight when it began after the last checkpoint
  and nothing that ends it follows).
\<close>

section \<open>Run manifests\<close>

datatype run_kind = RunNew | RunContinue | RunResume | RunBranch

datatype lifecycle_state = LsRunning | LsCompleted | LsFailed | LsInterrupted

record compatibility_fingerprint =
  cf_context_pipeline_version :: string
  cf_tool_schema_hash :: string
  cf_policy_fingerprint :: string
  cf_hook_contract_hash :: string
  cf_execution_mode :: string
  cf_skill_fingerprint :: "string option"
  cf_workspace_context_snapshot_hash :: "string option"

definition same_fingerprint :: "compatibility_fingerprint \<Rightarrow> compatibility_fingerprint \<Rightarrow> bool" where
  "same_fingerprint a b \<longleftrightarrow>
     cf_context_pipeline_version a = cf_context_pipeline_version b \<and>
     cf_tool_schema_hash a = cf_tool_schema_hash b \<and>
     cf_policy_fingerprint a = cf_policy_fingerprint b \<and>
     cf_hook_contract_hash a = cf_hook_contract_hash b \<and>
     cf_execution_mode a = cf_execution_mode b \<and>
     cf_skill_fingerprint a = cf_skill_fingerprint b \<and>
     (cf_workspace_context_snapshot_hash a = None \<or> cf_workspace_context_snapshot_hash b = None \<or>
      cf_workspace_context_snapshot_hash a = cf_workspace_context_snapshot_hash b)"

record run_manifest =
  rmf_v :: nat
  rmf_session_id :: string
  rmf_run_id :: string
  rmf_parent_run_id :: "string option"
  rmf_base_checkpoint :: "nat option"
  rmf_run_kind :: run_kind
  rmf_created_at :: string
  rmf_lifecycle_state :: lifecycle_state
  rmf_finalized_at :: "string option"
  rmf_failure_kind :: "string option"
  rmf_interrupted_phase :: "string option"
  rmf_prompt_snapshot_hash :: "string option"
  rmf_prompt_snapshot_path :: "string option"
  rmf_resolved_model :: "resolved_model_snapshot option"
  rmf_fingerprint :: compatibility_fingerprint

definition RUN_MANIFEST_SCHEMA_VERSION :: nat where
  "RUN_MANIFEST_SCHEMA_VERSION = 1"

text \<open>What serde adds for run directories: decoding of manifests and of prompt snapshots.\<close>

record run_codec =
  rcd_trace :: trace_codec
  rcd_manifest_of :: "json \<Rightarrow> string + run_manifest"
  rcd_prompt_of :: "string \<Rightarrow> string + prompt_snapshot"

definition load_manifest :: "run_codec \<Rightarrow> file_system \<Rightarrow> string \<Rightarrow> string + run_manifest" where
  "load_manifest C fs path = (case fs_read fs path of
       Inl err \<Rightarrow> Inl err
     | Inr content \<Rightarrow> (case tcd_parse (rcd_trace C) content of
           Inl err \<Rightarrow> Inl err
         | Inr value \<Rightarrow> (case Option.bind (json_get value ''v'') as_u64 of
               None \<Rightarrow> Inl ''missing run manifest schema version''
             | Some version \<Rightarrow>
                 if version \<noteq> RUN_MANIFEST_SCHEMA_VERSION then
                   Inl (''unsupported run manifest schema version '' @ dec version @
                     '' (expected '' @ dec RUN_MANIFEST_SCHEMA_VERSION @ '')'')
                 else rcd_manifest_of C value)))"

definition schema_name :: "json \<Rightarrow> string" where
  "schema_name s = (case Option.bind (json_get s ''name'') as_str of None \<Rightarrow> [] | Some n \<Rightarrow> n)"

text \<open>The hashes of a fingerprint: SHA-256 over texts put one after the other; \<open>print\<close> is \<open>Value::to_string\<close>.\<close>

definition compute_tool_schema_hash :: "(string \<Rightarrow> string) \<Rightarrow> (json \<Rightarrow> string) \<Rightarrow> json list \<Rightarrow> string" where
  "compute_tool_schema_hash sha256 print schemas = sha256 (concat (map print (sort_key schema_name schemas)))"

definition compute_policy_fingerprint :: "(string \<Rightarrow> string) \<Rightarrow> string \<Rightarrow> string" where
  "compute_policy_fingerprint sha256 policies_content = sha256 policies_content"

definition compute_hook_contract_hash :: "(string \<Rightarrow> string) \<Rightarrow> string list \<Rightarrow> string" where
  "compute_hook_contract_hash sha256 hook_names = sha256 (concat (sort hook_names))"

section \<open>Operations in flight\<close>

record in_flight =
  if_context :: bool
  if_provider :: bool
  if_policy :: bool
  if_approval :: bool
  if_tools :: "string set"
  if_hook :: bool

definition in_flight_none :: in_flight where
  "in_flight_none = \<lparr>if_context = False, if_provider = False, if_policy = False, if_approval = False,
     if_tools = {}, if_hook = False\<rparr>"

definition in_flight_step :: "agent_event \<Rightarrow> in_flight \<Rightarrow> in_flight" where
  "in_flight_step ev f = (case ev of
       EvContextBuildStarted \<Rightarrow> f\<lparr>if_context := True\<rparr>
     | EvContextBuilt a b c d e g \<Rightarrow> f\<lparr>if_context := False\<rparr>
     | EvContextBuildFailed a \<Rightarrow> f\<lparr>if_context := False\<rparr>
     | EvModelResponseStarted a \<Rightarrow> f\<lparr>if_provider := True\<rparr>
     | EvModelResponseStreamCompleted a \<Rightarrow> f\<lparr>if_provider := False\<rparr>
     | EvModelResponseStreamFailed a b \<Rightarrow> f\<lparr>if_provider := False\<rparr>
     | EvModelResponseStreamInterrupted a \<Rightarrow> f\<lparr>if_provider := False\<rparr>
     | EvPolicyEvaluationStarted a \<Rightarrow> f\<lparr>if_policy := True\<rparr>
     | EvPolicyDecision a b c d e g h i j \<Rightarrow> f\<lparr>if_policy := False\<rparr>
     | EvPolicyEvaluationFailed a b \<Rightarrow> f\<lparr>if_policy := False\<rparr>
     | EvPolicyEvaluationCancelled a \<Rightarrow> f\<lparr>if_policy := False\<rparr>
     | EvApprovalRequested a b c d \<Rightarrow> f\<lparr>if_approval := True\<rparr>
     | EvApprovalDecision a b c d e \<Rightarrow> f\<lparr>if_approval := False\<rparr>
     | EvApprovalCancelled a \<Rightarrow> f\<lparr>if_approval := False\<rparr>
     | EvToolExecutionStarted i b c d e g h \<Rightarrow> f\<lparr>if_tools := insert i (if_tools f)\<rparr>
     | EvToolResult i b c d e g h j k l m \<Rightarrow> f\<lparr>if_tools := if_tools f - {i}\<rparr>
     | EvHookStarted a b \<Rightarrow> f\<lparr>if_hook := True\<rparr>
     | EvHookCompleted a b \<Rightarrow> f\<lparr>if_hook := False\<rparr>
     | EvHookFailed a b c \<Rightarrow> f\<lparr>if_hook := False\<rparr>
     | _ \<Rightarrow> f)"

definition in_flight_after :: "agent_event list \<Rightarrow> in_flight" where
  "in_flight_after evs = fold in_flight_step evs in_flight_none"

section \<open>The analysis\<close>

datatype recovery_status =
    CompletedHead | FailedWithCheckpoint | InterruptedSafe | InterruptedContextBuild
  | InterruptedProviderStream | InterruptedPolicyEval | InterruptedPendingApproval
  | InterruptedAmbiguousTool | InterruptedAmbiguousHook | WorkspaceDrift | IncompatibleTrace
  | UnfinalizedRunning | LegacyNonResumable | IncompatibleFingerprint

record resume_analysis =
  ra_status :: recovery_status
  ra_session_id :: string
  ra_run_id :: string
  ra_history :: "session_message list"
  ra_context_state :: context_projection_state
  ra_token_budget :: token_budget
  ra_last_checkpoint_seq :: "nat option"
  ra_snapshot_hash :: "string option"
  ra_prompt_snapshot :: "prompt_snapshot option"
  ra_resolved_model :: "resolved_model_snapshot option"
  ra_tool_schema_hash :: "string option"

definition is_safe_to_resume :: "resume_analysis \<Rightarrow> bool" where
  "is_safe_to_resume a \<longleftrightarrow>
     ra_status a \<in> {InterruptedSafe, InterruptedContextBuild, InterruptedProviderStream,
       InterruptedPolicyEval, InterruptedPendingApproval}"

definition is_safe_to_continue :: "resume_analysis \<Rightarrow> bool" where
  "is_safe_to_continue a \<longleftrightarrow> ra_status a = CompletedHead"

definition token_budget_default :: token_budget where
  "token_budget_default = \<lparr>tb_model_limit = 0, tb_reserved_output = 0, tb_used_system = 0,
     tb_used_history = 0, tb_used_sources = 0, tb_used_tools = 0, tb_used_memory = 0,
     tb_minimum_turn_budget = 0\<rparr>"

text \<open>The early exits: before the manifest is read, and with its identity once it is.\<close>

definition no_manifest_analysis :: "recovery_status \<Rightarrow> resume_analysis" where
  "no_manifest_analysis status = \<lparr>ra_status = status, ra_session_id = [], ra_run_id = [], ra_history = [],
     ra_context_state = context_state_default, ra_token_budget = token_budget_default,
     ra_last_checkpoint_seq = None, ra_snapshot_hash = None, ra_prompt_snapshot = None,
     ra_resolved_model = None, ra_tool_schema_hash = None\<rparr>"

definition refused_analysis :: "recovery_status \<Rightarrow> run_manifest \<Rightarrow> prompt_snapshot option \<Rightarrow> resume_analysis" where
  "refused_analysis status m prompt = \<lparr>ra_status = status, ra_session_id = rmf_session_id m,
     ra_run_id = rmf_run_id m, ra_history = [], ra_context_state = context_state_default,
     ra_token_budget = token_budget_default, ra_last_checkpoint_seq = None, ra_snapshot_hash = None,
     ra_prompt_snapshot = prompt, ra_resolved_model = rmf_resolved_model m,
     ra_tool_schema_hash = Some (cf_tool_schema_hash (rmf_fingerprint m))\<rparr>"

definition is_checkpoint :: "agent_event \<Rightarrow> bool" where
  "is_checkpoint ev = (case ev of EvCheckpoint a b c d e f \<Rightarrow> True | _ \<Rightarrow> False)"

definition is_prompt_snapshot_event :: "agent_event \<Rightarrow> bool" where
  "is_prompt_snapshot_event ev = (case ev of
       EvAux (AuxPromptSnapshotCreated a b c) \<Rightarrow> True
     | EvAux (AuxPromptSnapshotLoaded a b) \<Rightarrow> True
     | EvAux (AuxPromptSnapshotReused a b) \<Rightarrow> True
     | EvAux (AuxPromptCachePlanGenerated a b c) \<Rightarrow> True
     | _ \<Rightarrow> False)"

text \<open>The prompt snapshot the manifest names; \<open>None\<close> when the run cannot be used.\<close>

definition load_prompt_snapshot :: "run_codec \<Rightarrow> file_system \<Rightarrow> string \<Rightarrow> run_manifest
    \<Rightarrow> prompt_snapshot option option" where
  "load_prompt_snapshot C fs run_dir m =
     (case (rmf_prompt_snapshot_hash m, rmf_prompt_snapshot_path m) of
        (Some expected_hash, Some relative_path) \<Rightarrow>
          (case fs_read fs (path_join run_dir relative_path) of
             Inl err \<Rightarrow> None
           | Inr content \<Rightarrow> (case rcd_prompt_of C content of
                 Inl err \<Rightarrow> None
               | Inr snapshot \<Rightarrow>
                   if pst_snapshot_hash snapshot \<noteq> expected_hash then None else Some (Some snapshot)))
      | (None, None) \<Rightarrow> Some None
      | _ \<Rightarrow> None)"

text \<open>The last checkpoint with the envelopes after it.\<close>

fun last_checkpoint_split :: "event_envelope list \<Rightarrow> (event_envelope \<times> event_envelope list) option" where
  "last_checkpoint_split [] = None"
| "last_checkpoint_split (e # es) = (case last_checkpoint_split es of
       Some r \<Rightarrow> Some r
     | None \<Rightarrow> if is_checkpoint (en_event e) then Some (e, es) else None)"

definition checkpoint_state :: "agent_event
    \<Rightarrow> session_message list \<times> context_projection_state \<times> token_budget" where
  "checkpoint_state ev = (case ev of
       EvCheckpoint history context_state budget a b c \<Rightarrow> (history, context_state, budget)
     | _ \<Rightarrow> ([], context_state_default, token_budget_default))"

fun recorded_snapshot_hash :: "event_envelope list \<Rightarrow> string option" where
  "recorded_snapshot_hash [] = None"
| "recorded_snapshot_hash (e # es) = (case en_workspace_snapshot e of
       Some s \<Rightarrow> Some (ws_content_hash s)
     | None \<Rightarrow> (case en_snapshot_id e of Some i \<Rightarrow> Some i | None \<Rightarrow> recorded_snapshot_hash es))"

definition has_drift :: "workspace_snapshot option \<Rightarrow> string option \<Rightarrow> bool" where
  "has_drift current recorded = (case (current, recorded) of
       (Some cur, Some rec) \<Rightarrow>
         (if length (utf8_bytes rec) = 12 then \<not> starts_with (ws_content_hash cur) rec
          else ws_content_hash cur \<noteq> rec)
     | _ \<Rightarrow> False)"

definition lifecycle_status :: "lifecycle_state \<Rightarrow> recovery_status" where
  "lifecycle_status s = (case s of LsCompleted \<Rightarrow> CompletedHead | LsInterrupted \<Rightarrow> InterruptedSafe
     | LsFailed \<Rightarrow> FailedWithCheckpoint | LsRunning \<Rightarrow> UnfinalizedRunning)"

definition in_flight_status :: "in_flight \<Rightarrow> lifecycle_state \<Rightarrow> recovery_status" where
  "in_flight_status f s =
     (if if_tools f \<noteq> {} then InterruptedAmbiguousTool
      else if if_hook f then InterruptedAmbiguousHook
      else if if_approval f then InterruptedPendingApproval
      else if if_policy f then InterruptedPolicyEval
      else if if_provider f then InterruptedProviderStream
      else if if_context f then InterruptedContextBuild
      else lifecycle_status s)"

definition checkpoint_analysis :: "recovery_status \<Rightarrow> run_manifest \<Rightarrow> prompt_snapshot option
    \<Rightarrow> string option \<Rightarrow> event_envelope \<Rightarrow> resume_analysis" where
  "checkpoint_analysis status m prompt recorded cp =
     (case checkpoint_state (en_event cp) of (history, context_state, budget) \<Rightarrow>
       \<lparr>ra_status = status, ra_session_id = rmf_session_id m, ra_run_id = rmf_run_id m,
        ra_history = history, ra_context_state = context_state, ra_token_budget = budget,
        ra_last_checkpoint_seq = Some (en_seq cp), ra_snapshot_hash = recorded,
        ra_prompt_snapshot = prompt, ra_resolved_model = rmf_resolved_model m,
        ra_tool_schema_hash = Some (cf_tool_schema_hash (rmf_fingerprint m))\<rparr>)"

text \<open>What follows once the trace has been read.\<close>

definition analyze_trace :: "run_codec \<Rightarrow> file_system \<Rightarrow> string \<Rightarrow> run_manifest
    \<Rightarrow> workspace_snapshot option \<Rightarrow> event_envelope list \<Rightarrow> resume_analysis" where
  "analyze_trace C fs run_dir m current envelopes =
     (if list_ex (\<lambda>e. is_prompt_snapshot_event (en_event e)) envelopes \<and>
         (rmf_prompt_snapshot_hash m = None \<or> rmf_prompt_snapshot_path m = None)
      then refused_analysis IncompatibleTrace m None
      else (case load_prompt_snapshot C fs run_dir m of
          None \<Rightarrow> refused_analysis IncompatibleTrace m None
        | Some prompt \<Rightarrow>
            (case last_checkpoint_split envelopes of
               None \<Rightarrow> refused_analysis LegacyNonResumable m prompt
             | Some (cp, later) \<Rightarrow>
                 (let recorded = recorded_snapshot_hash envelopes
                  in if has_drift current recorded
                     then checkpoint_analysis WorkspaceDrift m prompt recorded cp
                     else checkpoint_analysis
                       (in_flight_status (in_flight_after (map en_event later)) (rmf_lifecycle_state m))
                       m prompt recorded cp))))"

definition fingerprint_ok :: "compatibility_fingerprint option \<Rightarrow> run_manifest \<Rightarrow> bool" where
  "fingerprint_ok expected m = (case expected of None \<Rightarrow> True | Some e \<Rightarrow> same_fingerprint (rmf_fingerprint m) e)"

definition analyze :: "run_codec \<Rightarrow> file_system \<Rightarrow> string \<Rightarrow> workspace_snapshot option
    \<Rightarrow> compatibility_fingerprint option \<Rightarrow> resume_analysis" where
  "analyze C fs run_dir current expected =
     (let manifest_path = path_join run_dir ''run.json'';
          trace_path = path_join run_dir ''trace.jsonl''
      in if \<not> fs_exists fs manifest_path then no_manifest_analysis LegacyNonResumable
         else (case load_manifest C fs manifest_path of
             Inl err \<Rightarrow> no_manifest_analysis IncompatibleTrace
           | Inr m \<Rightarrow>
               if \<not> fingerprint_ok expected m then refused_analysis IncompatibleFingerprint m None
               else if \<not> fs_exists fs trace_path then refused_analysis IncompatibleTrace m None
               else (case read_trace (rcd_trace C) (fs_read fs trace_path) of
                   Inl err \<Rightarrow> refused_analysis IncompatibleTrace m None
                 | Inr envelopes \<Rightarrow> analyze_trace C fs run_dir m current envelopes)))"

section \<open>What is in flight\<close>

text \<open>An operation is in flight after some events when one began it and no later one ended it.\<close>

definition open_after :: "('e \<Rightarrow> bool) \<Rightarrow> ('e \<Rightarrow> bool) \<Rightarrow> 'e list \<Rightarrow> bool" where
  "open_after begins ends evs \<longleftrightarrow> (\<exists>pre ev suf. evs = pre @ ev # suf \<and> begins ev \<and> \<not> list_ex ends suf)"

lemma open_after_Nil [simp]: "\<not> open_after b e []"
  by (simp add: open_after_def)

lemma open_after_snoc [simp]: "open_after b e (evs @ [ev]) \<longleftrightarrow> b ev \<or> (open_after b e evs \<and> \<not> e ev)"
proof
  assume "open_after b e (evs @ [ev])"
  then obtain pre x suf where x: "evs @ [ev] = pre @ x # suf" "b x" "\<not> list_ex e suf"
    by (auto simp: open_after_def)
  show "b ev \<or> (open_after b e evs \<and> \<not> e ev)"
  proof (cases suf rule: rev_cases)
    case Nil
    with x show ?thesis by simp
  next
    case (snoc ys y)
    with x have "evs = pre @ x # ys" "y = ev" by simp_all
    with x snoc show ?thesis by (auto simp: open_after_def)
  qed
next
  assume "b ev \<or> (open_after b e evs \<and> \<not> e ev)"
  then show "open_after b e (evs @ [ev])"
  proof
    assume "b ev"
    then show ?thesis unfolding open_after_def by (intro exI [of _ evs] exI [of _ ev] exI [of _ "[]"]) simp
  next
    assume "open_after b e evs \<and> \<not> e ev"
    then obtain pre x suf where "evs = pre @ x # suf" "b x" "\<not> list_ex e suf" "\<not> e ev"
      by (auto simp: open_after_def)
    then show ?thesis unfolding open_after_def
      by (intro exI [of _ pre] exI [of _ x] exI [of _ "suf @ [ev]"]) simp
  qed
qed

text \<open>
  A flag of the scan: which events set it and which clear it. What the scan shows at its end is then
  whether the operation is in flight.
\<close>

locale flag_scan =
  fixes flag :: "in_flight \<Rightarrow> bool"
    and begins :: "agent_event \<Rightarrow> bool"
    and ends :: "agent_event \<Rightarrow> bool"
  assumes flag_none: "\<not> flag in_flight_none"
    and flag_step: "flag (in_flight_step ev f) \<longleftrightarrow> begins ev \<or> (flag f \<and> \<not> ends ev)"
begin

lemma flag_after: "flag (in_flight_after evs) \<longleftrightarrow> open_after begins ends evs"
  by (induction evs rule: rev_induct) (simp_all add: in_flight_after_def flag_none flag_step)

end

definition tool_begins :: "string \<Rightarrow> agent_event \<Rightarrow> bool" where
  "tool_begins i ev = (case ev of EvToolExecutionStarted j b c d e g h \<Rightarrow> j = i | _ \<Rightarrow> False)"

definition tool_ends :: "string \<Rightarrow> agent_event \<Rightarrow> bool" where
  "tool_ends i ev = (case ev of EvToolResult j b c d e g h k l m n \<Rightarrow> j = i | _ \<Rightarrow> False)"

definition hook_begins :: "agent_event \<Rightarrow> bool" where
  "hook_begins ev = (case ev of EvHookStarted a b \<Rightarrow> True | _ \<Rightarrow> False)"

definition hook_ends :: "agent_event \<Rightarrow> bool" where
  "hook_ends ev = (case ev of EvHookCompleted a b \<Rightarrow> True | EvHookFailed a b c \<Rightarrow> True | _ \<Rightarrow> False)"

definition approval_begins :: "agent_event \<Rightarrow> bool" where
  "approval_begins ev = (case ev of EvApprovalRequested a b c d \<Rightarrow> True | _ \<Rightarrow> False)"

definition approval_ends :: "agent_event \<Rightarrow> bool" where
  "approval_ends ev = (case ev of EvApprovalDecision a b c d e \<Rightarrow> True | EvApprovalCancelled a \<Rightarrow> True | _ \<Rightarrow> False)"

definition policy_begins :: "agent_event \<Rightarrow> bool" where
  "policy_begins ev = (case ev of EvPolicyEvaluationStarted a \<Rightarrow> True | _ \<Rightarrow> False)"

definition policy_ends :: "agent_event \<Rightarrow> bool" where
  "policy_ends ev = (case ev of EvPolicyDecision a b c d e f g h i \<Rightarrow> True
     | EvPolicyEvaluationFailed a b \<Rightarrow> True | EvPolicyEvaluationCancelled a \<Rightarrow> True | _ \<Rightarrow> False)"

definition provider_begins :: "agent_event \<Rightarrow> bool" where
  "provider_begins ev = (case ev of EvModelResponseStarted a \<Rightarrow> True | _ \<Rightarrow> False)"

definition provider_ends :: "agent_event \<Rightarrow> bool" where
  "provider_ends ev = (case ev of EvModelResponseStreamCompleted a \<Rightarrow> True
     | EvModelResponseStreamFailed a b \<Rightarrow> True | EvModelResponseStreamInterrupted a \<Rightarrow> True | _ \<Rightarrow> False)"

definition context_begins :: "agent_event \<Rightarrow> bool" where
  "context_begins ev = (case ev of EvContextBuildStarted \<Rightarrow> True | _ \<Rightarrow> False)"

definition context_ends :: "agent_event \<Rightarrow> bool" where
  "context_ends ev = (case ev of EvContextBuilt a b c d e f \<Rightarrow> True | EvContextBuildFailed a \<Rightarrow> True | _ \<Rightarrow> False)"

lemmas scan_defs = in_flight_none_def in_flight_step_def tool_begins_def tool_ends_def hook_begins_def
  hook_ends_def approval_begins_def approval_ends_def policy_begins_def policy_ends_def
  provider_begins_def provider_ends_def context_begins_def context_ends_def

interpretation tool_scan: flag_scan "\<lambda>f. i \<in> if_tools f" "tool_begins i" "tool_ends i" for i
  by unfold_locales (auto simp: scan_defs split: agent_event.splits)

interpretation hook_scan: flag_scan if_hook hook_begins hook_ends
  by unfold_locales (auto simp: scan_defs split: agent_event.splits)

interpretation approval_scan: flag_scan if_approval approval_begins approval_ends
  by unfold_locales (auto simp: scan_defs split: agent_event.splits)

interpretation policy_scan: flag_scan if_policy policy_begins policy_ends
  by unfold_locales (auto simp: scan_defs split: agent_event.splits)

interpretation provider_scan: flag_scan if_provider provider_begins provider_ends
  by unfold_locales (auto simp: scan_defs split: agent_event.splits)

interpretation context_scan: flag_scan if_context context_begins context_ends
  by unfold_locales (auto simp: scan_defs split: agent_event.splits)

text \<open>The status, read off the events after the last checkpoint.\<close>

definition status_after :: "agent_event list \<Rightarrow> lifecycle_state \<Rightarrow> recovery_status" where
  "status_after evs s =
     (if \<exists>i. open_after (tool_begins i) (tool_ends i) evs then InterruptedAmbiguousTool
      else if open_after hook_begins hook_ends evs then InterruptedAmbiguousHook
      else if open_after approval_begins approval_ends evs then InterruptedPendingApproval
      else if open_after policy_begins policy_ends evs then InterruptedPolicyEval
      else if open_after provider_begins provider_ends evs then InterruptedProviderStream
      else if open_after context_begins context_ends evs then InterruptedContextBuild
      else lifecycle_status s)"

lemma in_flight_status_after: "in_flight_status (in_flight_after evs) s = status_after evs s"
proof -
  have "if_tools (in_flight_after evs) \<noteq> {} \<longleftrightarrow> (\<exists>i. open_after (tool_begins i) (tool_ends i) evs)"
    using tool_scan.flag_after [of _ evs] by blast
  then show ?thesis
    by (simp add: in_flight_status_def status_after_def hook_scan.flag_after approval_scan.flag_after
        policy_scan.flag_after provider_scan.flag_after context_scan.flag_after)
qed

section \<open>The last checkpoint\<close>

lemma last_checkpoint_split_iff:
  "last_checkpoint_split es = Some (cp, later) \<longleftrightarrow>
     (\<exists>earlier. es = earlier @ cp # later) \<and> is_checkpoint (en_event cp) \<and>
     \<not> list_ex (\<lambda>e. is_checkpoint (en_event e)) later"
proof (induction es)
  case (Cons e es)
  have none: "last_checkpoint_split es = None \<longleftrightarrow> \<not> list_ex (\<lambda>e. is_checkpoint (en_event e)) es" for es
    by (induction es) (auto split: option.splits)
  show ?case
  proof (cases "last_checkpoint_split es")
    case None
    with none [of es] Cons show ?thesis by (auto simp: Cons_eq_append_conv)
  next
    case (Some r)
    then have "list_ex (\<lambda>e. is_checkpoint (en_event e)) es" using none [of es] by auto
    with Some Cons show ?thesis by (auto simp: Cons_eq_append_conv)
  qed
qed simp

lemma last_checkpoint_None:
  "last_checkpoint_split es = None \<longleftrightarrow> \<not> list_ex (\<lambda>e. is_checkpoint (en_event e)) es"
  by (induction es) (auto split: option.splits)

section \<open>Exits of the analysis\<close>

lemma analysis_status_simps [simp]:
  "ra_status (no_manifest_analysis st) = st" "ra_status (refused_analysis st m p) = st"
  "ra_status (checkpoint_analysis st m p r cp) = st"
  by (simp_all add: no_manifest_analysis_def refused_analysis_def checkpoint_analysis_def split: prod.splits)

lemma checkpoint_analysis_history:
  "en_event cp = EvCheckpoint history st budget a b c \<Longrightarrow>
     ra_history (checkpoint_analysis status m p r cp) = history"
  by (simp add: checkpoint_analysis_def checkpoint_state_def)

text \<open>An analysis that lets a run be taken up or continued has read the manifest and the trace, and
  its status is that of the events after the last checkpoint.\<close>

lemma usable_analysis:
  assumes "is_safe_to_resume (analyze C fs dir cur exp) \<or> is_safe_to_continue (analyze C fs dir cur exp)"
  obtains m envelopes cp later prompt where
    "load_manifest C fs (path_join dir ''run.json'') = Inr m" "fingerprint_ok exp m"
    "read_trace (rcd_trace C) (fs_read fs (path_join dir ''trace.jsonl'')) = Inr envelopes"
    "last_checkpoint_split envelopes = Some (cp, later)"
    "\<not> has_drift cur (recorded_snapshot_hash envelopes)"
    "load_prompt_snapshot C fs dir m = Some prompt"
    "analyze C fs dir cur exp = checkpoint_analysis (status_after (map en_event later) (rmf_lifecycle_state m))
       m prompt (recorded_snapshot_hash envelopes) cp"
proof -
  note exits = is_safe_to_resume_def is_safe_to_continue_def analyze_def analyze_trace_def Let_def
  have ex: "fs_exists fs (path_join dir ''run.json'')"
    using assms by (cases "fs_exists fs (path_join dir ''run.json'')") (simp_all add: exits)
  obtain m where m: "load_manifest C fs (path_join dir ''run.json'') = Inr m"
    using assms ex by (cases "load_manifest C fs (path_join dir ''run.json'')") (simp_all add: exits)
  have fp: "fingerprint_ok exp m"
    using assms ex m by (cases "fingerprint_ok exp m") (simp_all add: exits)
  have tr: "fs_exists fs (path_join dir ''trace.jsonl'')"
    using assms ex m fp by (cases "fs_exists fs (path_join dir ''trace.jsonl'')") (simp_all add: exits)
  obtain es where es: "read_trace (rcd_trace C) (fs_read fs (path_join dir ''trace.jsonl'')) = Inr es"
    using assms ex m fp tr
    by (cases "read_trace (rcd_trace C) (fs_read fs (path_join dir ''trace.jsonl''))") (simp_all add: exits)
  have a: "analyze C fs dir cur exp = analyze_trace C fs dir m cur es"
    using ex m fp tr es by (simp add: analyze_def)
  let ?bad = "list_ex (\<lambda>e. is_prompt_snapshot_event (en_event e)) es \<and>
         (rmf_prompt_snapshot_hash m = None \<or> rmf_prompt_snapshot_path m = None)"
  have p: "\<not> ?bad"
    using assms unfolding a by (cases ?bad) (simp_all add: exits)
  obtain prompt where prompt: "load_prompt_snapshot C fs dir m = Some prompt"
    using assms p unfolding a by (cases "load_prompt_snapshot C fs dir m") (simp_all add: exits)
  obtain cp later where cp: "last_checkpoint_split es = Some (cp, later)"
    using assms p prompt unfolding a by (cases "last_checkpoint_split es") (auto simp: exits)
  have d: "\<not> has_drift cur (recorded_snapshot_hash es)"
    using assms p prompt cp unfolding a
    by (cases "has_drift cur (recorded_snapshot_hash es)") (simp_all add: exits)
  have "analyze C fs dir cur exp = checkpoint_analysis (status_after (map en_event later) (rmf_lifecycle_state m))
       m prompt (recorded_snapshot_hash es) cp"
    unfolding a analyze_trace_def if_not_P [OF p]
    by (simp add: prompt cp d Let_def in_flight_status_after)
  with that m fp(1) es cp d prompt show thesis by blast
qed

end
