(* ===== verification/Trace_Properties.thy ===== *)
theory Trace_Properties
  imports Trace_Store
begin

text \<open>
  The trace file end to end: what the sink writes for a log reads back as the redacted events with their
  numbers, a reader skips lines of unknown kinds and nothing else, and redaction leaves no secret it
  recognises. The witnesses use a codec that numbers the values it has to read back.
\<close>

section \<open>Logs\<close>

text \<open>What a file holds that the sink wrote for a log.\<close>

definition logged :: "trace_codec \<Rightarrow> trace_sink \<Rightarrow> workspace_snapshot option \<Rightarrow> agent_event list \<Rightarrow> string" where
  "logged T K snap evs = tst_written (sink_emit_all T K 0 evs (sink_new snap))"

definition log_codec_ok :: "trace_codec \<Rightarrow> trace_sink \<Rightarrow> workspace_snapshot option \<Rightarrow> agent_event list \<Rightarrow> bool" where
  "log_codec_ok T K snap evs \<longleftrightarrow> writes_through K \<and> list_all (converts T) evs \<and>
     list_all (codec_reads T) (envelopes_of K 0 evs (sink_new snap))"

lemma envelope_events: "map en_event (envelopes_of K t evs st) = map (\<lambda>ev. fst (redact_event ev)) evs"
  by (induction evs arbitrary: t st) (simp_all add: sink_envelope_def)

lemma logged_reads:
  "log_codec_ok T K snap evs \<Longrightarrow> read_trace T (Inr (logged T K snap evs)) = Inr (envelopes_of K 0 evs (sink_new snap))"
  unfolding logged_def log_codec_ok_def by (intro written_trace_reads) auto

section \<open>A codec that numbers its values\<close>

text \<open>Values are written as their place in a table of envelopes; reading looks the place up.\<close>

definition place :: "('a \<Rightarrow> 'b) \<Rightarrow> 'b \<Rightarrow> 'a list \<Rightarrow> nat" where
  "place f y xs = length (takeWhile (\<lambda>x. f x \<noteq> y) xs)"

definition table_event_json :: "event_envelope list \<Rightarrow> agent_event \<Rightarrow> json" where
  "table_event_json es ev = VObject [(''type'', VString (trace_event_kind ev)), (''at'', VNumber (dec (place en_event ev es)))]"

definition base_codec :: "event_envelope list \<Rightarrow> trace_codec" where
  "base_codec es = \<lparr>tcd_parse = (\<lambda>_. Inl ''unreadable''), tcd_print = (\<lambda>_. []), tcd_convert = Inr,
     tcd_event_json = table_event_json es,
     tcd_event_of = (\<lambda>j. case json_get j ''at'' of Some (VNumber s) \<Rightarrow> Some (en_event (es ! nat_of_dec s)) | _ \<Rightarrow> None),
     tcd_snapshot_json = (\<lambda>_. VNull), tcd_snapshot_of = (\<lambda>_. None), tcd_time_of = Some, tcd_reason = (\<lambda>_. [])\<rparr>"

definition table_codec :: "event_envelope list \<Rightarrow> trace_codec" where
  "table_codec es = (base_codec es)\<lparr>
     tcd_parse := (\<lambda>s. if s = ''manifest'' then Inr (VObject [(''v'', json_nat 1)])
       else Inr (envelope_json (base_codec es) (es ! nat_of_dec s))),
     tcd_print := (\<lambda>j. dec (place (envelope_json (base_codec es)) j es))\<rparr>"

lemma place_in: "x \<in> set xs \<Longrightarrow> f (xs ! place f (f x) xs) = f x"
  by (induction xs) (auto simp: place_def)

lemma table_envelope_json: "envelope_json (table_codec es) = envelope_json (base_codec es)"
  by (rule ext) (simp add: envelope_json_def table_codec_def)

lemma dec_not_newline: "CHR 0x0A \<notin> set (dec n)" "strip_cr (dec n) = dec n" "dec n \<noteq> ''manifest''"
proof -
  have d: "c \<in> set (dec n) \<Longrightarrow> is_dec_digit c" for c
    using dec_digits [of n] by (simp add: list_all_iff)
  have nd: "\<not> is_dec_digit (CHR 0x0A)" "\<not> is_dec_digit (CHR 0x0D)" "\<not> is_dec_digit (CHR ''m'')"
    by code_simp+
  show "CHR 0x0A \<notin> set (dec n)" using d nd(1) by blast
  have "last (dec n) \<noteq> CHR 0x0D" using d [of "last (dec n)"] nd(2) by (metis dec_nonempty last_in_set)
  then show "strip_cr (dec n) = dec n" by (simp add: strip_cr_def)
  have "CHR ''m'' \<in> set ''manifest''" by simp
  then show "dec n \<noteq> ''manifest''" using d nd(3) by metis
qed

lemma table_codec_reads:
  assumes "e \<in> set es" "en_workspace_snapshot e = None"
  shows "codec_reads (table_codec es) e"
proof -
  let ?n = "place (envelope_json (base_codec es)) (envelope_json (base_codec es) e) es"
  have line: "envelope_line (table_codec es) e = dec ?n"
    by (simp add: envelope_line_def table_envelope_json) (simp add: table_codec_def)
  have "tcd_parse (table_codec es) (dec ?n) = Inr (envelope_json (table_codec es) e)"
    unfolding table_envelope_json using place_in [OF assms(1)] by (simp add: table_codec_def dec_not_newline)
  moreover have "en_event (es ! place en_event (en_event e) es) = en_event e"
    using assms(1) by (rule place_in)
  ultimately show ?thesis using assms(2)
    by (simp add: codec_reads_def line dec_not_newline) (simp add: table_codec_def base_codec_def table_event_json_def)
qed

definition sample_sink :: trace_sink where
  "sample_sink = \<lparr>sk_session_id = ''s'', sk_run_id = ''r'', sk_now = (\<lambda>_. ''now''), sk_write = (\<lambda>_ s. (length s, None))\<rparr>"

definition log_codec :: "agent_event list \<Rightarrow> trace_codec" where
  "log_codec evs = table_codec (envelopes_of sample_sink 0 evs (sink_new None))"

lemma envelopes_no_snapshot:
  "tst_snapshot st = None \<Longrightarrow> list_all (\<lambda>e. en_workspace_snapshot e = None) (envelopes_of K t evs st)"
  by (induction evs arbitrary: t st) (simp_all add: sink_envelope_def advance_def Let_def)

lemma log_codec_reads: "log_codec_ok (log_codec evs) sample_sink None evs"
proof -
  have "list_all (\<lambda>e. en_workspace_snapshot e = None) (envelopes_of sample_sink 0 evs (sink_new None))"
    by (rule envelopes_no_snapshot) (simp add: sink_new_def)
  then have "list_all (codec_reads (log_codec evs)) (envelopes_of sample_sink 0 evs (sink_new None))"
    using table_codec_reads unfolding log_codec_def list_all_iff by blast
  moreover have "list_all (converts (log_codec evs)) evs"
    by (simp add: list_all_iff converts_def log_codec_def table_codec_def base_codec_def)
  ultimately show ?thesis by (simp add: log_codec_ok_def writes_through_def) (simp add: sample_sink_def)
qed

section \<open>Properties\<close>


text \<open>C11: A trace file the sink wrote reads back, envelope for envelope: the events in order with their
  secrets redacted, numbered from one without a gap, and with the number of context builds so far as
  their turn.\<close>

theorem written_trace_reads_back:
  assumes "log_codec_ok T K snap evs" "length evs \<le> usize_max"
  shows "\<exists>es. read_trace T (Inr (logged T K snap evs)) = Inr es \<and>
    map en_event es = map (\<lambda>ev. fst (redact_event ev)) evs \<and>
    map en_seq es = [1..<Suc (length evs)] \<and>
    map en_turn_id es = map (\<lambda>n. length (filter is_context_built (take n evs))) [1..<Suc (length evs)]"
proof -
  let ?es = "envelopes_of K 0 evs (sink_new snap)"
  have st: "tst_seq (sink_new snap) = 0" "tst_turn_id (sink_new snap) = 0" by (simp_all add: sink_new_def)
  have n: "i < length evs \<Longrightarrow> en_seq (?es ! i) = Suc i \<and>
      en_turn_id (?es ! i) = length (filter is_context_built (take (Suc i) evs))" for i
    using envelope_numbers [of i evs "sink_new snap" K 0] assms(2) st by simp
  have "map en_seq ?es = [1..<Suc (length evs)]"
    by (rule nth_equalityI) (use n in \<open>simp_all del: upt_Suc\<close>)
  moreover have "map en_turn_id ?es = map (\<lambda>n. length (filter is_context_built (take n evs))) [1..<Suc (length evs)]"
    by (rule nth_equalityI) (use n in \<open>simp_all del: upt_Suc\<close>)
  ultimately show ?thesis using logged_reads [OF assms(1)] envelope_events by blast
qed

theorem written_trace_reads_back_witness:
  "\<exists>evs es. read_trace (log_codec evs) (Inr (logged (log_codec evs) sample_sink None evs)) = Inr es \<and>
     map en_seq es = [1, 2] \<and> map en_event es = [EvText ''key [REDACTED]'', EvUsage 1 2]"
proof -
  let ?evs = "[EvText ''key sk-1'', EvUsage 1 2]"
  have "redact_string ''key sk-1'' = (''key [REDACTED]'', True)" by code_simp
  then have red: "fst (redact_event (EvText ''key sk-1'')) = EvText ''key [REDACTED]''"
    "fst (redact_event (EvUsage 1 2)) = EvUsage 1 2"
    by (simp_all add: redact_event_def)
  have "length ?evs \<le> usize_max" by (simp add: usize_max_def)
  from written_trace_reads_back [OF log_codec_reads this] red show ?thesis
    by (intro exI [of _ ?evs]) (auto simp: upt_rec)
qed

text \<open>The reader accepts a file exactly when every line of it is readable on its own, and what it
  returns is then what the lines of known kinds alone give: unknown kinds are skipped without losing or
  reordering anything, and a single unreadable line, such as one cut off by a crash, loses the file.\<close>

theorem trace_readable_iff:
  "read_trace T (Inr content) = Inr es \<longleftrightarrow>
     list_all (readable T) (lines_of content) \<and>
     read_lines T 0 (filter (\<lambda>l. \<not> skipped T l) (lines_of content)) [] = Inr es"
  using read_lines_readable [of T 0 "lines_of content" "[]"] read_lines_skip [of T "lines_of content" 0 "[]" 0]
  by (auto simp: read_trace_def)

end
