(* ===== verification/Crash_Safety.thy ===== *)
theory Crash_Safety
  imports Loop_Safety Executor_Batch Resume Trace_Properties
begin

text \<open>
  The executor, the loop and the resume analysis together. A tool only runs while its start is in the
  log and neither its result nor a checkpoint has been logged since: an invariant of every run of the
  loop, whatever the hooks, the model and the schedule do. So however a run is cut off, the analysis
  of what it logged finds every tool whose outcome is unknown.
\<close>

section \<open>Tools in flight\<close>

fun events_of :: "effect list \<Rightarrow> agent_event list" where
  "events_of [] = []"
| "events_of (Emitted ev # xs) = ev # events_of xs"
| "events_of (_ # xs) = events_of xs"

text \<open>An event that settles a call: its result, or a checkpoint.\<close>

definition settles :: "string \<Rightarrow> agent_event \<Rightarrow> bool" where
  "settles i ev \<longleftrightarrow> tool_ends i ev \<or> is_checkpoint ev"

definition in_flight_at :: "effect list \<Rightarrow> string \<Rightarrow> bool" where
  "in_flight_at tr i \<longleftrightarrow> open_after (tool_begins i) (settles i) (events_of tr)"

text \<open>Every run of a tool happens while the call is in flight.\<close>

definition runs_announced :: "effect list \<Rightarrow> bool" where
  "runs_announced tr \<longleftrightarrow> (\<forall>pre i nm input suf. tr = pre @ Ran i nm input # suf \<longrightarrow> in_flight_at pre i)"

definition announced :: "world \<Rightarrow> bool" where
  "announced w \<longleftrightarrow> runs_announced (w_trace w)"

definition quiet_event :: "agent_event \<Rightarrow> bool" where
  "quiet_event ev \<longleftrightarrow> (\<forall>i. \<not> settles i ev)"

lemma events_of_append [simp]: "events_of (xs @ ys) = events_of xs @ events_of ys"
  by (induction xs rule: events_of.induct) simp_all

lemma in_flight_snoc [simp]:
  "in_flight_at (tr @ [Emitted ev]) i \<longleftrightarrow> tool_begins i ev \<or> (in_flight_at tr i \<and> \<not> settles i ev)"
  "in_flight_at (tr @ [Ran j nm input]) i = in_flight_at tr i"
  "in_flight_at (tr @ [PolicyAnswered rq d]) i = in_flight_at tr i"
  "in_flight_at (tr @ [ApprovalAnswered j nm input a]) i = in_flight_at tr i"
  by (simp_all add: in_flight_at_def)

lemma announced_Nil [simp]: "runs_announced []"
  by (simp add: runs_announced_def)

lemma announced_snoc:
  "runs_announced (tr @ [x]) \<longleftrightarrow> runs_announced tr \<and> (\<forall>i nm input. x = Ran i nm input \<longrightarrow> in_flight_at tr i)"
proof
  assume a: "runs_announced (tr @ [x])"
  have "runs_announced tr"
    using a unfolding runs_announced_def by (metis append.assoc append_Cons)
  moreover have "in_flight_at tr i" if "x = Ran i nm input" for i nm input
    using a that unfolding runs_announced_def by blast
  ultimately show "runs_announced tr \<and> (\<forall>i nm input. x = Ran i nm input \<longrightarrow> in_flight_at tr i)" by blast
next
  assume a: "runs_announced tr \<and> (\<forall>i nm input. x = Ran i nm input \<longrightarrow> in_flight_at tr i)"
  show "runs_announced (tr @ [x])" unfolding runs_announced_def
  proof (intro allI impI)
    fix pre i nm input suf
    assume eq: "tr @ [x] = pre @ Ran i nm input # suf"
    show "in_flight_at pre i"
    proof (cases suf rule: rev_cases)
      case Nil
      with eq a show ?thesis by simp
    next
      case (snoc ys y)
      with eq have "tr = pre @ Ran i nm input # ys" by simp
      with a show ?thesis unfolding runs_announced_def by blast
    qed
  qed
qed

lemma announced_prefix: "runs_announced (xs @ ys) \<Longrightarrow> runs_announced xs"
  by (induction ys rule: rev_induct) (auto simp: announced_snoc simp flip: append_assoc)

lemma announced_snoc_simps [simp]:
  "runs_announced (tr @ [Emitted ev]) = runs_announced tr"
  "runs_announced (tr @ [PolicyAnswered rq d]) = runs_announced tr"
  "runs_announced (tr @ [ApprovalAnswered i nm input a]) = runs_announced tr"
  "runs_announced (tr @ [Ran i nm input]) \<longleftrightarrow> runs_announced tr \<and> in_flight_at tr i"
  by (simp_all add: announced_snoc)

interpretation announcing: consult_invariant announced
  by unfold_locales (simp_all add: announced_def)

section \<open>Runs keep the announcement\<close>

text \<open>The calls of \<open>ids\<close> are in flight.\<close>

definition flying :: "string set \<Rightarrow> world \<Rightarrow> bool" where
  "flying ids w \<longleftrightarrow> announced w \<and> (\<forall>i \<in> ids. in_flight_at (w_trace w) i)"

lemma flying_announced: "flying ids w \<Longrightarrow> announced w"
  by (simp add: flying_def)

lemma flying_empty: "flying {} w = announced w"
  by (simp add: flying_def)

lemma flying_tick [simp]: "flying ids (w\<lparr>w_tick := t\<rparr>) = flying ids w"
  by (simp add: flying_def announced_def)

lemma flying_trace: "flying ids w \<Longrightarrow> w_trace w' = w_trace w \<Longrightarrow> flying ids w'"
  by (simp add: flying_def announced_def)

lemma keeps_ask_flying: "keeps (flying ids) (ask q)"
  by (rule keepsI) simp

lemma keeps_emit_fn_quiet: "quiet_event ev \<Longrightarrow> keeps (flying ids) (emit_fn E ev)"
  by (rule keepsI)
    (auto simp: emit_fn_def flying_def announced_def quiet_event_def split: option.splits)

lemma quiet_error [simp]: "quiet_event (EvError m r)"
  by (simp add: quiet_event_def settles_def tool_ends_def is_checkpoint_def)

lemma keeps_emit_quiet: "quiet_event ev \<Longrightarrow> keeps (flying ids) (emit E ev)"
  unfolding emit_def
  by (intro keeps_then keeps_for keeps_bind keeps_ask_flying keeps_emit_fn_quiet)
    (simp_all add: keeps_emit_fn_quiet split: option.splits)

lemma keeps_flush_flying: "keeps (flying ids) (flush_trace_sink E)"
  unfolding flush_trace_sink_def
  by (auto intro!: keeps_bind keeps_ask_flying keeps_emit_quiet split: option.splits)

definition started_event :: "string \<Rightarrow> agent_event \<Rightarrow> bool" where
  "started_event i ev \<longleftrightarrow> tool_begins i ev \<and> quiet_event ev"

lemma wp_emit_started:
  assumes "flying ids w"
  shows "wp (emit_started E (p, ctx) grp ps) (\<lambda>_. flying (insert (pl_id p) ids)) (\<lambda>_. announced) w"
proof -
  let ?ev = "EvToolExecutionStarted (pl_id p) (cid_to_string (pl_cid p)) (hash_input (pl_input p))
       (pd_source (pl_policy p)) (tc_working_dir ctx) grp ps"
  have q: "quiet_event ?ev" "tool_begins (pl_id p) ?ev"
    by (simp_all add: quiet_event_def settles_def tool_ends_def is_checkpoint_def tool_begins_def)
  have hooks: "keeps (flying ids) (for_act (\<lambda>h. bind_act (ask (\<lambda>t. h t ?ev)) (\<lambda>r. case r of
          None \<Rightarrow> ret ()
        | Some err \<Rightarrow> emit_fn E (EvError (''TraceHook.on_trace_write failed: '' @ trace_error_to_string err) True)))
       (trace_hooks (e_hooks E)))"
    by (intro keeps_for keeps_bind keeps_ask_flying) (simp add: keeps_emit_fn_quiet split: option.splits)
  show ?thesis unfolding emit_started_def prod.case emit_def wp_then
    by (rule wp_conseq [OF keepsD [OF hooks assms]])
      (use q in \<open>auto simp: emit_fn_def flying_def announced_def quiet_event_def split: option.splits\<close>)
qed

lemma wp_emit_all_started:
  assumes "flying ids w"
  shows "wp (for_act (\<lambda>pc. emit_started E pc grp ps) current)
     (\<lambda>_. flying (ids \<union> (pl_id \<circ> fst) ` set current)) (\<lambda>_. announced) w"
  using assms
proof (induction current arbitrary: ids w)
  case (Cons pc current)
  obtain p ctx where pc: "pc = (p, ctx)" by (cases pc)
  show ?case unfolding for_act.simps wp_then pc
    by (rule wp_conseq [OF wp_emit_started [OF Cons.prems]])
      (use Cons.IH [of "insert (pl_id p) ids"] in \<open>auto intro: wp_conseq\<close>)
qed simp

section \<open>The steps of a task\<close>

text \<open>A step the calls of \<open>ids\<close> may take without settling anything.\<close>

definition flying_step :: "string set \<Rightarrow> task_step \<Rightarrow> bool" where
  "flying_step ids st = (case st of TsRan i nm input \<Rightarrow> i \<in> ids | TsSend ev \<Rightarrow> quiet_event ev)"

lemma quiet_retry [simp]: "quiet_event (EvToolRetryAttempt i n m d)"
  by (simp add: quiet_event_def settles_def tool_ends_def is_checkpoint_def)

lemma wp_retry_flying:
  assumes "list_all (flying_step {i}) steps"
  shows "wp (retry_loop E t input ctx i rp d attempt steps)
     (\<lambda>r w'. w_trace w' = w_trace w \<and> list_all (flying_step {i}) (snd r)) (\<lambda>e w'. False) w"
  using assms
proof (induction "case rp of None \<Rightarrow> 0 | Some policy \<Rightarrow> max_retries policy - attempt"
    arbitrary: attempt steps w rule: less_induct)
  case less
  have again: "wp (retry_loop E t input ctx i (Some policy) d (Suc attempt) steps')
       (\<lambda>r w'. w_trace w' = w_trace w1 \<and> list_all (flying_step {i}) (snd r)) (\<lambda>e w'. False) w1"
    if "rp = Some policy" "can_retry attempt policy d r0" "list_all (flying_step {i}) steps'"
    for policy r0 steps' w1
    using less(1) [of "Suc attempt" steps' w1] that by (simp add: can_retry_def diff_less_mono2)
  show ?case using less(2)
    by (subst retry_loop.simps)
      (auto simp: execute_tool_def select_cancel_def Let_def flying_step_def
        intro!: again [where ?w1.0 = "w\<lparr>w_tick := Suc (Suc (w_tick w))\<rparr>", simplified]
        split: option.splits)
qed

lemma wp_execute_flying:
  "wp (execute_tool_with_retry E t input ctx i)
     (\<lambda>r w'. w_trace w' = w_trace w \<and> list_all (flying_step {i}) (snd r)) (\<lambda>e w'. False) w"
  unfolding execute_tool_with_retry_def Let_def by (rule wp_retry_flying) simp

lemma flying_step_mono: "flying_step ids st \<Longrightarrow> ids \<subseteq> ids' \<Longrightarrow> flying_step ids' st"
  by (auto simp: flying_step_def split: task_step.splits)

lemma keeps_task_flying: "flying_step ids st \<Longrightarrow> keeps (flying ids) (task_step_act E st)"
proof (cases st)
  case (TsRan i nm input)
  then show "flying_step ids st \<Longrightarrow> ?thesis"
    by (intro keepsI) (simp add: task_step_act_def flying_step_def flying_def announced_def)
qed (simp add: task_step_act_def flying_step_def keeps_emit_quiet)

lemma keeps_guarded_flying: "flying_step ids st \<Longrightarrow> keeps (flying ids) (guarded_step E st)"
  unfolding guarded_step_def select_cancel_def
  by (auto intro!: keeps_bind keeps_ask_flying keeps_task_flying)

lemma wp_run_tasks_flying:
  "wp (fold_act (\<lambda>pc acc. bind_act (run_task E pc) (\<lambda>r. ret (acc @ [r]))) current [])
     (\<lambda>outs w'. w_trace w' = w_trace w \<and>
        list_all (list_all (flying_step ((pl_id \<circ> fst) ` set current))) (map snd outs)) (\<lambda>e w'. False) w"
proof -
  let ?I = "\<lambda>done outs w'. w_trace w' = w_trace w \<and>
     list_all (list_all (flying_step ((pl_id \<circ> fst) ` set current))) (map snd outs)"
  show ?thesis
  proof (rule wp_fold [where I = ?I], goal_cases)
    case (1 ys x zs outs w1)
    obtain p ctx where x: "x = (p, ctx)" by (cases x)
    have sub: "{pl_id p} \<subseteq> (pl_id \<circ> fst) ` set current" using 1(1) x by force
    have mono: "list_all (flying_step {pl_id p}) steps \<Longrightarrow>
        list_all (flying_step ((pl_id \<circ> fst) ` set current)) steps" for steps
      using flying_step_mono [OF _ sub] by (auto simp: list_all_iff)
    show ?case unfolding x run_task_def prod.case wp_bind elapsed_ms_def
      by (rule wp_conseq [OF wp_execute_flying]) (use 1(2) mono in auto)
  qed simp
qed

lemma wp_run_parallel_announced:
  assumes "announced w"
  shows "wp (run_parallel E grp current results) (\<lambda>_. announced) (\<lambda>_. announced) w"
proof (cases "current = []")
  case True
  then show ?thesis using assms by (simp add: run_parallel_def)
next
  case False
  let ?ids = "(pl_id \<circ> fst) ` set current"
  have tasks: "wp (bind_act (fold_act (\<lambda>pc acc. bind_act (run_task E pc) (\<lambda>r. ret (acc @ [r]))) current [])
            (\<lambda>outs. bind_act (ask (e_schedule E)) (\<lambda>sched.
              then_act (for_act (guarded_step E) (interleave sched (map snd outs)))
                (bind_act (select_cancel E) (\<lambda>c.
                  if c then fail HCancelled else ret (results @ map fst outs))))))
     (\<lambda>_. announced) (\<lambda>_. announced) w1" if w1: "flying ?ids w1" for w1
    unfolding wp_bind
  proof (rule wp_conseq [OF wp_run_tasks_flying], goal_cases)
    case (1 outs w2)
    then have w2: "flying ?ids w2" using w1 flying_trace by blast
    have fk: "keeps (flying ?ids) (for_act (guarded_step E) (interleave sched (map snd outs)))" for sched
    proof (rule keeps_for)
      fix st
      assume "st \<in> set (interleave sched (map snd outs))"
      then show "keeps (flying ?ids) (guarded_step E st)"
        using 1 by (intro keeps_guarded_flying) (auto simp: set_interleave list_all_iff)
    qed
    show ?case unfolding wp_bind wp_then wp_ask select_cancel_def
      by (rule wp_conseq [OF keepsD [OF fk]])
        (use w2 in \<open>auto dest: flying_announced simp: flying_def announced_def\<close>)
  qed simp
  show ?thesis unfolding run_parallel_def using False
    by (simp, intro wp_conseq [OF wp_emit_all_started [of "{}"]])
      (use assms in \<open>auto simp: flying_empty intro!: wp_conseq [OF keepsD [OF keeps_flush_flying]]
        tasks [simplified] dest: flying_announced\<close>)
qed

lemma wp_run_sequential_announced:
  assumes "announced w"
  shows "wp (run_sequential E s p results) (\<lambda>_. announced) (\<lambda>_. announced) w"
proof -
  have run: "wp (bind_act (execute_tool_with_retry E (pl_tool p) (pl_input p) ctx (pl_id p))
       (\<lambda>(result, steps).
         then_act (for_act (task_step_act E) (filter (\<lambda>st. \<not> is_send st) steps))
         (bind_act (select_cancel E) (\<lambda>c.
           if c then fail HCancelled
           else then_act (for_act (task_step_act E) (filter is_send steps))
             (bind_act (elapsed_ms E) (\<lambda>duration.
               ret (results @ [(pl_order p, pl_id p, result, duration, pd_source (pl_policy p))])))))))
     (\<lambda>_. announced) (\<lambda>_. announced) w1" if w1: "flying {pl_id p} w1" for w1 ctx
    unfolding wp_bind
  proof (rule wp_conseq [OF wp_execute_flying], goal_cases)
    case (1 r w2)
    obtain result steps where r: "r = (result, steps)" by (cases r)
    have w2: "flying {pl_id p} w2" using w1 1 flying_trace by blast
    have k: "keeps (flying {pl_id p}) (for_act (task_step_act E) (filter g steps))" for g
      using 1 r by (intro keeps_for keeps_task_flying) (auto simp: list_all_iff)
    show ?case unfolding r prod.case wp_then wp_bind select_cancel_def wp_ask wp_if elapsed_ms_def
      by (rule wp_conseq [OF keepsD [OF k w2]])
        (auto intro!: wp_conseq [OF keepsD [OF k]] dest: flying_announced simp: flying_def announced_def)
  qed simp
  show ?thesis unfolding run_sequential_def wp_then
  proof (rule wp_conseq [OF keepsD [OF announcing.keeps_hooks_before assms]], goal_cases)
    case (1 x w1)
    show ?case
      by (rule wp_conseq [OF wp_emit_started [of "{}"]])
        (use 1 run in \<open>auto simp: flying_empty intro!: wp_conseq [OF keepsD [OF keeps_flush_flying]]
          dest: flying_announced\<close>)
  qed
qed

lemma keeps_execution_announced: "keeps announced (execute_planned E s planned denied)"
proof -
  have parallel: "keeps announced (run_parallel E grp current results)" for grp current results
    by (intro keepsI wp_run_parallel_announced)
  have sequential: "keeps announced (run_sequential E s p results)" for p results
    by (intro keepsI wp_run_sequential_announced)
  show ?thesis unfolding execute_planned_def execution_step_def
    by (auto intro!: keeps_bind keeps_fold keeps_then announcing.keeps_hooks_before parallel sequential
        split: prod.splits)
qed

section \<open>From the executor to the run\<close>

text \<open>An invariant that consultations and the execution of planned calls keep is kept by every run.\<close>

locale execution_invariant = consult_invariant +
  assumes execution_ok: "keeps I (execute_planned E s planned denied)"
begin

lemma keeps_batch: "keeps I (execute_tool_batch E s calls maps grants turn max_turns)"
  unfolding execute_tool_batch_def
  by (auto intro!: keeps_bind keeps_fold keeps_early_validation keeps_strict_validation keeps_policy_step
      keeps_approval_step execution_ok split: prod.splits)

lemma keeps_run_turn: "keeps I (run_turn L turn request st)"
  unfolding run_turn_def Let_def
  by (auto intro!: keeps_bind keeps_then keeps_fold keeps_stream_response keeps_model_hooks keeps_propose
      keeps_batch keeps_result_step split: prod.splits)

lemma keeps_loop_turn: "keeps I (loop_turn L turns st)"
  unfolding loop_turn_def request_turn_def
  by (auto intro!: keeps_bind keeps_then keeps_drain keeps_checkpoint keeps_build_request keeps_run_turn
      split: prod.splits)

lemma keeps_stop_blocked: "keeps I (stop_blocked L reason turns st)"
  unfolding stop_blocked_def by (intro keeps_then keeps_al_emit keeps_ret)

lemma keeps_run_loop: "keeps I (run_loop L turns st)"
proof (induction "unat (al_max_turns L) - turns" arbitrary: turns st rule: less_induct)
  case less
  have next_turn: "keeps I (run_loop L (saturating_add turns 1) st')"
    if "\<not> unat (al_max_turns L) \<le> turns" for st'
  proof (rule less)
    show "unat (al_max_turns L) - saturating_add turns 1 < unat (al_max_turns L) - turns"
      using that max_turns_bound [of L] by (simp add: saturating_add_def)
  qed
  show ?case
    by (subst run_loop.simps)
      (auto intro!: keeps_bind keeps_then keeps_ask keeps_al_emit keeps_loop_turn keeps_invoke_next_turn
        keeps_stop_blocked next_turn simp del: One_nat_def split: option.splits prod.splits)
qed

lemma keeps_run: "keeps I (run L s)"
  unfolding run_def
  by (auto intro!: keeps_bind keeps_then keeps_session_hooks keeps_checkpoint keeps_run_loop keeps_close_queue
      split: prod.splits)

end

interpretation announced_runs: execution_invariant announced
  by unfold_locales (rule keeps_execution_announced)

section \<open>From the log to the analysis\<close>

lemma open_after_mono: "open_after b e xs \<Longrightarrow> (\<And>x. e' x \<Longrightarrow> e x) \<Longrightarrow> open_after b e' xs"
  by (induction xs rule: rev_induct) auto

lemma open_after_map: "open_after b e (map f xs) \<longleftrightarrow> open_after (\<lambda>x. b (f x)) (\<lambda>x. e (f x)) xs"
  by (induction xs rule: rev_induct) simp_all

lemma open_after_later: "open_after b e (xs @ y # ys) \<Longrightarrow> e y \<Longrightarrow> \<not> b y \<Longrightarrow> open_after b e ys"
proof (induction ys rule: rev_induct)
  case Nil
  then show ?case using open_after_snoc [of b e xs y] by simp
next
  case (snoc z zs)
  then show ?case using open_after_snoc [of b e "xs @ y # zs" z] by auto
qed

lemma open_after_append: "open_after b e xs \<Longrightarrow> \<not> list_ex e ys \<Longrightarrow> open_after b e (xs @ ys)"
  by (induction ys rule: rev_induct) (auto simp flip: append_assoc)

lemma redaction_keeps_kinds [simp]:
  "tool_begins i (fst (redact_event ev)) = tool_begins i ev"
  "tool_ends i (fst (redact_event ev)) = tool_ends i ev"
  "is_checkpoint (fst (redact_event ev)) = is_checkpoint ev"
  "settles i (fst (redact_event ev)) = settles i ev"
proof -
  show a: "tool_begins i (fst (redact_event ev)) = tool_begins i ev"
    "tool_ends i (fst (redact_event ev)) = tool_ends i ev"
    "is_checkpoint (fst (redact_event ev)) = is_checkpoint ev"
    by (simp_all add: redact_event_def tool_begins_def tool_ends_def is_checkpoint_def
        split: agent_event.split aux_event.split)
  show "settles i (fst (redact_event ev)) = settles i ev"
    by (simp add: settles_def a)
qed

lemma redaction_keeps_checkpoints:
  "is_checkpoint ev \<Longrightarrow> fst (redact_event ev) = ev"
  by (cases ev) (simp_all add: is_checkpoint_def redact_event_def)

lemma checkpoint_does_not_begin: "is_checkpoint ev \<Longrightarrow> \<not> tool_begins i ev"
  by (cases ev) (simp_all add: is_checkpoint_def tool_begins_def)

text \<open>The analysis of such a file, when it lets the run be used: the last checkpoint of the log splits
  it, and the status is that of the events after it.\<close>

lemma usable_log:
  assumes "is_safe_to_resume (analyze C fs dir cur exp) \<or> is_safe_to_continue (analyze C fs dir cur exp)"
    and "fs_read fs (path_join dir ''trace.jsonl'') = Inr (logged (rcd_trace C) K snap evs)"
    and "log_codec_ok (rcd_trace C) K snap evs"
  obtains m earlier cp later where
    "load_manifest C fs (path_join dir ''run.json'') = Inr m"
    "evs = earlier @ cp # later" "is_checkpoint cp" "\<not> list_ex is_checkpoint later"
    "ra_status (analyze C fs dir cur exp) =
       status_after (map (\<lambda>ev. fst (redact_event ev)) later) (rmf_lifecycle_state m)"
    "(ra_history (analyze C fs dir cur exp), ra_context_state (analyze C fs dir cur exp),
      ra_token_budget (analyze C fs dir cur exp)) = checkpoint_state cp"
proof -
  let ?r = "\<lambda>ev. fst (redact_event ev)"
  obtain m es ecp elater prompt where u:
    "load_manifest C fs (path_join dir ''run.json'') = Inr m"
    "read_trace (rcd_trace C) (fs_read fs (path_join dir ''trace.jsonl'')) = Inr es"
    "last_checkpoint_split es = Some (ecp, elater)"
    "analyze C fs dir cur exp = checkpoint_analysis (status_after (map en_event elater) (rmf_lifecycle_state m))
       m prompt (recorded_snapshot_hash es) ecp"
    using usable_analysis [OF assms(1)] by metis
  have es: "map en_event es = map ?r evs"
    using u(2) logged_reads [OF assms(3)] assms(2) envelope_events by auto
  from u(3) obtain eearlier where sp: "es = eearlier @ ecp # elater" "is_checkpoint (en_event ecp)"
    "\<not> list_ex (\<lambda>e. is_checkpoint (en_event e)) elater"
    unfolding last_checkpoint_split_iff by blast
  from es sp(1) have "map ?r evs = map en_event eearlier @ en_event ecp # map en_event elater" by simp
  then obtain earlier cp later where ev: "evs = earlier @ cp # later" "?r cp = en_event ecp"
    "map ?r later = map en_event elater"
    by (auto simp: map_eq_append_conv map_eq_Cons_conv)
  have cp: "is_checkpoint cp" "en_event ecp = cp"
    using sp(2) ev(2) redaction_keeps_kinds(3) [of cp] redaction_keeps_checkpoints by metis+
  have "\<not> list_ex is_checkpoint later"
  proof -
    have "list_ex is_checkpoint (map ?r later) = list_ex is_checkpoint later"
      by (induction later) simp_all
    then show ?thesis using sp(3) ev(3) by (simp add: list_ex_iff)
  qed
  moreover have "(ra_history (analyze C fs dir cur exp), ra_context_state (analyze C fs dir cur exp),
      ra_token_budget (analyze C fs dir cur exp)) = checkpoint_state cp"
    unfolding u(4) using cp(2) by (simp add: checkpoint_analysis_def split: prod.splits)
  ultimately show thesis using that u(1,4) ev(1,3) cp(1) by simp
qed

lemma unsettled_in_flight:
  assumes "runs_announced (tr @ rest)" "tr = pre @ Ran i nm input # post"
    and "\<not> list_ex (settles i) (events_of post)"
  shows "open_after (tool_begins i) (settles i) (events_of tr)"
proof -
  have "runs_announced tr" using assms(1) by (rule announced_prefix)
  then have "in_flight_at pre i" using assms(2) unfolding runs_announced_def by blast
  then have "open_after (tool_begins i) (settles i) (events_of pre @ events_of post)"
    unfolding in_flight_at_def using assms(3) by (rule open_after_append)
  then show ?thesis using assms(2) by simp
qed

lemma open_tool_unusable:
  assumes "fs_read fs (path_join dir ''trace.jsonl'') = Inr (logged (rcd_trace C) K snap evs)"
    and "log_codec_ok (rcd_trace C) K snap evs"
    and "open_after (tool_begins i) (settles i) evs"
  shows "\<not> is_safe_to_resume (analyze C fs dir cur exp) \<and> \<not> is_safe_to_continue (analyze C fs dir cur exp)"
proof (rule ccontr)
  assume "\<not> ?thesis"
  then have usable: "is_safe_to_resume (analyze C fs dir cur exp) \<or> is_safe_to_continue (analyze C fs dir cur exp)"
    by blast
  obtain m :: run_manifest and earlier cp later where u: "evs = earlier @ cp # later" "is_checkpoint cp"
    "ra_status (analyze C fs dir cur exp) =
       status_after (map (\<lambda>ev. fst (redact_event ev)) later) (rmf_lifecycle_state m)"
    by (rule usable_log [OF usable assms(1,2)]) (rule that)
  have "open_after (tool_begins i) (settles i) later"
    using assms(3) unfolding u(1)
    by (rule open_after_later) (simp_all add: settles_def u(2) checkpoint_does_not_begin [OF u(2)])
  then have "open_after (tool_begins i) (tool_ends i) later"
    by (rule open_after_mono) (simp add: settles_def)
  then have "open_after (tool_begins i) (tool_ends i) (map (\<lambda>ev. fst (redact_event ev)) later)"
    by (simp add: open_after_map)
  then have "ra_status (analyze C fs dir cur exp) = InterruptedAmbiguousTool"
    unfolding u(3) status_after_def by auto
  with usable show False by (simp add: is_safe_to_resume_def is_safe_to_continue_def)
qed

end
