(* ===== verification/Crash_Properties.thy ===== *)
theory Crash_Properties
  imports Crash_Safety Executor_Properties Trace_Properties
begin

text \<open>
  What a run that was cut off leaves behind. The properties join the loop, the executor, the sink, the
  reader and the resume analysis. The witnesses use a loop whose provider asks for one tool call.
\<close>

section \<open>A run with a tool call\<close>

definition sample_packet :: context_packet where
  "sample_packet = \<lparr>pk_messages = [], pk_packet_hash = [], pk_pipeline_version = [], pk_tokenizer_id = [],
     pk_token_estimate = 0, pk_sources = [], pk_omissions = [], pk_message_hashes = [],
     pk_strategy = StratDynamic, pk_snapshot_hash = None, pk_cache_prefix_hash = None, pk_segments = [],
     pk_cache_plan = None, pk_prompt_source = None\<rparr>"

definition sample_manifest :: projection_manifest where
  "sample_manifest = \<lparr>pm_v = 1, pm_manifest_id = [], pm_session_id = [], pm_run_id = [], pm_turn_id = 0,
     pm_policy = context_policy_default, pm_token_estimate = 0, pm_stable_prefix_hash = None,
     pm_checkpoint_ref = None, pm_cleared_results = [], pm_omitted_messages = [], pm_messages_metadata = [],
     pm_retention_fingerprint = None, pm_context_report_ref = None\<rparr>"
text \<open>The provider asks for one call of the sample tool.\<close>

definition tool_loop :: agent_loop where
  "tool_loop = \<lparr>al_env = sample_env, al_max_turns = 1, al_is_cancelled = (\<lambda>_. False),
     al_provider_id = ''p'', al_default_model = ''m'', al_adapt_tools = adapt_tools (\<lambda>_. []),
     al_count_request_tokens = (\<lambda>_ _. Inr 0),
     al_stream = (\<lambda>_ _. Inr [Inr (EvToolCallStreamed ''x'' ''a'' ''{}''), Inr (EvStop ToolUse)]),
     al_descriptors = (\<lambda>_. [t_descriptor sample_tool]),
     al_prepare = (\<lambda>_ _. ([], Inr \<lparr>pcx_packet = sample_packet, pcx_manifest = sample_manifest, pcx_state_delta = delta_default\<rparr>)),
     al_queue_drain = None, al_run_id = None, al_artifacts_dir = None, al_parse = (\<lambda>_. Inr (VObject [])),
     al_request_hash = (\<lambda>_. []), al_retention_fingerprint = (\<lambda>_. [])\<rparr>"
definition is_run :: "effect \<Rightarrow> bool" where
  "is_run x = (case x of Ran i nm input \<Rightarrow> True | _ \<Rightarrow> False)"

lemma wp_sample_emit: "wp (emit sample_env ev) Q F w =
   Q () (w\<lparr>w_trace := w_trace w @ [Emitted ev], w_tick := Suc (w_tick w)\<rparr>)"
  by (simp add: emit_def emit_fn_def sample_env_def registry_new_def)

lemma tool_fields:
  "al_env tool_loop = sample_env" "al_hooks tool_loop = registry_new" "al_max_turns tool_loop = 1"
  "al_is_cancelled tool_loop = (\<lambda>_. False)" "al_queue_drain tool_loop = None"
  "al_prepare tool_loop = (\<lambda>_ _. ([], Inr \<lparr>pcx_packet = sample_packet, pcx_manifest = sample_manifest, pcx_state_delta = delta_default\<rparr>))"
  "al_adapt_tools tool_loop = adapt_tools (\<lambda>_. [])" "al_emit tool_loop = emit sample_env"
  "al_count_request_tokens tool_loop = (\<lambda>_ _. Inr 0)"
  "al_descriptors tool_loop = (\<lambda>_. [t_descriptor sample_tool])"
  "al_stream tool_loop = (\<lambda>_ _. Inr [Inr (EvToolCallStreamed ''x'' ''a'' ''{}''), Inr (EvStop ToolUse)])"
  "al_parse tool_loop = (\<lambda>_. Inr (VObject []))"
  by (simp_all add: fun_eq_iff al_emit_def tool_loop_def al_hooks_def sample_env_def)

lemma tool_env:
  "e_hooks sample_env = registry_new" "e_catalog sample_env = sample_catalog" "e_cancel_wins sample_env = (\<lambda>_. False)"
  "e_policy sample_env = (\<lambda>_ _. Inr (decision_allowed None))" "e_execute sample_env = (\<lambda>_ _ _ _. ToolElapsed)"
  "e_flush sample_env = None" "e_schedule sample_env = (\<lambda>_. [])" "e_to_json sample_env = (\<lambda>_. None)"
  "e_elapsed_ms sample_env = (\<lambda>_. 0)"
  by (simp_all add: sample_env_def)

definition the_maps :: "tool_name_mapping list" where
  "the_maps = snd (adapt_tools (\<lambda>_. []) [t_descriptor sample_tool])"

definition the_call :: proposed_tool_call where
  "the_call = \<lparr>pc_id = ''x'', pc_name = ''a'', pc_input = VObject []\<rparr>"

lemma batch_simple:
  "wp (execute_tool_batch sample_env s [the_call] the_maps [] turn mx)
     (\<lambda>_ w'. list_ex is_run (w_trace w')) (\<lambda>_ _. False) w"
proof -
  have v: "validate_call (\<lambda>_. None) sample_catalog the_maps the_call {} = (None, {''x''})"
    unfolding the_maps_def the_call_def by code_simp
  have m: "find_mapping ''a'' the_maps = Some \<lparr>internal_id = td_id (t_descriptor sample_tool),
      provider_name = ''a'', display_name = ''a'', descriptor_hash = [], input_schema = None, strict = None\<rparr>"
    unfolding the_maps_def by code_simp
  have r: "resolve_tool_id ''a'' the_maps = Some (td_id (t_descriptor sample_tool))"
    unfolding the_maps_def by code_simp
  have c: "sample_catalog (td_id (t_descriptor sample_tool)) = Some sample_tool"
    by (simp add: sample_catalog_def)
  have "cid_to_string (td_id (t_descriptor sample_tool)) = ''builtin:a''"
    by code_simp
  then have n: "\<not> network_blocked s (cid_to_string (td_id (t_descriptor sample_tool))) (VObject [])"
    by (simp add: network_blocked_def)
  have p: "t_parallel sample_tool = (\<lambda>_. True)" "t_risk sample_tool = (\<lambda>_. Low)"  by (simp_all add: sample_tool_def)
  have rp: "td_retry_policy (t_descriptor sample_tool) = None"
    by code_simp
  have [simp]: "pc_id the_call = ''x''" "pc_name the_call = ''a''" "pc_input the_call = VObject []"
    by (simp_all add: the_call_def)
  show ?thesis
    by (simp add: execute_tool_batch_def early_validation_def validate_step_def v tool_env strict_validation_def
        strict_step_def m wp_sample_emit drop_denied_def policy_step_def r c Let_def evaluate_policy_def n
        emit_policy_decision_def find_applicable_grant_def decision_allowed_def execute_planned_def
        execution_step_def p emit_tool_hooks_before_def registry_new_def run_parallel_def emit_started_def
        flush_trace_sink_def run_task_def execute_tool_with_retry_def, subst retry_loop.simps)
      (simp add: execute_tool_def tool_env error_with_failure_def Let_def rp guarded_step_def select_cancel_def
        task_step_act_def elapsed_ms_def is_run_def)
qed

definition has_run :: "world \<Rightarrow> bool" where
  "has_run w \<longleftrightarrow> list_ex is_run (w_trace w)"

lemma has_run_grows: "has_run w \<Longrightarrow> grows w w' \<Longrightarrow> has_run w'"
  by (auto simp: has_run_def grows_def extends_trace_def)

interpretation ran_once: consult_invariant has_run
  by unfold_locales (simp_all add: has_run_def)

interpretation ran_runs: execution_invariant has_run
proof
  show "keeps has_run (execute_planned E s planned denied)" for E s planned denied
  proof (rule keepsI)
    fix w assume "has_run w"
    then show "wp (execute_planned E s planned denied) (\<lambda>_. has_run) (\<lambda>_. has_run) w"
      by (intro wp_conseq [OF keepsD [OF keeps_execution_growth [of "w_trace w"]]])
        (auto simp: extends_trace_def has_run_def)
  qed
qed

lemma tool_turn: 
  assumes "rq_tool_name_map request = the_maps" "ls_grants st = []"
  shows "wp (run_turn tool_loop 0 request st) (\<lambda>_. has_run) (\<lambda>_. has_run) w"
proof -
  have rest: "wp (fold_act (result_step tool_loop calls) results st2) (\<lambda>st3. wp (ret (ToolExecuted, st3)) (\<lambda>_. has_run) (\<lambda>_. has_run)) (\<lambda>_. has_run) w'"
    if "has_run w'" for calls results st2 w'
    by (rule wp_conseq [OF keepsD [OF keeps_fold [OF ran_once.keeps_result_step] that]]) simp_all
  have b: "wp (execute_tool_batch sample_env s [\<lparr>pc_id = ''x'', pc_name = ''a'', pc_input = VObject []\<rparr>] the_maps [] 0 mx)
     (\<lambda>x. wp (case x of (results, grants) \<Rightarrow> bind_act (fold_act (result_step tool_loop calls) results (f grants)) (\<lambda>st2. ret (ToolExecuted, st2))) (\<lambda>_. has_run) (\<lambda>_. has_run)) (\<lambda>_. has_run) w'" for s w' calls f mx
    by (rule wp_conseq [OF batch_simple [unfolded the_call_def]]) (auto simp: has_run_def [symmetric] rest split: prod.splits)
  have mt: "unat (al_max_turns tool_loop) = 1" by (simp add: tool_fields)
  have sc: "select_cancel sample_env = ask (\<lambda>_. False)" by (simp add: select_cancel_def sample_env_def)
  show ?thesis
    by (simp add: run_turn_def stream_response_def model_hooks_before_def model_hooks_after_def tool_fields
        registry_new_def sc receive_response_def stream_event_step_def react_event_def note_proposal_def
        finish_response_def Let_def wp_sample_emit acc_push_def acc_record_def acc_default_def acc_finish_def
        assms into_message_def full_text_def propose_calls_def mt, intro conjI impI)
      (rule b [where f = "\<lambda>g. st\<lparr>ls_session := X, ls_grants := g\<rparr>" for X])+
qed

lemma tool_build:
  assumes "\<And>request st' w. rq_tool_name_map request = the_maps \<Longrightarrow> ls_grants st' = ls_grants st \<Longrightarrow> Q (request, st') w"
    and "s_next_turn_override (ls_session st) = None"
  shows "wp (build_request tool_loop 0 st) Q F w"
  by (simp add: build_request_def tool_fields registry_new_def assms(2) Let_def warn_override_def wp_sample_emit
    prepare_context_def request_template_def the_maps_def [symmetric] case_prod_beta assms(1))

lemma tool_loop_runs: "has_run (snd (run tool_loop sample_session start))"
proof -
  have st: "s_next_turn_override (ls_session (initial_state sample_session)) = None"
    "ls_grants (initial_state sample_session) = []"
    by (simp_all add: initial_state_def sample_session_def session_new_def)
  have ex: "\<not> exhausted (s_token_budget (ls_session (initial_state sample_session)))"
    by (simp add: initial_state_def sample_session_def session_new_def exhausted_def available_total_def)
  have turn: "wp (loop_turn tool_loop 0 (initial_state sample_session)) (\<lambda>_. has_run) (\<lambda>_. has_run) w" for w
    unfolding loop_turn_def wp_bind drain_session_messages_def tool_fields option.case wp_ret prod.case request_turn_def
    by (simp, rule tool_build [OF _ st(1)], simp, rule wp_conseq [OF tool_turn])
      (auto simp: st(2) intro!: wp_conseq [OF keepsD [OF ran_once.keeps_checkpoint]])
  have loop: "wp (run_loop tool_loop 0 (initial_state sample_session)) (\<lambda>_. has_run) (\<lambda>_. has_run) w" for w
  proof -
    have "unat (al_max_turns tool_loop) \<noteq> 0" by (simp add: tool_fields)
    then show ?thesis
      by (subst run_loop.simps)
        (simp only: wp_bind wp_ask wp_if tool_fields(4) ex if_False le_zero_eq not_False_eq_True, rule wp_conseq [OF turn],
         rule keepsD, auto intro!: keeps_bind keeps_then ran_once.keeps_al_emit ran_once.keeps_invoke_next_turn
           ran_runs.keeps_stop_blocked ran_runs.keeps_run_loop split: option.splits prod.splits)
  qed
  have "wp (run tool_loop sample_session) (\<lambda>_. has_run) (\<lambda>_. has_run) start"
    unfolding run_def wp_then wp_bind
    by (simp add: session_start_hooks_def tool_fields registry_new_def emit_checkpoint_def wp_sample_emit, rule wp_conseq [OF loop])
      (auto intro!: keepsD keeps_then keeps_ret ran_once.keeps_close_queue ran_once.keeps_session_hooks simp: case_prod_beta simp flip: wp_then)
  then show ?thesis by (simp add: wp_def split: prod.splits sum.splits)
qed


section \<open>A run directory\<close>

text \<open>A run directory with the given log and a manifest that says how the run ended.\<close>

definition sample_fingerprint :: compatibility_fingerprint where
  "sample_fingerprint = \<lparr>cf_context_pipeline_version = ''pipeline-v1'', cf_tool_schema_hash = [],
     cf_policy_fingerprint = [], cf_hook_contract_hash = [], cf_execution_mode = ''Confirm'',
     cf_skill_fingerprint = None, cf_workspace_context_snapshot_hash = None\<rparr>"

definition sample_run_manifest :: "lifecycle_state \<Rightarrow> run_manifest" where
  "sample_run_manifest state = \<lparr>rmf_v = 1, rmf_session_id = ''s'', rmf_run_id = ''r'', rmf_parent_run_id = None,
     rmf_base_checkpoint = None, rmf_run_kind = RunNew, rmf_created_at = ''now'', rmf_lifecycle_state = state,
     rmf_finalized_at = None, rmf_failure_kind = None, rmf_interrupted_phase = None,
     rmf_prompt_snapshot_hash = None, rmf_prompt_snapshot_path = None, rmf_resolved_model = None,
     rmf_fingerprint = sample_fingerprint\<rparr>"

definition sample_run_codec :: "lifecycle_state \<Rightarrow> agent_event list \<Rightarrow> run_codec" where
  "sample_run_codec state evs = \<lparr>rcd_trace = log_codec evs, rcd_manifest_of = (\<lambda>_. Inr (sample_run_manifest state)),
     rcd_prompt_of = (\<lambda>_. Inl ''none'')\<rparr>"

definition sample_run_files :: "agent_event list \<Rightarrow> file_system" where
  "sample_run_files evs = \<lparr>fs_canonicalize = Inr, fs_exists = (\<lambda>_. True),
     fs_read = (\<lambda>p. if p = ''d/trace.jsonl'' then Inr (logged (log_codec evs) sample_sink None evs) else Inr ''manifest''),
     fs_read_dir = (\<lambda>_. None)\<rparr>"

lemma sample_paths [simp]:
  "path_join ''d'' ''trace.jsonl'' = ''d/trace.jsonl''" "path_join ''d'' ''run.json'' = ''d/run.json''"
  by code_simp+

lemma sample_log_read:
  "fs_read (sample_run_files evs) (path_join ''d'' ''trace.jsonl'') =
     Inr (logged (rcd_trace (sample_run_codec state evs)) sample_sink None evs)"
  by (simp add: sample_run_files_def sample_run_codec_def)

lemma sample_log_codec: "log_codec_ok (rcd_trace (sample_run_codec state evs)) sample_sink None evs"
  by (simp add: sample_run_codec_def log_codec_reads)

lemma sample_manifest_read:
  "load_manifest (sample_run_codec state evs) (sample_run_files evs) (path_join ''d'' ''run.json'')
     = Inr (sample_run_manifest state)"
proof -
  have "tcd_parse (log_codec evs) ''manifest'' = Inr (VObject [(''v'', json_nat 1)])"
    by (simp add: log_codec_def table_codec_def)
  moreover have "as_u64 (json_nat 1) = Some 1" by simp
  ultimately show ?thesis
    by (simp add: load_manifest_def sample_run_files_def sample_run_codec_def RUN_MANIFEST_SCHEMA_VERSION_def)
qed

lemma sample_analysis:
  "analyze (sample_run_codec state evs) (sample_run_files evs) ''d'' None None =
     analyze_trace (sample_run_codec state evs) (sample_run_files evs) ''d'' (sample_run_manifest state) None
       (envelopes_of sample_sink 0 evs (sink_new None))"
proof -
  have "fs_exists (sample_run_files evs) = (\<lambda>_. True)" by (simp add: sample_run_files_def)
  moreover have "read_trace (rcd_trace (sample_run_codec state evs))
      (fs_read (sample_run_files evs) (path_join ''d'' ''trace.jsonl'')) = Inr (envelopes_of sample_sink 0 evs (sink_new None))"
    unfolding sample_log_read [where state = state] by (rule logged_reads) (rule sample_log_codec)
  ultimately show ?thesis
    using sample_manifest_read [of state evs] by (simp add: analyze_def Let_def fingerprint_ok_def)
qed

lemma sample_analyze_trace:
  "analyze_trace (sample_run_codec state evs) (sample_run_files evs) ''d'' (sample_run_manifest state) None envelopes =
     (if list_ex (\<lambda>e. is_prompt_snapshot_event (en_event e)) envelopes
      then refused_analysis IncompatibleTrace (sample_run_manifest state) None
      else (case last_checkpoint_split envelopes of
          None \<Rightarrow> refused_analysis LegacyNonResumable (sample_run_manifest state) None
        | Some (cp, later) \<Rightarrow> checkpoint_analysis (in_flight_status (in_flight_after (map en_event later)) state)
            (sample_run_manifest state) None (recorded_snapshot_hash envelopes) cp))"
  by (auto simp: analyze_trace_def load_prompt_snapshot_def sample_run_manifest_def has_drift_def Let_def
      split: option.splits)

lemmas scan_simps = redact_event_def sink_envelope_def is_checkpoint_def is_prompt_snapshot_event_def
  in_flight_after_def in_flight_step_def in_flight_none_def in_flight_status_def

section \<open>Properties\<close>

text \<open>C7: In every run of the loop, from an empty log on, each execution of a tool happens while the log
  holds a \<open>ToolExecutionStarted\<close> for the call that neither a result of the call nor a checkpoint
  follows: alone or in a parallel group, at the first attempt or a retry, whatever hooks emit.\<close>

theorem tool_runs_announced: "runs_announced (w_trace (snd (run L s (w\<lparr>w_trace := []\<rparr>))))"
proof -
  have "announced (w\<lparr>w_trace := []\<rparr>)" by (simp add: announced_def)
  from keeps_after [OF announced_runs.keeps_run this] show ?thesis by (simp add: announced_def)
qed



text \<open>C9: What the analysis gives back when a run may be resumed or continued: the log has a last
  checkpoint, the history, context state and token budget are the ones that checkpoint recorded, and
  the status follows from which operations began after it without ending, an undecided tool first, then
  a hook, an approval, a policy evaluation, the provider's stream and the context build, and else from
  the state the manifest records.\<close>

theorem resume_restores_checkpoint:
  assumes "is_safe_to_resume (analyze C fs dir cur exp) \<or> is_safe_to_continue (analyze C fs dir cur exp)"
    and "fs_read fs (path_join dir ''trace.jsonl'') = Inr (logged (rcd_trace C) K snap evs)"
    and "log_codec_ok (rcd_trace C) K snap evs"
  shows "\<exists>m earlier history context_state budget projection packet source later.
    load_manifest C fs (path_join dir ''run.json'') = Inr m \<and>
    evs = earlier @ EvCheckpoint history context_state budget projection packet source # later \<and>
    \<not> list_ex is_checkpoint later \<and>
    ra_status (analyze C fs dir cur exp) =
      status_after (map (\<lambda>ev. fst (redact_event ev)) later) (rmf_lifecycle_state m) \<and>
    ra_history (analyze C fs dir cur exp) = history \<and>
    ra_context_state (analyze C fs dir cur exp) = context_state \<and>
    ra_token_budget (analyze C fs dir cur exp) = budget"
proof -
  obtain m :: run_manifest and earlier cp later where u: "load_manifest C fs (path_join dir ''run.json'') = Inr m"
    "evs = earlier @ cp # later" "is_checkpoint cp" "\<not> list_ex is_checkpoint later"
    "ra_status (analyze C fs dir cur exp) =
       status_after (map (\<lambda>ev. fst (redact_event ev)) later) (rmf_lifecycle_state m)"
    "(ra_history (analyze C fs dir cur exp), ra_context_state (analyze C fs dir cur exp),
      ra_token_budget (analyze C fs dir cur exp)) = checkpoint_state cp"
    by (rule usable_log [OF assms]) (rule that)
  from u(3) obtain h c b x y z where cp: "cp = EvCheckpoint h c b x y z"
    by (cases cp) (auto simp: is_checkpoint_def)
  then have st: "ra_history (analyze C fs dir cur exp) = h" "ra_context_state (analyze C fs dir cur exp) = c"
    "ra_token_budget (analyze C fs dir cur exp) = b"
    using u(6) by (simp_all add: checkpoint_state_def)
  show ?thesis
    by (intro exI conjI, rule u(1), rule u(2) [unfolded cp], rule u(4), rule u(5), rule st(1), rule st(2), rule st(3))
qed

theorem resume_restores_checkpoint_witness:
  "\<exists>evs. analyze (sample_run_codec LsInterrupted evs) (sample_run_files evs) ''d'' None None =
       checkpoint_analysis InterruptedSafe (sample_run_manifest LsInterrupted) None None
         (sink_envelope sample_sink 0 (hd evs) False (advance (hd evs) (sink_new None))) \<and>
     (\<exists>history context_state budget projection packet source.
        hd evs = EvCheckpoint history context_state budget projection packet source \<and>
        ra_history (analyze (sample_run_codec LsInterrupted evs) (sample_run_files evs) ''d'' None None) = history)"
proof -
  let ?evs = "[EvCheckpoint [] context_state_default token_budget_default None None None]"
  let ?a = "analyze (sample_run_codec LsInterrupted ?evs) (sample_run_files ?evs) ''d'' None None"
  have a: "?a = checkpoint_analysis InterruptedSafe (sample_run_manifest LsInterrupted) None None
         (sink_envelope sample_sink 0 (hd ?evs) False (advance (hd ?evs) (sink_new None)))"
    by (simp add: sample_analysis sample_analyze_trace scan_simps lifecycle_status_def sink_new_def advance_def Let_def)
  then have "is_safe_to_resume ?a" by (simp add: is_safe_to_resume_def)
  from resume_restores_checkpoint [OF disjI1 [OF this] sample_log_read sample_log_codec]
  have "ra_history ?a = []" by (elim exE conjE) (simp add: Cons_eq_append_conv)
  then show ?thesis using a by (intro exI [of _ ?evs] conjI exI) (rule a, simp_all)
qed

definition settled_log :: "session_message list \<Rightarrow> context_projection_state \<Rightarrow> token_budget
    \<Rightarrow> string \<Rightarrow> string \<Rightarrow> string \<Rightarrow> agent_event list" where
  "settled_log history context_state budget i tool_name output =
     [EvCheckpoint history context_state budget None None None,
      EvToolExecutionStarted i tool_name [] [] [] None False,
      EvToolResult i output False False (Some tool_name) None None None None None None]"

text \<open>A tool that ran and whose result was logged after the last checkpoint leaves no trace in what
  a resume restores: with the run interrupted before its next checkpoint, the analysis calls the run
  safe to resume and gives back the history from before the call.\<close>

theorem settled_tool_not_restored:
  "let evs = settled_log history context_state budget i tool_name output;
       a = analyze (sample_run_codec LsInterrupted evs) (sample_run_files evs) ''d'' None None
   in is_safe_to_resume a \<and> ra_history a = history"
  unfolding sample_analysis sample_analyze_trace Let_def settled_log_def
  by (simp add: scan_simps lifecycle_status_def is_safe_to_resume_def)
    (simp add: checkpoint_analysis_def checkpoint_state_def)

end
