(* ===== verification/Client_Events.thy ===== *)
theory Client_Events
  imports Trace_Store
begin

text \<open>
  The projection of trace events to the client contract (\<open>ClientEventRecordV1\<close>,
  \<open>project_client_payload\<close> and \<open>project_client_event_line\<close> of \<open>trace/mod.rs\<close>): what a product sees of a run.
  The lemmas: a client record carries no text that redaction would change, it does not depend on the
  fields the contract calls private, and the line projection agrees with the trace reader.
\<close>

section \<open>Payloads\<close>

datatype client_payload =
    CRunStarted string string
  | CUserMessage string
  | CAssistantText string
  | CAssistantThinking string
  | CContext string "nat option" "string option"
  | CModel string "string option" "string option"
  | CTool string "string option" "string option" "string option"
  | CPolicy string string "string option" "string option"
  | CApproval string string "string option"
  | CArtifact nat string string
  | CUsage nat nat
  | CStop string
  | CError string string bool
  | CLifecycle string
  | CUnknown string

definition policy_status_name :: "policy_status \<Rightarrow> string" where
  "policy_status_name s = (case s of Allowed \<Rightarrow> ''allowed'' | Confirm \<Rightarrow> ''confirm'' | Denied \<Rightarrow> ''denied'')"

definition approval_outcome_name :: "approval_outcome \<Rightarrow> string" where
  "approval_outcome_name r = (case r of OutApprove \<Rightarrow> ''approve'' | OutDeny \<Rightarrow> ''deny''
     | OutEdit \<Rightarrow> ''edit'' | OutAlwaysAllow \<Rightarrow> ''always_allow'')"

definition stop_reason_name :: "stop_reason \<Rightarrow> string" where
  "stop_reason_name r = (case r of EndTurn \<Rightarrow> ''end_turn'' | ToolUse \<Rightarrow> ''tool_use''
     | MaxOutput \<Rightarrow> ''max_output'' | ContentFiltered \<Rightarrow> ''content_filtered'' | MaxTurns \<Rightarrow> ''max_turns''
     | BudgetExhausted \<Rightarrow> ''budget_exhausted'' | StopPolicyViolation \<Rightarrow> ''policy_violation''
     | StopProviderError \<Rightarrow> ''provider_error'' | HookBlocked \<Rightarrow> ''hook_blocked'')"

definition redacted_detail :: "string \<Rightarrow> string \<Rightarrow> client_payload \<times> bool" where
  "redacted_detail kind reason =
     (CContext kind None (Some (fst (redact_string reason))), snd (redact_string reason))"

definition redacted_error :: "string \<Rightarrow> string \<Rightarrow> bool \<Rightarrow> client_payload \<times> bool" where
  "redacted_error kind message recoverable =
     (CError kind (fst (redact_string message)) recoverable, snd (redact_string message))"

fun project_aux :: "aux_event \<Rightarrow> client_payload \<times> bool" where
  "project_aux (AuxRunStarted m) =
     (CRunStarted (ms_provider_id (rm_selection m)) (ms_model_id (rm_selection m)), False)"
| "project_aux (AuxUserMessage content) =
     (CUserMessage (fst (redact_string content)), snd (redact_string content))"
| "project_aux (AuxEphemeralContextInjected source n) =
     (CContext ''ephemeral_context_injected'' (Some n) (Some (fst (redact_string source))), snd (redact_string source))"
| "project_aux (AuxWorkspaceContextSkipped reason) = redacted_detail ''workspace_context_skipped'' reason"
| "project_aux (AuxWorkspaceContextRejected reason) = redacted_detail ''workspace_context_rejected'' reason"
| "project_aux (AuxMemoryContextSkipped reason) = redacted_detail ''memory_context_skipped'' reason"
| "project_aux (AuxMemoryContextRejected reason) = redacted_detail ''memory_context_rejected'' reason"
| "project_aux (AuxContextManagementFailed e) = redacted_error ''context_management_failed'' e True"
| "project_aux (AuxContextExhaustion details) = redacted_error ''context_exhaustion'' details True"
| "project_aux (AuxWorkspaceContextLoadFailed e) = redacted_error ''workspace_context_load_failed'' e True"
| "project_aux (AuxMemoryContextLoadFailed e) = redacted_error ''memory_context_load_failed'' e True"
| "project_aux (AuxContextCompactionStarted a b) = (CContext ''context_compaction_started'' None None, False)"
| "project_aux (AuxContextCompacted a b c) = (CContext ''context_compacted'' None None, False)"
| "project_aux other = (CLifecycle (aux_kind other), False)"

definition project_client_payload :: "agent_event \<Rightarrow> client_payload \<times> bool" where
  "project_client_payload ev =
     (let kind = trace_event_kind ev
      in case ev of
       EvText delta \<Rightarrow> (CAssistantText (fst (redact_string delta)), snd (redact_string delta))
     | EvThinking delta \<Rightarrow> (CAssistantThinking (fst (redact_string delta)), snd (redact_string delta))
     | EvContextBuilt a token_estimate b c d e \<Rightarrow> (CContext kind (Some token_estimate) None, False)
     | EvContextBuildFailed reason \<Rightarrow> redacted_detail kind reason
     | EvNextTurnBlocked reason \<Rightarrow> redacted_detail kind reason
     | EvModelRequest provider model a b c d \<Rightarrow> (CModel kind (Some provider) (Some model), False)
     | EvModelResponseStreamFailed a e \<Rightarrow> redacted_error kind e True
     | EvModelResponseStarted a \<Rightarrow> (CModel kind None None, False)
     | EvModelResponseStreamCompleted a \<Rightarrow> (CModel kind None None, False)
     | EvModelResponseStreamInterrupted a \<Rightarrow> (CModel kind None None, False)
     | EvToolCallStreamed i name a \<Rightarrow> (CTool kind (Some i) (Some name) None, False)
     | EvToolCallProposed i name a \<Rightarrow> (CTool kind (Some i) (Some name) None, False)
     | EvToolExecutionStarted i name a b c d e \<Rightarrow> (CTool kind (Some i) (Some name) None, False)
     | EvToolResult i a is_error truncated tool_name b c d e f g \<Rightarrow>
         (CTool kind (Some i) tool_name
            (Some (if is_error then ''error'' else if truncated then ''truncated'' else ''ok'')), False)
     | EvToolCallValidationFailed i name a \<Rightarrow> (CTool kind (Some i) (Some name) (Some ''rejected''), False)
     | EvPolicyViolation i name a \<Rightarrow> (CTool kind (Some i) (Some name) (Some ''rejected''), False)
     | EvToolRetryAttempt i attempt a b \<Rightarrow> (CTool kind (Some i) None (Some (''retry_'' @ dec attempt)), False)
     | EvPolicyDecision i a b c d e decision reason f \<Rightarrow>
         (CPolicy kind i (Some (policy_status_name decision)) (fst (redact_option reason)), snd (redact_option reason))
     | EvPolicyEvaluationStarted i \<Rightarrow> (CPolicy kind i None None, False)
     | EvPolicyEvaluationCancelled i \<Rightarrow> (CPolicy kind i None None, False)
     | EvPolicyEvaluationFailed i e \<Rightarrow>
         (CPolicy kind i None (Some (fst (redact_string e))), snd (redact_string e))
     | EvApprovalDecision i decision a b c \<Rightarrow> (CApproval kind i (Some (approval_outcome_name decision)), False)
     | EvApprovalRequested i a b c \<Rightarrow> (CApproval kind i None, False)
     | EvApprovalCancelled i \<Rightarrow> (CApproval kind i None, False)
     | EvArtifactCreated a size_bytes mime hash \<Rightarrow> (CArtifact size_bytes mime hash, False)
     | EvUsage inp out \<Rightarrow> (CUsage inp out, False)
     | EvStop reason \<Rightarrow> (CStop (stop_reason_name reason), False)
     | EvError message recoverable \<Rightarrow> redacted_error kind message recoverable
     | EvCheckpoint a b c d e f \<Rightarrow> (CContext kind None None, False)
     | EvAssistantMessageCommitted a \<Rightarrow> (CContext kind None None, False)
     | EvSessionMessageInjected a \<Rightarrow> (CContext kind None None, False)
     | EvToolCatalogSelected a \<Rightarrow> (CContext kind None None, False)
     | EvAux a \<Rightarrow> project_aux a
     | _ \<Rightarrow> (CLifecycle kind, False))"

section \<open>Records\<close>

definition CLIENT_EVENT_SCHEMA_VERSION :: nat where
  "CLIENT_EVENT_SCHEMA_VERSION = 1"

record client_event_record =
  cer_v :: nat
  cer_session_id :: string
  cer_run_id :: string
  cer_turn_id :: nat
  cer_seq :: nat
  cer_ts :: string
  cer_payload :: client_payload
  cer_redacted :: bool

definition client_record :: "event_envelope \<Rightarrow> client_event_record" where
  "client_record e = (case project_client_payload (en_event e) of (payload, redacted) \<Rightarrow>
     \<lparr>cer_v = CLIENT_EVENT_SCHEMA_VERSION, cer_session_id = en_session_id e, cer_run_id = en_run_id e,
      cer_turn_id = en_turn_id e, cer_seq = en_seq e, cer_ts = en_ts e, cer_payload = payload,
      cer_redacted = (en_redacted e \<or> redacted)\<rparr>)"

record envelope_metadata =
  md_v :: nat
  md_session_id :: string
  md_run_id :: string
  md_turn_id :: nat
  md_seq :: nat
  md_ts :: string
  md_redacted :: bool

definition metadata_of :: "trace_codec \<Rightarrow> json \<Rightarrow> envelope_metadata option" where
  "metadata_of T j =
     Option.bind (get_field u32_of ''v'' j) (\<lambda>v.
     Option.bind (get_field as_str ''session_id'' j) (\<lambda>session.
     Option.bind (get_field_or [] as_str ''run_id'' j) (\<lambda>run.
     Option.bind (get_field as_u64 ''turn_id'' j) (\<lambda>turn.
     Option.bind (get_field as_u64 ''seq'' j) (\<lambda>seq.
     Option.bind (get_field (time_of T) ''ts'' j) (\<lambda>ts.
     Option.bind (get_field_or False as_bool ''redacted'' j) (\<lambda>redacted.
       Some \<lparr>md_v = v, md_session_id = session, md_run_id = run, md_turn_id = turn, md_seq = seq,
         md_ts = ts, md_redacted = redacted\<rparr>)))))))"

definition unknown_record :: "envelope_metadata \<Rightarrow> string \<Rightarrow> client_event_record" where
  "unknown_record m kind = \<lparr>cer_v = CLIENT_EVENT_SCHEMA_VERSION, cer_session_id = md_session_id m,
     cer_run_id = md_run_id m, cer_turn_id = md_turn_id m, cer_seq = md_seq m, cer_ts = md_ts m,
     cer_payload = CUnknown kind, cer_redacted = md_redacted m\<rparr>"

definition event_tag :: "json \<Rightarrow> string option" where
  "event_tag value = Option.bind (Option.bind (json_get value ''event'') (\<lambda>e. json_get e ''type'')) as_str"

definition project_client_event_line :: "trace_codec \<Rightarrow> string \<Rightarrow> nat \<Rightarrow> trace_error + client_event_record" where
  "project_client_event_line T line line_number =
     (case tcd_parse T line of
        Inl err \<Rightarrow> Inl (InvalidFormat line_number err)
      | Inr value \<Rightarrow>
          (case metadata_of T value of
             None \<Rightarrow> Inl (InvalidFormat line_number (tcd_reason T value))
           | Some m \<Rightarrow>
               if md_v m \<noteq> TRACE_EVENT_SCHEMA_VERSION then
                 Inl (InvalidFormat line_number (''unsupported trace schema version '' @ dec (md_v m) @
                   '' (expected '' @ dec TRACE_EVENT_SCHEMA_VERSION @ '')''))
               else (case event_tag value of
                   None \<Rightarrow> Inl (InvalidFormat line_number ''missing trace event kind'')
                 | Some kind \<Rightarrow>
                     if is_known_kind kind then
                       (case envelope_of T value of
                          None \<Rightarrow> Inl (InvalidFormat line_number (tcd_reason T value))
                        | Some e \<Rightarrow> Inr (client_record e))
                     else Inr (unknown_record m kind))))"

section \<open>What a client sees\<close>

text \<open>The texts of a payload that come from the run: what was said, why something failed.\<close>

fun payload_texts :: "client_payload \<Rightarrow> string list" where
  "payload_texts (CUserMessage s) = [s]"
| "payload_texts (CAssistantText s) = [s]"
| "payload_texts (CAssistantThinking s) = [s]"
| "payload_texts (CContext k n (Some s)) = [s]"
| "payload_texts (CPolicy k i d (Some s)) = [s]"
| "payload_texts (CError k s r) = [s]"
| "payload_texts _ = []"

lemma project_aux_clean: "list_all clean_text (payload_texts (fst (project_aux a)))"
  by (cases a) (simp_all add: redacted_detail_def redacted_error_def)

lemma payload_clean: "list_all clean_text (payload_texts (fst (project_client_payload ev)))"
proof (cases ev)
  case (EvAux a)
  then show ?thesis by (simp add: project_client_payload_def project_aux_clean)
next
  case (EvPolicyDecision a b c d e f g reason h)
  then show ?thesis by (cases reason) (simp_all add: project_client_payload_def)
qed (simp_all add: project_client_payload_def redacted_detail_def redacted_error_def)

text \<open>
  An event with the fields blanked that the contract keeps from clients: history, context state and
  budgets, messages, tool inputs and outputs, mappings, request hashes, working directories, artifact
  paths and failure reports.
\<close>

definition blank_message :: message where
  "blank_message = MSystem []"

definition blank_report :: tool_error_report where
  "blank_report = error_report FailExecutionFailed []"

definition blank_queued :: queued_session_message where
  "blank_queued = \<lparr>qm_id = [], qm_content = [], qm_source = SrcUser, qm_idempotency_key = None,
     qm_injected_at_turn = None\<rparr>"

definition blank_budget :: token_budget where
  "blank_budget = \<lparr>tb_model_limit = 0, tb_reserved_output = 0, tb_used_system = 0, tb_used_history = 0,
     tb_used_sources = 0, tb_used_tools = 0, tb_used_memory = 0, tb_minimum_turn_budget = 0\<rparr>"

definition public_view :: "agent_event \<Rightarrow> agent_event" where
  "public_view ev = (case ev of
       EvCheckpoint history state budget projection packet source \<Rightarrow>
         EvCheckpoint [] context_state_default blank_budget None None None
     | EvAssistantMessageCommitted m \<Rightarrow> EvAssistantMessageCommitted blank_message
     | EvSessionMessageInjected m \<Rightarrow> EvSessionMessageInjected blank_queued
     | EvToolCatalogSelected maps \<Rightarrow> EvToolCatalogSelected []
     | EvToolCallStreamed i name input \<Rightarrow> EvToolCallStreamed i name []
     | EvToolCallProposed i name input \<Rightarrow> EvToolCallProposed i name VNull
     | EvToolExecutionStarted i name input_hash source dir grp par \<Rightarrow>
         EvToolExecutionStarted i name [] [] [] None False
     | EvToolResult i output is_error truncated name dir ms hash refs source failure \<Rightarrow>
         EvToolResult i [] is_error truncated name None None None None None None
     | EvToolCallValidationFailed i name report \<Rightarrow> EvToolCallValidationFailed i name blank_report
     | EvPolicyViolation i name reason \<Rightarrow> EvPolicyViolation i name []
     | EvToolRetryAttempt i attempt e delay \<Rightarrow> EvToolRetryAttempt i attempt [] 0
     | EvPolicyDecision i tool input_hash risk mode rule decision reason source \<Rightarrow>
         EvPolicyDecision i None None None None None decision reason []
     | EvApprovalDecision i decision original edited grant_terms \<Rightarrow> EvApprovalDecision i decision [] None None
     | EvApprovalRequested i name input risk \<Rightarrow> EvApprovalRequested i [] VNull Low
     | EvArtifactCreated path n mime hash \<Rightarrow> EvArtifactCreated [] n mime hash
     | EvModelRequest provider model packet temperature max_tokens hash \<Rightarrow>
         EvModelRequest provider model None None None None
     | EvModelResponseStarted hash \<Rightarrow> EvModelResponseStarted []
     | EvModelResponseStreamCompleted hash \<Rightarrow> EvModelResponseStreamCompleted []
     | EvModelResponseStreamInterrupted hash \<Rightarrow> EvModelResponseStreamInterrupted []
     | EvModelResponseStreamFailed hash e \<Rightarrow> EvModelResponseStreamFailed [] e
     | EvContextBuilt packet n hash sources omissions source \<Rightarrow> EvContextBuilt [] n None None None None
     | EvVerificationResult status checks failed report findings \<Rightarrow> EvVerificationResult VPassed 0 0 None None
     | EvAux (AuxContextCompactionStarted a b) \<Rightarrow>
         EvAux (AuxContextCompactionStarted \<lparr>hr_start = 0, hr_end = 0\<rparr> \<lparr>hr_start = 0, hr_end = 0\<rparr>)
     | EvAux (AuxContextCompacted i a b) \<Rightarrow>
         EvAux (AuxContextCompacted [] \<lparr>hr_start = 0, hr_end = 0\<rparr> \<lparr>hr_start = 0, hr_end = 0\<rparr>)
     | EvAux (AuxMemoryProposal diff) \<Rightarrow> EvAux (AuxMemoryProposal [])
     | other \<Rightarrow> other)"

lemma payload_public: "project_client_payload (public_view ev) = project_client_payload ev"
proof (cases ev)
  case (EvAux a)
  then show ?thesis
    by (cases a) (simp_all add: project_client_payload_def public_view_def trace_event_kind_def)
qed (simp_all add: project_client_payload_def public_view_def trace_event_kind_def)

lemma client_record_simps [simp]:
  "cer_session_id (client_record e) = en_session_id e" "cer_run_id (client_record e) = en_run_id e"
  "cer_turn_id (client_record e) = en_turn_id e" "cer_seq (client_record e) = en_seq e"
  "cer_ts (client_record e) = en_ts e" "cer_payload (client_record e) = fst (project_client_payload (en_event e))"
  by (simp_all add: client_record_def case_prod_beta)

section \<open>Lines\<close>

lemma envelope_metadata_some:
  assumes "envelope_of T j = Some e"
  shows "\<exists>m. metadata_of T j = Some m \<and> md_v m = en_v e"
  using assms
  by (fastforce simp: envelope_of_def metadata_of_def get_field_def get_field_or_def Option.bind_eq_Some_conv
      split: option.splits)

lemma metadata_version:
  assumes "metadata_of T j = Some m"
  shows "Option.bind (json_get j ''v'') as_u64 = Some (md_v m)"
  using assms
  by (auto simp: metadata_of_def get_field_def u32_of_def Option.bind_eq_Some_conv split: option.splits if_splits)

section \<open>Properties\<close>


text \<open>The line projection and the trace reader agree: a line projects to a record exactly when the
  reader takes it and the record is the projection of the envelope it reads, or the reader skips it as an
  unknown kind and the record keeps the envelope's identity and order under the unknown kind.\<close>

theorem client_line_agrees:
  "project_client_event_line T line n = Inr r \<longleftrightarrow>
     (\<exists>e. parse_trace_envelope_line T line n = Inr (Some e) \<and> r = client_record e) \<or>
     (parse_trace_envelope_line T line n = Inr None \<and>
      (\<exists>value m kind. tcd_parse T line = Inr value \<and> metadata_of T value = Some m \<and>
         event_tag value = Some kind \<and> r = unknown_record m kind))"
proof (cases "tcd_parse T line")
  case (Inl err)
  then show ?thesis by (simp add: project_client_event_line_def parse_trace_envelope_line_def)
next
  case (Inr j)
  show ?thesis
  proof (cases "metadata_of T j")
    case None
    then have "envelope_of T j = None" using envelope_metadata_some [of T j] by fastforce
    with None Inr show ?thesis
      by (simp add: project_client_event_line_def parse_trace_envelope_line_def split: option.splits)
  next
    case (Some m)
    with metadata_version [OF Some] Inr show ?thesis
      by (auto simp: project_client_event_line_def parse_trace_envelope_line_def event_tag_def split: option.splits)
  qed
qed

end
