(* ===== verification/File_Tree.thy ===== *)
theory File_Tree
  imports Paths "HOL-Library.AList"
begin

text \<open>
  Rust's \<open>std::fs\<close> on Unix, as far as the file tools use it: a tree of directories, files and
  symbolic links, the resolution of a path, and the operations that query and change the tree. An
  operation that changes the tree may fail for a reason outside the model (\<open>faults\<close>). The
  lemmas: a resolved path names an entry, a canonical path resolves to itself, and resolution
  of directories does not depend on files.
\<close>

section \<open>Trees\<close>

text \<open>An entry is found under the names from the root to it; \<open>EBlob\<close> is a file that is not UTF-8 text.\<close>

datatype entry = EDir | EFile string | EBlob | ELink string

type_synonym key = "string list"
type_synonym tree = "(key \<times> entry) list"

definition look :: "tree \<Rightarrow> key \<Rightarrow> entry option" where
  "look t k = (if k = [] then Some EDir else map_of t k)"

definition put :: "key \<Rightarrow> entry \<Rightarrow> tree \<Rightarrow> tree" where
  "put k e t = AList.update k e t"

definition del :: "key \<Rightarrow> tree \<Rightarrow> tree" where
  "del k t = AList.delete k t"

lemma look_Nil [simp]: "look t [] = Some EDir"
  by (simp add: look_def)

lemma look_put [simp]: "k \<noteq> [] \<Longrightarrow> look (put k e t) = (look t)(k \<mapsto> e)"
  by (rule ext) (simp add: look_def put_def update_conv')

lemma look_del [simp]: "k \<noteq> [] \<Longrightarrow> look (del k t) = (look t)(k := None)"
  by (rule ext) (simp add: look_def del_def delete_conv')

definition name_ok :: "string \<Rightarrow> bool" where
  "name_ok c \<longleftrightarrow> c \<noteq> [] \<and> c \<noteq> ''.'' \<and> c \<noteq> ''..'' \<and> CHR ''/'' \<notin> set c"

text \<open>Every entry has a proper name and lies in a directory.\<close>

definition tree_wf :: "tree \<Rightarrow> bool" where
  "tree_wf t \<longleftrightarrow> (\<forall>k e. look t k = Some e \<longrightarrow> list_all name_ok k \<and> look t (butlast k) = Some EDir)"

section \<open>Resolution\<close>

text \<open>Where a path leads: an entry, a name that is free in an existing directory, or nowhere.\<close>

datatype place = Found key | Missing key | Broken string

definition not_found :: string where "not_found = ''No such file or directory (os error 2)''"
definition not_a_directory :: string where "not_a_directory = ''Not a directory (os error 20)''"
definition is_a_directory :: string where "is_a_directory = ''Is a directory (os error 21)''"
definition file_exists :: string where "file_exists = ''File exists (os error 17)''"
definition too_many_links :: string where "too_many_links = ''Too many levels of symbolic links (os error 40)''"

text \<open>The walk from a directory along components; at most \<open>n\<close> links are followed.\<close>

function resolve :: "tree \<Rightarrow> nat \<Rightarrow> key \<Rightarrow> string list \<Rightarrow> place" where
  "resolve t n acc [] = Found acc"
| "resolve t n acc (c # cs) =
     (if c = ''/'' then resolve t n [] cs
      else if c = ''.'' then resolve t n acc cs
      else if c = ''..'' then resolve t n (butlast acc) cs
      else (case look t (acc @ [c]) of
          None \<Rightarrow> if cs = [] then Missing (acc @ [c]) else Broken not_found
        | Some EDir \<Rightarrow> resolve t n (acc @ [c]) cs
        | Some (ELink target) \<Rightarrow>
            (if n = 0 then Broken too_many_links
             else resolve t (n - 1) acc (path_components target @ cs))
        | Some _ \<Rightarrow> if cs = [] then Found (acc @ [c]) else Broken not_a_directory))"
  by pat_completeness auto
termination by (relation "measures [\<lambda>(t, n, acc, cs). n, \<lambda>(t, n, acc, cs). length cs]") auto

definition link_limit :: nat where
  "link_limit = 40"

text \<open>A path that ends in a slash or a dot names a directory.\<close>

definition os_components :: "string \<Rightarrow> string list" where
  "os_components p = path_components p @
     (if path_components p \<noteq> [] \<and> last (split_on CHR ''/'' p) \<in> {[], ''.''} then [''.''] else [])"

text \<open>\<open>cwd\<close> is the working directory of the process.\<close>

definition place_of :: "key \<Rightarrow> tree \<Rightarrow> string \<Rightarrow> place" where
  "place_of cwd t p = (if p = [] then Broken not_found else resolve t link_limit cwd (os_components p))"

definition render_key :: "key \<Rightarrow> string" where
  "render_key k = ''/'' @ join ''/'' k"

definition canonical_path :: "key \<Rightarrow> tree \<Rightarrow> string \<Rightarrow> string + string" where
  "canonical_path cwd t p = (case place_of cwd t p of
       Found k \<Rightarrow> Inr (render_key k) | Missing k \<Rightarrow> Inl not_found | Broken e \<Rightarrow> Inl e)"

definition path_exists :: "key \<Rightarrow> tree \<Rightarrow> string \<Rightarrow> bool" where
  "path_exists cwd t p = (case place_of cwd t p of Found k \<Rightarrow> True | _ \<Rightarrow> False)"

definition path_is_dir :: "key \<Rightarrow> tree \<Rightarrow> string \<Rightarrow> bool" where
  "path_is_dir cwd t p = (case place_of cwd t p of Found k \<Rightarrow> look t k = Some EDir | _ \<Rightarrow> False)"

definition invalid_utf8 :: string where
  "invalid_utf8 = ''stream did not contain valid UTF-8''"

definition read_to_string :: "key \<Rightarrow> tree \<Rightarrow> string \<Rightarrow> string + string" where
  "read_to_string cwd t p = (case place_of cwd t p of
       Found k \<Rightarrow> (case look t k of Some (EFile s) \<Rightarrow> Inr s | Some EDir \<Rightarrow> Inl is_a_directory
           | _ \<Rightarrow> Inl invalid_utf8)
     | Missing k \<Rightarrow> Inl not_found | Broken e \<Rightarrow> Inl e)"

definition list_dir :: "key \<Rightarrow> tree \<Rightarrow> string \<Rightarrow> (string \<times> bool) list option" where
  "list_dir cwd t p = (case place_of cwd t p of
       Found k \<Rightarrow> (if look t k = Some EDir
         then Some (map (\<lambda>(j, e). (last j, e = EDir)) (filter (\<lambda>(j, e). j \<noteq> [] \<and> butlast j = k) t))
         else None)
     | _ \<Rightarrow> None)"

text \<open>The queries, in the form the path functions take them.\<close>

definition fs_of :: "key \<Rightarrow> tree \<Rightarrow> file_system" where
  "fs_of cwd t = \<lparr>fs_canonicalize = canonical_path cwd t, fs_exists = path_exists cwd t,
     fs_read = read_to_string cwd t, fs_read_dir = list_dir cwd t\<rparr>"

section \<open>Operations that change the tree\<close>

text \<open>
  The tree with a count of the operations tried. At each, \<open>faults\<close> may give an error from outside
  and how much of a text had been written by then.
\<close>

type_synonym disk = "tree \<times> nat"
type_synonym faults = "nat \<Rightarrow> (string \<times> nat option) option"

text \<open>The entry a path names, with links followed in all components but the last.\<close>

definition locate :: "key \<Rightarrow> tree \<Rightarrow> string \<Rightarrow> string + key" where
  "locate cwd t p =
     (let cs = os_components p
      in if cs = [] then Inl not_found
         else if last cs = ''/'' \<or> last cs = ''.'' \<or> last cs = ''..'' then Inl is_a_directory
         else (case resolve t link_limit cwd (butlast cs) of
             Found k \<Rightarrow> (if look t k = Some EDir then Inr (k @ [last cs]) else Inl not_a_directory)
           | Missing k \<Rightarrow> Inl not_found
           | Broken e \<Rightarrow> Inl e))"

definition change :: "faults \<Rightarrow> (tree \<Rightarrow> string + tree) \<Rightarrow> disk \<Rightarrow> string option \<times> disk" where
  "change F f d = (case F (snd d) of
       Some (err, _) \<Rightarrow> (Some err, (fst d, Suc (snd d)))
     | None \<Rightarrow> (case f (fst d) of
         Inl err \<Rightarrow> (Some err, (fst d, Suc (snd d)))
       | Inr t \<Rightarrow> (None, (t, Suc (snd d)))))"

definition mkdir_tree :: "key \<Rightarrow> string \<Rightarrow> tree \<Rightarrow> string + tree" where
  "mkdir_tree cwd p t = (case locate cwd t p of
       Inl e \<Rightarrow> Inl e
     | Inr k \<Rightarrow> (case look t k of None \<Rightarrow> Inr (put k EDir t) | Some _ \<Rightarrow> Inl file_exists))"

definition remove_tree :: "key \<Rightarrow> string \<Rightarrow> tree \<Rightarrow> string + tree" where
  "remove_tree cwd p t = (case locate cwd t p of
       Inl e \<Rightarrow> Inl e
     | Inr k \<Rightarrow> (case look t k of None \<Rightarrow> Inl not_found | Some EDir \<Rightarrow> Inl is_a_directory
         | Some _ \<Rightarrow> Inr (del k t)))"

definition rename_tree :: "key \<Rightarrow> string \<Rightarrow> string \<Rightarrow> tree \<Rightarrow> string + tree" where
  "rename_tree cwd p q t = (case locate cwd t p of
       Inl e \<Rightarrow> Inl e
     | Inr k \<Rightarrow> (case locate cwd t q of
         Inl e \<Rightarrow> Inl e
       | Inr l \<Rightarrow> (case look t k of
           None \<Rightarrow> Inl not_found
         | Some EDir \<Rightarrow> Inl not_a_directory
         | Some e \<Rightarrow> (if look t l = Some EDir then Inl is_a_directory
             else if k = l then Inr t else Inr (put l e (del k t))))))"

definition write_tree :: "key \<Rightarrow> string \<Rightarrow> string \<Rightarrow> tree \<Rightarrow> string + tree" where
  "write_tree cwd p content t = (case place_of cwd t p of
       Found k \<Rightarrow> (if look t k = Some EDir then Inl is_a_directory else Inr (put k (EFile content) t))
     | Missing k \<Rightarrow> Inr (put k (EFile content) t)
     | Broken e \<Rightarrow> Inl e)"

definition mkdir :: "faults \<Rightarrow> key \<Rightarrow> string \<Rightarrow> disk \<Rightarrow> string option \<times> disk" where
  "mkdir F cwd p = change F (mkdir_tree cwd p)"

definition remove_file :: "faults \<Rightarrow> key \<Rightarrow> string \<Rightarrow> disk \<Rightarrow> string option \<times> disk" where
  "remove_file F cwd p = change F (remove_tree cwd p)"

text \<open>\<open>rename\<close> of a file; the tools rename nothing else.\<close>

definition rename_file :: "faults \<Rightarrow> key \<Rightarrow> string \<Rightarrow> string \<Rightarrow> disk \<Rightarrow> string option \<times> disk" where
  "rename_file F cwd p q = change F (rename_tree cwd p q)"

text \<open>A write that fails half way leaves the part written so far.\<close>

definition write_file :: "faults \<Rightarrow> key \<Rightarrow> string \<Rightarrow> string \<Rightarrow> disk \<Rightarrow> string option \<times> disk" where
  "write_file F cwd p content d = (case F (snd d) of
       Some (err, Some n) \<Rightarrow>
         (Some err, ((case write_tree cwd p (take n content) (fst d) of Inl e \<Rightarrow> fst d | Inr t \<Rightarrow> t), Suc (snd d)))
     | _ \<Rightarrow> change F (write_tree cwd p content) d)"

text \<open>\<open>create_dir_all\<close>, over the components of the path.\<close>

function create_dirs :: "faults \<Rightarrow> key \<Rightarrow> string list \<Rightarrow> disk \<Rightarrow> string option \<times> disk" where
  "create_dirs F cwd cs d =
     (let p = render_components cs
      in if cs = [] then (None, d)
         else (case mkdir F cwd p d of
             (None, d1) \<Rightarrow> (None, d1)
           | (Some err, d1) \<Rightarrow>
               if err \<noteq> not_found then
                 (if path_is_dir cwd (fst d1) p then (None, d1) else (Some err, d1))
               else if last cs = ''/'' then (Some err, d1)
               else (case create_dirs F cwd (butlast cs) d1 of
                   (Some err2, d2) \<Rightarrow> (Some err2, d2)
                 | (None, d2) \<Rightarrow>
                     (case mkdir F cwd p d2 of
                        (None, d3) \<Rightarrow> (None, d3)
                      | (Some err3, d3) \<Rightarrow>
                          (if path_is_dir cwd (fst d3) p then (None, d3) else (Some err3, d3))))))"
  by pat_completeness auto
termination by (relation "measure (\<lambda>(F, cwd, cs, d). length cs)") auto

declare create_dirs.simps [simp del]

definition create_dir_all :: "faults \<Rightarrow> key \<Rightarrow> string \<Rightarrow> disk \<Rightarrow> string option \<times> disk" where
  "create_dir_all F cwd p = create_dirs F cwd (path_components p)"

section \<open>Trees and resolution\<close>

lemma wf_parent: "tree_wf t \<Longrightarrow> look t k = Some e \<Longrightarrow> look t (butlast k) = Some EDir"
  by (auto simp: tree_wf_def)

lemma wf_names: "tree_wf t \<Longrightarrow> look t k = Some e \<Longrightarrow> list_all name_ok k"
  by (auto simp: tree_wf_def)

lemma wf_prefix:
  assumes "tree_wf t" "look t (p @ q) = Some e" "q \<noteq> []"
  shows "look t p = Some EDir"
  using assms(2,3)
proof (induction q arbitrary: e rule: rev_induct)
  case (snoc c q)
  from wf_parent [OF assms(1) snoc.prems(1)] have "look t (p @ q) = Some EDir"
    by (simp add: butlast_append)
  with snoc.IH show ?case by (cases "q = []") auto
qed simp

lemma wf_below_none:
  assumes "tree_wf t" "look t p = None"
  shows "look t (p @ q) = None"
  using wf_prefix [OF assms(1), of p q] assms(2)
  by (cases "q = []"; cases "look t (p @ q)") auto

lemma name_ok_simps [simp]:
  "\<not> name_ok []" "\<not> name_ok ''.''" "\<not> name_ok ''..''" "\<not> name_ok ''/''"
  by (simp_all add: name_ok_def)

lemma resolve_special [simp]:
  "resolve t n acc (''/'' # cs) = resolve t n [] cs"
  "resolve t n acc (''.'' # cs) = resolve t n acc cs"
  "resolve t n acc (''..'' # cs) = resolve t n (butlast acc) cs"
  by simp_all

text \<open>A component that is a name, and the entries that are files.\<close>

definition ordinary :: "string \<Rightarrow> bool" where
  "ordinary c \<longleftrightarrow> c \<noteq> ''/'' \<and> c \<noteq> ''.'' \<and> c \<noteq> ''..''"

fun is_file :: "entry \<Rightarrow> bool" where
  "is_file (EFile s) = True"
| "is_file EBlob = True"
| "is_file _ = False"

lemma name_ok_ordinary: "name_ok c \<Longrightarrow> ordinary c"
  by (auto simp: name_ok_def ordinary_def)

lemma resolve_none [simp]:
  "ordinary c \<Longrightarrow> look t (acc @ [c]) = None \<Longrightarrow>
     resolve t n acc (c # cs) = (if cs = [] then Missing (acc @ [c]) else Broken not_found)"
  by (simp add: ordinary_def)

lemma resolve_dir [simp]:
  "ordinary c \<Longrightarrow> look t (acc @ [c]) = Some EDir \<Longrightarrow> resolve t n acc (c # cs) = resolve t n (acc @ [c]) cs"
  by (simp add: ordinary_def)

lemma resolve_link [simp]:
  "ordinary c \<Longrightarrow> look t (acc @ [c]) = Some (ELink target) \<Longrightarrow>
     resolve t n acc (c # cs) =
       (if n = 0 then Broken too_many_links else resolve t (n - 1) acc (path_components target @ cs))"
  by (simp add: ordinary_def)

lemma resolve_file [simp]:
  "ordinary c \<Longrightarrow> look t (acc @ [c]) = Some e \<Longrightarrow> is_file e \<Longrightarrow>
     resolve t n acc (c # cs) = (if cs = [] then Found (acc @ [c]) else Broken not_a_directory)"
  by (cases e) (simp_all add: ordinary_def)

declare resolve.simps(2) [simp del]

text \<open>A path leads to a directory or a file, never to a link, and a free name lies in a directory.\<close>

definition is_link :: "entry option \<Rightarrow> bool" where
  "is_link r \<longleftrightarrow> (\<exists>target. r = Some (ELink target))"

lemma is_link_simps [simp]:
  "is_link (Some (ELink s))" "\<not> is_link None" "\<not> is_link (Some EDir)" "\<not> is_link (Some (EFile s))"
  "\<not> is_link (Some EBlob)"
  by (simp_all add: is_link_def)

lemma resolve_induct [case_names Nil root dot up none dir link plain]:
  fixes P :: "nat \<Rightarrow> key \<Rightarrow> string list \<Rightarrow> bool"
  assumes nil: "\<And>n acc. P n acc []"
    and root: "\<And>n acc cs. P n [] cs \<Longrightarrow> P n acc (''/'' # cs)"
    and dot: "\<And>n acc cs. P n acc cs \<Longrightarrow> P n acc (''.'' # cs)"
    and up: "\<And>n acc cs. P n (butlast acc) cs \<Longrightarrow> P n acc (''..'' # cs)"
    and none: "\<And>n acc c cs. ordinary c \<Longrightarrow> look t (acc @ [c]) = None \<Longrightarrow> P n acc (c # cs)"
    and dir: "\<And>n acc c cs. ordinary c \<Longrightarrow> look t (acc @ [c]) = Some EDir \<Longrightarrow> P n (acc @ [c]) cs \<Longrightarrow> P n acc (c # cs)"
    and link: "\<And>n acc c cs target. ordinary c \<Longrightarrow> look t (acc @ [c]) = Some (ELink target) \<Longrightarrow>
      (n \<noteq> 0 \<Longrightarrow> P (n - 1) acc (path_components target @ cs)) \<Longrightarrow> P n acc (c # cs)"
    and plain: "\<And>n acc c cs e. ordinary c \<Longrightarrow> look t (acc @ [c]) = Some e \<Longrightarrow> is_file e \<Longrightarrow> P n acc (c # cs)"
  shows "P n acc cs"
proof (induction n arbitrary: acc cs rule: less_induct)
  case (less n)
  have "P n acc cs" for acc cs
  proof (induction cs arbitrary: acc)
    case Nil
    show ?case by (rule nil)
  next
    case (Cons c cs)
    show ?case
    proof (cases "ordinary c")
      case c: True
      consider "look t (acc @ [c]) = None" | "look t (acc @ [c]) = Some EDir"
        | target where "look t (acc @ [c]) = Some (ELink target)"
        | e where "look t (acc @ [c]) = Some e" "is_file e"
        by (metis is_file.simps(1,2) entry.exhaust option.exhaust)
      then show ?thesis
      proof cases
        case 1
        with c show ?thesis by (rule none)
      next
        case 2
        from c 2 Cons show ?thesis by (rule dir)
      next
        case 3
        with c less show ?thesis by (intro link) auto
      next
        case 4
        with c show ?thesis by (intro plain)
      qed
    next
      case False
      with Cons show ?thesis by (auto simp: ordinary_def intro: root dot up)
    qed
  qed
  then show ?case .
qed

lemma up_dir: "tree_wf t \<Longrightarrow> look t acc = Some EDir \<Longrightarrow> look t (butlast acc) = Some EDir"
  by (rule wf_parent)

lemma is_file_not_link: "is_file e \<Longrightarrow> \<not> is_link (Some e)"
  by (cases e) simp_all

text \<open>A path leads to a directory or a file, and a free name lies in a directory.\<close>

lemma resolve_found:
  assumes "tree_wf t" "look t acc = Some EDir" "resolve t n acc cs = Found k"
  shows "look t k \<noteq> None \<and> \<not> is_link (look t k)"
  using assms(2,3)
proof (induction n acc cs taking: t rule: resolve_induct)
  case (plain n acc c cs e)
  then show ?case by (auto simp: is_file_not_link split: if_splits)
qed (use up_dir [OF assms(1)] in \<open>auto split: if_splits\<close>)

lemma resolve_missing:
  assumes "tree_wf t" "look t acc = Some EDir" "resolve t n acc cs = Missing k"
  shows "look t k = None \<and> look t (butlast k) = Some EDir"
  using assms(2,3)
proof (induction n acc cs taking: t rule: resolve_induct)
  case (plain n acc c cs e)
  then show ?case by (auto split: if_splits)
qed (use up_dir [OF assms(1)] in \<open>auto split: if_splits\<close>)

text \<open>Resolution of a path that goes on behind a directory.\<close>

lemma resolve_append:
  assumes "resolve t n acc cs = Found k" "look t k = Some EDir" "look t acc = Some EDir" "tree_wf t"
  shows "\<exists>m \<le> n. \<forall>ds. resolve t n acc (cs @ ds) = resolve t m k ds"
  using assms(1,2,3)
proof (induction n acc cs taking: t rule: resolve_induct)
  case (link n acc c cs target)
  then have "\<exists>m \<le> n - 1. \<forall>ds. resolve t (n - 1) acc (path_components target @ cs @ ds) = resolve t m k ds"
    by (auto split: if_splits)
  then obtain m where "m \<le> n" "\<forall>ds. resolve t (n - 1) acc (path_components target @ cs @ ds) = resolve t m k ds"
    by (meson diff_le_self le_trans)
  with link show ?case by (auto split: if_splits)
next
  case (plain n acc c cs e)
  then show ?case by (cases e) (auto split: if_splits)
qed (use up_dir [OF assms(4)] in \<open>auto split: if_splits\<close>)

lemma resolve_prefix:
  assumes "resolve t n acc (cs @ ds) = r" "\<forall>e. r \<noteq> Broken e" "ds \<noteq> []" "look t acc = Some EDir" "tree_wf t"
  shows "\<exists>m l. m \<le> n \<and> resolve t n acc cs = Found l \<and> look t l = Some EDir \<and> resolve t m l ds = r"
  using assms(1,4)
proof (induction n acc cs taking: t rule: resolve_induct)
  case (none n acc c cs)
  with assms(2,3) show ?case by (auto split: if_splits)
next
  case (link n acc c cs target)
  have n: "n \<noteq> 0" using link(1,2,4) assms(2) by (auto split: if_splits)
  then have "resolve t (n - 1) acc ((path_components target @ cs) @ ds) = r" using link(1,2,4) by simp
  from link(3) [OF n this link(5)] obtain m l where "m \<le> n - 1"
      "resolve t (n - 1) acc (path_components target @ cs) = Found l"
      "look t l = Some EDir" "resolve t m l ds = r"
    by blast
  with link(1,2) n show ?case by (metis append_Cons diff_le_self le_trans resolve_link)
next
  case (plain n acc c cs e)
  with assms(2,3) show ?case by (auto split: if_splits)
qed (use up_dir [OF assms(5)] in \<open>auto split: if_splits\<close>)

text \<open>A walk over names none of which is a link goes straight.\<close>

lemma resolve_straight:
  assumes "list_all ordinary cs" "\<And>q r. cs = q @ r \<Longrightarrow> q \<noteq> [] \<Longrightarrow> \<not> is_link (look t (acc @ q))"
  shows "resolve t n acc cs = Found (acc @ cs) \<or> resolve t n acc cs = Missing (acc @ cs) \<or>
    (\<exists>e. resolve t n acc cs = Broken e)"
  using assms
proof (induction cs arbitrary: acc)
  case (Cons c cs)
  have link: "\<not> is_link (look t (acc @ [c]))" using Cons.prems(2) [of "[c]" cs] by simp
  consider "look t (acc @ [c]) = None" | "look t (acc @ [c]) = Some EDir"
    | e where "look t (acc @ [c]) = Some e" "is_file e"
    using link by (metis is_file.simps(1,2) is_link_simps(1) entry.exhaust option.exhaust)
  then show ?case
  proof cases
    case 2
    have "\<not> is_link (look t ((acc @ [c]) @ q))" if "cs = q @ r" "q \<noteq> []" for q r
      using Cons.prems(2) [of "c # q" r] that by simp
    with Cons.IH [of "acc @ [c]"] Cons.prems(1) 2 show ?thesis by simp
  qed (use Cons.prems(1) in auto)
qed simp

section \<open>Canonical paths\<close>

lemma split_on_join:
  "ws \<noteq> [] \<Longrightarrow> (\<And>w. w \<in> set ws \<Longrightarrow> c \<notin> set w) \<Longrightarrow> split_on c (join [c] ws) = ws"
proof (induction ws)
  case (Cons w ws)
  show ?case
  proof (cases ws)
    case Nil
    with Cons.prems show ?thesis by (simp add: split_on_no_sep)
  next
    case (Cons v vs)
    with Cons.prems Cons.IH show ?thesis by (simp add: split_on_append_sep)
  qed
qed simp

lemma names_no_slash: "list_all name_ok k \<Longrightarrow> c \<in> set k \<Longrightarrow> CHR ''/'' \<notin> set c"
  by (auto simp: list_all_iff name_ok_def)

lemma names_filter: "list_all name_ok k \<Longrightarrow> filter (\<lambda>c. c \<noteq> [] \<and> c \<noteq> ''.'') k = k"
  by (induction k) (auto simp: name_ok_def)

lemma split_render_key:
  assumes "list_all name_ok k"
  shows "split_on CHR ''/'' (render_key k) = [] # (if k = [] then [[]] else k)"
  using assms by (simp add: render_key_def split_on_join names_no_slash)

lemma path_components_render_key [simp]: "list_all name_ok k \<Longrightarrow> path_components (render_key k) = ''/'' # k"
  by (simp add: path_components_def split_render_key names_filter Let_def)
    (simp add: render_key_def starts_with_def)

lemma render_key_absolute [simp]: "is_absolute (render_key k)"
  by (simp add: is_absolute_def render_key_def starts_with_def)

lemma resolve_dot_tail:
  "resolve t n acc (cs @ [''.'']) = Found k \<Longrightarrow> resolve t n acc cs = Found k"
proof (induction n acc cs taking: t rule: resolve_induct)
  case (none n acc c cs)
  then show ?case by (auto split: if_splits)
next
  case (link n acc c cs target)
  then show ?case by (auto split: if_splits)
next
  case (plain n acc c cs e)
  then show ?case by (auto split: if_splits)
qed simp_all

lemma resolve_key:
  assumes "tree_wf t" "look t (acc @ k) = Some e" "\<not> is_link (Some e)" "list_all name_ok k"
  shows "resolve t n acc k = Found (acc @ k)"
  using assms(2,4)
proof (induction k arbitrary: acc)
  case (Cons c k)
  then have c: "ordinary c" by (simp add: name_ok_ordinary)
  show ?case
  proof (cases "k = []")
    case True
    with Cons c assms(3) show ?thesis by (cases e) auto
  next
    case False
    with Cons assms(1) have "look t (acc @ [c]) = Some EDir"
      using wf_prefix [of t "acc @ [c]" k e] by simp
    with Cons c show ?thesis by simp
  qed
qed simp

lemma place_of_key:
  assumes "tree_wf t" "look t k = Some e" "\<not> is_link (Some e)"
  shows "place_of cwd t (render_key k) = Found k"
proof -
  have names: "list_all name_ok k" using assms(1,2) by (rule wf_names)
  have r: "resolve t link_limit [] k = Found k"
    using resolve_key [of t "[]" k e] assms names by simp
  show ?thesis
  proof (cases "k = []")
    case True
    then show ?thesis by (simp add: place_of_def os_components_def render_key_def path_components_def
        starts_with_def)
  next
    case False
    then have "name_ok (last k)" using names by (simp add: list_all_iff)
    then have "last (split_on CHR ''/'' (render_key k)) \<notin> {[], ''.''}"
      using False names by (auto simp: split_render_key)
    with r names show ?thesis
      by (simp add: place_of_def os_components_def) (simp add: render_key_def)
  qed
qed

section \<open>Trees that differ in files\<close>

text \<open>Directories and links stay, no link appears, and a directory appears only at a free name.\<close>

definition keeps_entry :: "entry option \<Rightarrow> entry option \<Rightarrow> bool" where
  "keeps_entry old new \<longleftrightarrow> (old = Some EDir \<longrightarrow> new = Some EDir) \<and>
     (\<forall>s. old = Some (ELink s) \<longleftrightarrow> new = Some (ELink s)) \<and>
     (new = Some EDir \<longrightarrow> old = Some EDir \<or> old = None)"

definition keeps_dirs :: "tree \<Rightarrow> tree \<Rightarrow> bool" where
  "keeps_dirs t t' \<longleftrightarrow> tree_wf t' \<and> (\<forall>k. keeps_entry (look t k) (look t' k))"

lemma keeps_dirs_refl: "tree_wf t \<Longrightarrow> keeps_dirs t t"
  by (simp add: keeps_dirs_def keeps_entry_def)

lemma keeps_entryD: "keeps_dirs t t' \<Longrightarrow> keeps_entry (look t k) (look t' k)"
  by (simp add: keeps_dirs_def)

lemma keeps_dir: "keeps_dirs t t' \<Longrightarrow> look t k = Some EDir \<Longrightarrow> look t' k = Some EDir"
  by (drule keeps_entryD [of _ _ k]) (simp add: keeps_entry_def)

lemma keeps_link: "keeps_dirs t t' \<Longrightarrow> look t k = Some (ELink s) \<Longrightarrow> look t' k = Some (ELink s)"
  by (drule keeps_entryD [of _ _ k]) (auto simp: keeps_entry_def)

lemma keeps_file:
  assumes "keeps_dirs t t'" "look t k = Some e" "is_file e"
  shows "look t' k = None \<or> (\<exists>e'. look t' k = Some e' \<and> is_file e')"
proof -
  have entry: "keeps_entry (Some e) (look t' k)" using keeps_entryD [OF assms(1), of k] assms(2) by simp
  show ?thesis
  proof (cases "look t' k")
    case (Some e')
    with entry assms(3) show ?thesis by (cases e'; cases e) (auto simp: keeps_entry_def)
  qed simp
qed

lemma resolve_dir_stable:
  assumes "resolve t n acc cs = Found k" "look t k = Some EDir" "keeps_dirs t t'"
  shows "resolve t' n acc cs = Found k"
  using assms(1,2)
proof (induction n acc cs taking: t rule: resolve_induct)
  case (dir n acc c cs)
  then show ?case using keeps_dir [OF assms(3)] by simp
next
  case (link n acc c cs target)
  then show ?case using keeps_link [OF assms(3)] by (simp split: if_splits)
next
  case (plain n acc c cs e)
  then show ?case by (cases e) (simp_all split: if_splits)
qed (simp_all split: if_splits)

lemma resolve_file_stable:
  assumes "resolve t n acc cs = Found k" "look t acc = Some EDir" "look t k = Some e" "is_file e"
    and "keeps_dirs t t'" "tree_wf t"
  shows "resolve t' n acc cs \<in> {Found k, Missing k} \<and> (ds \<noteq> [] \<longrightarrow> (\<exists>err. resolve t' n acc (cs @ ds) = Broken err))"
  using assms(1-3)
proof (induction n acc cs taking: t rule: resolve_induct)
  case (dir n acc c cs)
  then show ?case using keeps_dir [OF assms(5)] by simp
next
  case (up n acc cs)
  then show ?case using up_dir [OF assms(6)] by simp
next
  case (link n acc c cs target)
  then show ?case using keeps_link [OF assms(5)] by (simp split: if_splits)
next
  case (plain n acc c cs e')
  then show ?case using keeps_file [OF assms(5), of "acc @ [c]" e'] by (auto split: if_splits)
qed (use assms(4) in \<open>auto split: if_splits\<close>)

end
