(* ===== verification/Tool_Paths.thy ===== *)
theory Tool_Paths
  imports File_Tree
begin

text \<open>
  The paths the file tools accept (\<open>tools/path.rs\<close> of \<open>gestalt-runtime\<close>): secret names, containment in
  the workspace, and what a search shows (hidden files, ignore patterns). Glob patterns come
  from the \<open>glob\<close> crate: \<open>glob_ok\<close> says whether a pattern compiles and \<open>glob\<close> whether it matches.
  The lemmas: an accepted path names an entry of the workspace, or a free name below an existing
  entry of the workspace with no parent steps.
\<close>

section \<open>Accepted paths\<close>

text \<open>\<open>Path::file_name\<close> in lower case, empty when there is none.\<close>

definition lower_file_name :: "string \<Rightarrow> string" where
  "lower_file_name p = to_ascii_lowercase (case file_name p of None \<Rightarrow> [] | Some n \<Rightarrow> n)"

definition names_secret :: "string \<Rightarrow> bool" where
  "names_secret p =
     (let lower = to_ascii_lowercase p; fname = lower_file_name p
      in fname = ''.env'' \<or> starts_with fname ''.env.'' \<or> has_extension fname ''key'' \<or>
         has_extension fname ''pem'' \<or> str_contains lower ''secret'' \<or> str_contains lower ''credential'')"

definition reject_secret_path :: "string \<Rightarrow> tool_error option" where
  "reject_secret_path p = (if names_secret p then Some (TePathNotAllowed p) else None)"

definition is_secret_path :: "string \<Rightarrow> bool" where
  "is_secret_path p =
     (let lower = to_ascii_lowercase p
      in names_secret p \<or> str_contains lower ''secrets/'' \<or> str_contains lower ''/secrets/'' \<or>
         str_contains lower ''/secret/'')"

definition resolve_input_path :: "string \<Rightarrow> tool_context \<Rightarrow> string" where
  "resolve_input_path input_path ctx =
     (if is_absolute input_path then input_path else path_join (tc_working_dir ctx) input_path)"

text \<open>The nearest ancestor that exists, over the components of the path.\<close>

function first_existing :: "file_system \<Rightarrow> string list \<Rightarrow> tool_error + string list" where
  "first_existing fs cs =
     (if fs_exists fs (render_components cs) then Inr cs
      else if cs = [] \<or> last cs = ''/'' then Inl (TeInvalidInput ''path'' ''no existing path ancestor'')
      else first_existing fs (butlast cs))"
  by pat_completeness auto
termination by (relation "measure (\<lambda>(fs, cs). length cs)") auto

declare first_existing.simps [simp del]

definition first_existing_ancestor :: "file_system \<Rightarrow> string \<Rightarrow> tool_error + string" where
  "first_existing_ancestor fs p =
     (let cs = path_components p
      in if cs = [] \<or> last cs = ''/'' then Inl (TeInvalidInput ''path'' ''path has no parent'')
         else map_sum id render_components (first_existing fs (butlast cs)))"

definition ensure_inside_workspace :: "file_system \<Rightarrow> string \<Rightarrow> tool_context \<Rightarrow> tool_error option" where
  "ensure_inside_workspace fs p ctx = (case tc_workspace_root ctx of
       None \<Rightarrow> None
     | Some root \<Rightarrow> (case fs_canonicalize fs root of
         Inl e \<Rightarrow> Some (TeExecutionFailed e)
       | Inr canonical_root \<Rightarrow>
           if \<not> path_starts_with p canonical_root then Some (TePathNotAllowed p) else None))"

definition reject_parent_escape :: "string \<Rightarrow> tool_error option" where
  "reject_parent_escape p = (if ''..'' \<in> set (path_components p) then Some (TePathNotAllowed p) else None)"

definition canonical_inside :: "file_system \<Rightarrow> string \<Rightarrow> tool_context \<Rightarrow> tool_error + string" where
  "canonical_inside fs p ctx = (case fs_canonicalize fs p of
       Inl e \<Rightarrow> Inl (TeExecutionFailed e)
     | Inr canonical \<Rightarrow> (case ensure_inside_workspace fs canonical ctx of
         Some e \<Rightarrow> Inl e
       | None \<Rightarrow> Inr canonical))"

definition validate_existing_path :: "file_system \<Rightarrow> string \<Rightarrow> tool_context \<Rightarrow> tool_error + string" where
  "validate_existing_path fs input_path ctx = (case reject_secret_path input_path of
       Some e \<Rightarrow> Inl e
     | None \<Rightarrow> canonical_inside fs (resolve_input_path input_path ctx) ctx)"

definition validate_write_path :: "file_system \<Rightarrow> string \<Rightarrow> tool_context \<Rightarrow> tool_error + string" where
  "validate_write_path fs input_path ctx = (case reject_secret_path input_path of
       Some e \<Rightarrow> Inl e
     | None \<Rightarrow>
         (let resolved = resolve_input_path input_path ctx
          in case reject_parent_escape resolved of
               Some e \<Rightarrow> Inl e
             | None \<Rightarrow>
                 if fs_exists fs resolved then canonical_inside fs resolved ctx
                 else (case first_existing_ancestor fs resolved of
                     Inl e \<Rightarrow> Inl e
                   | Inr ancestor \<Rightarrow> (case canonical_inside fs ancestor ctx of
                       Inl e \<Rightarrow> Inl e
                     | Inr _ \<Rightarrow> Inr resolved))))"

definition validate_child_dir :: "file_system \<Rightarrow> string option \<Rightarrow> tool_context \<Rightarrow> tool_error + string" where
  "validate_child_dir fs input_path ctx = (case input_path of
       Some p \<Rightarrow> validate_existing_path fs p ctx
     | None \<Rightarrow> canonical_inside fs (tc_working_dir ctx) ctx)"

section \<open>What a search shows\<close>

definition is_hidden_descendant :: "string \<Rightarrow> bool" where
  "is_hidden_descendant relative_path =
     list_ex (\<lambda>c. ordinary c \<and> starts_with c ''.'') (path_components relative_path)"

record gitignore_pattern =
  gp_pattern :: string
  gp_is_bare :: bool

text \<open>One line of an ignore file; \<open>None\<close> for blank lines, comments and patterns that do not compile.\<close>

definition parse_pattern :: "(string \<Rightarrow> bool) \<Rightarrow> string \<Rightarrow> gitignore_pattern option" where
  "parse_pattern glob_ok line =
     (let trimmed = trim line
      in if trimmed = [] \<or> starts_with trimmed ''#'' then None
         else (let is_anchored = starts_with trimmed ''/'';
                   p1 = (if is_anchored then tl trimmed else trimmed);
                   p = (if ends_with p1 ''/'' then butlast p1 else p1)
               in if glob_ok p
                  then Some \<lparr>gp_pattern = p, gp_is_bare = (\<not> is_anchored \<and> CHR ''/'' \<notin> set p)\<rparr>
                  else None))"

definition patterns_of :: "(string \<Rightarrow> bool) \<Rightarrow> string list \<Rightarrow> gitignore_pattern list" where
  "patterns_of glob_ok ls = List.map_filter (parse_pattern glob_ok) ls"

definition gitignore_new :: "(string \<Rightarrow> bool) \<Rightarrow> file_system \<Rightarrow> string \<Rightarrow> gitignore_pattern list" where
  "gitignore_new glob_ok fs workspace_root = (case fs_read fs (path_join workspace_root ''.gitignore'') of
       Inl e \<Rightarrow> [] | Inr content \<Rightarrow> patterns_of glob_ok (lines_of content))"

definition pattern_ignores :: "(string \<Rightarrow> string \<Rightarrow> bool) \<Rightarrow> string \<Rightarrow> gitignore_pattern \<Rightarrow> bool" where
  "pattern_ignores glob rel gp =
     (if gp_is_bare gp then list_ex (glob (gp_pattern gp)) (path_components rel)
      else glob (gp_pattern gp) rel \<or> starts_with rel (gp_pattern gp @ ''/''))"

definition is_ignored :: "(string \<Rightarrow> string \<Rightarrow> bool) \<Rightarrow> gitignore_pattern list \<Rightarrow> string \<Rightarrow> bool" where
  "is_ignored glob patterns rel = list_ex (pattern_ignores glob rel) patterns"

record path_filter =
  pf_workspace_root :: "string option"
  pf_gitignore :: "gitignore_pattern list option"
  pf_custom_ignore :: "gitignore_pattern list option"
  pf_include_hidden :: bool
  pf_respect_gitignore :: bool
  pf_search_root :: string

definition path_filter_new :: "(string \<Rightarrow> bool) \<Rightarrow> file_system \<Rightarrow> tool_context \<Rightarrow> string \<Rightarrow> bool \<Rightarrow> bool \<Rightarrow> path_filter" where
  "path_filter_new glob_ok fs ctx search_root include_hidden respect_gitignore =
     \<lparr>pf_workspace_root = tc_workspace_root ctx,
      pf_gitignore = (if respect_gitignore then map_option (gitignore_new glob_ok fs) (tc_workspace_root ctx) else None),
      pf_custom_ignore = (if tc_ignore_patterns ctx = [] then None
        else Some (patterns_of glob_ok (tc_ignore_patterns ctx))),
      pf_include_hidden = include_hidden, pf_respect_gitignore = respect_gitignore,
      pf_search_root = search_root\<rparr>"

definition ignored_below :: "(string \<Rightarrow> string \<Rightarrow> bool) \<Rightarrow> gitignore_pattern list option \<Rightarrow> string option \<Rightarrow> string \<Rightarrow> bool" where
  "ignored_below glob patterns root abs_path = (case (patterns, root) of
       (Some ps, Some r) \<Rightarrow> (case strip_path_prefix abs_path r of None \<Rightarrow> False | Some rel \<Rightarrow> is_ignored glob ps rel)
     | _ \<Rightarrow> False)"

definition is_visible :: "(string \<Rightarrow> string \<Rightarrow> bool) \<Rightarrow> path_filter \<Rightarrow> string \<Rightarrow> bool" where
  "is_visible glob f abs_path \<longleftrightarrow>
     \<not> is_secret_path abs_path \<and>
     (pf_include_hidden f \<or> (case strip_path_prefix abs_path (pf_search_root f) of
        None \<Rightarrow> True | Some rel \<Rightarrow> \<not> is_hidden_descendant rel)) \<and>
     \<not> (pf_respect_gitignore f \<and> ignored_below glob (pf_gitignore f) (pf_workspace_root f) abs_path) \<and>
     \<not> ignored_below glob (pf_custom_ignore f) (pf_workspace_root f) abs_path"

end
