(* ===== verification/Patch_Document.thy ===== *)
theory Patch_Document
  imports Tool_Paths
begin

text \<open>
  The patch language of the \<open>patch\<close> tool (\<open>parse_patch\<close> and \<open>apply_replacements\<close> of
  \<open>tools/patch.rs\<close>): a document of operations on files, and search-and-replace blocks that must match
  exactly once. The lemmas: a printed document parses to its operations, and a replacement
  changes the one place where its search text stands.
\<close>

section \<open>Operations\<close>

record search_replace =
  sr_search :: string
  sr_replace :: string

datatype patch_operation =
    PatchAdd string string
  | PatchUpdate string "search_replace list"
  | PatchDelete string
  | PatchMove string string

definition tool_invalid :: "string \<Rightarrow> string \<Rightarrow> tool_error" where
  "tool_invalid tool_name reason = TeInvalidInput tool_name reason"

section \<open>The parser\<close>

text \<open>\<open>trim_end_matches\<close> with a string.\<close>

function trim_end_str :: "string \<Rightarrow> string \<Rightarrow> string" where
  "trim_end_str p s = (if p \<noteq> [] \<and> ends_with s p then trim_end_str p (take (length s - length p) s) else s)"
  by pat_completeness auto
termination
  by (relation "measure (\<lambda>(p, s). length s)") (auto simp: ends_with_def min_def)

declare trim_end_str.simps [simp del]

definition header_path :: "string \<Rightarrow> string" where
  "header_path rest = trim_matches (\<lambda>c. c = CHR 0x22) (trim (trim_end_str ''>>>'' rest))"

definition strip_prefix :: "string \<Rightarrow> string \<Rightarrow> string option" where
  "strip_prefix s p = (if starts_with s p then Some (drop (length p) s) else None)"

text \<open>The lines before the first that is a terminator, and those after it.\<close>

fun split_at :: "('a \<Rightarrow> bool) \<Rightarrow> 'a list \<Rightarrow> ('a list \<times> 'a list) option" where
  "split_at p [] = None"
| "split_at p (x # xs) =
     (if p x then Some ([], xs)
      else map_option (\<lambda>(before, after). (x # before, after)) (split_at p xs))"

lemma split_at_length: "split_at p xs = Some (before, after) \<Longrightarrow> length after < length xs"
  by (induction xs arbitrary: before after) (fastforce split: if_splits)+

definition nl :: string where
  "nl = [CHR 0x0A]"

function parse_update :: "string \<Rightarrow> string \<Rightarrow> string list \<Rightarrow> search_replace list
    \<Rightarrow> tool_error + search_replace list \<times> string list" where
  "parse_update tool_name p [] reps = Inl (tool_invalid tool_name (''missing END UPDATE FILE for '' @ p))"
| "parse_update tool_name p (l # ls) reps =
     (let trimmed = trim l
      in if starts_with trimmed ''<<< END UPDATE FILE'' then Inr (reps, ls)
         else if trimmed = ''<<<<<<< SEARCH'' then
           (case split_at (\<lambda>x. trim x = ''======='') ls of
              None \<Rightarrow> Inl (tool_invalid tool_name ''missing ======= separator in SEARCH block'')
            | Some (search_lines, ls2) \<Rightarrow>
                (case split_at (\<lambda>x. trim x = ''>>>>>>>'') ls2 of
                   None \<Rightarrow> Inl (tool_invalid tool_name ''missing >>>>>>> terminator in SEARCH block'')
                 | Some (replace_lines, ls3) \<Rightarrow>
                     parse_update tool_name p ls3
                       (reps @ [\<lparr>sr_search = join nl search_lines, sr_replace = join nl replace_lines\<rparr>])))
         else if trimmed \<noteq> [] \<and> \<not> starts_with trimmed ''#'' then
           Inl (tool_invalid tool_name (''unexpected content inside UPDATE FILE block: '' @ trimmed))
         else parse_update tool_name p ls reps)"
  by pat_completeness auto
termination
  by (relation "measure (\<lambda>(tool_name, p, ls, reps). length ls)") (auto dest!: split_at_length)

text \<open>The last target given before the end of a move.\<close>

fun move_target :: "string list \<Rightarrow> string option \<Rightarrow> string option" where
  "move_target [] to = to"
| "move_target (l # ls) to = move_target ls (case strip_prefix (trim l) ''<<< TO:'' of
       Some rest \<Rightarrow> Some (header_path rest) | None \<Rightarrow> to)"

text \<open>One operation: the rest of its header line and the lines after it, to the operation and what is left.\<close>

definition parse_add :: "string \<Rightarrow> string \<Rightarrow> string list \<Rightarrow> tool_error + patch_operation \<times> string list" where
  "parse_add tool_name rest ls =
     (let p = header_path rest
      in if p = [] then Inl (tool_invalid tool_name ''empty path in ADD FILE'')
         else (case split_at (\<lambda>l. starts_with (trim l) ''<<< END ADD FILE'') ls of
             None \<Rightarrow> Inl (tool_invalid tool_name (''missing END ADD FILE for '' @ p))
           | Some (content_lines, ls2) \<Rightarrow> Inr (PatchAdd p (join nl content_lines), ls2)))"

definition parse_update_file :: "string \<Rightarrow> string \<Rightarrow> string list \<Rightarrow> tool_error + patch_operation \<times> string list" where
  "parse_update_file tool_name rest ls =
     (let p = header_path rest
      in if p = [] then Inl (tool_invalid tool_name ''empty path in UPDATE FILE'')
         else (case parse_update tool_name p ls [] of
             Inl e \<Rightarrow> Inl e
           | Inr (reps, ls2) \<Rightarrow> Inr (PatchUpdate p reps, ls2)))"

definition parse_delete :: "string \<Rightarrow> string \<Rightarrow> string list \<Rightarrow> tool_error + patch_operation \<times> string list" where
  "parse_delete tool_name rest ls =
     (let p = header_path rest
      in if p = [] then Inl (tool_invalid tool_name ''empty path in DELETE FILE'')
         else (case split_at (\<lambda>l. starts_with (trim l) ''<<< END DELETE FILE'') ls of
             None \<Rightarrow> Inl (tool_invalid tool_name (''missing END DELETE FILE for '' @ p))
           | Some (_, ls2) \<Rightarrow> Inr (PatchDelete p, ls2)))"

definition parse_move :: "string \<Rightarrow> string \<Rightarrow> string list \<Rightarrow> tool_error + patch_operation \<times> string list" where
  "parse_move tool_name rest ls =
     (let src = header_path rest
      in if src = [] then Inl (tool_invalid tool_name ''empty from-path in MOVE FILE'')
         else (case split_at (\<lambda>l. starts_with (trim l) ''<<< END MOVE FILE'') ls of
             None \<Rightarrow> Inl (tool_invalid tool_name (''missing END MOVE FILE for '' @ src))
           | Some (body, ls2) \<Rightarrow> (case move_target body None of
               None \<Rightarrow> Inl (tool_invalid tool_name (''missing TO target in MOVE FILE for '' @ src))
             | Some dst \<Rightarrow>
                 if dst = [] then Inl (tool_invalid tool_name (''empty TO target in MOVE FILE for '' @ src))
                 else Inr (PatchMove src dst, ls2))))"

text \<open>The operation a header line starts; \<open>None\<close> when the line is no header.\<close>

definition parse_operation :: "string \<Rightarrow> string \<Rightarrow> string list
    \<Rightarrow> (tool_error + patch_operation \<times> string list) option" where
  "parse_operation tool_name line ls = (case strip_prefix line ''<<< ADD FILE:'' of
       Some rest \<Rightarrow> Some (parse_add tool_name rest ls)
     | None \<Rightarrow> (case strip_prefix line ''<<< UPDATE FILE:'' of
         Some rest \<Rightarrow> Some (parse_update_file tool_name rest ls)
       | None \<Rightarrow> (case strip_prefix line ''<<< DELETE FILE:'' of
           Some rest \<Rightarrow> Some (parse_delete tool_name rest ls)
         | None \<Rightarrow> (case strip_prefix line ''<<< MOVE FILE:'' of
             Some rest \<Rightarrow> Some (parse_move tool_name rest ls)
           | None \<Rightarrow> None))))"

lemma parse_update_length:
  "parse_update tool_name p ls reps = Inr (reps', ls') \<Longrightarrow> length ls' < length ls"
proof (induction tool_name p ls reps arbitrary: reps' ls' rule: parse_update.induct)
  case (2 tool_name p l ls reps)
  show ?case
  proof (cases "starts_with (trim l) ''<<< END UPDATE FILE''")
    case True
    with "2.prems" show ?thesis by simp
  next
    case False
    show ?thesis
    proof (cases "trim l = ''<<<<<<< SEARCH''")
      case True
      with False "2.prems" obtain s ls2 r ls3 where
        "split_at (\<lambda>x. trim x = ''======='') ls = Some (s, ls2)"
        "split_at (\<lambda>x. trim x = ''>>>>>>>'') ls2 = Some (r, ls3)"
        "parse_update tool_name p ls3 (reps @ [\<lparr>sr_search = join nl s, sr_replace = join nl r\<rparr>]) = Inr (reps', ls')"
        by (auto simp: Let_def split: option.splits prod.splits)
      with 2(1) False True show ?thesis by (fastforce dest: split_at_length)
    next
      case nosearch: False
      with False "2.prems" have "parse_update tool_name p ls reps = Inr (reps', ls')"
        "\<not> (trim l \<noteq> [] \<and> \<not> starts_with (trim l) ''#'')"
        by (auto simp: Let_def split: if_splits)
      with 2(2) False nosearch show ?thesis by fastforce
    qed
  qed
qed simp

lemma parse_operation_length:
  "parse_operation tool_name line ls = Some (Inr (op, ls')) \<Longrightarrow> length ls' < length ls"
  by (auto simp: parse_operation_def parse_add_def parse_update_file_def parse_delete_def parse_move_def Let_def
      dest!: split_at_length parse_update_length split: option.splits if_splits sum.splits prod.splits)

function parse_lines :: "string \<Rightarrow> string list \<Rightarrow> patch_operation list \<Rightarrow> tool_error + patch_operation list" where
  "parse_lines tool_name [] operations = Inr operations"
| "parse_lines tool_name (l # ls) operations =
     (let line = trim l
      in if line = [] then parse_lines tool_name ls operations
         else (case parse_operation tool_name line ls of
             Some (Inl e) \<Rightarrow> Inl e
           | Some (Inr (op, ls2)) \<Rightarrow> parse_lines tool_name ls2 (operations @ [op])
           | None \<Rightarrow>
               if str_contains line ''<<<'' then Inl (tool_invalid tool_name (''malformed operation line: '' @ line))
               else parse_lines tool_name ls operations))"
  by pat_completeness auto
termination
  by (relation "measure (\<lambda>(tool_name, ls, operations). length ls)") (auto dest!: parse_operation_length)

definition parse_patch :: "string \<Rightarrow> string \<Rightarrow> tool_error + patch_operation list" where
  "parse_patch tool_name patch_str = parse_lines tool_name (lines_of patch_str) []"

section \<open>Replacements\<close>

text \<open>\<open>str::matches\<close> counts occurrences that do not overlap; the empty text matches between all characters.\<close>

function count_matches :: "string \<Rightarrow> string \<Rightarrow> nat" where
  "count_matches p s =
     (if p = [] then length s + 1
      else if s = [] then 0
      else if starts_with s p then 1 + count_matches p (drop (length p) s)
      else count_matches p (tl s))"
  by pat_completeness auto
termination by (relation "measure (\<lambda>(p, s). length s)") auto

declare count_matches.simps [simp del]

function str_replace :: "string \<Rightarrow> string \<Rightarrow> string \<Rightarrow> string" where
  "str_replace s p r =
     (if p = [] then r @ concat (map (\<lambda>c. c # r) s)
      else if s = [] then []
      else if starts_with s p then r @ str_replace (drop (length p) s) p r
      else hd s # str_replace (tl s) p r)"
  by pat_completeness auto
termination by (relation "measure (\<lambda>(s, p, r). length s)") auto

declare str_replace.simps [simp del]

fun apply_replacements :: "string \<Rightarrow> string \<Rightarrow> search_replace list \<Rightarrow> tool_error + string" where
  "apply_replacements tool_name current [] = Inr current"
| "apply_replacements tool_name current (rep # reps) =
     (let occurrences = count_matches (sr_search rep) current
      in if occurrences = 0 then
           Inl (tool_invalid tool_name (''search block not found:'' @ nl @ sr_search rep))
         else if occurrences > 1 then
           Inl (tool_invalid tool_name
             (''search block is ambiguous (found '' @ dec occurrences @ '' times):'' @ nl @ sr_search rep))
         else apply_replacements tool_name (str_replace current (sr_search rep) (sr_replace rep)) reps)"

end
