(* ===== verification/Patch_Tool.thy ===== *)
theory Patch_Tool
  imports Patch_Document
begin

text \<open>
  The tools that write files: \<open>patch\<close> (\<open>tools/patch.rs\<close>) and \<open>write\<close> (\<open>tools/write.rs\<close>, with the helpers
  of \<open>tools/common.rs\<close>). Both validate against the tree as it is and then change it through a
  temporary file and a rename; \<open>patch\<close> first plans all its writes and deletions, stages every write,
  and only then deletes and renames. The hash maps of the code are lists of entries with one entry
  per path; their iteration order is a parameter.
\<close>

section \<open>What the tools are given\<close>

text \<open>The process and the libraries: working directory, faults, clock, hash, the order in which a hash
  map lists its entries, printing of JSON, and the text of a decoding error.\<close>

record file_env =
  te_cwd :: key
  te_faults :: faults
  te_nanos :: "nat \<Rightarrow> nat"
  te_sha256 :: "string \<Rightarrow> string"
  te_write_order :: "(string \<times> string \<times> string) list \<Rightarrow> (string \<times> string \<times> string) list"
  te_delete_order :: "string list \<Rightarrow> string list"
  te_print :: "json \<Rightarrow> string"
  te_decode_error :: "json \<Rightarrow> string"

definition check_expected_hash :: "(string \<Rightarrow> string) \<Rightarrow> string \<Rightarrow> string \<Rightarrow> string option \<Rightarrow> tool_error option" where
  "check_expected_hash sha256 tool_name current_content expected_hash = (case expected_hash of
       None \<Rightarrow> None
     | Some expected \<Rightarrow>
         (let actual = sha256 current_content
          in if actual \<noteq> expected then Some (tool_invalid tool_name
               (''conflict: expected_hash mismatch (expected: '' @ expected @ '', actual: '' @ actual @ '')''))
             else None))"

definition temp_of :: "string \<Rightarrow> nat \<Rightarrow> string" where
  "temp_of name nanos = ''.'' @ name @ ''.'' @ dec nanos @ ''.tmp''"

definition temp_name :: "string \<Rightarrow> nat \<Rightarrow> string" where
  "temp_name p nanos = temp_of (case file_name p of None \<Rightarrow> ''temp'' | Some n \<Rightarrow> n) nanos"

definition no_parent :: string where
  "no_parent = ''path has no parent''"

section \<open>Planning a patch\<close>

record patch_input =
  pin_path :: string
  pin_patch :: string
  pin_expected_hash :: "string option"
  pin_dry_run :: bool

definition patch_input_of :: "json \<Rightarrow> patch_input option" where
  "patch_input_of j =
     Option.bind (get_field as_str ''path'' j) (\<lambda>p.
     Option.bind (get_field as_str ''patch'' j) (\<lambda>patch.
     Option.bind (get_field_or None (nullable as_str) ''expected_hash'' j) (\<lambda>hash.
     Option.bind (get_field_or False as_bool ''dry_run'' j) (\<lambda>dry_run.
       Some \<lparr>pin_path = p, pin_patch = patch, pin_expected_hash = hash, pin_dry_run = dry_run\<rparr>))))"

text \<open>The proposed changes: writes with the path as given and the content, and deletions.\<close>

record patch_plan =
  pp_writes :: "(string \<times> string \<times> string) list"
  pp_deletes :: "(string \<times> string) list"

definition same_path :: "string \<Rightarrow> string \<Rightarrow> bool" where
  "same_path p q \<longleftrightarrow> path_components p = path_components q"

definition path_get :: "string \<Rightarrow> (string \<times> 'a) list \<Rightarrow> 'a option" where
  "path_get p m = map_option snd (find_first (\<lambda>kv. same_path (fst kv) p) m)"

definition path_remove :: "string \<Rightarrow> (string \<times> 'a) list \<Rightarrow> (string \<times> 'a) list" where
  "path_remove p m = filter (\<lambda>kv. \<not> same_path (fst kv) p) m"

definition path_insert :: "string \<Rightarrow> 'a \<Rightarrow> (string \<times> 'a) list \<Rightarrow> (string \<times> 'a) list" where
  "path_insert p v m =
     (if path_get p m = None then m @ [(p, v)]
      else map (\<lambda>kv. if same_path (fst kv) p then (fst kv, v) else kv) m)"

definition patch_name :: string where
  "patch_name = ''patch''"

text \<open>A file that is there and that the patch has not deleted, or that the patch has written.\<close>

definition taken :: "file_system \<Rightarrow> patch_plan \<Rightarrow> string \<Rightarrow> bool" where
  "taken fs pl p \<longleftrightarrow>
     (fs_exists fs p \<and> path_get p (pp_deletes pl) = None) \<or> path_get p (pp_writes pl) \<noteq> None"

definition plan_add :: "file_system \<Rightarrow> tool_context \<Rightarrow> string \<Rightarrow> string \<Rightarrow> patch_plan \<Rightarrow> tool_error + patch_plan" where
  "plan_add fs ctx p content pl = (case validate_write_path fs p ctx of
       Inl e \<Rightarrow> Inl e
     | Inr target \<Rightarrow>
         if taken fs pl target then Inl (tool_invalid patch_name (''destination file already exists: '' @ p))
         else Inr (pl\<lparr>pp_writes := path_insert target (p, content) (pp_writes pl)\<rparr>))"

text \<open>The content an operation starts from: what the patch has written so far, or the file.\<close>

definition planned_content :: "file_system \<Rightarrow> string \<Rightarrow> string \<Rightarrow> patch_plan \<Rightarrow> tool_error + string" where
  "planned_content fs missing target pl = (case path_get target (pp_writes pl) of
       Some (_, content) \<Rightarrow> Inr content
     | None \<Rightarrow>
         if \<not> fs_exists fs target then Inl (tool_invalid patch_name missing)
         else (case fs_read fs target of Inl e \<Rightarrow> Inl (TeExecutionFailed e) | Inr content \<Rightarrow> Inr content))"

definition plan_update :: "file_system \<Rightarrow> tool_context \<Rightarrow> string \<Rightarrow> search_replace list \<Rightarrow> patch_plan
    \<Rightarrow> tool_error + patch_plan" where
  "plan_update fs ctx p replacements pl = (case validate_write_path fs p ctx of
       Inl e \<Rightarrow> Inl e
     | Inr target \<Rightarrow>
         if path_get target (pp_deletes pl) \<noteq> None then
           Inl (tool_invalid patch_name (''cannot update deleted path: '' @ p))
         else (case planned_content fs (''cannot update non-existent file: '' @ p) target pl of
             Inl e \<Rightarrow> Inl e
           | Inr current \<Rightarrow> (case apply_replacements patch_name current replacements of
               Inl e \<Rightarrow> Inl e
             | Inr new_content \<Rightarrow> Inr (pl\<lparr>pp_writes := path_insert target (p, new_content) (pp_writes pl)\<rparr>))))"

definition plan_delete :: "file_system \<Rightarrow> tool_context \<Rightarrow> string \<Rightarrow> patch_plan \<Rightarrow> tool_error + patch_plan" where
  "plan_delete fs ctx p pl = (case validate_write_path fs p ctx of
       Inl e \<Rightarrow> Inl e
     | Inr target \<Rightarrow>
         if path_get target (pp_deletes pl) \<noteq> None then
           Inl (tool_invalid patch_name (''cannot delete already deleted path: '' @ p))
         else if path_get target (pp_writes pl) = None \<and> \<not> fs_exists fs target then
           Inl (tool_invalid patch_name (''cannot delete non-existent file: '' @ p))
         else Inr (pl\<lparr>pp_writes := path_remove target (pp_writes pl),
                      pp_deletes := path_insert target p (pp_deletes pl)\<rparr>))"

definition plan_move :: "file_system \<Rightarrow> tool_context \<Rightarrow> string \<Rightarrow> string \<Rightarrow> patch_plan \<Rightarrow> tool_error + patch_plan" where
  "plan_move fs ctx src dst pl = (case validate_write_path fs src ctx of
       Inl e \<Rightarrow> Inl e
     | Inr abs_from \<Rightarrow> (case validate_write_path fs dst ctx of
         Inl e \<Rightarrow> Inl e
       | Inr abs_to \<Rightarrow>
           if taken fs pl abs_to then Inl (tool_invalid patch_name (''destination file already exists: '' @ dst))
           else if path_get abs_from (pp_deletes pl) \<noteq> None then
             Inl (tool_invalid patch_name (''cannot move deleted path: '' @ src))
           else (case planned_content fs (''source file does not exist: '' @ src) abs_from pl of
               Inl e \<Rightarrow> Inl e
             | Inr content \<Rightarrow> Inr (pl\<lparr>pp_writes := path_insert abs_to (dst, content)
                                        (path_remove abs_from (pp_writes pl)),
                                      pp_deletes := path_insert abs_from src (pp_deletes pl)\<rparr>))))"

definition plan_operation :: "file_system \<Rightarrow> tool_context \<Rightarrow> patch_operation \<Rightarrow> patch_plan \<Rightarrow> tool_error + patch_plan" where
  "plan_operation fs ctx op pl = (case op of
       PatchAdd p content \<Rightarrow> plan_add fs ctx p content pl
     | PatchUpdate p replacements \<Rightarrow> plan_update fs ctx p replacements pl
     | PatchDelete p \<Rightarrow> plan_delete fs ctx p pl
     | PatchMove src dst \<Rightarrow> plan_move fs ctx src dst pl)"

fun plan_operations :: "file_system \<Rightarrow> tool_context \<Rightarrow> patch_operation list \<Rightarrow> patch_plan \<Rightarrow> tool_error + patch_plan" where
  "plan_operations fs ctx [] pl = Inr pl"
| "plan_operations fs ctx (op # ops) pl = (case plan_operation fs ctx op pl of
       Inl e \<Rightarrow> Inl e | Inr pl2 \<Rightarrow> plan_operations fs ctx ops pl2)"

definition empty_plan :: patch_plan where
  "empty_plan = \<lparr>pp_writes = [], pp_deletes = []\<rparr>"

section \<open>Applying a plan\<close>

text \<open>The temporary files that have been written, with the path each is for.\<close>

definition temp_path_of :: "file_env \<Rightarrow> string \<Rightarrow> string \<Rightarrow> nat \<Rightarrow> string" where
  "temp_path_of E parent p tick = path_join parent (temp_name p (te_nanos E tick))"

definition ensure_parent :: "file_env \<Rightarrow> string \<Rightarrow> disk \<Rightarrow> string option \<times> disk" where
  "ensure_parent E parent d =
     (if path_exists (te_cwd E) (fst d) parent then (None, d)
      else create_dir_all (te_faults E) (te_cwd E) parent d)"

fun stage_writes :: "file_env \<Rightarrow> (string \<times> string \<times> string) list \<Rightarrow> (string \<times> string) list \<Rightarrow> disk
    \<Rightarrow> (tool_error option \<times> (string \<times> string) list) \<times> disk" where
  "stage_writes E [] temps d = ((None, temps), d)"
| "stage_writes E ((target, _, content) # ws) temps d = (case path_parent target of
       None \<Rightarrow> ((Some (TeExecutionFailed no_parent), temps), d)
     | Some parent \<Rightarrow> (case ensure_parent E parent d of
         (Some err, d1) \<Rightarrow> ((Some (TeExecutionFailed err), temps), d1)
       | (None, d1) \<Rightarrow>
           (let temp = temp_path_of E parent target (snd d1)
            in case write_file (te_faults E) (te_cwd E) temp content d1 of
                 (Some err, d2) \<Rightarrow> ((Some (TeExecutionFailed err), temps), d2)
               | (None, d2) \<Rightarrow> stage_writes E ws (temps @ [(temp, target)]) d2)))"

text \<open>Dropping \<open>TempCleanup\<close>: the staged files are removed, errors ignored.\<close>

fun cleanup :: "file_env \<Rightarrow> (string \<times> string) list \<Rightarrow> disk \<Rightarrow> disk" where
  "cleanup E [] d = d"
| "cleanup E ((temp, _) # temps) d = cleanup E temps (snd (remove_file (te_faults E) (te_cwd E) temp d))"

fun process_deletes :: "file_env \<Rightarrow> string list \<Rightarrow> disk \<Rightarrow> string option \<times> disk" where
  "process_deletes E [] d = (None, d)"
| "process_deletes E (p # ps) d =
     (if path_exists (te_cwd E) (fst d) p then
        (case remove_file (te_faults E) (te_cwd E) p d of
           (Some err, d1) \<Rightarrow> (Some err, d1) | (None, d1) \<Rightarrow> process_deletes E ps d1)
      else process_deletes E ps d)"

fun process_renames :: "file_env \<Rightarrow> (string \<times> string) list \<Rightarrow> disk \<Rightarrow> string option \<times> disk" where
  "process_renames E [] d = (None, d)"
| "process_renames E ((temp, p) # temps) d = (case rename_file (te_faults E) (te_cwd E) temp p d of
       (Some err, d1) \<Rightarrow> (Some err, d1) | (None, d1) \<Rightarrow> process_renames E temps d1)"

definition apply_plan :: "file_env \<Rightarrow> patch_plan \<Rightarrow> disk \<Rightarrow> tool_error option \<times> disk" where
  "apply_plan E pl d = (case stage_writes E (te_write_order E (pp_writes pl)) [] d of
       ((Some e, temps), d1) \<Rightarrow> (Some e, cleanup E temps d1)
     | ((None, temps), d1) \<Rightarrow> (case process_deletes E (te_delete_order E (map fst (pp_deletes pl))) d1 of
         (Some err, d2) \<Rightarrow> (Some (TeExecutionFailed err), d2)
       | (None, d2) \<Rightarrow> (case process_renames E temps d2 of
           (Some err, d3) \<Rightarrow> (Some (TeExecutionFailed err), d3)
         | (None, d3) \<Rightarrow> (None, d3))))"

definition operation_json :: "patch_operation \<Rightarrow> json" where
  "operation_json op = (case op of
       PatchAdd p c \<Rightarrow> VObject [(''op'', VString ''add''), (''path'', VString p)]
     | PatchUpdate p r \<Rightarrow> VObject [(''op'', VString ''update''), (''path'', VString p)]
     | PatchDelete p \<Rightarrow> VObject [(''op'', VString ''delete''), (''path'', VString p)]
     | PatchMove src dst \<Rightarrow> VObject [(''from'', VString src), (''op'', VString ''move''), (''to'', VString dst)])"

definition patch_output :: "file_env \<Rightarrow> patch_input \<Rightarrow> patch_operation list \<Rightarrow> tool_output" where
  "patch_output E input ops = OutText (te_print E (VObject
     [(''dry_run'', VBool (pin_dry_run input)), (''operations'', VArray (map operation_json ops)),
      (''patch_applied'', VBool (\<not> pin_dry_run input)), (''path'', VString (pin_path input))]))"

text \<open>The check of the primary file's hash.\<close>

definition check_primary :: "file_env \<Rightarrow> file_system \<Rightarrow> tool_context \<Rightarrow> patch_input \<Rightarrow> tool_error option" where
  "check_primary E fs ctx input = (case pin_expected_hash input of
       None \<Rightarrow> None
     | Some expected \<Rightarrow> (case validate_existing_path fs (pin_path input) ctx of
         Inl e \<Rightarrow> Some e
       | Inr primary \<Rightarrow> (case fs_read fs primary of
           Inl e \<Rightarrow> Some (TeExecutionFailed e)
         | Inr content \<Rightarrow> check_expected_hash (te_sha256 E) patch_name content (Some expected))))"

definition plan_patch :: "file_env \<Rightarrow> file_system \<Rightarrow> tool_context \<Rightarrow> patch_input
    \<Rightarrow> tool_error + patch_operation list \<times> patch_plan" where
  "plan_patch E fs ctx input = (case parse_patch patch_name (pin_patch input) of
       Inl e \<Rightarrow> Inl e
     | Inr operations \<Rightarrow>
         if operations = [] then Inl (tool_invalid patch_name ''patch document contains no valid operations'')
         else (case check_primary E fs ctx input of
             Some e \<Rightarrow> Inl e
           | None \<Rightarrow> (case plan_operations fs ctx operations empty_plan of
               Inl e \<Rightarrow> Inl e
             | Inr pl \<Rightarrow> Inr (operations, pl))))"

definition execute_patch :: "file_env \<Rightarrow> json \<Rightarrow> tool_context \<Rightarrow> disk \<Rightarrow> (tool_error + tool_output) \<times> disk" where
  "execute_patch E j ctx d = (case patch_input_of j of
       None \<Rightarrow> (Inl (tool_invalid patch_name (te_decode_error E j)), d)
     | Some input \<Rightarrow> (case plan_patch E (fs_of (te_cwd E) (fst d)) ctx input of
         Inl e \<Rightarrow> (Inl e, d)
       | Inr (operations, pl) \<Rightarrow>
           if pin_dry_run input then (Inr (patch_output E input operations), d)
           else (case apply_plan E pl d of
               (Some e, d1) \<Rightarrow> (Inl e, d1)
             | (None, d1) \<Rightarrow> (Inr (patch_output E input operations), d1))))"

section \<open>The write tool\<close>

record write_input =
  win_path :: string
  win_content :: string
  win_show_diff :: bool
  win_create_dirs :: bool
  win_expected_hash :: "string option"
  win_dry_run :: bool

definition write_input_of :: "json \<Rightarrow> write_input option" where
  "write_input_of j =
     Option.bind (get_field as_str ''path'' j) (\<lambda>p.
     Option.bind (get_field as_str ''content'' j) (\<lambda>content.
     Option.bind (get_field_or True as_bool ''show_diff'' j) (\<lambda>show_diff.
     Option.bind (get_field_or True as_bool ''create_dirs'' j) (\<lambda>create_dirs.
     Option.bind (get_field_or None (nullable as_str) ''expected_hash'' j) (\<lambda>hash.
     Option.bind (get_field_or False as_bool ''dry_run'' j) (\<lambda>dry_run.
       Some \<lparr>win_path = p, win_content = content, win_show_diff = show_diff, win_create_dirs = create_dirs,
         win_expected_hash = hash, win_dry_run = dry_run\<rparr>))))))"

definition write_name :: string where
  "write_name = ''write''"

text \<open>The preview of a change. \<open>raw_diff\<close> is the unified diff of the \<open>similar\<close> crate with the counts of
  added and removed lines.\<close>

fun preview :: "nat \<Rightarrow> string list \<Rightarrow> string \<Rightarrow> string \<times> bool" where
  "preview printed [] shown = (shown, False)"
| "preview printed (line # lines) shown =
     (if printed \<ge> 200 \<or> length (utf8_bytes shown) + length (utf8_bytes line) + 1 \<ge> 16384
      then (shown @ nl @ ''... [Diff truncated] ...'' @ nl, True)
      else preview (printed + 1) lines (shown @ line @ nl))"

definition make_diff :: "(string \<Rightarrow> string \<Rightarrow> string \<Rightarrow> string \<times> nat \<times> nat) \<Rightarrow> string \<Rightarrow> string \<Rightarrow> string
    \<Rightarrow> string \<times> bool \<times> nat \<times> nat" where
  "make_diff raw_diff p old new =
     (if old = new then ([], False, 0, 0)
      else (case raw_diff p old new of (text', added, removed) \<Rightarrow>
        (case preview 0 (lines_of text') [] of (shown, truncated) \<Rightarrow> (shown, truncated, added, removed))))"

definition atomic_write :: "file_env \<Rightarrow> string \<Rightarrow> string \<Rightarrow> disk \<Rightarrow> string option \<times> disk" where
  "atomic_write E p content d = (case path_parent p of
       None \<Rightarrow> (Some no_parent, d)
     | Some parent \<Rightarrow>
         (let temp = temp_path_of E parent p (snd d)
          in case write_file (te_faults E) (te_cwd E) temp content d of
               (Some err, d1) \<Rightarrow> (Some err, d1)
             | (None, d1) \<Rightarrow> (case rename_file (te_faults E) (te_cwd E) temp p d1 of
                 (Some err, d2) \<Rightarrow> (Some err, snd (remove_file (te_faults E) (te_cwd E) temp d2))
               | (None, d2) \<Rightarrow> (None, d2))))"

datatype write_status = Created | Unchanged | Updated

definition status_text :: "write_status \<Rightarrow> string" where
  "status_text s = (case s of Created \<Rightarrow> ''created'' | Unchanged \<Rightarrow> ''unchanged'' | Updated \<Rightarrow> ''updated'')"

text \<open>The content before the write, and what the write will do to it.\<close>

definition write_target :: "file_env \<Rightarrow> write_input \<Rightarrow> string \<Rightarrow> tree \<Rightarrow> tool_error + string \<times> write_status" where
  "write_target E input p t =
     (case (if path_exists (te_cwd E) t p then
              (case read_to_string (te_cwd E) t p of
                 Inl e \<Rightarrow> Inl (tool_invalid write_name ''existing file is not valid UTF-8 text'')
               | Inr s \<Rightarrow> Inr s)
            else Inr []) of
        Inl e \<Rightarrow> Inl e
      | Inr old \<Rightarrow> (case check_expected_hash (te_sha256 E) write_name old (win_expected_hash input) of
          Some e \<Rightarrow> Inl e
        | None \<Rightarrow> Inr (old, if \<not> path_exists (te_cwd E) t p then Created
            else if old = win_content input then Unchanged else Updated)))"

definition prepare_parent :: "file_env \<Rightarrow> write_input \<Rightarrow> string \<Rightarrow> disk \<Rightarrow> tool_error option \<times> disk" where
  "prepare_parent E input p d = (case path_parent p of
       None \<Rightarrow> (Some (tool_invalid write_name ''write path has no parent''), d)
     | Some parent \<Rightarrow>
         if path_exists (te_cwd E) (fst d) parent then (None, d)
         else if \<not> win_create_dirs input then
           (Some (tool_invalid write_name ''parent directory does not exist''), d)
         else if win_dry_run input then (None, d)
         else (case create_dir_all (te_faults E) (te_cwd E) parent d of
             (Some err, d1) \<Rightarrow> (Some (TeExecutionFailed err), d1) | (None, d1) \<Rightarrow> (None, d1)))"

definition write_output :: "file_env \<Rightarrow> (string \<Rightarrow> string \<Rightarrow> string \<Rightarrow> string \<times> nat \<times> nat) \<Rightarrow> write_input
    \<Rightarrow> string \<Rightarrow> write_status \<Rightarrow> tool_output" where
  "write_output E raw_diff input old status =
     (case make_diff raw_diff (win_path input) old (win_content input) of (diff, truncated, added, removed) \<Rightarrow>
        OutText (te_print E (VObject
          [(''bytes_written'', json_nat (if win_dry_run input \<or> status = Unchanged then 0
             else length (utf8_bytes (win_content input)))),
           (''diff'', VString (if win_show_diff input then diff else [])),
           (''diff_truncated'', VBool truncated), (''dry_run'', VBool (win_dry_run input)),
           (''lines_added'', json_nat added), (''lines_removed'', json_nat removed),
           (''path'', VString (win_path input)), (''status'', VString (status_text status))])))"

definition execute_write :: "file_env \<Rightarrow> (string \<Rightarrow> string \<Rightarrow> string \<Rightarrow> string \<times> nat \<times> nat) \<Rightarrow> json
    \<Rightarrow> tool_context \<Rightarrow> disk \<Rightarrow> (tool_error + tool_output) \<times> disk" where
  "execute_write E raw_diff j ctx d = (case write_input_of j of
       None \<Rightarrow> (Inl (tool_invalid write_name (te_decode_error E j)), d)
     | Some input \<Rightarrow> (case validate_write_path (fs_of (te_cwd E) (fst d)) (win_path input) ctx of
         Inl e \<Rightarrow> (Inl e, d)
       | Inr p \<Rightarrow> (case prepare_parent E input p d of
           (Some e, d1) \<Rightarrow> (Inl e, d1)
         | (None, d1) \<Rightarrow> (case write_target E input p (fst d1) of
             Inl e \<Rightarrow> (Inl e, d1)
           | Inr (old, status) \<Rightarrow>
               if win_dry_run input \<or> status = Unchanged then (Inr (write_output E raw_diff input old status), d1)
               else (case atomic_write E p (win_content input) d1 of
                   (Some err, d2) \<Rightarrow> (Inl (TeExecutionFailed err), d2)
                 | (None, d2) \<Rightarrow> (Inr (write_output E raw_diff input old status), d2))))))"

end
