(* ===== verification/Workspace_Safety.thy ===== *)
theory Workspace_Safety
  imports Patch_Tool
begin

text \<open>
  What the file tools may change: every path they accept leads into the workspace, in the tree as
  it was when the path was checked and in every tree the tool makes of it. The interface
  \<open>change_invariant\<close> states what a property of trees must satisfy to survive a write or a patch,
  whatever fails; containment in the workspace is its instance.
\<close>

section \<open>Components and texts\<close>

definition part_ok :: "string \<Rightarrow> bool" where
  "part_ok c \<longleftrightarrow> c \<noteq> [] \<and> c \<noteq> ''.'' \<and> CHR ''/'' \<notin> set c"

fun comps_ok :: "string list \<Rightarrow> bool" where
  "comps_ok [] = True"
| "comps_ok (c # cs) = ((c = ''/'' \<or> c = ''.'' \<or> part_ok c) \<and> list_all part_ok cs)"

lemma path_components_ok [simp]: "comps_ok (path_components p)"
proof -
  let ?names = "filter (\<lambda>c. c \<noteq> [] \<and> c \<noteq> ''.'') (split_on CHR ''/'' p)"
  have names: "list_all part_ok ?names"
    by (auto simp: list_all_iff part_ok_def dest: split_on_parts_no_sep)
  then have "comps_ok ?names" by (cases ?names) simp_all
  with names show ?thesis unfolding path_components_def Let_def by simp
qed

lemma comps_ok_prefix: "comps_ok (a @ b) \<Longrightarrow> comps_ok a"
  by (cases a) (simp_all add: list_all_append)

lemma comps_ok_tail: "comps_ok (a @ b) \<Longrightarrow> a \<noteq> [] \<Longrightarrow> list_all part_ok b"
  by (cases a) (simp_all add: list_all_append)

lemma comps_ok_snoc: "comps_ok cs \<Longrightarrow> part_ok c \<Longrightarrow> comps_ok (cs @ [c])"
  by (cases cs) (simp_all add: list_all_append)

lemma name_ok_iff: "name_ok c \<longleftrightarrow> part_ok c \<and> c \<noteq> ''..''"
  by (auto simp: name_ok_def part_ok_def)

lemma join_snoc: "xs \<noteq> [] \<Longrightarrow> join s (xs @ [x]) = join s xs @ s @ x"
proof (induction xs)
  case (Cons y ys)
  then show ?case by (cases ys) auto
qed simp

lemma filter_parts: "list_all part_ok cs \<Longrightarrow> filter (\<lambda>c. c \<noteq> [] \<and> c \<noteq> ''.'') cs = cs"
  by (induction cs) (simp_all add: part_ok_def)

lemma split_parts: "list_all part_ok cs \<Longrightarrow> cs \<noteq> [] \<Longrightarrow> split_on CHR ''/'' (join ''/'' cs) = cs"
  by (intro split_on_join) (auto simp: list_all_iff part_ok_def)

lemma parts_first: "part_ok c \<Longrightarrow> hd c \<noteq> CHR ''/''"
  by (cases c) (auto simp: part_ok_def)

lemma join_first: "part_ok c \<Longrightarrow> \<not> starts_with (join ''/'' (c # cs)) ''/''"
  by (cases c; cases cs) (auto simp: part_ok_def starts_with_def)

text \<open>The text of components has these components.\<close>

lemma render_components_simps:
  "render_components [] = []"
  "render_components (''/'' # cs) = ''/'' @ join ''/'' cs"
  "c \<noteq> ''/'' \<Longrightarrow> render_components (c # cs) = join ''/'' (c # cs)"
  by (simp_all add: render_components_def)

lemma part_no_slash: "part_ok c \<Longrightarrow> CHR ''/'' \<notin> set c"
  by (simp add: part_ok_def)

lemma split_render_root:
  "list_all part_ok cs \<Longrightarrow> split_on CHR ''/'' (render_components (''/'' # cs)) = [] # (if cs = [] then [[]] else cs)"
  by (simp add: render_components_simps(2) split_parts)

lemma split_render_plain:
  assumes "comps_ok (c # cs)" "c \<noteq> ''/''"
  shows "split_on CHR ''/'' (render_components (c # cs)) = c # cs"
proof -
  from assms have "CHR ''/'' \<notin> set c" by (elim disjE comps_ok.elims) (auto simp: part_no_slash)
  moreover have "CHR ''/'' \<notin> set w" if "w \<in> set cs" for w
    using assms(1) that by (simp add: list_all_iff part_no_slash)
  ultimately have "split_on CHR ''/'' (join ''/'' (c # cs)) = c # cs"
    by (intro split_on_join) auto
  then show ?thesis unfolding render_components_simps(3) [OF assms(2)] .
qed

lemma split_render:
  assumes "comps_ok cs" "cs \<noteq> []"
  shows "split_on CHR ''/'' (render_components cs) =
    (if hd cs = ''/'' then [] # (if tl cs = [] then [[]] else tl cs) else cs)"
proof -
  obtain c cs' where cs: "cs = c # cs'" using assms(2) by (cases cs) auto
  show ?thesis
  proof (cases "c = ''/''")
    case True
    with assms cs have "list_all part_ok cs'" by simp
    from split_render_root [OF this] True cs show ?thesis by (simp only: list.sel if_True simp_thms)
  next
    case False
    with split_render_plain [of c cs'] assms cs show ?thesis by (simp only: list.sel if_False simp_thms)
  qed
qed

lemma path_components_render [simp]:
  assumes "comps_ok cs"
  shows "path_components (render_components cs) = cs"
proof (cases cs)
  case Nil
  then show ?thesis by (simp add: render_components_simps path_components_def starts_with_def)
next
  case (Cons c cs')
  note split = split_render [OF assms, unfolded Cons]
  show ?thesis
  proof (cases "c = ''/''")
    case True
    with assms Cons split show ?thesis
      by (simp add: path_components_def filter_parts) (simp add: render_components_simps starts_with_def)
  next
    case False
    have no_root: "\<not> starts_with (render_components (c # cs')) ''/''"
    proof (cases "c = ''.''")
      case True
      then show ?thesis by (cases cs') (simp_all add: render_components_simps starts_with_def)
    next
      case nodot: False
      with assms Cons False show ?thesis by (simp add: render_components_simps join_first)
    qed
    show ?thesis
    proof (cases "c = ''.''")
      case True
      with assms Cons split no_root show ?thesis by (simp add: path_components_def filter_parts)
    next
      case nodot: False
      with assms Cons False have c: "part_ok c" by simp
      have "filter (\<lambda>c. c \<noteq> [] \<and> c \<noteq> ''.'') (c # cs') = c # cs'"
        using assms Cons c by (intro filter_parts) simp
      with split no_root nodot False Cons show ?thesis by (simp add: path_components_def)
    qed
  qed
qed

lemma render_nonempty: "comps_ok cs \<Longrightarrow> cs \<noteq> [] \<Longrightarrow> render_components cs \<noteq> []"
  using path_components_render by (fastforce simp: path_components_def starts_with_def)

lemma place_of_render:
  assumes "comps_ok cs" "cs \<noteq> []"
  shows "place_of cwd t (render_components cs) = resolve t link_limit cwd cs"
proof -
  let ?p = "render_components cs"
  have "last (split_on CHR ''/'' ?p) \<in> {[], ''.''} \<longleftrightarrow> cs = [''/''] \<or> cs = [''.'']"
  proof (cases cs)
    case (Cons c cs')
    show ?thesis
    proof (cases cs' rule: rev_cases)
      case Nil
      with Cons assms split_render [OF assms] show ?thesis by (auto simp: part_ok_def)
    next
      case (snoc xs x)
      with Cons assms have "part_ok x" by (simp add: list_all_append)
      with Cons snoc split_render [OF assms] show ?thesis by (auto simp: part_ok_def)
    qed
  qed (use assms in simp)
  with assms render_nonempty [OF assms] show ?thesis
    by (auto simp: place_of_def os_components_def)
qed

lemma ends_slash: "ends_with s ''/'' \<longleftrightarrow> s \<noteq> [] \<and> last s = CHR ''/''"
  by (cases s rule: rev_cases) (auto simp: ends_with_iff)

lemma last_join: "cs \<noteq> [] \<Longrightarrow> last cs \<noteq> [] \<Longrightarrow> last (join s cs) = last (last cs)"
proof (induction cs rule: rev_induct)
  case (snoc c cs)
  then show ?case by (cases "cs = []") (simp_all add: join_snoc)
qed simp

lemma part_no_end_slash: "part_ok c \<Longrightarrow> c \<noteq> [] \<and> last c \<noteq> CHR ''/''"
  by (auto simp: part_ok_def dest: last_in_set)

lemma join_no_end_slash:
  assumes "cs \<noteq> []" "part_ok (last cs) \<or> last cs = ''.''"
  shows "\<not> ends_with (join ''/'' cs) ''/''"
  using assms part_no_end_slash [of "last cs"] last_join [of cs "''/''"] by (auto simp: ends_slash)

lemma join_nonempty: "cs \<noteq> [] \<Longrightarrow> last cs \<noteq> [] \<Longrightarrow> join s cs \<noteq> []"
  by (cases cs rule: rev_cases; cases "butlast cs = []") (auto simp: join_snoc)

lemma path_join_render:
  assumes "comps_ok cs" "part_ok c"
  shows "path_join (render_components cs) c = render_components (cs @ [c])"
proof -
  have c: "\<not> starts_with c ''/''" "c \<noteq> ''/''" using parts_first [OF assms(2)] assms(2)
    by (cases c; auto simp: starts_with_def part_ok_def)+
  show ?thesis
  proof (cases cs)
    case Nil
    with c show ?thesis by (simp add: path_join_def render_components_simps)
  next
    case (Cons d cs')
    show ?thesis
    proof (cases "d = ''/''")
      case root: True
      show ?thesis
      proof (cases "cs' = []")
        case True
        with root Cons c show ?thesis by (simp add: path_join_def render_components_simps(2) ends_slash)
      next
        case False
        with assms Cons have "part_ok (last cs')" by (simp add: list_all_iff)
        with False have "\<not> ends_with (join ''/'' cs') ''/''" "join ''/'' cs' \<noteq> []"
          by (simp_all add: join_no_end_slash join_nonempty part_no_end_slash)
        with False root Cons c show ?thesis
          by (simp add: path_join_def render_components_simps(2) ends_slash join_snoc)
      qed
    next
      case False
      have "part_ok (last cs) \<or> last cs = ''.''" "last cs \<noteq> []"
        using assms(1) Cons False by (cases cs' rule: rev_cases; auto simp: list_all_append part_ok_def)+
      moreover have "cs \<noteq> []" using Cons by simp
      ultimately have "\<not> ends_with (join ''/'' cs) ''/''" "join ''/'' cs \<noteq> []"
        by (rule_tac [1] join_no_end_slash, rule_tac [3] join_nonempty)
      moreover have "render_components cs = join ''/'' cs" "render_components (cs @ [c]) = join ''/'' (cs @ [c])"
        using Cons False by (simp_all add: render_components_simps(3))
      ultimately show ?thesis using Cons c join_snoc [of cs "''/''" c] by (simp add: path_join_def)
    qed
  qed
qed

section \<open>Accepted paths lead into the workspace\<close>

text \<open>
  A path the tools accept: some of its components lead to an entry below the root \<open>R\<close> of the
  workspace, the others are names.
\<close>

definition accepted :: "key \<Rightarrow> tree \<Rightarrow> key \<Rightarrow> string \<Rightarrow> bool" where
  "accepted cwd t R p \<longleftrightarrow> (\<exists>a rest ka. path_components p = a @ rest \<and> a \<noteq> [] \<and>
     resolve t link_limit cwd a = Found ka \<and> prefix R ka \<and> list_all name_ok rest \<and>
     ''..'' \<notin> set a \<and> (rest = [] \<longrightarrow> p = render_key ka \<and> list_all name_ok ka))"

lemma canonical_path_Inr: "canonical_path cwd t p = Inr c \<longleftrightarrow> (\<exists>k. place_of cwd t p = Found k \<and> c = render_key k)"
  by (auto simp: canonical_path_def split: place.splits)

lemma place_of_found:
  assumes "tree_wf t" "look t cwd = Some EDir" "place_of cwd t p = Found k"
  shows "look t k \<noteq> None \<and> \<not> is_link (look t k)"
  using assms by (auto simp: place_of_def split: if_splits dest: resolve_found)

lemma found_key:
  assumes "tree_wf t" "look t cwd = Some EDir" "place_of cwd t p = Found k"
  shows "place_of cwd t (render_key k) = Found k" "list_all name_ok k"
proof -
  from place_of_found [OF assms] obtain e where e: "look t k = Some e" "\<not> is_link (Some e)" by auto
  show "place_of cwd t (render_key k) = Found k" using assms(1) e by (rule place_of_key)
  show "list_all name_ok k" using assms(1) e(1) by (rule wf_names)
qed

lemma starts_with_key:
  "list_all name_ok k \<Longrightarrow> list_all name_ok R \<Longrightarrow> path_starts_with (render_key k) (render_key R) \<longleftrightarrow> prefix R k"
  by (auto simp: path_starts_with_def Let_def prefix_def) (metis append_eq_conv_conj)+

lemma canonical_inside_Inr:
  assumes "tree_wf t" "look t cwd = Some EDir" "tc_workspace_root ctx = Some r" "place_of cwd t r = Found R"
    and "canonical_inside (fs_of cwd t) p ctx = Inr c"
  obtains k where "place_of cwd t p = Found k" "c = render_key k" "prefix R k"
proof -
  from assms(5) have "canonical_path cwd t p = Inr c" and inside: "ensure_inside_workspace (fs_of cwd t) c ctx = None"
    by (auto simp: canonical_inside_def fs_of_def split: sum.splits option.splits)
  then obtain k where k: "place_of cwd t p = Found k" "c = render_key k" by (auto simp: canonical_path_Inr)
  have "canonical_path cwd t r = Inr (render_key R)" using assms(4) by (auto simp: canonical_path_Inr)
  with inside assms(3) k(2) have "path_starts_with (render_key k) (render_key R)"
    by (auto simp: ensure_inside_workspace_def fs_of_def split: if_splits)
  with found_key(2) [OF assms(1,2) k(1)] found_key(2) [OF assms(1,2,4)] have "prefix R k"
    by (simp add: starts_with_key)
  with k that show thesis by blast
qed

lemma first_existing_Inr:
  "first_existing fs cs = Inr a \<Longrightarrow> fs_exists fs (render_components a) \<and> prefix a cs"
proof (induction fs cs rule: first_existing.induct)
  case (1 fs cs)
  show ?case
  proof (cases "fs_exists fs (render_components cs)")
    case True
    with "1.prems" show ?thesis by (subst (asm) first_existing.simps) simp
  next
    case False
    with "1.prems" have rec: "\<not> (cs = [] \<or> last cs = ''/'')" "first_existing fs (butlast cs) = Inr a"
      by (subst (asm) first_existing.simps, simp split: if_splits)+
    from "1.IH" [OF False this] show ?thesis
      by (metis prefix_order.trans prefixeq_butlast)
  qed
qed

lemma path_exists_iff: "fs_exists (fs_of cwd t) p \<longleftrightarrow> (\<exists>k. place_of cwd t p = Found k)"
  by (auto simp: fs_of_def path_exists_def split: place.splits)

lemma no_escape: "reject_parent_escape p = None \<longleftrightarrow> ''..'' \<notin> set (path_components p)"
  by (simp add: reject_parent_escape_def)

lemma validate_write_accepted:
  assumes "tree_wf t" "look t cwd = Some EDir" "tc_workspace_root ctx = Some r" "place_of cwd t r = Found R"
    and "validate_write_path (fs_of cwd t) p ctx = Inr q"
  shows "accepted cwd t R q"
proof -
  let ?p = "resolve_input_path p ctx"
  let ?cs = "path_components ?p"
  from assms(5) have parent: "''..'' \<notin> set ?cs"
    by (auto simp: validate_write_path_def Let_def no_escape [symmetric] split: option.splits)
  show ?thesis
  proof (cases "fs_exists (fs_of cwd t) ?p")
    case True
    with assms(5) have "canonical_inside (fs_of cwd t) ?p ctx = Inr q"
      by (auto simp: validate_write_path_def Let_def split: option.splits)
    with assms(1-4) obtain k where k: "place_of cwd t ?p = Found k" "q = render_key k" "prefix R k"
      by (rule canonical_inside_Inr)
    note key = found_key [OF assms(1,2) k(1)]
    have "path_components q = (''/'' # k) @ []" using k(2) key(2) by simp
    moreover have "resolve t link_limit cwd (''/'' # k) = Found k"
    proof -
      obtain e where "look t k = Some e" "\<not> is_link (Some e)" using place_of_found [OF assms(1,2) k(1)] by auto
      with resolve_key [of t "[]" k e] assms(1) key(2) show ?thesis by simp
    qed
    moreover have "''..'' \<notin> set (''/'' # k)" using key(2) by (auto simp: list_all_iff)
    ultimately show ?thesis unfolding accepted_def using k(2,3) key(2)
      by (intro exI [of _ "''/'' # k"] exI [of _ "[]"] exI [of _ k]) simp
  next
    case False
    with assms(5) obtain anc c where anc: "first_existing_ancestor (fs_of cwd t) ?p = Inr anc"
      "canonical_inside (fs_of cwd t) anc ctx = Inr c" "q = ?p"
      by (auto simp: validate_write_path_def Let_def split: option.splits sum.splits)
    then obtain a where a: "first_existing (fs_of cwd t) (butlast ?cs) = Inr a" "anc = render_components a"
      and cs: "?cs \<noteq> []"
      by (auto simp: first_existing_ancestor_def Let_def map_sum_def split: if_splits sum.splits)
    from anc(2) a(2) assms(1-4) obtain ka where ka: "place_of cwd t (render_components a) = Found ka" "prefix R ka"
      by (metis canonical_inside_Inr)
    have nonempty: "a \<noteq> []" using ka(1) by (auto simp: place_of_def render_components_simps)
    from first_existing_Inr [OF a(1)] have "prefix a (butlast ?cs)" ..
    then obtain rest where rest: "butlast ?cs = a @ rest" by (auto simp: prefix_def)
    then have split: "?cs = a @ (rest @ [last ?cs])" using cs by (metis append.assoc append_butlast_last_id)
    then have ok: "comps_ok a" "list_all part_ok (rest @ [last ?cs])"
      using comps_ok_prefix comps_ok_tail nonempty path_components_ok by (metis (no_types, lifting))+
    have "list_all name_ok (rest @ [last ?cs])" using ok(2) parent split
      by (auto simp: list_all_iff name_ok_iff) (metis Un_iff set_append)
    moreover have "resolve t link_limit cwd a = Found ka" using ka(1) place_of_render [OF ok(1) nonempty] by simp
    moreover have "''..'' \<notin> set a" using parent split by (metis Un_iff set_append)
    ultimately show ?thesis unfolding accepted_def anc(3) using split nonempty ka(2) by (metis snoc_eq_iff_butlast)
  qed
qed

section \<open>Trees that differ only in the workspace\<close>

text \<open>
  The places a tool may change: below the root, and the temporary file for the root itself, which
  stands next to it.
\<close>

definition owned :: "key \<Rightarrow> key \<Rightarrow> bool" where
  "owned R k \<longleftrightarrow> prefix R k \<or> (\<exists>n. k = butlast R @ [temp_of (last R) n])"

definition contained :: "tree \<Rightarrow> key \<Rightarrow> tree \<Rightarrow> bool" where
  "contained t R t' \<longleftrightarrow> keeps_dirs t t' \<and> (\<forall>k. \<not> owned R k \<longrightarrow> look t' k = look t k)"

definition staged :: "tree \<Rightarrow> key \<Rightarrow> tree \<Rightarrow> bool" where
  "staged t R t' \<longleftrightarrow> contained t R t' \<and> (\<forall>k. look t k \<noteq> None \<longrightarrow> look t' k \<noteq> None)"

text \<open>A tree whose workspace has no symbolic links and where the names of temporary files are free.\<close>

definition plain_workspace :: "tree \<Rightarrow> key \<Rightarrow> bool" where
  "plain_workspace t R \<longleftrightarrow> tree_wf t \<and> (\<forall>k. prefix R k \<longrightarrow> \<not> is_link (look t k)) \<and>
     (\<forall>n. look t (butlast R @ [temp_of (last R) n]) = None)"

lemma contained_refl: "tree_wf t \<Longrightarrow> contained t R t"
  by (simp add: contained_def keeps_dirs_refl)

lemma contained_wf: "contained t R t' \<Longrightarrow> tree_wf t'"
  by (simp add: contained_def keeps_dirs_def)

lemma contained_entry: "contained t R t' \<Longrightarrow> keeps_entry (look t k) (look t' k)"
  by (simp add: contained_def keeps_entryD)

lemma contained_links: "contained t R t' \<Longrightarrow> is_link (look t' k) \<Longrightarrow> is_link (look t k)"
  using contained_entry [of t R t' k] by (auto simp: is_link_def keeps_entry_def)

lemma contained_dir: "contained t R t' \<Longrightarrow> look t k = Some EDir \<Longrightarrow> look t' k = Some EDir"
  unfolding contained_def by (auto intro: keeps_dir)

lemma plain_owned:
  assumes "plain_workspace t R" "contained t R t'" "owned R k"
  shows "\<not> is_link (look t' k)"
  using assms contained_links [OF assms(2), of k] by (auto simp: owned_def plain_workspace_def)

lemma wf_put:
  assumes "tree_wf t" "k \<noteq> []" "look t (butlast k) = Some EDir" "list_all name_ok k" "look t k \<noteq> Some EDir"
  shows "tree_wf (put k e t)"
  unfolding tree_wf_def
proof (intro allI impI)
  fix j e'
  assume j: "look (put k e t) j = Some e'"
  have bk: "butlast k \<noteq> k" using assms(2) by (metis append_butlast_last_id not_Cons_self2 self_append_conv)
  show "list_all name_ok j \<and> look (put k e t) (butlast j) = Some EDir"
  proof (cases "j = k")
    case True
    with assms bk show ?thesis by simp
  next
    case False
    with j assms(2) have "look t j = Some e'" by simp
    with assms(1) have "list_all name_ok j" "look t (butlast j) = Some EDir" by (auto simp: tree_wf_def)
    with assms(2,5) show ?thesis by auto
  qed
qed

lemma wf_del:
  assumes "tree_wf t" "k \<noteq> []" "look t k \<noteq> Some EDir"
  shows "tree_wf (del k t)"
  unfolding tree_wf_def
proof (intro allI impI)
  fix j e'
  assume "look (del k t) j = Some e'"
  with assms(2) have j: "j \<noteq> k" "look t j = Some e'" by (auto split: if_splits)
  with assms(1) have "list_all name_ok j" "look t (butlast j) = Some EDir" by (auto simp: tree_wf_def)
  with assms(2,3) show "list_all name_ok j \<and> look (del k t) (butlast j) = Some EDir" by auto
qed

text \<open>A file written at a place of the workspace that is free or a file, a new directory, a file removed.\<close>

lemma contained_change:
  assumes "contained t R t'" "owned R k" "tree_wf t2" "look t2 = (look t')(k := r)"
    and "keeps_entry (look t k) r"
  shows "contained t R t2"
  using assms by (simp add: contained_def keeps_dirs_def)

lemma file_entry:
  assumes "contained t R t'" "look t' k = None \<or> (\<exists>e'. look t' k = Some e' \<and> is_file e')"
    and "r = None \<or> (\<exists>e. r = Some e \<and> is_file e)"
  shows "keeps_entry (look t k) r"
proof -
  have "look t k \<noteq> Some EDir \<and> (\<forall>s. look t k \<noteq> Some (ELink s))"
    using contained_entry [OF assms(1), of k] assms(2) by (auto simp: keeps_entry_def)
  then show ?thesis using assms(3) by (auto simp: keeps_entry_def)
qed

lemma contained_write:
  assumes "contained t R t'" "owned R k" "k \<noteq> []" "look t' (butlast k) = Some EDir" "list_all name_ok k"
    and "look t' k = None \<or> (\<exists>e'. look t' k = Some e' \<and> is_file e')" "is_file e"
  shows "contained t R (put k e t')"
proof (rule contained_change [OF assms(1,2)])
  show "tree_wf (put k e t')"
    using contained_wf [OF assms(1)] assms(3-6) by (intro wf_put) auto
  show "keeps_entry (look t k) (Some e)"
    using assms(1,6,7) by (intro file_entry) auto
qed (use assms(3) in simp)

lemma contained_mkdir:
  assumes "contained t R t'" "owned R k" "k \<noteq> []" "look t' (butlast k) = Some EDir" "list_all name_ok k"
    and "look t' k = None" "look t k = None"
  shows "contained t R (put k EDir t')"
proof (rule contained_change [OF assms(1,2)])
  show "tree_wf (put k EDir t')"
    using contained_wf [OF assms(1)] assms(3-6) by (intro wf_put) simp_all
qed (use assms(3,7) in \<open>auto simp: keeps_entry_def\<close>)

lemma contained_remove:
  assumes "contained t R t'" "owned R k" "k \<noteq> []" "look t' k = Some e" "is_file e"
  shows "contained t R (del k t')"
proof (rule contained_change [OF assms(1,2)])
  show "tree_wf (del k t')" using contained_wf [OF assms(1)] assms(3-5) by (intro wf_del) auto
  show "keeps_entry (look t k) None" using assms(1,4,5) by (intro file_entry) auto
qed (use assms(3) in simp)

lemma staged_write:
  assumes "staged t R t'" "owned R k" "k \<noteq> []" "look t' (butlast k) = Some EDir" "list_all name_ok k"
    and "look t' k = None \<or> (\<exists>e'. look t' k = Some e' \<and> is_file e')" "is_file e"
  shows "staged t R (put k e t')"
  unfolding staged_def
proof
  show "contained t R (put k e t')" using assms by (intro contained_write) (simp_all add: staged_def)
qed (use assms(1,3) in \<open>simp add: staged_def\<close>)

lemma staged_mkdir:
  assumes "staged t R t'" "owned R k" "k \<noteq> []" "look t' (butlast k) = Some EDir" "list_all name_ok k" "look t' k = None"
  shows "staged t R (put k EDir t')"
  unfolding staged_def
proof
  have "look t k = None" using assms(1,6) unfolding staged_def by blast
  then show "contained t R (put k EDir t')" using assms by (intro contained_mkdir) (simp_all add: staged_def)
qed (use assms(1,3) in \<open>simp add: staged_def\<close>)

section \<open>Where an operation on an accepted path lands\<close>

text \<open>Components of an accepted path that lead to a directory lead into the workspace, or to the
  directory of the root.\<close>

lemma accepted_parent:
  assumes "plain_workspace t R" "contained t R t'" "look t cwd = Some EDir" "accepted cwd t R p"
    and "path_components p = xs @ [c]" "ordinary c"
    and "resolve t' link_limit cwd xs = Found l" "look t' l = Some EDir"
  shows "prefix R l \<or> (l = butlast R \<and> R \<noteq> [] \<and> p = render_key R \<and> c = last R \<and> list_all name_ok R)"
proof -
  have wf: "tree_wf t" "tree_wf t'" using assms(1) contained_wf [OF assms(2)] by (simp_all add: plain_workspace_def)
  obtain a rest ka where cs: "path_components p = a @ rest" "a \<noteq> []" and a: "resolve t link_limit cwd a = Found ka"
    and R: "prefix R ka" and names: "list_all name_ok rest" and canon: "rest = [] \<longrightarrow> p = render_key ka \<and> list_all name_ok ka"
    using assms(4) unfolding accepted_def by blast
  have keeps: "keeps_dirs t t'" using assms(2) by (simp add: contained_def)
  from resolve_found [OF wf(1) assms(3) a] obtain e where e: "look t ka = Some e" "\<not> is_link (Some e)" by auto
  show ?thesis
  proof (cases "rest = []")
    case True
    have kn: "list_all name_ok ka" using wf(1) e(1) by (rule wf_names)
    from True canon have p: "p = render_key ka" by simp
    with kn assms(5,6) have ka: "xs @ [c] = ''/'' # ka" "ka \<noteq> []" by (auto simp: ordinary_def)
    then have xs: "xs = ''/'' # butlast ka" "c = last ka"
      by (metis butlast.simps(2) butlast_snoc, metis last.simps last_snoc)
    have "look t (butlast ka) = Some EDir" using wf(1) e(1) by (rule wf_parent)
    with keeps have dir: "look t' (butlast ka) = Some EDir" by (rule keeps_dir)
    have "list_all name_ok (butlast ka)" using kn by (auto simp: list_all_iff dest: in_set_butlastD)
    with resolve_key [of t' "[]" "butlast ka" EDir] wf(2) dir have "l = butlast ka"
      using assms(7) xs(1) by simp
    moreover have "prefix R (butlast ka) \<or> R = ka" using R ka(2)
      by (metis append_butlast_last_id prefix_snoc)
    ultimately show ?thesis using p xs(2) ka(2) kn by auto
  next
    case False
    then obtain ys where ys: "rest = ys @ [c]" "xs = a @ ys"
      using cs(1) assms(5) by (metis append_assoc append_butlast_last_id last_appendR last_snoc butlast_snoc)
    have no_link: "\<not> is_link (look t' (ka @ q))" for q
      using plain_owned [OF assms(1,2), of "ka @ q"] R by (simp add: owned_def)
    show ?thesis
    proof (cases "e = EDir")
      case True
      with e have ka: "look t ka = Some EDir" by simp
      have r: "resolve t' link_limit cwd a = Found ka" using a ka keeps by (rule resolve_dir_stable)
      have dir: "look t' ka = Some EDir" using keeps ka by (rule keeps_dir)
      have "look t' cwd = Some EDir" using keeps assms(3) by (rule keeps_dir)
      from resolve_append [OF r dir this wf(2)] obtain m where
        m: "resolve t' link_limit cwd (a @ ys) = resolve t' m ka ys" by blast
      have "list_all ordinary ys" using names ys(1) name_ok_ordinary by (auto simp: list_all_iff)
      from resolve_straight [OF this, of t' ka m] no_link have
        "resolve t' m ka ys = Found (ka @ ys) \<or> resolve t' m ka ys = Missing (ka @ ys) \<or>
           (\<exists>err. resolve t' m ka ys = Broken err)" by blast
      with m ys(2) assms(7) have "l = ka @ ys" by auto
      with R show ?thesis by simp
    next
      case False
      with e(2) have plain: "is_file e" by (cases e) auto
      note stable = resolve_file_stable [OF a assms(3) e(1) plain keeps wf(1)]
      show ?thesis
      proof (cases "ys = []")
        case True
        with stable assms(7) ys(2) have "l = ka" by auto
        with R show ?thesis by simp
      next
        case False
        with stable [of ys] assms(7) ys(2) show ?thesis by auto
      qed
    qed
  qed
qed

lemma component_name: "c \<in> set (path_components p) \<Longrightarrow> ordinary c \<Longrightarrow> name_ok c"
proof -
  assume c: "c \<in> set (path_components p)" "ordinary c"
  have "comps_ok (path_components p)" by simp
  then have "part_ok c" using c by (cases "path_components p") (auto simp: list_all_iff ordinary_def)
  then show ?thesis using c(2) by (simp add: name_ok_iff ordinary_def)
qed

lemma locate_Inr:
  assumes "locate cwd t p = Inr k"
  obtains xs c l where "path_components p = xs @ [c]" "ordinary c" "name_ok c"
    "resolve t link_limit cwd xs = Found l" "look t l = Some EDir" "k = l @ [c]"
proof -
  let ?cs = "os_components p"
  from assms have cs: "?cs \<noteq> []" "ordinary (last ?cs)"
    by (auto simp: locate_def Let_def ordinary_def split: if_splits)
  then have same: "?cs = path_components p" by (auto simp: os_components_def ordinary_def split: if_splits)
  from assms cs obtain l where l: "resolve t link_limit cwd (butlast ?cs) = Found l" "look t l = Some EDir"
    "k = l @ [last ?cs]"
    by (auto simp: locate_def Let_def ordinary_def split: if_splits place.splits)
  have "name_ok (last ?cs)" using cs same component_name [of "last ?cs" p] by simp
  with that [of "butlast ?cs" "last ?cs" l] cs l same show thesis by simp
qed

text \<open>What an operation on an accepted path, or on its temporary file, may name.\<close>

definition names_place :: "key \<Rightarrow> tree \<Rightarrow> key \<Rightarrow> bool" where
  "names_place R t k \<longleftrightarrow> owned R k \<and> k \<noteq> [] \<and> look t (butlast k) = Some EDir \<and> list_all name_ok k \<and>
     \<not> is_link (look t k)"

lemma accepted_place:
  assumes "plain_workspace t R" "contained t R t'" "look t cwd = Some EDir" "accepted cwd t R p"
    and "locate cwd t' p = Inr k"
  shows "names_place R t' k"
proof -
  from assms(5) obtain xs c l where c: "path_components p = xs @ [c]" "ordinary c" "name_ok c"
    "resolve t' link_limit cwd xs = Found l" "look t' l = Some EDir" "k = l @ [c]"
    by (rule locate_Inr)
  from accepted_parent [OF assms(1-4) c(1,2,4,5)] have "prefix R k" using c(6) by auto
  then have "owned R k" by (simp add: owned_def)
  moreover have "list_all name_ok l" using wf_names [OF contained_wf [OF assms(2)] c(5)] .
  ultimately show ?thesis using c plain_owned [OF assms(1,2), of k] by (simp add: names_place_def)
qed

lemma accepted_components:
  assumes "accepted cwd t R p" "path_parent p = Some parent"
  obtains xs c where "path_components p = xs @ [c]" "ordinary c" "parent = render_components xs" "comps_ok xs"
proof -
  obtain a rest ka where cs: "path_components p = a @ rest" "a \<noteq> []" and names: "list_all name_ok rest"
    and canon: "rest = [] \<longrightarrow> p = render_key ka \<and> list_all name_ok ka"
    using assms(1) unfolding accepted_def by blast
  have ne: "path_components p \<noteq> []" and no_root: "last (path_components p) \<noteq> ''/''"
    and parent: "parent = render_components (butlast (path_components p))"
    using assms(2) by (auto simp: path_parent_def Let_def split: if_splits)
  have "ordinary (last (path_components p))"
  proof (cases "rest = []")
    case True
    with canon have "path_components p = ''/'' # ka" "list_all name_ok ka" by simp_all
    with no_root have "ka \<noteq> []" "last (path_components p) = last ka" by auto
    with \<open>list_all name_ok ka\<close> show ?thesis by (auto simp: list_all_iff name_ok_ordinary)
  next
    case False
    with cs names show ?thesis by (auto simp: list_all_iff name_ok_ordinary)
  qed
  moreover have "comps_ok (butlast (path_components p))"
    using path_components_ok [of p] ne by (metis append_butlast_last_id comps_ok_prefix)
  ultimately show thesis using that ne parent by (metis append_butlast_last_id)
qed

lemma temp_name_ok: "name_ok (temp_name p n)"
proof -
  have "CHR ''/'' \<notin> set (dec m)" for m
    using dec_alnum [of "CHR ''/''" m] by (auto simp: is_ascii_alphanumeric_def)
  moreover have "CHR ''/'' \<notin> set c" if "file_name p = Some c" for c
  proof -
    from that have "c \<in> set (path_components p)" "ordinary c"
      by (auto simp: file_name_def Let_def ordinary_def split: if_splits)
    then show ?thesis using component_name by (auto simp: name_ok_def)
  qed
  ultimately show ?thesis by (auto simp: temp_name_def temp_of_def name_ok_def split: option.splits)
qed

lemma temp_of_root:
  assumes "list_all name_ok R" "R \<noteq> []"
  shows "temp_name (render_key R) n = temp_of (last R) n"
proof -
  have "name_ok (last R)" using assms by (simp add: list_all_iff)
  then show ?thesis using assms by (auto simp: temp_name_def file_name_def Let_def)
qed

text \<open>The temporary file of an accepted path.\<close>

lemma accepted_temp:
  assumes "plain_workspace t R" "contained t R t'" "look t cwd = Some EDir" "accepted cwd t R p"
    and "path_parent p = Some parent"
  shows "locate cwd t' (path_join parent (temp_name p n)) = Inr k \<Longrightarrow> names_place R t' k"
    and "place_of cwd t' (path_join parent (temp_name p n)) = Found k \<Longrightarrow> names_place R t' k"
    and "place_of cwd t' (path_join parent (temp_name p n)) = Missing k \<Longrightarrow> names_place R t' k \<and> look t' k = None"
proof -
  let ?n = "temp_name p n"
  obtain xs c where p: "path_components p = xs @ [c]" "ordinary c" "parent = render_components xs" "comps_ok xs"
    using assms(4,5) by (rule accepted_components)
  have part: "part_ok ?n" and ord: "ordinary ?n"
    using temp_name_ok [of p n] by (simp_all add: name_ok_iff name_ok_ordinary)
  have ok: "comps_ok (xs @ [?n])" using p(4) part by (rule comps_ok_snoc)
  have text': "path_join parent ?n = render_components (xs @ [?n])"
    using p(3,4) part by (simp add: path_join_render)
  have wf: "tree_wf t'" using assms(2) by (rule contained_wf)
  have cwd: "look t' cwd = Some EDir" using assms(2,3) by (rule contained_dir)
  have place: "names_place R t' (l @ [?n])" if "resolve t' link_limit cwd xs = Found l" "look t' l = Some EDir" for l
  proof -
    from accepted_parent [OF assms(1-4) p(1,2) that] consider "prefix R l"
      | "l = butlast R" "R \<noteq> []" "p = render_key R" "list_all name_ok R" by blast
    then have "owned R (l @ [?n])"
    proof cases
      case 2
      then show ?thesis by (auto simp: owned_def temp_of_root)
    qed (simp add: owned_def)
    with that wf_names [OF wf that(2)] temp_name_ok plain_owned [OF assms(1,2)] show ?thesis
      by (simp add: names_place_def)
  qed
  show "names_place R t' k" if "locate cwd t' (path_join parent ?n) = Inr k"
    using that unfolding text'
    by (rule locate_Inr) (use ok place in auto)
  have last: "resolve t' link_limit cwd (xs @ [?n]) = r \<Longrightarrow> \<forall>e. r \<noteq> Broken e \<Longrightarrow>
      \<exists>m l. resolve t' link_limit cwd xs = Found l \<and> look t' l = Some EDir \<and> resolve t' m l [?n] = r" for r
    using resolve_prefix [of t' link_limit cwd xs "[?n]" r] cwd wf by auto
  have found: "\<exists>l. k = l @ [?n] \<and> resolve t' link_limit cwd xs = Found l \<and> look t' l = Some EDir \<and>
      (r = Missing k \<longrightarrow> look t' k = None)"
    if "place_of cwd t' (path_join parent ?n) = r" "r = Found k \<or> r = Missing k" for r
  proof -
    from that(1) have "resolve t' link_limit cwd (xs @ [?n]) = r"
      unfolding text' using ok by (simp add: place_of_render)
    with last that(2) obtain m l where l: "resolve t' link_limit cwd xs = Found l" "look t' l = Some EDir"
      "resolve t' m l [?n] = r" by blast
    from place [OF l(1,2)] have "\<not> is_link (look t' (l @ [?n]))" by (simp add: names_place_def)
    with resolve_straight [of "[?n]" t' l m] ord l(3) that(2) have "k = l @ [?n]"
      by (auto simp: Cons_eq_append_conv)
    moreover have "look t' k = None" if "r = Missing k"
      using resolve_missing [OF wf l(2), of m "[?n]" k] l(3) that by simp
    ultimately show ?thesis using l(1,2) by blast
  qed
  show "names_place R t' k" if "place_of cwd t' (path_join parent ?n) = Found k"
    using found [OF that] place by auto
  show "names_place R t' k \<and> look t' k = None" if "place_of cwd t' (path_join parent ?n) = Missing k"
    using found [OF that] place by auto
qed

lemma prefix_snoc_split: "prefix ds (xs @ [c]) \<Longrightarrow> ds \<noteq> xs @ [c] \<Longrightarrow> prefix ds xs"
  by simp

lemma staged_contained: "staged t R t' \<Longrightarrow> contained t R t'"
  by (simp add: staged_def)

lemma render_place: "comps_ok (ds @ [d]) \<Longrightarrow> path_components (render_components (ds @ [d])) = ds @ [d]"
  by simp

text \<open>A directory made on the way to an accepted path lies in the workspace.\<close>

lemma accepted_mkdir:
  assumes "plain_workspace t R" "staged t R t'" "look t cwd = Some EDir" "accepted cwd t R p"
    and "path_parent p = Some parent" "prefix ds (path_components parent)"
    and "locate cwd t' (render_components ds) = Inr k" "look t' k = None"
  shows "names_place R t' k"
proof -
  have con: "contained t R t'" using assms(2) by (rule staged_contained)
  have wf: "tree_wf t" "tree_wf t'" using assms(1) contained_wf [OF con] by (simp_all add: plain_workspace_def)
  have keeps: "keeps_dirs t t'" using con by (simp add: contained_def)
  have cwd: "look t' cwd = Some EDir" using con assms(3) by (rule contained_dir)
  obtain us c where p: "path_components p = us @ [c]" "parent = render_components us" "comps_ok us"
    using assms(4,5) by (rule accepted_components)
  with assms(6) have pre: "prefix ds us" by simp
  then have okd: "comps_ok ds" using p(3) comps_ok_prefix by (auto simp: prefix_def)
  obtain xs d l where d: "ds = xs @ [d]" "ordinary d" "resolve t' link_limit cwd xs = Found l"
    "look t' l = Some EDir" "k = l @ [d]"
    using locate_Inr [OF assms(7)] okd by (metis path_components_render)
  obtain a rest ka where cs: "path_components p = a @ rest" "a \<noteq> []" "resolve t link_limit cwd a = Found ka"
    "prefix R ka" "list_all name_ok rest" "''..'' \<notin> set a"
    and canon: "rest = [] \<longrightarrow> p = render_key ka \<and> list_all name_ok ka"
    using assms(4) unfolding accepted_def by blast
  have "prefix ds (a @ rest)" using pre p(1) cs(1) by (metis prefix_prefix)
  then consider more where "a = ds @ more" | ys where "ds = a @ ys" "ys \<noteq> []" "prefix ys rest"
    by (metis prefix_append prefix_def append_Nil2)
  then show ?thesis
  proof cases
    case 1
    have "\<exists>kd. resolve t link_limit cwd (xs @ [d]) = Found kd"
    proof (cases "more = []")
      case False
      with resolve_prefix [of t link_limit cwd ds more "Found ka"] cs(3) 1 assms(3) wf(1) d(1)
      show ?thesis by auto
    qed (use 1 cs(3) d(1) in auto)
    then obtain kd where "resolve t link_limit cwd (xs @ [d]) = Found kd" ..
    with resolve_prefix [of t link_limit cwd xs "[d]" "Found kd"] assms(3) wf(1)
    obtain m l0 where l0: "resolve t link_limit cwd xs = Found l0" "look t l0 = Some EDir"
      "resolve t m l0 [d] = Found kd" by auto
    have "resolve t' link_limit cwd xs = Found l0" using l0(1,2) keeps by (rule resolve_dir_stable)
    with d(3) have "l0 = l" by simp
    with l0(3) d(2) have "look t (l @ [d]) \<noteq> None" by (cases "look t (l @ [d])") auto
    with assms(2) have "look t' (l @ [d]) \<noteq> None" by (simp add: staged_def)
    with assms(8) d(5) show ?thesis by simp
  next
    case 2
    have names: "list_all name_ok ys" using 2(3) cs(5) by (auto simp: prefix_def)
    have "accepted cwd t R (render_components ds)"
      unfolding accepted_def
      by (intro exI [of _ a] exI [of _ ys] exI [of _ ka]) (use 2 cs names okd in simp)
    then show ?thesis using accepted_place [OF assms(1) con assms(3)] assms(7) by blast
  qed
qed

end
