(* ===== verification/Patch_Safety.thy ===== *)
theory Patch_Safety
  imports Workspace_Safety
begin

text \<open>
  The interface of a property that the file tools keep, its two instances, and what follows for
  the \<open>patch\<close> and \<open>write\<close> tools: whatever fails, nothing outside the workspace changes.
\<close>

section \<open>What a property must satisfy to survive a tool\<close>

text \<open>\<open>J\<close> holds while files are staged, \<open>I\<close> afterwards; \<open>P\<close> is what is known of the accepted paths.\<close>

locale change_invariant =
  fixes cwd :: key and I :: "tree \<Rightarrow> bool" and J :: "tree \<Rightarrow> bool" and P :: "string \<Rightarrow> bool"
  assumes weaken: "J t \<Longrightarrow> I t"
    and make_dir: "J t \<Longrightarrow> P p \<Longrightarrow> path_parent p = Some parent \<Longrightarrow> prefix ds (path_components parent) \<Longrightarrow>
      mkdir_tree cwd (render_components ds) t = Inr t2 \<Longrightarrow> J t2"
    and make_temp: "J t \<Longrightarrow> P p \<Longrightarrow> path_parent p = Some parent \<Longrightarrow>
      write_tree cwd (path_join parent (temp_name p n)) content t = Inr t2 \<Longrightarrow> J t2"
    and drop_temp: "I t \<Longrightarrow> P p \<Longrightarrow> path_parent p = Some parent \<Longrightarrow>
      remove_tree cwd (path_join parent (temp_name p n)) t = Inr t2 \<Longrightarrow> I t2"
    and drop_target: "I t \<Longrightarrow> P p \<Longrightarrow> remove_tree cwd p t = Inr t2 \<Longrightarrow> I t2"
    and move_temp: "I t \<Longrightarrow> P p \<Longrightarrow> path_parent p = Some parent \<Longrightarrow>
      rename_tree cwd (path_join parent (temp_name p n)) p t = Inr t2 \<Longrightarrow> I t2"
begin

definition staged_temp :: "string \<times> string \<Rightarrow> bool" where
  "staged_temp e \<longleftrightarrow> (\<exists>parent n. P (snd e) \<and> path_parent (snd e) = Some parent \<and>
     fst e = path_join parent (temp_name (snd e) n))"

lemma change_keeps:
  assumes "Q (fst d)" "\<And>t2. f (fst d) = Inr t2 \<Longrightarrow> Q t2"
  shows "Q (fst (snd (change F f d)))"
  using assms by (auto simp: change_def split: option.splits sum.splits)

lemma mkdir_keeps:
  assumes "J (fst d)" "P p" "path_parent p = Some parent" "prefix ds (path_components parent)"
  shows "J (fst (snd (mkdir F cwd (render_components ds) d)))"
  unfolding mkdir_def by (rule change_keeps, rule assms(1), rule make_dir [OF assms])

lemma create_dirs_keeps:
  assumes "J (fst d)" "P p" "path_parent p = Some parent" "prefix cs (path_components parent)"
  shows "J (fst (snd (create_dirs F cwd cs d)))"
  using assms(1,4)
proof (induction cs arbitrary: d rule: rev_induct)
  case Nil
  then show ?case by (subst create_dirs.simps) simp
next
  case (snoc c cs)
  let ?mk = "mkdir F cwd (render_components (cs @ [c]))"
  have mk: "J (fst (snd (?mk e)))" if "J (fst e)" for e
    using that assms(2,3) snoc.prems(2) by (rule mkdir_keeps)
  have up: "J (fst (snd (create_dirs F cwd cs e)))" if "J (fst e)" for e
    using that append_prefixD [OF snoc.prems(2)] by (rule snoc.IH)
  obtain r d1 where d1: "?mk d = (r, d1)" by (cases "?mk d")
  with mk [OF snoc.prems(1)] have J1: "J (fst d1)" by simp
  obtain r2 d2 where d2: "create_dirs F cwd cs d1 = (r2, d2)" by (cases "create_dirs F cwd cs d1")
  with up [OF J1] have J2: "J (fst d2)" by simp
  obtain r3 d3 where d3: "?mk d2 = (r3, d3)" by (cases "?mk d2")
  with mk [OF J2] have "J (fst d3)" by simp
  with J1 J2 d1 d2 d3 show ?case
    by (subst create_dirs.simps) (auto simp: Let_def split: option.splits)
qed

lemma create_dir_all_keeps:
  assumes "J (fst d)" "P p" "path_parent p = Some parent"
  shows "J (fst (snd (create_dir_all F cwd parent d)))"
  unfolding create_dir_all_def using assms by (intro create_dirs_keeps) auto

lemma ensure_parent_keeps:
  assumes "J (fst d)" "P p" "path_parent p = Some parent" "te_cwd E = cwd"
  shows "J (fst (snd (ensure_parent E parent d)))"
  using assms create_dir_all_keeps [OF assms(1-3)] by (simp add: ensure_parent_def)

lemma write_temp_keeps:
  assumes "J (fst d)" "P p" "path_parent p = Some parent"
  shows "J (fst (snd (write_file F cwd (path_join parent (temp_name p n)) content d)))"
proof -
  let ?p = "path_join parent (temp_name p n)"
  have whole: "J (fst (snd (change F (write_tree cwd ?p content) d)))"
    by (rule change_keeps, rule assms(1), rule make_temp [OF assms])
  have part: "J (case write_tree cwd ?p c (fst d) of Inl e \<Rightarrow> fst d | Inr t \<Rightarrow> t)" for c
  proof (cases "write_tree cwd ?p c (fst d)")
    case (Inr t)
    with assms make_temp [of "fst d" p parent n c t] show ?thesis by simp
  qed (simp add: assms(1))
  show ?thesis
  proof (cases "F (snd d)")
    case None
    with whole show ?thesis by (simp add: write_file_def)
  next
    case (Some f)
    obtain err r where f: "f = (err, r)" by (cases f)
    show ?thesis
    proof (cases r)
      case None
      with whole Some f show ?thesis by (simp add: write_file_def)
    next
      case (Some m)
      with \<open>F (snd d) = Some f\<close> f part [of "take m content"] show ?thesis by (simp add: write_file_def)
    qed
  qed
qed

lemma stage_keeps:
  assumes "te_cwd E = cwd" "J (fst d)" "list_all (\<lambda>w. P (fst w)) ws" "list_all staged_temp temps"
  shows "J (fst (snd (stage_writes E ws temps d))) \<and>
    list_all staged_temp (snd (fst (stage_writes E ws temps d)))"
  using assms(2-4)
proof (induction ws arbitrary: temps d)
  case (Cons w ws)
  obtain p shown content where w: "w = (p, shown, content)" by (cases w)
  show ?case
  proof (cases "path_parent p")
    case None
    with Cons.prems w show ?thesis by simp
  next
    case (Some parent)
    have P: "P p" using Cons.prems(2) w by simp
    obtain r1 d1 where d1: "ensure_parent E parent d = (r1, d1)" by (cases "ensure_parent E parent d")
    with ensure_parent_keeps [OF Cons.prems(1) P Some assms(1)] have J1: "J (fst d1)" by simp
    let ?temp = "temp_path_of E parent p (snd d1)"
    obtain r2 d2 where d2: "write_file (te_faults E) cwd ?temp content d1 = (r2, d2)"
      by (cases "write_file (te_faults E) cwd ?temp content d1")
    with write_temp_keeps [OF J1 P Some] have J2: "J (fst d2)"
      by (metis fst_conv snd_conv temp_path_of_def)
    have "staged_temp (?temp, p)" using P Some by (auto simp: staged_temp_def temp_path_of_def)
    then have temps: "list_all staged_temp (temps @ [(?temp, p)])" using Cons.prems(3) by auto
    have rest: "list_all (\<lambda>w. P (fst w)) ws" using Cons.prems(2) by simp
    note IH = Cons.IH [OF J2 rest temps]
    have step: "stage_writes E (w # ws) temps d = (case r1 of
        Some err \<Rightarrow> ((Some (TeExecutionFailed err), temps), d1)
      | None \<Rightarrow> (case r2 of Some err \<Rightarrow> ((Some (TeExecutionFailed err), temps), d2)
          | None \<Rightarrow> stage_writes E ws (temps @ [(?temp, p)]) d2))"
      using w Some d1 d2 assms(1) by (cases r1; cases r2) (simp_all add: Let_def)
    show ?thesis
    proof (cases r1)
      case None
      note r1 = this
      show ?thesis using IH J2 Cons.prems(3) unfolding step r1 by (cases r2) simp_all
    next
      case (Some err)
      with J1 Cons.prems(3) step show ?thesis by simp
    qed
  qed
qed simp

lemma staged_tempE:
  assumes "staged_temp (temp, p)"
  obtains parent n where "P p" "path_parent p = Some parent" "temp = path_join parent (temp_name p n)"
  using assms by (auto simp: staged_temp_def)

lemma remove_temp_keeps:
  assumes "I (fst d)" "staged_temp (temp, p)"
  shows "I (fst (snd (remove_file F cwd temp d)))"
proof -
  from assms(2) obtain parent n where p: "P p" "path_parent p = Some parent"
    "temp = path_join parent (temp_name p n)" by (rule staged_tempE)
  show ?thesis
    unfolding remove_file_def p(3) by (rule change_keeps, rule assms(1), rule drop_temp [OF assms(1) p(1,2)])
qed

lemma rename_temp_keeps:
  assumes "I (fst d)" "staged_temp (temp, p)"
  shows "I (fst (snd (rename_file F cwd temp p d)))"
proof -
  from assms(2) obtain parent n where p: "P p" "path_parent p = Some parent"
    "temp = path_join parent (temp_name p n)" by (rule staged_tempE)
  show ?thesis
    unfolding rename_file_def p(3) by (rule change_keeps, rule assms(1), rule move_temp [OF assms(1) p(1,2)])
qed

lemma cleanup_keeps:
  assumes "te_cwd E = cwd" "I (fst d)" "list_all staged_temp temps"
  shows "I (fst (cleanup E temps d))"
  using assms(2,3)
proof (induction temps arbitrary: d)
  case (Cons e temps)
  obtain temp p where e: "e = (temp, p)" by (cases e)
  with Cons.prems have "I (fst (snd (remove_file (te_faults E) cwd temp d)))"
    by (intro remove_temp_keeps) auto
  from Cons.IH [OF this] Cons.prems(2) e assms(1) show ?case by simp
qed simp

lemma deletes_keep:
  assumes "te_cwd E = cwd" "I (fst d)" "list_all P ps"
  shows "I (fst (snd (process_deletes E ps d)))"
  using assms(2,3)
proof (induction ps arbitrary: d)
  case (Cons p ps)
  have p: "P p" using Cons.prems(2) by simp
  have step: "I (fst (snd (remove_file (te_faults E) cwd p d)))"
    unfolding remove_file_def by (rule change_keeps, rule Cons.prems(1), rule drop_target [OF Cons.prems(1) p])
  obtain r d1 where d1: "remove_file (te_faults E) cwd p d = (r, d1)" by (rule prod.exhaust)
  with step have I1: "I (fst d1)" by simp
  from Cons.IH [OF I1] Cons.IH [OF Cons.prems(1)] Cons.prems(2) I1 d1 assms(1) show ?case
    by (cases r) simp_all
qed simp

lemma renames_keep:
  assumes "te_cwd E = cwd" "I (fst d)" "list_all staged_temp temps"
  shows "I (fst (snd (process_renames E temps d)))"
  using assms(2,3)
proof (induction temps arbitrary: d)
  case (Cons e temps)
  obtain temp p where e: "e = (temp, p)" by (cases e)
  with Cons.prems have step: "I (fst (snd (rename_file (te_faults E) cwd temp p d)))"
    by (intro rename_temp_keeps) auto
  obtain r d1 where d1: "rename_file (te_faults E) cwd temp p d = (r, d1)" by (rule prod.exhaust)
  with step have I1: "I (fst d1)" by simp
  from Cons.IH [OF I1] Cons.prems(2) I1 e d1 assms(1) show ?case by (cases r) simp_all
qed simp

lemma apply_plan_keeps:
  assumes "te_cwd E = cwd" "J (fst d)"
    and "list_all (\<lambda>w. P (fst w)) (te_write_order E (pp_writes pl))"
    and "list_all P (te_delete_order E (map fst (pp_deletes pl)))"
  shows "I (fst (snd (apply_plan E pl d)))"
proof -
  let ?ws = "te_write_order E (pp_writes pl)"
  obtain r temps d1 where s: "stage_writes E ?ws [] d = ((r, temps), d1)" by (metis prod.exhaust)
  from stage_keeps [OF assms(1,2,3), of "[]"] s have J1: "J (fst d1)" and temps: "list_all staged_temp temps"
    by simp_all
  have I1: "I (fst d1)" using J1 by (rule weaken)
  obtain r2 d2 where d2: "process_deletes E (te_delete_order E (map fst (pp_deletes pl))) d1 = (r2, d2)"
    by (rule prod.exhaust)
  with deletes_keep [OF assms(1) I1 assms(4)] have I2: "I (fst d2)" by simp
  obtain r3 d3 where d3: "process_renames E temps d2 = (r3, d3)" by (rule prod.exhaust)
  with renames_keep [OF assms(1) I2 temps] have I3: "I (fst d3)" by simp
  show ?thesis
    using I2 I3 cleanup_keeps [OF assms(1) I1 temps] s d2 d3
    unfolding apply_plan_def by (cases r; cases r2; cases r3) simp_all
qed

lemma atomic_write_keeps:
  assumes "te_cwd E = cwd" "J (fst d)" "P p"
  shows "I (fst (snd (atomic_write E p content d)))"
proof (cases "path_parent p")
  case None
  with assms(2) weaken show ?thesis by (simp add: atomic_write_def)
next
  case (Some parent)
  let ?temp = "path_join parent (temp_name p (te_nanos E (snd d)))"
  obtain r1 d1 where d1: "write_file (te_faults E) cwd ?temp content d = (r1, d1)" by (rule prod.exhaust)
  with write_temp_keeps [OF assms(2,3) Some] have I1: "I (fst d1)" by (metis fst_conv snd_conv weaken)
  have temp: "staged_temp (?temp, p)" using assms(3) Some by (auto simp: staged_temp_def)
  obtain r2 d2 where d2: "rename_file (te_faults E) cwd ?temp p d1 = (r2, d2)" by (rule prod.exhaust)
  with rename_temp_keeps [OF I1 temp, of "te_faults E"] have I2: "I (fst d2)" by simp
  from remove_temp_keeps [OF I2 temp, of "te_faults E"] I1 I2 d1 d2 assms(1) Some show ?thesis
    unfolding atomic_write_def temp_path_of_def Let_def by (cases r1; cases r2) simp_all
qed

lemma prepare_parent_keeps:
  assumes "te_cwd E = cwd" "J (fst d)" "P p"
  shows "J (fst (snd (prepare_parent E input p d)))"
proof (cases "path_parent p")
  case None
  with assms(2) show ?thesis by (simp add: prepare_parent_def)
next
  case (Some parent)
  obtain r d1 where d1: "create_dir_all (te_faults E) cwd parent d = (r, d1)" by (rule prod.exhaust)
  with create_dir_all_keeps [OF assms(2,3) Some] have "J (fst d1)" by (metis fst_conv snd_conv)
  with d1 Some assms(1,2) show ?thesis unfolding prepare_parent_def by (cases r) simp_all
qed

end

section \<open>Containment as an instance\<close>

definition workspace_ready :: "key \<Rightarrow> tree \<Rightarrow> key \<Rightarrow> bool" where
  "workspace_ready cwd t R \<longleftrightarrow> plain_workspace t R \<and> look t cwd = Some EDir"

lemma file_or_free: "\<not> is_link r \<Longrightarrow> r \<noteq> Some EDir \<Longrightarrow> r = None \<or> (\<exists>e. r = Some e \<and> is_file e)"
  by (cases r; cases "the r") auto

lemma contained_removal:
  assumes "contained t R t'" "names_place R t' k" "look t' k = Some e" "e \<noteq> EDir"
  shows "contained t R (del k t')"
  using assms file_or_free [of "look t' k"] by (intro contained_remove) (auto simp: names_place_def)

lemma contained_rename:
  assumes "contained t R t'" "names_place R t' k" "names_place R t' l" "k \<noteq> l"
    and "look t' k = Some e" "e \<noteq> EDir" "look t' l \<noteq> Some EDir"
  shows "contained t R (put l e (del k t'))"
proof (rule contained_write)
  have k: "k \<noteq> []" using assms(2) by (simp add: names_place_def)
  show "contained t R (del k t')" using assms by (intro contained_removal)
  show "owned R l" "l \<noteq> []" "list_all name_ok l" using assms(3) by (simp_all add: names_place_def)
  show "look (del k t') (butlast l) = Some EDir" using assms k by (auto simp: names_place_def)
  show "look (del k t') l = None \<or> (\<exists>e'. look (del k t') l = Some e' \<and> is_file e')"
    using file_or_free [of "look t' l"] assms k by (simp add: names_place_def)
  show "is_file e" using file_or_free [of "look t' k"] assms by (auto simp: names_place_def)
qed

lemma staged_temp_write:
  assumes "workspace_ready cwd t R" "staged t R t'" "accepted cwd t R p" "path_parent p = Some parent"
    and "write_tree cwd (path_join parent (temp_name p n)) content t' = Inr t2"
  shows "staged t R t2"
proof -
  have ready: "plain_workspace t R" "look t cwd = Some EDir" using assms(1) by (simp_all add: workspace_ready_def)
  have con: "contained t R t'" using assms(2) by (rule staged_contained)
  let ?q = "path_join parent (temp_name p n)"
  have "\<exists>k. t2 = put k (EFile content) t' \<and> names_place R t' k \<and> look t' k \<noteq> Some EDir"
  proof (cases "place_of cwd t' ?q")
    case (Found k)
    with assms(5) have "t2 = put k (EFile content) t'" "look t' k \<noteq> Some EDir"
      by (auto simp: write_tree_def split: if_splits)
    with accepted_temp(2) [OF ready(1) con ready(2) assms(3,4) Found] show ?thesis by blast
  next
    case (Missing k)
    with assms(5) have "t2 = put k (EFile content) t'" by (simp add: write_tree_def)
    with accepted_temp(3) [OF ready(1) con ready(2) assms(3,4) Missing] show ?thesis by auto
  next
    case (Broken e)
    with assms(5) show ?thesis by (simp add: write_tree_def)
  qed
  then obtain k where k: "t2 = put k (EFile content) t'" "names_place R t' k" "look t' k \<noteq> Some EDir" by blast
  have "look t' k = None \<or> (\<exists>e'. look t' k = Some e' \<and> is_file e')"
    using k(2,3) by (intro file_or_free) (simp_all add: names_place_def)
  with assms(2) k(1,2) show ?thesis
    by (simp add: names_place_def staged_write)
qed

lemma staged_dir:
  assumes "workspace_ready cwd t R" "staged t R t'" "accepted cwd t R p" "path_parent p = Some parent"
    and "prefix ds (path_components parent)" "mkdir_tree cwd (render_components ds) t' = Inr t2"
  shows "staged t R t2"
proof -
  from assms(6) obtain k where k: "locate cwd t' (render_components ds) = Inr k" "look t' k = None"
    "t2 = put k EDir t'"
    by (auto simp: mkdir_tree_def split: sum.splits option.splits)
  have "names_place R t' k"
    using assms(1) accepted_mkdir [OF _ assms(2) _ assms(3,4,5) k(1,2)] by (simp add: workspace_ready_def)
  with assms(2) k(2,3) show ?thesis by (simp add: names_place_def staged_mkdir)
qed

lemma contained_removed:
  assumes "contained t R t'" "\<And>k. locate cwd t' p = Inr k \<Longrightarrow> names_place R t' k" "remove_tree cwd p t' = Inr t2"
  shows "contained t R t2"
proof -
  from assms(3) obtain k e where k: "locate cwd t' p = Inr k" "look t' k = Some e" "e \<noteq> EDir" "t2 = del k t'"
    by (auto simp: remove_tree_def split: sum.splits option.splits entry.splits)
  with assms(1,2) show ?thesis by (auto intro: contained_removal)
qed

lemma contained_renamed:
  assumes "contained t R t'" "\<And>k. locate cwd t' p = Inr k \<Longrightarrow> names_place R t' k"
    and "\<And>k. locate cwd t' q = Inr k \<Longrightarrow> names_place R t' k" "rename_tree cwd p q t' = Inr t2"
  shows "contained t R t2"
proof -
  from assms(4) obtain k l where k: "locate cwd t' p = Inr k" "locate cwd t' q = Inr l"
    by (auto simp: rename_tree_def split: sum.splits)
  with assms(4) obtain e where e: "look t' k = Some e" "e \<noteq> EDir" "look t' l \<noteq> Some EDir"
    "t2 = (if k = l then t' else put l e (del k t'))"
    by (cases "look t' k"; cases "the (look t' k)") (simp_all add: rename_tree_def split: if_splits)
  note place = assms(2) [OF k(1)] assms(3) [OF k(2)]
  show ?thesis
  proof (cases "k = l")
    case True
    with e(4) assms(1) show ?thesis by simp
  next
    case False
    with contained_rename [OF assms(1) place _ e(1-3)] e(4) show ?thesis by simp
  qed
qed

interpretation workspace: change_invariant cwd
  "\<lambda>t'. workspace_ready cwd t R \<longrightarrow> contained t R t'" "\<lambda>t'. workspace_ready cwd t R \<longrightarrow> staged t R t'" "accepted cwd t R"
  for cwd t R
proof
  fix t' t2 p parent n
  assume "workspace_ready cwd t R \<longrightarrow> contained t R t'" "accepted cwd t R p" "path_parent p = Some parent"
    "rename_tree cwd (path_join parent (temp_name p n)) p t' = Inr t2"
  then show "workspace_ready cwd t R \<longrightarrow> contained t R t2"
    by (auto simp: workspace_ready_def
        intro: contained_renamed [OF _ accepted_temp(1) accepted_place])
next
  fix t' t2 p parent n
  assume "workspace_ready cwd t R \<longrightarrow> contained t R t'" "accepted cwd t R p" "path_parent p = Some parent"
    "remove_tree cwd (path_join parent (temp_name p n)) t' = Inr t2"
  then show "workspace_ready cwd t R \<longrightarrow> contained t R t2"
    by (auto simp: workspace_ready_def intro: contained_removed [OF _ accepted_temp(1)])
next
  fix t' t2 p
  assume "workspace_ready cwd t R \<longrightarrow> contained t R t'" "accepted cwd t R p" "remove_tree cwd p t' = Inr t2"
  then show "workspace_ready cwd t R \<longrightarrow> contained t R t2"
    by (auto simp: workspace_ready_def intro: contained_removed [OF _ accepted_place])
qed (auto intro: staged_contained staged_temp_write staged_dir)

end
