(* ===== verification/Patch_Properties.thy ===== *)
theory Patch_Properties
  imports Patch_Safety
begin

text \<open>
  The properties of the \<open>patch\<close> and \<open>write\<close> tools: containment in the workspace, what can still go
  wrong there, and what a patch that succeeds has done.
\<close>

section \<open>Plans name accepted paths\<close>

definition plan_all :: "(string \<Rightarrow> bool) \<Rightarrow> patch_plan \<Rightarrow> bool" where
  "plan_all A pl \<longleftrightarrow> list_all (\<lambda>kv. A (fst kv)) (pp_writes pl) \<and> list_all (\<lambda>kv. A (fst kv)) (pp_deletes pl)"

lemma path_insert_all: "list_all (\<lambda>kv. A (fst kv)) m \<Longrightarrow> A p \<Longrightarrow> list_all (\<lambda>kv. A (fst kv)) (path_insert p v m)"
  by (auto simp: path_insert_def list_all_iff)

lemma path_remove_all: "list_all (\<lambda>kv. A (fst kv)) m \<Longrightarrow> list_all (\<lambda>kv. A (fst kv)) (path_remove p m)"
  by (auto simp: path_remove_def list_all_iff)

lemma plan_operation_all:
  assumes "\<forall>p q. validate_write_path fs p ctx = Inr q \<longrightarrow> A q" "plan_all A pl" "plan_operation fs ctx op pl = Inr pl2"
  shows "plan_all A pl2"
proof (cases op)
  case (PatchAdd p content)
  with assms show ?thesis
    by (auto simp: plan_operation_def plan_add_def plan_all_def path_insert_all split: sum.splits if_splits)
next
  case (PatchUpdate p reps)
  with assms show ?thesis
    by (auto simp: plan_operation_def plan_update_def plan_all_def path_insert_all split: sum.splits if_splits)
next
  case (PatchDelete p)
  with assms show ?thesis
    by (auto simp: plan_operation_def plan_delete_def plan_all_def path_insert_all path_remove_all
        split: sum.splits if_splits)
next
  case (PatchMove src dst)
  with assms show ?thesis
    by (auto simp: plan_operation_def plan_move_def plan_all_def path_insert_all path_remove_all
        split: sum.splits if_splits)
qed

lemma plan_operations_all:
  assumes "\<forall>p q. validate_write_path fs p ctx = Inr q \<longrightarrow> A q" "plan_all A pl" "plan_operations fs ctx ops pl = Inr pl2"
  shows "plan_all A pl2"
  using assms(2,3)
proof (induction ops arbitrary: pl)
  case (Cons op ops)
  then show ?case using plan_operation_all [OF assms(1)] by (auto split: sum.splits)
qed simp

lemma plan_patch_all:
  assumes "\<forall>p q. validate_write_path fs p ctx = Inr q \<longrightarrow> A q" "plan_patch E fs ctx input = Inr (ops, pl)"
  shows "plan_all A pl"
proof -
  from assms(2) have "plan_operations fs ctx ops empty_plan = Inr pl"
    by (auto simp: plan_patch_def split: sum.splits if_splits option.splits)
  moreover have "plan_all A empty_plan" by (simp add: plan_all_def empty_plan_def)
  ultimately show ?thesis using plan_operations_all [OF assms(1)] by blast
qed

section \<open>Containment\<close>

text \<open>A hash map lists each of its entries once, in some order.\<close>

definition lists_entries :: "file_env \<Rightarrow> bool" where
  "lists_entries E \<longleftrightarrow> (\<forall>ws. mset (te_write_order E ws) = mset ws) \<and> (\<forall>ps. mset (te_delete_order E ps) = mset ps)"

lemma patch_contained:
  assumes "workspace_ready (te_cwd E) (fst d) R" "lists_entries E"
    and "tc_workspace_root ctx = Some r" "place_of (te_cwd E) (fst d) r = Found R"
  shows "contained (fst d) R (fst (snd (execute_patch E j ctx d)))"
proof -
  let ?cwd = "te_cwd E" and ?t = "fst d"
  have wf: "tree_wf ?t" "look ?t ?cwd = Some EDir"
    using assms(1) by (simp_all add: workspace_ready_def plain_workspace_def)
  have start: "staged ?t R ?t" using wf(1) by (simp add: staged_def contained_refl)
  have accept: "\<forall>p q. validate_write_path (fs_of ?cwd ?t) p ctx = Inr q \<longrightarrow> accepted ?cwd ?t R q"
    using validate_write_accepted [OF wf assms(3,4)] by blast
  have apply': "contained ?t R (fst (snd (apply_plan E pl d)))"
    if "plan_patch E (fs_of ?cwd ?t) ctx input = Inr (ops, pl)" for input ops pl
  proof -
    have all: "plan_all (accepted ?cwd ?t R) pl" using accept that by (rule plan_patch_all)
    have "set (te_write_order E (pp_writes pl)) = set (pp_writes pl)"
      "set (te_delete_order E (map fst (pp_deletes pl))) = set (map fst (pp_deletes pl))"
      using assms(2) by (metis lists_entries_def mset_eq_setD)+
    with all have "list_all (\<lambda>w. accepted ?cwd ?t R (fst w)) (te_write_order E (pp_writes pl))"
      "list_all (accepted ?cwd ?t R) (te_delete_order E (map fst (pp_deletes pl)))"
      by (auto simp: plan_all_def list_all_iff)
    from workspace.apply_plan_keeps [where E = E and cwd = ?cwd and t = ?t and R = R, OF refl _ this] assms(1) start
    show ?thesis by simp
  qed
  show ?thesis
  proof (cases "patch_input_of j")
    case None
    then show ?thesis using contained_refl [OF wf(1)] by (simp add: execute_patch_def)
  next
    case (Some input)
    note input = this
    show ?thesis
    proof (cases "plan_patch E (fs_of ?cwd ?t) ctx input")
      case (Inl e)
      with input show ?thesis using contained_refl [OF wf(1)] by (simp add: execute_patch_def)
    next
      case (Inr planned)
      obtain ops pl where planned: "planned = (ops, pl)" by (rule prod.exhaust)
      obtain r d1 where d1: "apply_plan E pl d = (r, d1)" by (rule prod.exhaust)
      with apply' Inr planned have "contained ?t R (fst d1)" by (metis snd_conv)
      with input Inr planned d1 contained_refl [OF wf(1)] show ?thesis
        by (cases r) (simp_all add: execute_patch_def)
    qed
  qed
qed

lemma write_contained:
  assumes "workspace_ready (te_cwd E) (fst d) R"
    and "tc_workspace_root ctx = Some r" "place_of (te_cwd E) (fst d) r = Found R"
  shows "contained (fst d) R (fst (snd (execute_write E raw_diff j ctx d)))"
proof -
  let ?cwd = "te_cwd E" and ?t = "fst d"
  have wf: "tree_wf ?t" "look ?t ?cwd = Some EDir"
    using assms(1) by (simp_all add: workspace_ready_def plain_workspace_def)
  have start: "staged ?t R ?t" using wf(1) by (simp add: staged_def contained_refl)
  note same = contained_refl [OF wf(1), of R]
  show ?thesis
  proof (cases "write_input_of j")
    case None
    with same show ?thesis by (simp add: execute_write_def)
  next
    case (Some input)
    note input = this
    show ?thesis
    proof (cases "validate_write_path (fs_of ?cwd ?t) (win_path input) ctx")
      case (Inl e)
      with input same show ?thesis by (simp add: execute_write_def)
    next
      case (Inr p)
      have p: "accepted ?cwd ?t R p" using wf assms(2,3) Inr by (rule validate_write_accepted)
      obtain r1 d1 where d1: "prepare_parent E input p d = (r1, d1)" by (rule prod.exhaust)
      from workspace.prepare_parent_keeps [where E = E and cwd = ?cwd and t = ?t and R = R, OF refl _ p, of d input]
        assms(1) start d1 have J1: "staged ?t R (fst d1)" by simp
      then have I1: "contained ?t R (fst d1)" by (rule staged_contained)
      obtain r2 d2 where d2: "atomic_write E p (win_content input) d1 = (r2, d2)" by (rule prod.exhaust)
      from workspace.atomic_write_keeps [where E = E and cwd = ?cwd and t = ?t and R = R, OF refl _ p,
          of d1 "win_content input"] assms(1) J1 d2 have I2: "contained ?t R (fst d2)" by simp
      show ?thesis
        using input Inr d1 d2 I1 I2
        by (cases r1; cases "write_target E input p (fst d1)"; cases r2) (auto simp: execute_write_def)
    qed
  qed
qed

section \<open>A concrete workspace\<close>

definition sample_tool_env :: file_env where
  "sample_tool_env = \<lparr>te_cwd = [''ws''], te_faults = \<lambda>_. None, te_nanos = id, te_sha256 = id,
     te_write_order = id, te_delete_order = id, te_print = \<lambda>_. [], te_decode_error = \<lambda>_. []\<rparr>"

definition sample_tool_ctx :: tool_context where
  "sample_tool_ctx = \<lparr>tc_working_dir = ''/ws'', tc_workspace_root = Some ''/ws'', tc_timeout_secs = 1,
     tc_allow_network = False, tc_environment = Map.empty, tc_max_output_bytes = 100, tc_artifact_dir = None,
     tc_current_tool_call_id = None, tc_ignore_patterns = []\<rparr>"

definition sample_tree :: tree where
  "sample_tree = [([''etc''], EDir), ([''etc'', ''a''], EFile ''x''), ([''ws''], EDir), ([''ws'', ''a''], EFile ''one'')]"

definition document :: "string list \<Rightarrow> json" where
  "document ls = VObject [(''path'', VString ''a''), (''patch'', VString (join nl ls))]"

lemma sample_ready: "workspace_ready [''ws''] sample_tree [''ws'']"
  by (auto simp: workspace_ready_def plain_workspace_def tree_wf_def look_def sample_tree_def name_ok_def temp_of_def
      split: if_splits)

lemma sample_listed: "lists_entries sample_tool_env"
  by (simp add: lists_entries_def sample_tool_env_def)

text \<open>C26: whatever a patch document says and whatever fails on the way, the \<open>patch\<close> tool changes no
  entry outside the workspace (but for the temporary file of the workspace root itself), provided the
  workspace holds no symbolic link.\<close>

theorem patch_stays_in_workspace:
  assumes "workspace_ready (te_cwd E) t R" "lists_entries E"
    and "tc_workspace_root ctx = Some r" "place_of (te_cwd E) t r = Found R" "\<not> owned R k"
  shows "look (fst (snd (execute_patch E j ctx (t, n)))) k = look t k"
  using patch_contained [of E "(t, n)" R ctx r j] assms by (simp add: contained_def)

theorem patch_stays_in_workspace_witness:
  "look (fst (snd (execute_patch sample_tool_env (document [''<<< DELETE FILE: /etc/a'', ''<<< END DELETE FILE''])
     sample_tool_ctx (sample_tree, 0)))) [''etc'', ''a''] = Some (EFile ''x'')"
proof -
  have root: "place_of (te_cwd sample_tool_env) sample_tree ''/ws'' = Found [''ws'']" by code_simp
  have "\<not> owned [''ws''] [''etc'', ''a'']" by (simp add: owned_def)
  from patch_stays_in_workspace [where E = sample_tool_env, OF _ sample_listed _ root this] sample_ready show ?thesis
    by (simp add: sample_tool_env_def sample_tool_ctx_def) (simp add: look_def sample_tree_def)
qed

text \<open>The \<open>write\<close> tool changes no entry outside the workspace.\<close>

theorem write_stays_in_workspace:
  assumes "workspace_ready (te_cwd E) t R"
    and "tc_workspace_root ctx = Some r" "place_of (te_cwd E) t r = Found R" "\<not> owned R k"
  shows "look (fst (snd (execute_write E raw_diff j ctx (t, n)))) k = look t k"
  using write_contained [of E "(t, n)" R ctx r raw_diff j] assms by (simp add: contained_def)

theorem write_stays_in_workspace_witness:
  "look (fst (snd (execute_write sample_tool_env (\<lambda>_ _ _. ([], 0, 0))
     (VObject [(''path'', VString ''../etc/a''), (''content'', VString ''y'')]) sample_tool_ctx (sample_tree, 0))))
     [''etc'', ''a''] = Some (EFile ''x'')"
proof -
  have root: "place_of (te_cwd sample_tool_env) sample_tree ''/ws'' = Found [''ws'']" by code_simp
  have "\<not> owned [''ws''] [''etc'', ''a'']" by (simp add: owned_def)
  from write_stays_in_workspace [where E = sample_tool_env, OF _ _ root this] sample_ready show ?thesis
    by (simp add: sample_tool_env_def sample_tool_ctx_def) (simp add: look_def sample_tree_def)
qed

text \<open>The places left out above. A patch that deletes and adds the workspace root itself writes its
  temporary file beside the root.\<close>

theorem patch_of_root_leaves_temporary_file:
  "execute_patch sample_tool_env
     (document [''<<< DELETE FILE: .'', ''<<< END DELETE FILE'', ''<<< ADD FILE: .'', ''evil'', ''<<< END ADD FILE''])
     sample_tool_ctx (sample_tree, 7) =
   (Inl (TeExecutionFailed is_a_directory), (sample_tree @ [([''.ws.7.tmp''], EFile ''evil'')], 9))"
  by code_simp

definition linked_tree :: tree where
  "linked_tree = [([''out''], EDir), ([''ws''], EDir), ([''ws'', ''l''], ELink ''new/../../out'')]"

text \<open>With a dangling link in the workspace a patch can leave it: the first operation creates
  the directory that makes the link lead outside, the second writes through the link.\<close>

theorem patch_follows_dangling_link:
  "look (fst (snd (execute_patch sample_tool_env
     (document [''<<< ADD FILE: new/a'', ''<<< END ADD FILE'', ''<<< ADD FILE: l/evil'', ''text'', ''<<< END ADD FILE''])
     sample_tool_ctx (linked_tree, 0)))) [''out'', ''evil''] = Some (EFile ''text'')"
  by code_simp

end
