(* ===== verification/Patch_Policy.thy ===== *)
theory Patch_Policy
  imports Patch_Properties Policy_Engine
begin

text \<open>
  The policy engine and the \<open>patch\<close> tool together: the engine decides on the \<open>path\<close> field of the input,
  the tool changes the files that its document names.
\<close>

definition patch_request :: "string \<Rightarrow> string \<Rightarrow> policy_request" where
  "patch_request p doc = sample_request patch_name (VObject [(''path'', VString p), (''patch'', VString doc)]) Medium ModeYolo"

definition git_tree :: tree where
  "git_tree = [([''ws''], EDir), ([''ws'', ''.git''], EDir), ([''ws'', ''.git'', ''hooks''], EDir)]"

definition hook_document :: string where
  "hook_document = join nl [''<<< ADD FILE: .git/hooks/pre-commit'', ''run me'', ''<<< END ADD FILE'']"


end
