(* ===== verification/Control_Types.thy ===== *)
theory Control_Types
  imports Json Steering_Queue Approval
begin

text \<open>
  The control contract (\<open>control/contract.rs\<close> of \<open>gestalt-runtime\<close>): errors, requests and responses, and
  the encodings of those requests and responses that the idempotency cache stores. The newtypes
  for identifiers are strings. The encodings cannot fail; a response reads back from its own.
\<close>

section \<open>Errors\<close>

datatype control_error_code =
    CcValidation | CcConflict | CcQueueFull | CcLaggedCursor | CcExpiredCursor | CcNotFound
  | CcUnauthorizedPolicy | CcCancelled | CcUnavailable | CcInternalFailure

record control_error =
  ce_code :: control_error_code
  ce_message :: string
  ce_retryable :: bool
  ce_details :: "json option"
  ce_correlation_id :: "string option"

section \<open>Sessions\<close>

record start_request =
  srq_session_id :: "string option"
  srq_idempotency_key :: "string option"
  srq_config_override :: "json option"

record start_response =
  srs_session_id :: string
  srs_run_id :: string
  srs_correlation_id :: "string option"

record continue_request =
  crq_session_id :: string
  crq_run_id :: string
  crq_message :: string
  crq_idempotency_key :: "string option"

record continue_response =
  crs_session_id :: string
  crs_run_id :: string
  crs_acknowledged :: bool
  crs_correlation_id :: "string option"

record resume_request =
  rrq_session_id :: string
  rrq_run_id :: string
  rrq_idempotency_key :: "string option"

record resume_response =
  rrs_session_id :: string
  rrs_run_id :: string
  rrs_correlation_id :: "string option"

record branch_request =
  brq_parent_session_id :: string
  brq_parent_run_id :: string
  brq_new_session_id :: "string option"
  brq_idempotency_key :: "string option"

record branch_response =
  brs_new_session_id :: string
  brs_new_run_id :: string
  brs_correlation_id :: "string option"

record submit_request =
  mrq_session_id :: string
  mrq_message :: string
  mrq_idempotency_key :: "string option"

record submit_response =
  mrs_session_id :: string
  mrs_message_id :: string
  mrs_acknowledged :: bool
  mrs_correlation_id :: "string option"

record cancel_request =
  xrq_session_id :: string
  xrq_run_id :: string
  xrq_correlation_id :: "string option"

record cancel_response =
  xrs_session_id :: string
  xrs_run_id :: string
  xrs_cancelled :: bool

datatype run_status = RsQueued | RsRunning | RsCompleted | RsFailed | RsCancelled

section \<open>Policies and approvals\<close>

datatype execution_backend = BackendSandbox | BackendLocal | BackendRemote

datatype policy_verdict = PvAllow | PvDeny | PvRequiresApproval

text \<open>\<open>RiskLevelV1\<close> has the levels of the core's \<open>RiskLevel\<close>; the same type stands for both.\<close>

record policy_projection =
  pj_tool_call_id :: string
  pj_canonical_tool_id :: string
  pj_input_hash :: string
  pj_risk_level :: risk_level
  pj_execution_backend :: execution_backend
  pj_decision :: policy_verdict
  pj_reason :: "string option"
  pj_matched_rule :: "string option"
  pj_source :: "string option"

record grant_terms =
  gt_tool_name :: string
  gt_input_hash :: string
  gt_risk_ceiling :: risk_level
  gt_matched_rule :: string
  gt_policy_source :: string
  gt_expires_in_turns :: nat

record approval_projection =
  ap_approval_id :: string
  ap_tool_call_id :: string
  ap_correlation_id :: "string option"
  ap_summary :: string
  ap_editable_input_rules :: "json option"
  ap_original_hash :: string
  ap_edited_hash :: "string option"
  ap_expires_at :: "string option"
  ap_is_cancelled :: bool
  ap_session_grant_terms :: "grant_terms option"

datatype control_decision = CdApprove | CdDeny | CdEdit json | CdAlwaysAllowForSession

record approval_response =
  apr_success :: bool
  apr_original_hash :: string
  apr_edited_hash :: "string option"
  apr_session_grant_terms :: "grant_terms option"

section \<open>Events\<close>

datatype event_payload =
    EpSessionStarted
  | EpMessageQueued string
  | EpRunCompleted
  | EpRunFailed string
  | EpApprovalRequested string
  | EpRunCancelled
  | EpArtifactCreated string
  | EpRunStarted
  | EpAssistantText string
  | EpToolCallProposed string string json
  | EpPolicyDecision string
  | EpToolResult string string bool
  | EpUnknown

record control_event =
  ev_schema_version :: nat
  ev_sequence_number :: nat
  ev_run_id :: string
  ev_session_id :: string
  ev_timestamp :: string
  ev_payload :: event_payload

record poll_request =
  prq_session_id :: string
  prq_cursor :: "string option"
  prq_limit :: "nat option"
  prq_kinds :: "string list option"

record poll_response =
  prs_events :: "control_event list"
  prs_next_cursor :: "string option"

section \<open>Artifacts\<close>

record artifact_metadata =
  am_logical_id :: string
  am_display_path :: string
  am_size :: nat
  am_media_type :: string
  am_integrity :: string

record read_range_request =
  arq_session_id :: string
  arq_artifact_id :: string
  arq_offset :: nat
  arq_length :: nat

record read_range_response =
  ars_metadata :: artifact_metadata
  ars_offset :: nat
  ars_length :: nat
  ars_data :: "nat list"

record create_artifact_request =
  car_session_id :: string
  car_display_path :: string
  car_data :: "nat list"

section \<open>Encodings\<close>

definition start_request_json :: "start_request \<Rightarrow> json" where
  "start_request_json r = VObject
     [(''config_override'', json_option id (srq_config_override r)),
      (''idempotency_key'', json_option VString (srq_idempotency_key r)),
      (''session_id'', json_option VString (srq_session_id r))]"

definition continue_request_json :: "continue_request \<Rightarrow> json" where
  "continue_request_json r = VObject
     [(''idempotency_key'', json_option VString (crq_idempotency_key r)),
      (''message'', VString (crq_message r)), (''run_id'', VString (crq_run_id r)),
      (''session_id'', VString (crq_session_id r))]"

definition resume_request_json :: "resume_request \<Rightarrow> json" where
  "resume_request_json r = VObject
     [(''idempotency_key'', json_option VString (rrq_idempotency_key r)),
      (''run_id'', VString (rrq_run_id r)), (''session_id'', VString (rrq_session_id r))]"

definition branch_request_json :: "branch_request \<Rightarrow> json" where
  "branch_request_json r = VObject
     [(''idempotency_key'', json_option VString (brq_idempotency_key r)),
      (''new_session_id'', json_option VString (brq_new_session_id r)),
      (''parent_run_id'', VString (brq_parent_run_id r)),
      (''parent_session_id'', VString (brq_parent_session_id r))]"

definition submit_request_json :: "submit_request \<Rightarrow> json" where
  "submit_request_json r = VObject
     [(''idempotency_key'', json_option VString (mrq_idempotency_key r)),
      (''message'', VString (mrq_message r)), (''session_id'', VString (mrq_session_id r))]"

definition start_response_json :: "start_response \<Rightarrow> json" where
  "start_response_json r = VObject
     [(''correlation_id'', json_option VString (srs_correlation_id r)),
      (''run_id'', VString (srs_run_id r)), (''session_id'', VString (srs_session_id r))]"

definition start_response_of :: "json \<Rightarrow> start_response option" where
  "start_response_of j =
     Option.bind (get_field as_str ''session_id'' j) (\<lambda>sid.
     Option.bind (get_field as_str ''run_id'' j) (\<lambda>rid.
     Option.bind (get_field_or None (nullable as_str) ''correlation_id'' j) (\<lambda>cid.
       Some \<lparr>srs_session_id = sid, srs_run_id = rid, srs_correlation_id = cid\<rparr>)))"

definition resume_response_json :: "resume_response \<Rightarrow> json" where
  "resume_response_json r = VObject
     [(''correlation_id'', json_option VString (rrs_correlation_id r)),
      (''run_id'', VString (rrs_run_id r)), (''session_id'', VString (rrs_session_id r))]"

definition resume_response_of :: "json \<Rightarrow> resume_response option" where
  "resume_response_of j =
     Option.bind (get_field as_str ''session_id'' j) (\<lambda>sid.
     Option.bind (get_field as_str ''run_id'' j) (\<lambda>rid.
     Option.bind (get_field_or None (nullable as_str) ''correlation_id'' j) (\<lambda>cid.
       Some \<lparr>rrs_session_id = sid, rrs_run_id = rid, rrs_correlation_id = cid\<rparr>)))"

definition branch_response_json :: "branch_response \<Rightarrow> json" where
  "branch_response_json r = VObject
     [(''correlation_id'', json_option VString (brs_correlation_id r)),
      (''new_run_id'', VString (brs_new_run_id r)), (''new_session_id'', VString (brs_new_session_id r))]"

definition branch_response_of :: "json \<Rightarrow> branch_response option" where
  "branch_response_of j =
     Option.bind (get_field as_str ''new_session_id'' j) (\<lambda>sid.
     Option.bind (get_field as_str ''new_run_id'' j) (\<lambda>rid.
     Option.bind (get_field_or None (nullable as_str) ''correlation_id'' j) (\<lambda>cid.
       Some \<lparr>brs_new_session_id = sid, brs_new_run_id = rid, brs_correlation_id = cid\<rparr>)))"

definition submit_response_json :: "submit_response \<Rightarrow> json" where
  "submit_response_json r = VObject
     [(''acknowledged'', VBool (mrs_acknowledged r)),
      (''correlation_id'', json_option VString (mrs_correlation_id r)),
      (''message_id'', VString (mrs_message_id r)), (''session_id'', VString (mrs_session_id r))]"

definition submit_response_of :: "json \<Rightarrow> submit_response option" where
  "submit_response_of j =
     Option.bind (get_field as_str ''session_id'' j) (\<lambda>sid.
     Option.bind (get_field as_str ''message_id'' j) (\<lambda>mid.
     Option.bind (get_field as_bool ''acknowledged'' j) (\<lambda>ack.
     Option.bind (get_field_or None (nullable as_str) ''correlation_id'' j) (\<lambda>cid.
       Some \<lparr>mrs_session_id = sid, mrs_message_id = mid, mrs_acknowledged = ack, mrs_correlation_id = cid\<rparr>))))"

lemma response_reads_back [simp]:
  "start_response_of (start_response_json a) = Some a"
  "resume_response_of (resume_response_json b) = Some b"
  "branch_response_of (branch_response_json c) = Some c"
  "submit_response_of (submit_response_json d) = Some d"
  by (simp_all add: start_response_of_def start_response_json_def resume_response_of_def resume_response_json_def
      branch_response_of_def branch_response_json_def submit_response_of_def submit_response_json_def
      get_field_def get_field_or_def nullable_def json_option_def split: option.splits)

end
