(* ===== verification/Control_Host.thy ===== *)
theory Control_Host
  imports Control_Types "HOL-Library.AList"
begin

text \<open>
  The control host that keeps everything in memory (\<open>control/host.rs\<close>). The host state is behind one
  mutex and a queue behind its own, so an operation is a sequence of atomic sections: each
  section is a definition here, and an operation composes its sections without interference.
  Hash maps are association lists, in the order in which they are iterated; queues are shared,
  so a session holds the address of its queue. Time is an argument (nanoseconds). The
  encodings do not fail, so the errors that report such failures do not occur.
\<close>

section \<open>State\<close>

definition default_control_queue_capacity :: nat where
  "default_control_queue_capacity = 64"

definition max_artifact_read_bytes :: nat where
  "max_artifact_read_bytes = 1024 * 1024"

definition cursor_ttl_seconds :: int where
  "cursor_ttl_seconds = 24 * 60 * 60"

record control_host_options =
  ho_queue_capacity :: nat
  ho_event_retention :: nat
  ho_max_artifact_read_bytes :: nat

definition control_host_options_default :: control_host_options where
  "control_host_options_default = \<lparr>ho_queue_capacity = default_control_queue_capacity,
     ho_event_retention = 4096, ho_max_artifact_read_bytes = max_artifact_read_bytes\<rparr>"

text \<open>The options and the libraries: SHA-256 as hexadecimal text, RFC 3339 timestamps.\<close>

record host_env =
  he_options :: control_host_options
  he_sha256 :: "nat list \<Rightarrow> string"
  he_rfc3339 :: "int \<Rightarrow> string"
  he_parse_rfc3339 :: "string \<Rightarrow> int option"

record session_entry =
  se_runs :: "string list"
  se_active_run :: "string option"
  se_queue :: nat

record artifact_entry =
  ae_metadata :: artifact_metadata
  ae_data :: "nat list"

record host_state =
  hs_sessions :: "(string \<times> session_entry) list"
  hs_run_status :: "(string \<times> run_status) list"
  hs_idempotency :: "(string \<times> json \<times> json) list"
  hs_approvals :: "(string \<times> approval_projection) list"
  hs_answered_approvals :: "(string \<times> approval_response) list"
  hs_policy_projections :: "(string \<times> policy_projection) list"
  hs_events :: "(string \<times> control_event list) list"
  hs_artifacts :: "(string \<times> (string \<times> artifact_entry) list) list"
  hs_next_id :: nat
  hs_next_failure :: "control_error option"
  hs_queues :: "steering_queue list"

definition host_state_default :: host_state where
  "host_state_default = \<lparr>hs_sessions = [], hs_run_status = [], hs_idempotency = [], hs_approvals = [],
     hs_answered_approvals = [], hs_policy_projections = [], hs_events = [], hs_artifacts = [],
     hs_next_id = 1, hs_next_failure = None, hs_queues = []\<rparr>"

section \<open>Helpers\<close>

definition plain_error :: "control_error_code \<Rightarrow> string \<Rightarrow> control_error" where
  "plain_error code message = \<lparr>ce_code = code, ce_message = message, ce_retryable = False,
     ce_details = None, ce_correlation_id = None\<rparr>"

definition cc_validation :: "string \<Rightarrow> control_error" where
  "cc_validation message = plain_error CcValidation message"

definition cc_not_found :: "string \<Rightarrow> control_error" where
  "cc_not_found message = plain_error CcNotFound message"

definition cc_conflict :: "string \<Rightarrow> control_error" where
  "cc_conflict message = plain_error CcConflict message"

definition queue_full_error :: control_error where
  "queue_full_error = \<lparr>ce_code = CcQueueFull, ce_message = ''session queue is full'', ce_retryable = True,
     ce_details = None, ce_correlation_id = None\<rparr>"

definition is_control_char :: "char \<Rightarrow> bool" where
  "is_control_char c \<longleftrightarrow> (of_char c :: nat) < 32 \<or> (of_char c :: nat) = 127 \<or>
     128 \<le> (of_char c :: nat) \<and> (of_char c :: nat) < 160"

definition is_ascii_alphabetic :: "char \<Rightarrow> bool" where
  "is_ascii_alphabetic c \<longleftrightarrow> 97 \<le> (of_char (to_ascii_lower c) :: nat) \<and> (of_char (to_ascii_lower c) :: nat) \<le> 122"

definition has_windows_prefix :: "string \<Rightarrow> bool" where
  "has_windows_prefix p = (case p of c # d # _ \<Rightarrow> d = CHR '':'' \<and> is_ascii_alphabetic c | _ \<Rightarrow> False)"

definition validate_artifact_display_path :: "string \<Rightarrow> control_error option" where
  "validate_artifact_display_path p =
     (let has_invalid_segment = list_ex (\<lambda>s. s = [] \<or> s = ''.'' \<or> s = ''..'') (split_on CHR ''/'' p)
      in if p = [] \<or> starts_with p ''/'' \<or> CHR 0x5C \<in> set p \<or> has_invalid_segment \<or> has_windows_prefix p \<or>
           list_ex is_control_char p
         then Some (cc_validation ''artifact display path must be a safe, non-empty logical path'')
         else None)"

definition next_id :: "string \<Rightarrow> host_state \<Rightarrow> string \<times> host_state" where
  "next_id kind s = (kind @ ''-'' @ dec (hs_next_id s), s\<lparr>hs_next_id := hs_next_id s + 1\<rparr>)"

definition cursor_stream_key :: "host_env \<Rightarrow> string \<Rightarrow> string" where
  "cursor_stream_key E session_id = he_sha256 E (utf8_bytes session_id)"

definition timestamp :: "int \<Rightarrow> int" where
  "timestamp now = now div 1000000000"

definition int_text :: "int \<Rightarrow> string" where
  "int_text n = (if n < 0 then ''-'' @ dec (nat (- n)) else dec (nat n))"

definition cursor :: "host_env \<Rightarrow> int \<Rightarrow> string \<Rightarrow> nat \<Rightarrow> string" where
  "cursor E now session_id sequence =
     cursor_stream_key E session_id @ '':'' @ dec sequence @ '':'' @ int_text (timestamp now)"

definition session_events :: "host_state \<Rightarrow> string \<Rightarrow> control_event list" where
  "session_events s session_id = (case map_of (hs_events s) session_id of None \<Rightarrow> [] | Some es \<Rightarrow> es)"

definition next_sequence :: "control_event list \<Rightarrow> nat" where
  "next_sequence es = (if es = [] then 0 else saturating_add (ev_sequence_number (last es)) 1)"

text \<open>At most \<open>n\<close> events are kept, the last ones.\<close>

definition retain :: "nat \<Rightarrow> 'a list \<Rightarrow> 'a list" where
  "retain n xs = drop (length xs - n) xs"

definition push_event :: "host_env \<Rightarrow> int \<Rightarrow> string \<Rightarrow> string \<Rightarrow> event_payload \<Rightarrow> host_state \<Rightarrow> host_state" where
  "push_event E now session_id run_id payload s =
     (let es = session_events s session_id;
          e = \<lparr>ev_schema_version = 1, ev_sequence_number = next_sequence es, ev_run_id = run_id,
               ev_session_id = session_id, ev_timestamp = he_rfc3339 E now, ev_payload = payload\<rparr>
      in s\<lparr>hs_events := AList.update session_id (retain (ho_event_retention (he_options E)) (es @ [e])) (hs_events s)\<rparr>)"

definition replay :: "(json \<Rightarrow> 'a option) \<Rightarrow> host_state \<Rightarrow> string option \<Rightarrow> json \<Rightarrow> control_error + 'a option" where
  "replay decode s key request = (case Option.bind key (map_of (hs_idempotency s)) of
       None \<Rightarrow> Inr None
     | Some (previous_request, response) \<Rightarrow>
         if previous_request \<noteq> request then
           Inl (cc_conflict ''idempotency key was already used with different input'')
         else (case decode response of
             None \<Rightarrow> Inl (cc_validation ''cached response is invalid'') | Some r \<Rightarrow> Inr (Some r)))"

definition remember :: "string option \<Rightarrow> json \<Rightarrow> json \<Rightarrow> host_state \<Rightarrow> host_state" where
  "remember key request response s = (case key of
       None \<Rightarrow> s
     | Some k \<Rightarrow> s\<lparr>hs_idempotency := AList.update k (request, response) (hs_idempotency s)\<rparr>)"

definition add_approval :: "approval_projection \<Rightarrow> host_state \<Rightarrow> host_state" where
  "add_approval a s = s\<lparr>hs_approvals := AList.update (ap_approval_id a) a (hs_approvals s)\<rparr>"

definition add_policy_projection :: "policy_projection \<Rightarrow> host_state \<Rightarrow> host_state" where
  "add_policy_projection p s =
     s\<lparr>hs_policy_projections := AList.update (pj_tool_call_id p) p (hs_policy_projections s)\<rparr>"

definition fail_next :: "control_error \<Rightarrow> host_state \<Rightarrow> host_state" where
  "fail_next e s = s\<lparr>hs_next_failure := Some e\<rparr>"

text \<open>A new queue, and a new session that holds one.\<close>

definition put_session :: "host_env \<Rightarrow> string \<Rightarrow> string \<Rightarrow> string option \<Rightarrow> host_state \<Rightarrow> host_state" where
  "put_session E session_id run_id active s =
     s\<lparr>hs_sessions := AList.update session_id
         \<lparr>se_runs = [run_id], se_active_run = active, se_queue = length (hs_queues s)\<rparr> (hs_sessions s),
       hs_queues := hs_queues s @ [active_with_capacity (ho_queue_capacity (he_options E))]\<rparr>"

definition set_status :: "string \<Rightarrow> run_status \<Rightarrow> host_state \<Rightarrow> host_state" where
  "set_status run_id status s = s\<lparr>hs_run_status := AList.update run_id status (hs_run_status s)\<rparr>"

definition set_active :: "string \<Rightarrow> string option \<Rightarrow> host_state \<Rightarrow> host_state" where
  "set_active session_id active s =
     s\<lparr>hs_sessions := AList.map_entry session_id (se_active_run_update (\<lambda>_. active)) (hs_sessions s)\<rparr>"

definition seed_session :: "host_env \<Rightarrow> string \<Rightarrow> string \<Rightarrow> host_state \<Rightarrow> host_state" where
  "seed_session E session_id run_id s = set_status run_id RsCompleted (put_session E session_id run_id None s)"

text \<open>A queue's own section; queues are never removed.\<close>

definition on_queue :: "nat \<Rightarrow> (steering_queue \<Rightarrow> 'a \<times> steering_queue) \<Rightarrow> host_state \<Rightarrow> 'a \<times> host_state" where
  "on_queue q f s = (case f (hs_queues s ! q) of (r, q2) \<Rightarrow> (r, s\<lparr>hs_queues := (hs_queues s)[q := q2]\<rparr>))"

definition set_lifecycle :: "nat \<Rightarrow> queue_lifecycle \<Rightarrow> host_state \<Rightarrow> host_state" where
  "set_lifecycle q state s = snd (on_queue q (\<lambda>x. ((), update_lifecycle state x)) s)"

section \<open>Completion of a run\<close>

definition complete_find :: "string \<Rightarrow> host_state \<Rightarrow> control_error + nat" where
  "complete_find session_id s = (case map_of (hs_sessions s) session_id of
       None \<Rightarrow> Inl (cc_not_found ''session not found'') | Some se \<Rightarrow> Inr (se_queue se))"

definition complete_mark :: "host_env \<Rightarrow> int \<Rightarrow> string \<Rightarrow> string \<Rightarrow> host_state \<Rightarrow> (control_error + unit) \<times> host_state" where
  "complete_mark E now session_id run_id s = (case map_of (hs_run_status s) run_id of
       None \<Rightarrow> (Inl (cc_not_found ''run not found''), s)
     | Some _ \<Rightarrow> (Inr (), push_event E now session_id run_id EpRunCompleted
         (set_active session_id None (set_status run_id RsCompleted s))))"

definition complete_run :: "host_env \<Rightarrow> int \<Rightarrow> string \<Rightarrow> string \<Rightarrow> host_state \<Rightarrow> (control_error + unit) \<times> host_state" where
  "complete_run E now session_id run_id s = (case complete_find session_id s of
       Inl e \<Rightarrow> (Inl e, s)
     | Inr q \<Rightarrow> complete_mark E now session_id run_id (set_lifecycle q Completed s))"

section \<open>Starting, resuming and branching\<close>

definition start_session :: "host_env \<Rightarrow> int \<Rightarrow> start_request \<Rightarrow> host_state
    \<Rightarrow> (control_error + start_response) \<times> host_state" where
  "start_session E now req s = (case hs_next_failure s of
       Some e \<Rightarrow> (Inl e, s\<lparr>hs_next_failure := None\<rparr>)
     | None \<Rightarrow> (case replay start_response_of s (srq_idempotency_key req) (start_request_json req) of
         Inl e \<Rightarrow> (Inl e, s)
       | Inr (Some response) \<Rightarrow> (Inr response, s)
       | Inr None \<Rightarrow>
           (case (case srq_session_id req of Some i \<Rightarrow> (i, s) | None \<Rightarrow> next_id ''session'' s) of (session_id, s1) \<Rightarrow>
              if map_of (hs_sessions s1) session_id \<noteq> None then
                (Inl (cc_conflict ''session already exists''), s1)
              else (case next_id ''run'' s1 of (run_id, s2) \<Rightarrow>
                (let s3 = push_event E now session_id run_id EpSessionStarted
                       (set_status run_id RsRunning (put_session E session_id run_id (Some run_id) s2));
                     response = \<lparr>srs_session_id = session_id, srs_run_id = run_id, srs_correlation_id = None\<rparr>
                 in (Inr response, remember (srq_idempotency_key req) (start_request_json req)
                       (start_response_json response) s3))))))"

definition can_resume :: "resume_request \<Rightarrow> host_state \<Rightarrow> bool" where
  "can_resume req s \<longleftrightarrow>
     (case map_of (hs_sessions s) (rrq_session_id req) of
        None \<Rightarrow> False | Some se \<Rightarrow> rrq_run_id req \<in> set (se_runs se)) \<and>
     map_of (hs_run_status s) (rrq_run_id req) = Some RsCompleted"

text \<open>The first section ends the operation (\<open>Inl\<close>) or names the queue to activate.\<close>

definition resume_claim :: "resume_request \<Rightarrow> host_state \<Rightarrow> ((control_error + resume_response) + nat) \<times> host_state" where
  "resume_claim req s = (case replay resume_response_of s (rrq_idempotency_key req) (resume_request_json req) of
       Inl e \<Rightarrow> (Inl (Inl e), s)
     | Inr (Some response) \<Rightarrow> (Inl (Inr response), s)
     | Inr None \<Rightarrow>
         if \<not> can_resume req s then
           (Inl (Inl (cc_conflict ''run is not a resumable checkpoint for this session'')), s)
         else (case map_of (hs_sessions s) (rrq_session_id req) of
             None \<Rightarrow> (Inl (Inl (cc_not_found ''session not found'')), s)
           | Some se \<Rightarrow>
               if se_active_run se \<noteq> None then
                 (Inl (Inl (cc_conflict ''session already has an active run'')), s)
               else (Inr (se_queue se), set_status (rrq_run_id req) RsRunning
                      (set_active (rrq_session_id req) (Some (rrq_run_id req)) s))))"

definition resume_reply :: "resume_request \<Rightarrow> resume_response" where
  "resume_reply req = \<lparr>rrs_session_id = rrq_session_id req, rrs_run_id = rrq_run_id req, rrs_correlation_id = None\<rparr>"

definition resume_commit :: "resume_request \<Rightarrow> host_state \<Rightarrow> (control_error + resume_response) \<times> host_state" where
  "resume_commit req s = (Inr (resume_reply req),
     remember (rrq_idempotency_key req) (resume_request_json req) (resume_response_json (resume_reply req)) s)"

definition resume_session :: "resume_request \<Rightarrow> host_state \<Rightarrow> (control_error + resume_response) \<times> host_state" where
  "resume_session req s = (case resume_claim req s of
       (Inl r, s1) \<Rightarrow> (r, s1)
     | (Inr q, s1) \<Rightarrow> resume_commit req (set_lifecycle q Active s1))"

definition branch_session :: "host_env \<Rightarrow> branch_request \<Rightarrow> host_state \<Rightarrow> (control_error + branch_response) \<times> host_state" where
  "branch_session E req s = (case replay branch_response_of s (brq_idempotency_key req) (branch_request_json req) of
       Inl e \<Rightarrow> (Inl e, s)
     | Inr (Some response) \<Rightarrow> (Inr response, s)
     | Inr None \<Rightarrow>
         if \<not> (case map_of (hs_sessions s) (brq_parent_session_id req) of
                None \<Rightarrow> False | Some se \<Rightarrow> brq_parent_run_id req \<in> set (se_runs se)) then
           (Inl (cc_not_found ''parent session not found''), s)
         else (case (case brq_new_session_id req of Some i \<Rightarrow> (i, s) | None \<Rightarrow> next_id ''session'' s) of (session_id, s1) \<Rightarrow>
           if map_of (hs_sessions s1) session_id \<noteq> None then
             (Inl (cc_conflict ''branch session already exists''), s1)
           else (case next_id ''run'' s1 of (run_id, s2) \<Rightarrow>
             (let s3 = set_status run_id RsRunning (put_session E session_id run_id (Some run_id) s2);
                  response = \<lparr>brs_new_session_id = session_id, brs_new_run_id = run_id, brs_correlation_id = None\<rparr>
              in (Inr response, remember (brq_idempotency_key req) (branch_request_json req)
                    (branch_response_json response) s3)))))"

section \<open>Messages\<close>

text \<open>What a submission carries from section to section: the active run, the identifier of the
  message and the queue.\<close>

record submission =
  sb_run_id :: string
  sb_message_id :: string
  sb_queue :: nat

definition submit_claim :: "submit_request \<Rightarrow> host_state \<Rightarrow> ((control_error + submit_response) + submission) \<times> host_state" where
  "submit_claim req s = (case replay submit_response_of s (mrq_idempotency_key req) (submit_request_json req) of
       Inl e \<Rightarrow> (Inl (Inl e), s)
     | Inr (Some response) \<Rightarrow> (Inl (Inr response), s)
     | Inr None \<Rightarrow> (case map_of (hs_sessions s) (mrq_session_id req) of
         None \<Rightarrow> (Inl (Inl (cc_not_found ''active session not found'')), s)
       | Some se \<Rightarrow> (case se_active_run se of
           None \<Rightarrow> (Inl (Inl (cc_not_found ''active run not found'')), s)
         | Some run_id \<Rightarrow> (case next_id ''message'' s of (message_id, s1) \<Rightarrow>
             (Inr \<lparr>sb_run_id = run_id, sb_message_id = message_id, sb_queue = se_queue se\<rparr>, s1)))))"

definition queued_message :: "submit_request \<Rightarrow> string \<Rightarrow> queued_session_message" where
  "queued_message req message_id = \<lparr>qm_id = message_id, qm_content = mrq_message req, qm_source = SrcUser,
     qm_idempotency_key = mrq_idempotency_key req, qm_injected_at_turn = None\<rparr>"

definition ack_error :: "queue_ack \<Rightarrow> control_error option" where
  "ack_error ack = (case ack of
       Full \<Rightarrow> Some queue_full_error
     | Conflict \<Rightarrow> Some (cc_conflict ''idempotency key was already used with different input'')
     | SessionNotActive \<Rightarrow> Some (cc_conflict ''session is not accepting messages'')
     | SessionClosing \<Rightarrow> Some (cc_conflict ''session is not accepting messages'')
     | Duplicate \<Rightarrow> None
     | Queued \<Rightarrow> None)"

definition submit_enqueue :: "submit_request \<Rightarrow> submission \<Rightarrow> host_state \<Rightarrow> control_error option \<times> host_state" where
  "submit_enqueue req sb s =
     (case on_queue (sb_queue sb) (enqueue (queued_message req (sb_message_id sb))) s of (ack, s1) \<Rightarrow> (ack_error ack, s1))"

definition submit_reply :: "submit_request \<Rightarrow> submission \<Rightarrow> submit_response" where
  "submit_reply req sb = \<lparr>mrs_session_id = mrq_session_id req, mrs_message_id = sb_message_id sb,
     mrs_acknowledged = True, mrs_correlation_id = None\<rparr>"

definition submit_commit :: "host_env \<Rightarrow> int \<Rightarrow> submit_request \<Rightarrow> submission \<Rightarrow> host_state
    \<Rightarrow> (control_error + submit_response) \<times> host_state" where
  "submit_commit E now req sb s = (Inr (submit_reply req sb),
     remember (mrq_idempotency_key req) (submit_request_json req) (submit_response_json (submit_reply req sb))
       (push_event E now (mrq_session_id req) (sb_run_id sb) (EpMessageQueued (sb_message_id sb)) s))"

definition submit_message :: "host_env \<Rightarrow> int \<Rightarrow> submit_request \<Rightarrow> host_state
    \<Rightarrow> (control_error + submit_response) \<times> host_state" where
  "submit_message E now req s = (case submit_claim req s of
       (Inl r, s1) \<Rightarrow> (r, s1)
     | (Inr sb, s1) \<Rightarrow> (case submit_enqueue req sb s1 of
         (Some e, s2) \<Rightarrow> (Inl e, s2)
       | (None, s2) \<Rightarrow> submit_commit E now req sb s2))"

definition inspect_session :: "string \<Rightarrow> host_state \<Rightarrow> control_error + string option" where
  "inspect_session session_id s = (case map_of (hs_sessions s) session_id of
       None \<Rightarrow> Inl (cc_not_found ''session not found'') | Some se \<Rightarrow> Inr (se_active_run se))"

definition submit_of_continue :: "continue_request \<Rightarrow> submit_request" where
  "submit_of_continue req = \<lparr>mrq_session_id = crq_session_id req, mrq_message = crq_message req,
     mrq_idempotency_key = crq_idempotency_key req\<rparr>"

definition continue_session :: "host_env \<Rightarrow> int \<Rightarrow> continue_request \<Rightarrow> host_state
    \<Rightarrow> (control_error + continue_response) \<times> host_state" where
  "continue_session E now req s = (case inspect_session (crq_session_id req) s of
       Inl e \<Rightarrow> (Inl e, s)
     | Inr active \<Rightarrow>
         if active \<noteq> Some (crq_run_id req) then (Inl (cc_conflict ''run is not active for this session''), s)
         else (case submit_message E now (submit_of_continue req) s of
             (Inl e, s1) \<Rightarrow> (Inl e, s1)
           | (Inr r, s1) \<Rightarrow> (Inr \<lparr>crs_session_id = crq_session_id req, crs_run_id = crq_run_id req,
               crs_acknowledged = mrs_acknowledged r, crs_correlation_id = mrs_correlation_id r\<rparr>, s1)))"

section \<open>Cancellation\<close>

definition is_finished :: "run_status \<Rightarrow> bool" where
  "is_finished status \<longleftrightarrow> status \<in> {RsCompleted, RsFailed, RsCancelled}"

definition cancel_approval :: "string \<Rightarrow> approval_projection \<Rightarrow> approval_projection" where
  "cancel_approval session_id a =
     (if ap_correlation_id a = Some session_id then a\<lparr>ap_is_cancelled := True\<rparr> else a)"

text \<open>Whether the run was cancelled, and the queue of the session.\<close>

definition cancel_mark :: "host_env \<Rightarrow> int \<Rightarrow> cancel_request \<Rightarrow> host_state
    \<Rightarrow> (control_error + bool \<times> nat option) \<times> host_state" where
  "cancel_mark E now req s = (case map_of (hs_run_status s) (xrq_run_id req) of
       None \<Rightarrow> (Inl (cc_not_found ''run not found''), s)
     | Some status \<Rightarrow>
         (let s1 = (if is_finished status then s
                else push_event E now (xrq_session_id req) (xrq_run_id req) EpRunCancelled
                  (let s2 = set_active (xrq_session_id req) None (set_status (xrq_run_id req) RsCancelled s)
                   in s2\<lparr>hs_approvals := map (\<lambda>(k, a). (k, cancel_approval (xrq_session_id req) a)) (hs_approvals s2)\<rparr>))
          in (Inr (\<not> is_finished status, map_option se_queue (map_of (hs_sessions s1) (xrq_session_id req))), s1)))"

definition cancel_reply :: "cancel_request \<Rightarrow> bool \<Rightarrow> cancel_response" where
  "cancel_reply req cancelled =
     \<lparr>xrs_session_id = xrq_session_id req, xrs_run_id = xrq_run_id req, xrs_cancelled = cancelled\<rparr>"

definition cancel_queue :: "bool \<Rightarrow> nat option \<Rightarrow> host_state \<Rightarrow> host_state" where
  "cancel_queue cancelled q s = (case q of
       Some i \<Rightarrow> if cancelled then set_lifecycle i Completed s else s | None \<Rightarrow> s)"

definition cancel_run :: "host_env \<Rightarrow> int \<Rightarrow> cancel_request \<Rightarrow> host_state
    \<Rightarrow> (control_error + cancel_response) \<times> host_state" where
  "cancel_run E now req s = (case cancel_mark E now req s of
       (Inl e, s1) \<Rightarrow> (Inl e, s1)
     | (Inr (cancelled, q), s1) \<Rightarrow> (Inr (cancel_reply req cancelled), cancel_queue cancelled q s1))"

section \<open>Queries\<close>

definition list_sessions :: "host_state \<Rightarrow> string list" where
  "list_sessions s = map fst (hs_sessions s)"

definition list_runs :: "string \<Rightarrow> host_state \<Rightarrow> control_error + string list" where
  "list_runs session_id s = (case map_of (hs_sessions s) session_id of
       None \<Rightarrow> Inl (cc_not_found ''session not found'') | Some se \<Rightarrow> Inr (se_runs se))"

definition inspect_run :: "string \<Rightarrow> host_state \<Rightarrow> control_error + run_status" where
  "inspect_run run_id s = (case map_of (hs_run_status s) run_id of
       None \<Rightarrow> Inl (cc_not_found ''run not found'') | Some status \<Rightarrow> Inr status)"

definition active_sessions_count :: "host_state \<Rightarrow> nat" where
  "active_sessions_count s = length (hs_sessions s)"

section \<open>Approvals\<close>

definition list_pending_approvals :: "host_state \<Rightarrow> approval_projection list" where
  "list_pending_approvals s = map snd (hs_approvals s)"

definition edit_violates :: "json option \<Rightarrow> json \<Rightarrow> bool" where
  "edit_violates rules new_input \<longleftrightarrow>
     Option.bind (Option.bind rules (\<lambda>r. json_get r ''type'')) as_str = Some ''object'' \<and> as_object new_input = None"

definition approval_expired :: "host_env \<Rightarrow> int \<Rightarrow> approval_projection \<Rightarrow> bool" where
  "approval_expired E now a = (case Option.bind (ap_expires_at a) (he_parse_rfc3339 E) of
       None \<Rightarrow> False | Some expires \<Rightarrow> expires < now)"

text \<open>The answer to an approval that is still pending.\<close>

definition approval_answer :: "host_env \<Rightarrow> int \<Rightarrow> approval_projection \<Rightarrow> control_decision
    \<Rightarrow> control_error + approval_response" where
  "approval_answer E now a d =
     (if ap_is_cancelled a then Inl (cc_conflict ''approval was cancelled'')
      else if approval_expired E now a then Inl (cc_conflict ''approval expired'')
      else (case (case d of
            CdEdit new_input \<Rightarrow>
              if edit_violates (ap_editable_input_rules a) new_input
              then Inl (cc_validation ''edited input violates editable input rules'')
              else Inr (Some (hash_input new_input))
          | _ \<Rightarrow> Inr (ap_edited_hash a)) of
          Inl e \<Rightarrow> Inl e
        | Inr edited \<Rightarrow> Inr \<lparr>apr_success = True, apr_original_hash = ap_original_hash a, apr_edited_hash = edited,
            apr_session_grant_terms = (if d = CdAlwaysAllowForSession then ap_session_grant_terms a else None)\<rparr>))"

definition respond_to_approval :: "host_env \<Rightarrow> int \<Rightarrow> string \<Rightarrow> control_decision \<Rightarrow> host_state
    \<Rightarrow> (control_error + approval_response) \<times> host_state" where
  "respond_to_approval E now approval_id d s =
     (if map_of (hs_answered_approvals s) approval_id \<noteq> None then
        (Inl (cc_conflict ''approval already answered''), s)
      else (case map_of (hs_approvals s) approval_id of
          None \<Rightarrow> (Inl (cc_not_found ''approval not found''), s)
        | Some a \<Rightarrow>
            (let s1 = s\<lparr>hs_approvals := AList.delete approval_id (hs_approvals s)\<rparr>
             in case approval_answer E now a d of
                  Inl e \<Rightarrow> (Inl e, s1)
                | Inr response \<Rightarrow> (Inr response,
                    s1\<lparr>hs_answered_approvals := AList.update approval_id response (hs_answered_approvals s1)\<rparr>))))"

definition get_policy_projection :: "string \<Rightarrow> host_state \<Rightarrow> control_error + policy_projection" where
  "get_policy_projection tool_call_id s = (case map_of (hs_policy_projections s) tool_call_id of
       None \<Rightarrow> Inl (cc_not_found ''policy projection not found'') | Some p \<Rightarrow> Inr p)"

section \<open>Polling events\<close>

text \<open>\<open>rsplit_once\<close>, and the integers Rust parses: digits with an optional sign, within range.\<close>

definition rsplit_once :: "char \<Rightarrow> string \<Rightarrow> (string \<times> string) option" where
  "rsplit_once c s =
     (if c \<in> set s
      then Some (rev (tl (dropWhile (\<lambda>x. x \<noteq> c) (rev s))), rev (takeWhile (\<lambda>x. x \<noteq> c) (rev s)))
      else None)"

definition parse_digits :: "string \<Rightarrow> nat option" where
  "parse_digits s = (if s \<noteq> [] \<and> list_all is_dec_digit s then Some (nat_of_dec s) else None)"

definition parse_u64 :: "string \<Rightarrow> nat option" where
  "parse_u64 s = (case parse_digits (if starts_with s ''+'' then tl s else s) of
       None \<Rightarrow> None | Some n \<Rightarrow> if n \<le> usize_max then Some n else None)"

definition parse_i64 :: "string \<Rightarrow> int option" where
  "parse_i64 s =
     (if starts_with s ''-'' then (case parse_digits (tl s) of
          None \<Rightarrow> None | Some n \<Rightarrow> if n \<le> 2 ^ 63 then Some (- int n) else None)
      else (case parse_digits (if starts_with s ''+'' then tl s else s) of
          None \<Rightarrow> None | Some n \<Rightarrow> if n < 2 ^ 63 then Some (int n) else None))"

definition saturating_sub_i64 :: "int \<Rightarrow> int \<Rightarrow> int" where
  "saturating_sub_i64 a b = max (- (2 ^ 63)) (min (2 ^ 63 - 1) (a - b))"

definition event_kind :: "event_payload \<Rightarrow> string" where
  "event_kind p = (case p of
       EpSessionStarted \<Rightarrow> ''session_started''
     | EpMessageQueued _ \<Rightarrow> ''message_queued''
     | EpRunCompleted \<Rightarrow> ''run_completed''
     | EpRunFailed _ \<Rightarrow> ''run_failed''
     | EpApprovalRequested _ \<Rightarrow> ''approval_requested''
     | EpRunCancelled \<Rightarrow> ''run_cancelled''
     | EpArtifactCreated _ \<Rightarrow> ''artifact_created''
     | EpRunStarted \<Rightarrow> ''run_started''
     | EpAssistantText _ \<Rightarrow> ''assistant_text''
     | EpToolCallProposed _ _ _ \<Rightarrow> ''tool_call_proposed''
     | EpPolicyDecision _ \<Rightarrow> ''policy_decision''
     | EpToolResult _ _ _ \<Rightarrow> ''tool_result''
     | EpUnknown \<Rightarrow> ''unknown'')"

definition cursor_error :: "host_env \<Rightarrow> int \<Rightarrow> string \<Rightarrow> nat \<Rightarrow> control_error_code \<Rightarrow> string \<Rightarrow> control_error" where
  "cursor_error E now session_id oldest code message = \<lparr>ce_code = code, ce_message = message, ce_retryable = False,
     ce_details = Some (VObject [(''newest_safe_cursor'', VString (cursor E now session_id oldest))]),
     ce_correlation_id = None\<rparr>"

definition malformed :: control_error where
  "malformed = cc_validation ''cursor is malformed''"

text \<open>The sequence number a cursor stands for.\<close>

definition cursor_start :: "host_env \<Rightarrow> int \<Rightarrow> string \<Rightarrow> nat \<Rightarrow> string \<Rightarrow> control_error + nat" where
  "cursor_start E now session_id oldest token = (case rsplit_once CHR '':'' token of
       None \<Rightarrow> Inl malformed
     | Some (front, issued_text) \<Rightarrow> (case rsplit_once CHR '':'' front of
         None \<Rightarrow> Inl malformed
       | Some (stream_key, sequence_text) \<Rightarrow>
           if stream_key \<noteq> cursor_stream_key E session_id then
             Inl (cc_validation ''cursor belongs to another stream'')
           else (case parse_i64 issued_text of
               None \<Rightarrow> Inl malformed
             | Some issued_at \<Rightarrow>
                 if saturating_sub_i64 (timestamp now) issued_at > cursor_ttl_seconds then
                   Inl (cursor_error E now session_id oldest CcExpiredCursor ''cursor has expired'')
                 else (case parse_u64 sequence_text of None \<Rightarrow> Inl malformed | Some n \<Rightarrow> Inr n))))"

definition wanted :: "string list option \<Rightarrow> control_event \<Rightarrow> bool" where
  "wanted kinds e = (case kinds of None \<Rightarrow> True | Some ks \<Rightarrow> event_kind (ev_payload e) \<in> set ks)"

definition poll_events :: "host_env \<Rightarrow> int \<Rightarrow> poll_request \<Rightarrow> host_state \<Rightarrow> control_error + poll_response" where
  "poll_events E now req s =
     (let events = session_events s (prq_session_id req);
          oldest = (if events = [] then 0 else ev_sequence_number (hd events))
      in case (case prq_cursor req of
             None \<Rightarrow> Inr oldest
           | Some token \<Rightarrow> cursor_start E now (prq_session_id req) oldest token) of
           Inl e \<Rightarrow> Inl e
         | Inr start \<Rightarrow>
             if start < oldest then
               Inl (cursor_error E now (prq_session_id req) oldest CcLaggedCursor ''cursor is outside retained history'')
             else
               (let limit = min (case prq_limit req of None \<Rightarrow> 100 | Some n \<Rightarrow> n) 1000;
                    filtered = take limit (filter (wanted (prq_kinds req))
                      (filter (\<lambda>e. ev_sequence_number e \<ge> start) events));
                    after = (if filtered = [] then start
                      else saturating_add (ev_sequence_number (last filtered)) 1)
                in Inr \<lparr>prs_events = filtered, prs_next_cursor = Some (cursor E now (prq_session_id req) after)\<rparr>))"

section \<open>Artifacts\<close>

definition artifacts_of :: "host_state \<Rightarrow> string \<Rightarrow> (string \<times> artifact_entry) list" where
  "artifacts_of s session_id = (case map_of (hs_artifacts s) session_id of None \<Rightarrow> [] | Some items \<Rightarrow> items)"

definition list_artifacts :: "string \<Rightarrow> host_state \<Rightarrow> artifact_metadata list" where
  "list_artifacts session_id s = map (\<lambda>(_, a). ae_metadata a) (artifacts_of s session_id)"

definition describe_artifact :: "string \<Rightarrow> string \<Rightarrow> host_state \<Rightarrow> control_error + artifact_metadata" where
  "describe_artifact session_id artifact_id s = (case map_of (artifacts_of s session_id) artifact_id of
       None \<Rightarrow> Inl (cc_not_found ''artifact not found'') | Some a \<Rightarrow> Inr (ae_metadata a))"

text \<open>The bytes of a range. \<open>u64\<close> and \<open>usize\<close> have the same width, so the conversions do not fail.\<close>

definition byte_range :: "nat \<Rightarrow> nat \<Rightarrow> nat list \<Rightarrow> control_error + nat list" where
  "byte_range offset length' data =
     (if offset + length' \<le> usize_max \<and> offset + length' \<le> length data
      then Inr (take length' (drop offset data))
      else Inl (cc_validation ''artifact range is invalid''))"

definition read_artifact_range :: "host_env \<Rightarrow> read_range_request \<Rightarrow> host_state \<Rightarrow> control_error + read_range_response" where
  "read_artifact_range E req s =
     (if arq_length req > ho_max_artifact_read_bytes (he_options E) then
        Inl (cc_validation ''artifact range exceeds limit'')
      else (case map_of (artifacts_of s (arq_session_id req)) (arq_artifact_id req) of
          None \<Rightarrow> Inl (cc_not_found ''artifact not found'')
        | Some a \<Rightarrow> (case byte_range (arq_offset req) (arq_length req) (ae_data a) of
            Inl e \<Rightarrow> Inl e
          | Inr bytes \<Rightarrow> Inr \<lparr>ars_metadata = ae_metadata a, ars_offset = arq_offset req, ars_length = arq_length req,
              ars_data = bytes\<rparr>)))"

definition new_metadata :: "host_env \<Rightarrow> string \<Rightarrow> string \<Rightarrow> nat list \<Rightarrow> artifact_metadata" where
  "new_metadata E logical_id display_path data = \<lparr>am_logical_id = logical_id, am_display_path = display_path,
     am_size = length data, am_media_type = ''application/octet-stream'', am_integrity = he_sha256 E data\<rparr>"

text \<open>The run an event of the session is filed under: the active one or the last.\<close>

definition event_run :: "host_state \<Rightarrow> string \<Rightarrow> string option" where
  "event_run s session_id = Option.bind (map_of (hs_sessions s) session_id)
     (\<lambda>se. case se_active_run se of
        Some r \<Rightarrow> Some r | None \<Rightarrow> if se_runs se = [] then None else Some (last (se_runs se)))"

definition create_artifact :: "host_env \<Rightarrow> int \<Rightarrow> create_artifact_request \<Rightarrow> host_state
    \<Rightarrow> (control_error + artifact_metadata) \<times> host_state" where
  "create_artifact E now req s = (case validate_artifact_display_path (car_display_path req) of
       Some e \<Rightarrow> (Inl e, s)
     | None \<Rightarrow>
         if map_of (hs_sessions s) (car_session_id req) = None then (Inl (cc_not_found ''session not found''), s)
         else (case next_id ''artifact'' s of (artifact_id, s1) \<Rightarrow>
           (let metadata = new_metadata E artifact_id (car_display_path req) (car_data req);
                items = AList.update artifact_id \<lparr>ae_metadata = metadata, ae_data = car_data req\<rparr>
                  (artifacts_of s1 (car_session_id req));
                s2 = s1\<lparr>hs_artifacts := AList.update (car_session_id req) items (hs_artifacts s1)\<rparr>
            in case event_run s2 (car_session_id req) of
                 None \<Rightarrow> (Inl (cc_not_found ''run not found''), s2)
               | Some run_id \<Rightarrow> (Inr metadata,
                   push_event E now (car_session_id req) run_id (EpArtifactCreated artifact_id) s2))))"

end
