(* ===== verification/Artifact_Store.thy ===== *)
theory Artifact_Store
  imports File_Tree Control_Host
begin

text \<open>
  Where the artifacts of sessions are kept (\<open>artifact_store.rs\<close> of \<open>gestalt-runtime\<close>): the trait as a record
  of operations over a state, the store in memory and the store in a directory. The interface
  \<open>artifact_isolation\<close> says what a host may expect of a store: what was put is read back, and a
  session's artifacts are not touched in the name of another.
\<close>

section \<open>The trait\<close>

text \<open>Names to bytes, by session. An operation returns an error text or a value.\<close>

record 'st store_ops =
  sto_put :: "string \<Rightarrow> string \<Rightarrow> nat list \<Rightarrow> 'st \<Rightarrow> (string + string) \<times> 'st"
  sto_get :: "string \<Rightarrow> string \<Rightarrow> 'st \<Rightarrow> string + nat list"
  sto_list :: "string \<Rightarrow> 'st \<Rightarrow> string + string list"

section \<open>In memory\<close>

type_synonym memory_store = "(string \<times> (string \<times> nat list) list) list"

definition memory_session :: "memory_store \<Rightarrow> string \<Rightarrow> (string \<times> nat list) list" where
  "memory_session st session_id = (case map_of st session_id of None \<Rightarrow> [] | Some m \<Rightarrow> m)"

definition memory_put :: "string \<Rightarrow> string \<Rightarrow> nat list \<Rightarrow> memory_store \<Rightarrow> (string + string) \<times> memory_store" where
  "memory_put session_id name content st =
     (Inr (''memory://'' @ session_id @ ''/'' @ name),
      AList.update session_id (AList.update name content (memory_session st session_id)) st)"

definition memory_get :: "string \<Rightarrow> string \<Rightarrow> memory_store \<Rightarrow> string + nat list" where
  "memory_get session_id name st = (case map_of (memory_session st session_id) name of
       None \<Rightarrow> Inl (''Artifact not found: '' @ name @ '' for session '' @ session_id)
     | Some content \<Rightarrow> Inr content)"

definition memory_list :: "string \<Rightarrow> memory_store \<Rightarrow> string + string list" where
  "memory_list session_id st = Inr (map fst (memory_session st session_id))"

definition memory_ops :: "memory_store store_ops" where
  "memory_ops = \<lparr>sto_put = memory_put, sto_get = memory_get, sto_list = memory_list\<rparr>"

section \<open>In a directory\<close>

definition session_dir :: "string \<Rightarrow> string \<Rightarrow> string + string" where
  "session_dir base session_id =
     (if session_id = [] \<or> str_contains session_id ''..'' \<or> CHR ''/'' \<in> set session_id \<or> CHR 0x5C \<in> set session_id \<or>
         list_ex is_control_char session_id
      then Inl ''Invalid session ID''
      else Inr (path_join base session_id))"

definition get_artifact_path :: "string \<Rightarrow> string \<Rightarrow> string \<Rightarrow> string + string" where
  "get_artifact_path base session_id name =
     (if name = [] \<or> CHR 0x5C \<in> set name \<or> list_ex is_control_char name \<or> has_windows_prefix name \<or>
         list_ex (\<lambda>w. w = []) (split_on CHR ''/'' name) \<or> list_ex (\<lambda>c. \<not> ordinary c) (path_components name)
      then Inl ''Invalid artifact name''
      else (case session_dir base session_id of Inl e \<Rightarrow> Inl e | Inr dir \<Rightarrow> Inr (path_join dir name)))"

text \<open>\<open>cwd\<close>, the faults and the base directory of the store.\<close>

record store_env =
  ste_cwd :: key
  ste_faults :: faults
  ste_base :: string

definition bytes_text :: "nat list \<Rightarrow> string" where
  "bytes_text bytes = map char_of bytes"

definition text_bytes :: "string \<Rightarrow> nat list" where
  "text_bytes s = map of_char s"

definition file_put :: "store_env \<Rightarrow> string \<Rightarrow> string \<Rightarrow> nat list \<Rightarrow> disk \<Rightarrow> (string + string) \<times> disk" where
  "file_put SE session_id name content d = (case get_artifact_path (ste_base SE) session_id name of
       Inl e \<Rightarrow> (Inl e, d)
     | Inr p \<Rightarrow>
         (case (case path_parent p of
              None \<Rightarrow> (None, d) | Some parent \<Rightarrow> create_dir_all (ste_faults SE) (ste_cwd SE) parent d) of
            (Some e, d1) \<Rightarrow> (Inl e, d1)
          | (None, d1) \<Rightarrow> (case write_file (ste_faults SE) (ste_cwd SE) p (bytes_text content) d1 of
              (Some e, d2) \<Rightarrow> (Inl e, d2) | (None, d2) \<Rightarrow> (Inr p, d2))))"

text \<open>\<open>fs::read\<close>; a file that is not text is not modelled by its bytes, so reading it is an error here.\<close>

definition file_get :: "store_env \<Rightarrow> string \<Rightarrow> string \<Rightarrow> disk \<Rightarrow> string + nat list" where
  "file_get SE session_id name d = (case get_artifact_path (ste_base SE) session_id name of
       Inl e \<Rightarrow> Inl e
     | Inr p \<Rightarrow> map_sum id text_bytes (read_to_string (ste_cwd SE) (fst d) p))"

text \<open>The files below a directory, without links: \<open>collect_artifacts\<close> with its recursion on the key.\<close>

definition collect_artifacts :: "tree \<Rightarrow> key \<Rightarrow> string list" where
  "collect_artifacts t k = map (\<lambda>(j, e). map (\<lambda>c. if c = CHR 0x5C then CHR ''/'' else c) (join ''/'' (drop (length k) j)))
     (filter (\<lambda>(j, e). is_file e \<and> prefix k j \<and> j \<noteq> k) t)"

definition file_list :: "store_env \<Rightarrow> string \<Rightarrow> disk \<Rightarrow> string + string list" where
  "file_list SE session_id d = (case session_dir (ste_base SE) session_id of
       Inl e \<Rightarrow> Inl e
     | Inr dir \<Rightarrow> (case place_of (ste_cwd SE) (fst d) dir of
         Found k \<Rightarrow> if look (fst d) k = Some EDir then Inr (collect_artifacts (fst d) k) else Inl not_a_directory
       | _ \<Rightarrow> Inr []))"

definition file_ops :: "store_env \<Rightarrow> disk store_ops" where
  "file_ops SE = \<lparr>sto_put = file_put SE, sto_get = file_get SE, sto_list = file_list SE\<rparr>"

section \<open>Isolation\<close>

locale artifact_isolation =
  fixes put :: "string \<Rightarrow> string \<Rightarrow> nat list \<Rightarrow> 'st \<Rightarrow> (string + string) \<times> 'st"
    and get :: "string \<Rightarrow> string \<Rightarrow> 'st \<Rightarrow> string + nat list"
  assumes put_get: "put a n c st = (Inr uri, st2) \<Longrightarrow> get a n st2 = Inr c"
    and put_frame: "put a n c st = (r, st2) \<Longrightarrow> (a, n) \<noteq> (b, m) \<Longrightarrow> get b m st2 = get b m st"
begin

lemma put_other_session: "put a n c st = (r, st2) \<Longrightarrow> a \<noteq> b \<Longrightarrow> get b m st2 = get b m st"
  by (erule put_frame) simp

lemma puts_other_session:
  assumes "\<forall>(a, n, c) \<in> set puts. a \<noteq> b"
  shows "get b m (fold (\<lambda>(a, n, c) st. snd (put a n c st)) puts st) = get b m st"
  using assms
proof (induction puts arbitrary: st)
  case (Cons p puts)
  obtain a n c where p: "p = (a, n, c)" by (rule prod_cases3)
  obtain r st2 where "put a n c st = (r, st2)" by (rule prod.exhaust)
  with Cons p put_other_session [of a n c st r st2 b m] show ?case by simp
qed simp

end

interpretation memory: artifact_isolation memory_put memory_get
  by unfold_locales
    (auto simp: memory_put_def memory_get_def memory_session_def update_conv' split: option.splits)

text \<open>Whatever is put in the memory store in the name of other sessions, a session reads its own
  artifacts as before, and reads back what it put last.\<close>

theorem memory_store_isolates:
  assumes "\<forall>(a, n, c) \<in> set puts. a \<noteq> b"
  shows "memory_get b m (fold (\<lambda>(a, n, c) st. snd (memory_put a n c st)) puts (snd (memory_put b m content st))) = Inr content"
  using memory.puts_other_session [OF assms] memory.put_get [of b m content st _ "snd (memory_put b m content st)"]
  by (simp add: memory_put_def)

theorem memory_store_isolates_witness:
  "memory_get ''b'' ''f'' (snd (memory_put ''.'' ''b/f'' [1] (snd (memory_put ''b'' ''f'' [2] [])))) = Inr [2]"
  using memory_store_isolates [of "[(''.'', ''b/f'', [1])]" "''b''" "''f''" "[2]" "[]"] by simp

definition sample_store :: store_env where
  "sample_store = \<lparr>ste_cwd = [], ste_faults = \<lambda>_. None, ste_base = ''/base''\<rparr>"

text \<open>The store in a directory does not isolate sessions: a session called \<open>.\<close> is accepted, lists the
  artifacts of every session, and reads and overwrites them.\<close>

theorem dot_session_reaches_other_sessions:
  "case file_put sample_store ''victim'' ''f'' [65] ([([''base''], EDir)], 0) of (r, d) \<Rightarrow>
     \<not> isl r \<and> file_list sample_store ''.'' d = Inr [''victim/f''] \<and>
     file_get sample_store ''.'' ''victim/f'' d = Inr [65] \<and>
     (case file_put sample_store ''.'' ''victim/f'' [66] d of (r2, d2) \<Rightarrow>
        \<not> isl r2 \<and> file_get sample_store ''victim'' ''f'' d2 = Inr [66])"
  by code_simp

lemma split_on_sep: "split_on c (s @ c # t) = split_on c s @ split_on c t"
  by (induction s) (auto split: list.splits)

definition normal_parts :: "string \<Rightarrow> string list" where
  "normal_parts b = filter (\<lambda>c. c \<noteq> [] \<and> c \<noteq> ''.'') (split_on CHR ''/'' b)"

lemma components_join:
  assumes "a \<noteq> []" "\<not> is_absolute b"
  shows "path_components (path_join a b) = path_components a @ normal_parts b"
proof (cases "ends_with a ''/''")
  case True
  then obtain a' where a: "a = a' @ ''/''" by (auto simp: ends_with_iff)
  have "split_on CHR ''/'' (a @ b) = split_on CHR ''/'' a' @ split_on CHR ''/'' b"
    "split_on CHR ''/'' a = split_on CHR ''/'' a' @ [[]]"
    using split_on_sep [of "CHR ''/''" a' b] split_on_sep [of "CHR ''/''" a' "[]"] by (simp_all add: a)
  moreover have "path_join a b = a @ b" using True assms by (simp add: path_join_def is_absolute_def)
  moreover have "starts_with (a @ b) ''/'' = starts_with a ''/''" using assms(1) by (cases a) (simp_all add: starts_with_def)
  ultimately show ?thesis by (simp add: path_components_def Let_def normal_parts_def)
next
  case False
  then have "path_join a b = a @ CHR ''/'' # b" using assms by (simp add: path_join_def is_absolute_def)
  moreover have "starts_with (a @ CHR ''/'' # b) ''/'' = starts_with a ''/''" using assms(1) by (cases a) (simp_all add: starts_with_def)
  ultimately show ?thesis by (simp add: path_components_def Let_def normal_parts_def split_on_sep)
qed

lemma session_part:
  assumes "\<not> str_contains sid ''..''" "CHR ''/'' \<notin> set sid"
  shows "''..'' \<notin> set (normal_parts sid)" "\<not> is_absolute sid"
proof -
  have "sid \<noteq> ''..''" using assms(1) by (auto simp: str_contains_iff)
  then show "''..'' \<notin> set (normal_parts sid)" using assms(2) by (simp add: normal_parts_def split_on_no_sep)
  show "\<not> is_absolute sid" using assms(2) by (auto simp: is_absolute_def starts_with_iff)
qed

lemma normal_parts_components: "set (normal_parts b) \<subseteq> set (path_components b)"
  by (auto simp: normal_parts_def path_components_def Let_def)

text \<open>C25: No session and no name leads the store out of its base directory: a path it uses continues the
  base without a parent step.\<close>

theorem artifact_path_below_base:
  assumes "get_artifact_path base session_id name = Inr p" "base \<noteq> []"
  shows "\<exists>rest. path_components p = path_components base @ rest \<and> ''..'' \<notin> set rest"
proof -
  from assms(1) obtain dir where dir: "session_dir base session_id = Inr dir" "p = path_join dir name"
    and name: "list_all ordinary (path_components name)"
    by (auto simp: get_artifact_path_def list_ex_iff list_all_iff split: if_splits sum.splits)
  from dir(1) have sid: "session_id \<noteq> []" "\<not> str_contains session_id ''..''" "CHR ''/'' \<notin> set session_id"
    and p: "dir = path_join base session_id" by (auto simp: session_dir_def split: if_splits)
  note part = session_part [OF sid(2,3)]
  have "\<not> is_absolute name"
  proof
    assume "is_absolute name"
    then have "''/'' \<in> set (path_components name)" by (simp add: path_components_def is_absolute_def Let_def)
    with name show False by (auto simp: list_all_iff ordinary_def)
  qed
  moreover have "dir \<noteq> []" using assms(2) sid(1) p by (auto simp: path_join_def)
  ultimately have "path_components p = path_components base @ normal_parts session_id @ normal_parts name"
    using components_join [of base session_id] components_join [of dir name] assms(2) part(2) p dir(2) by simp
  moreover have "''..'' \<notin> set (normal_parts name)"
    using name normal_parts_components [of name] by (auto simp: list_all_iff ordinary_def)
  ultimately show ?thesis using part(1) by (intro exI [of _ "normal_parts session_id @ normal_parts name"]) simp
qed

theorem artifact_path_below_base_witness:
  "\<exists>rest. path_components ''/base/s/a/b'' = path_components ''/base'' @ rest \<and> ''..'' \<notin> set rest"
  by (rule artifact_path_below_base [where session_id = "''s''" and name = "''a/b''"]) (code_simp, simp)

end
