(* ===== verification/Runtime_Sessions.thy ===== *)
theory Runtime_Sessions
  imports Artifact_Store Resume Effects
begin

text \<open>
  What the control host uses of the runtime: its configuration (\<open>config.rs\<close>), the sessions it creates
  (\<open>runtime.rs\<close>), the registry of runtimes (\<open>orchestration.rs\<close>), the broker of approvals (\<open>activation.rs\<close>) and
  the directories of runs (\<open>trace/mod.rs\<close>). Events on the runtime's bus are for observers and left out.
\<close>

section \<open>Errors\<close>

datatype runtime_error =
    ReHarness harness_error | ReBuilder string | ReRegistry string | ReExtension string | ReHook string
  | ReOrchestration string

fun runtime_error_to_string :: "runtime_error \<Rightarrow> string" where
  "runtime_error_to_string (ReHarness e) = ''harness error: '' @ error_to_string e"
| "runtime_error_to_string (ReBuilder m) = ''builder error: '' @ m"
| "runtime_error_to_string (ReRegistry m) = ''registry error: '' @ m"
| "runtime_error_to_string (ReExtension m) = ''extension error: '' @ m"
| "runtime_error_to_string (ReHook m) = ''hook error: '' @ m"
| "runtime_error_to_string (ReOrchestration m) = ''orchestration error: '' @ m"

section \<open>Configuration\<close>

record extension_timeouts_config =
  et_initialize_ms :: "nat option"
  et_hook_ms :: "nat option"
  et_context_ms :: "nat option"
  et_tool_ms :: "nat option"
  et_shutdown_ms :: "nat option"

definition extension_timeouts_default :: extension_timeouts_config where
  "extension_timeouts_default = \<lparr>et_initialize_ms = Some 10000, et_hook_ms = Some 5000, et_context_ms = Some 15000,
     et_tool_ms = Some 60000, et_shutdown_ms = Some 5000\<rparr>"

record extension_limits_config =
  el_max_message_bytes :: "nat option"
  el_max_pending_requests :: "nat option"
  el_max_protocol_errors :: "nat option"

definition extension_limits_default :: extension_limits_config where
  "extension_limits_default = \<lparr>el_max_message_bytes = Some 8388608, el_max_pending_requests = Some 16,
     el_max_protocol_errors = Some 3\<rparr>"

text \<open>Fields whose types belong to parts that are not modelled (tool profiles, skills, MCP servers, trust
  pins and extension instances) are in their encoded form.\<close>

record runtime_config =
  rc_workspace_root :: string
  rc_execution_mode :: execution_mode
  rc_max_turns :: nat
  rc_model :: string
  rc_provider :: string
  rc_max_tokens :: nat
  rc_temperature :: "f32 option"
  rc_max_context_window :: "nat option"
  rc_reserved_output_tokens :: "nat option"
  rc_resolved_model :: "resolved_model_snapshot option"
  rc_context_management_policy :: "context_management_policy option"
  rc_bash_timeout_secs :: "nat option"
  rc_max_output_tokens :: "nat option"
  rc_allow_network :: bool
  rc_environment :: "string \<rightharpoonup> string"
  rc_enabled_host_features :: "string list"
  rc_tool_profile :: json
  rc_trusted_extension_pins :: json
  rc_discovered_skills :: json
  rc_active_skills :: "string list"
  rc_mcp_servers :: json
  rc_mcp_discovery_threshold :: "nat option"
  rc_ignore_patterns :: "string list"
  rc_top_p :: "f32 option"
  rc_reasoning_effort :: "reasoning_effort option"
  rc_text_verbosity :: "text_verbosity option"
  rc_metadata :: json
  rc_extension_timeouts :: extension_timeouts_config
  rc_extension_limits :: extension_limits_config
  rc_extension_instances :: json
  rc_allow_untrusted_extensions :: bool
  rc_effective_config_fingerprint :: "string option"
  rc_steering_queue_capacity :: "nat option"

text \<open>\<open>cwd\<close> is the current directory, or \<open>.\<close> when there is none.\<close>

definition runtime_config_default :: "string \<Rightarrow> runtime_config" where
  "runtime_config_default cwd = \<lparr>rc_workspace_root = cwd, rc_execution_mode = ModeConfirm, rc_max_turns = 10,
     rc_model = [], rc_provider = [], rc_max_tokens = 4096, rc_temperature = Some 0,
     rc_max_context_window = None, rc_reserved_output_tokens = None, rc_resolved_model = None,
     rc_context_management_policy = Some context_policy_default, rc_bash_timeout_secs = None,
     rc_max_output_tokens = None, rc_allow_network = False, rc_environment = Map.empty,
     rc_enabled_host_features = [], rc_tool_profile = VNull, rc_trusted_extension_pins = VArray [],
     rc_discovered_skills = VArray [], rc_active_skills = [], rc_mcp_servers = VObject [],
     rc_mcp_discovery_threshold = Some 5, rc_ignore_patterns = [], rc_top_p = None, rc_reasoning_effort = None,
     rc_text_verbosity = None, rc_metadata = VNull, rc_extension_timeouts = extension_timeouts_default,
     rc_extension_limits = extension_limits_default, rc_extension_instances = VObject [],
     rc_allow_untrusted_extensions = False, rc_effective_config_fingerprint = None,
     rc_steering_queue_capacity = None\<rparr>"

section \<open>Sessions\<close>

text \<open>What a runtime is here: its configuration, its steering queue and whether it has a trace sink.\<close>

record agent_runtime =
  ar_config :: runtime_config
  ar_queue :: steering_queue
  ar_traced :: bool

definition runtime_new :: "runtime_config \<Rightarrow> bool \<Rightarrow> agent_runtime" where
  "runtime_new config traced = \<lparr>ar_config = config,
     ar_queue = active_with_capacity (case rc_steering_queue_capacity config of None \<Rightarrow> default_capacity | Some n \<Rightarrow> n),
     ar_traced = traced\<rparr>"

definition session_budget :: "runtime_config \<Rightarrow> token_budget" where
  "session_budget c = token_budget_default\<lparr>
     tb_model_limit := (case rc_max_context_window c of
         Some n \<Rightarrow> n | None \<Rightarrow> (case rc_resolved_model c of Some m \<Rightarrow> rm_max_context_tokens m | None \<Rightarrow> 120000)),
     tb_reserved_output := (case rc_reserved_output_tokens c of
         Some n \<Rightarrow> n
       | None \<Rightarrow> (case rc_resolved_model c of
           Some m \<Rightarrow> min (rm_max_output_tokens m) 8192
         | None \<Rightarrow> (case rc_max_output_tokens c of Some n \<Rightarrow> min n 8192 | None \<Rightarrow> 4096))),
     tb_minimum_turn_budget := 16\<rparr>"

text \<open>The snapshot of the workspace may fail; \<open>default_model\<close> is the provider's, \<open>namespace\<close> a fresh UUID.\<close>

definition create_session :: "string \<Rightarrow> runtime_error + workspace_snapshot \<Rightarrow> string \<Rightarrow> agent_runtime
    \<Rightarrow> string \<Rightarrow> string option \<Rightarrow> runtime_error + session" where
  "create_session default_model capture namespace r session_id artifact_dir = (case capture of
       Inl e \<Rightarrow> Inl e
     | Inr snapshot \<Rightarrow>
         (let c = ar_config r;
              s = session_new namespace session_id
                \<lparr>sc_model = (if rc_model c = [] then default_model else rc_model c), sc_provider = rc_provider c,
                 sc_max_tokens = rc_max_tokens c, sc_temperature = rc_temperature c, sc_max_turns = rc_max_turns c,
                 sc_top_p = rc_top_p c, sc_reasoning_effort = rc_reasoning_effort c,
                 sc_text_verbosity = rc_text_verbosity c, sc_metadata = rc_metadata c,
                 sc_resolved_model = rc_resolved_model c\<rparr>
                (session_budget c)
                \<lparr>tc_working_dir = rc_workspace_root c, tc_workspace_root = Some (rc_workspace_root c),
                 tc_timeout_secs = (case rc_bash_timeout_secs c of None \<Rightarrow> 60 | Some n \<Rightarrow> n),
                 tc_allow_network = rc_allow_network c, tc_environment = rc_environment c,
                 tc_max_output_bytes = (case rc_max_output_tokens c of None \<Rightarrow> 4000 | Some n \<Rightarrow> n),
                 tc_artifact_dir = artifact_dir, tc_current_tool_call_id = None,
                 tc_ignore_patterns = rc_ignore_patterns c\<rparr>
                (rc_execution_mode c) snapshot
          in Inr (s\<lparr>s_context_policy := (case rc_context_management_policy c of
                None \<Rightarrow> context_policy_default | Some p \<Rightarrow> p)\<rparr>)))"

definition append_user_message :: "string \<Rightarrow> session \<Rightarrow> session" where
  "append_user_message prompt s = fst (append_message (MUser [CbText prompt] None) s)"

section \<open>The registry of runtimes\<close>

text \<open>Runtimes are shared, so the registry holds addresses into the runtimes built so far.\<close>

record registry =
  rg_sessions :: "(string \<times> nat) list"
  rg_runtimes :: "agent_runtime list"

definition session_runtime :: "string \<Rightarrow> registry \<Rightarrow> runtime_error + nat" where
  "session_runtime session_id g = (case map_of (rg_sessions g) session_id of
       None \<Rightarrow> Inl (ReOrchestration (''Session not found: '' @ session_id)) | Some r \<Rightarrow> Inr r)"

definition remove_session :: "string \<Rightarrow> registry \<Rightarrow> registry" where
  "remove_session session_id g = g\<lparr>rg_sessions := AList.delete session_id (rg_sessions g)\<rparr>"

text \<open>What an override may not change: the host's values take their place.\<close>

definition with_host_settings :: "runtime_config \<Rightarrow> runtime_config \<Rightarrow> runtime_config" where
  "with_host_settings host c = c\<lparr>rc_workspace_root := rc_workspace_root host,
     rc_extension_instances := rc_extension_instances host, rc_mcp_servers := rc_mcp_servers host,
     rc_trusted_extension_pins := rc_trusted_extension_pins host,
     rc_extension_timeouts := rc_extension_timeouts host, rc_extension_limits := rc_extension_limits host\<rparr>"

text \<open>\<open>build\<close> is what the builder makes of a configuration: an error or nothing to report.\<close>

definition spawn_session :: "(runtime_config \<Rightarrow> runtime_error option) \<Rightarrow> runtime_config \<Rightarrow> string \<Rightarrow> runtime_config option
    \<Rightarrow> bool \<Rightarrow> registry \<Rightarrow> (runtime_error + string) \<times> registry" where
  "spawn_session build host session_id config_override traced g =
     (if map_of (rg_sessions g) session_id \<noteq> None then
        (Inl (ReOrchestration (''Session already exists: '' @ session_id)), g)
      else
        (let config = (case config_override of None \<Rightarrow> host | Some c \<Rightarrow> with_host_settings host c)
         in case build config of
              Some e \<Rightarrow> (Inl e, g)
            | None \<Rightarrow> (Inr session_id,
                g\<lparr>rg_sessions := AList.update session_id (length (rg_runtimes g)) (rg_sessions g),
                  rg_runtimes := rg_runtimes g @ [runtime_new config traced]\<rparr>)))"

definition on_runtime :: "nat \<Rightarrow> (steering_queue \<Rightarrow> 'a \<times> steering_queue) \<Rightarrow> registry \<Rightarrow> 'a \<times> registry" where
  "on_runtime r f g = (case f (ar_queue (rg_runtimes g ! r)) of
       (a, q) \<Rightarrow> (a, g\<lparr>rg_runtimes := (rg_runtimes g)[r := (rg_runtimes g ! r)\<lparr>ar_queue := q\<rparr>]\<rparr>))"

section \<open>The broker of approvals\<close>

text \<open>The identifiers of tool calls that wait for an answer, and the answers sent. A second registration of
  an identifier drops the first sender, whose call then ends as cancelled.\<close>

record approval_broker =
  bk_pending :: "string list"
  bk_sent :: "(string \<times> control_decision) list"

definition broker_register :: "string \<Rightarrow> approval_broker \<Rightarrow> approval_broker" where
  "broker_register i b = b\<lparr>bk_pending := List.insert i (bk_pending b)\<rparr>"

definition broker_contains :: "string \<Rightarrow> approval_broker \<Rightarrow> bool" where
  "broker_contains i b \<longleftrightarrow> i \<in> set (bk_pending b)"

definition broker_respond :: "string \<Rightarrow> control_decision \<Rightarrow> approval_broker \<Rightarrow> (runtime_error + unit) \<times> approval_broker" where
  "broker_respond i d b =
     (if broker_contains i b
      then (Inr (), b\<lparr>bk_pending := removeAll i (bk_pending b), bk_sent := bk_sent b @ [(i, d)]\<rparr>)
      else (Inl (ReOrchestration (''No pending approval found with ID: '' @ i)), b))"

section \<open>Directories of runs\<close>

record run_paths =
  rp_root :: string
  rp_trace :: string
  rp_summary :: string
  rp_cost :: string
  rp_artifacts :: string

definition run_paths_of :: "string \<Rightarrow> string \<Rightarrow> string \<Rightarrow> run_paths" where
  "run_paths_of base stamp run_id =
     (let root = path_join base (stamp @ ''-'' @ run_id)
      in \<lparr>rp_root = root, rp_trace = path_join root ''trace.jsonl'', rp_summary = path_join root ''summary.md'',
          rp_cost = path_join root ''cost.json'', rp_artifacts = path_join root ''artifacts''\<rparr>)"

text \<open>A sequence of changes to the disk that stops at the first error.\<close>

fun disk_steps :: "(disk \<Rightarrow> string option \<times> disk) list \<Rightarrow> disk \<Rightarrow> string option \<times> disk" where
  "disk_steps [] d = (None, d)"
| "disk_steps (f # fs) d = (case f d of (Some e, d1) \<Rightarrow> (Some e, d1) | (None, d1) \<Rightarrow> disk_steps fs d1)"

definition create_run_paths :: "store_env \<Rightarrow> string \<Rightarrow> string \<Rightarrow> disk \<Rightarrow> (trace_error + run_paths) \<times> disk" where
  "create_run_paths SE stamp run_id d =
     (let paths = run_paths_of (ste_base SE) stamp run_id;
          F = ste_faults SE; cwd = ste_cwd SE
      in case disk_steps [create_dir_all F cwd (rp_artifacts paths), write_file F cwd (rp_summary paths) [],
             write_file F cwd (rp_cost paths) []] d of
           (Some e, d1) \<Rightarrow> (Inl (WriteFailed e), d1)
         | (None, d1) \<Rightarrow> (Inr paths, d1))"

text \<open>\<open>JsonlTraceSink::create_run\<close>: the directories and an empty trace.\<close>

definition create_run :: "store_env \<Rightarrow> string \<Rightarrow> string \<Rightarrow> disk \<Rightarrow> (trace_error + run_paths) \<times> disk" where
  "create_run SE stamp run_id d = (case create_run_paths SE stamp run_id d of
       (Inl e, d1) \<Rightarrow> (Inl e, d1)
     | (Inr paths, d1) \<Rightarrow>
         (case disk_steps [create_dir_all (ste_faults SE) (ste_cwd SE) (rp_root paths),
              write_file (ste_faults SE) (ste_cwd SE) (rp_trace paths) []] d1 of
            (Some e, d2) \<Rightarrow> (Inl (WriteFailed e), d2)
          | (None, d2) \<Rightarrow> (Inr paths, d2)))"

text \<open>The directories of a run, in the order of their names; \<open>find_run_dir\<close> takes the first.\<close>

definition run_dirs :: "string \<Rightarrow> (string \<times> bool) list \<Rightarrow> string list" where
  "run_dirs run_id names = sort_key utf8_bytes
     (map fst (filter (\<lambda>(name, is_dir). is_dir \<and> ends_with name (''-'' @ run_id)) names))"

definition find_run_dir :: "store_env \<Rightarrow> string \<Rightarrow> disk \<Rightarrow> string option" where
  "find_run_dir SE run_id d = (case list_dir (ste_cwd SE) (fst d) (ste_base SE) of
       None \<Rightarrow> None
     | Some names \<Rightarrow> (case run_dirs run_id names of [] \<Rightarrow> None | n # _ \<Rightarrow> Some (path_join (ste_base SE) n)))"

end
