(* ===== verification/Control_Runtime.thy ===== *)
theory Control_Runtime
  imports Runtime_Sessions
begin

text \<open>
  The control host that runs agents (\<open>control/host/runtime_backed.rs\<close>): the host in memory in front of
  real sessions. Its \<open>session_lock\<close> makes starting, resuming and branching exclude each other; each is
  one step here. An execution is a task: it begins, its events are projected one by one, and it ends with
  what the agent loop left behind. Runtimes, sessions and cancel tokens are shared, so maps hold their
  addresses. The \<open>trace\<close> feature is on.
\<close>

section \<open>State\<close>

record runtime_session =
  rn_runtime :: nat
  rn_session :: nat

text \<open>An execution that has been spawned; \<open>ex_begun\<close> once it holds its session.\<close>

record execution =
  ex_session :: runtime_session
  ex_session_id :: string
  ex_run_id :: string
  ex_message :: string
  ex_token :: nat
  ex_begun :: bool

text \<open>
  \<open>bs_store\<close> has every session with whether a run holds its lock; \<open>bs_tokens\<close> says which cancel tokens have
  been cancelled; \<open>bs_draws\<close> counts the fresh UUIDs.
\<close>

record 'st backed_state =
  bs_control :: host_state
  bs_sessions :: "(string \<times> runtime_session) list"
  bs_cancellations :: "(string \<times> nat) list"
  bs_continue_idempotency :: "(string \<times> json \<times> continue_response) list"
  bs_submit_idempotency :: "(string \<times> json \<times> submit_response) list"
  bs_trace_paths :: "(string \<times> string) list"
  bs_registry :: registry
  bs_store :: "(session \<times> bool) list"
  bs_tokens :: "bool list"
  bs_executions :: "execution list"
  bs_broker :: approval_broker
  bs_disk :: disk
  bs_artifacts :: 'st
  bs_draws :: nat

text \<open>
  The host's parts: options and libraries, its configuration with serde's encoding and decoding, the
  builder, the provider's default model, the snapshot of the workspace and the UUIDs by number, the trace
  directory, the clock's text in directory names, the writing and reading of manifests and the artifact store.
\<close>

record 'st runtime_env =
  re_host :: host_env
  re_config :: runtime_config
  re_to_json :: "runtime_config \<Rightarrow> json"
  re_of_json :: "json \<Rightarrow> string + runtime_config"
  re_build :: "runtime_config \<Rightarrow> runtime_error option"
  re_default_model :: "runtime_config \<Rightarrow> string"
  re_capture :: "nat \<Rightarrow> runtime_error + workspace_snapshot"
  re_uuid :: "nat \<Rightarrow> string"
  re_trace :: "store_env option"
  re_stamp :: "int \<Rightarrow> string"
  re_print_manifest :: "run_manifest \<Rightarrow> string"
  re_codec :: run_codec
  re_artifacts :: "'st store_ops"

definition backed_state_default :: "disk \<Rightarrow> 'st \<Rightarrow> 'st backed_state" where
  "backed_state_default d st = \<lparr>bs_control = host_state_default, bs_sessions = [], bs_cancellations = [],
     bs_continue_idempotency = [], bs_submit_idempotency = [], bs_trace_paths = [],
     bs_registry = \<lparr>rg_sessions = [], rg_runtimes = []\<rparr>, bs_store = [], bs_tokens = [], bs_executions = [],
     bs_broker = \<lparr>bk_pending = [], bk_sent = []\<rparr>, bs_disk = d, bs_artifacts = st, bs_draws = 0\<rparr>"

definition control_queue_capacity :: "'st runtime_env \<Rightarrow> nat" where
  "control_queue_capacity R = ho_queue_capacity (he_options (re_host R))"

section \<open>Helpers\<close>

definition control_failure :: "runtime_error \<Rightarrow> control_error" where
  "control_failure e = (case e of
       ReHarness HCancelled \<Rightarrow> plain_error CcCancelled ''runtime execution was cancelled''
     | _ \<Rightarrow> plain_error CcInternalFailure (runtime_error_to_string e))"

definition merge_config_override :: "'st runtime_env \<Rightarrow> json option \<Rightarrow> control_error + runtime_config option" where
  "merge_config_override R config_override = (case config_override of
       None \<Rightarrow> Inr None
     | Some (VObject overrides) \<Rightarrow>
         (case re_to_json R (re_config R) of
            VObject base \<Rightarrow>
              (case re_of_json R (VObject (fold (\<lambda>(k, v). AList.update k v) overrides base)) of
                 Inl e \<Rightarrow> Inl (cc_validation (''invalid config_override: '' @ e))
               | Inr c \<Rightarrow> Inr (Some c))
          | _ \<Rightarrow> Inl (cc_validation ''runtime config is not a JSON object''))
     | Some _ \<Rightarrow> Inl (cc_validation ''config_override must be a JSON object''))"

definition rollback_session :: "string \<Rightarrow> string \<Rightarrow> string option \<Rightarrow> 'st backed_state \<Rightarrow> 'st backed_state" where
  "rollback_session session_id run_id key s =
     (let c = bs_control s;
          c1 = c\<lparr>hs_sessions := AList.delete session_id (hs_sessions c),
                 hs_run_status := AList.delete run_id (hs_run_status c),
                 hs_events := AList.delete session_id (hs_events c),
                 hs_idempotency := (case key of None \<Rightarrow> hs_idempotency c | Some k \<Rightarrow> AList.delete k (hs_idempotency c))\<rparr>
      in s\<lparr>bs_control := c1, bs_registry := remove_session session_id (bs_registry s)\<rparr>)"

definition blank_fingerprint :: compatibility_fingerprint where
  "blank_fingerprint = \<lparr>cf_context_pipeline_version = [], cf_tool_schema_hash = [], cf_policy_fingerprint = [],
     cf_hook_contract_hash = [], cf_execution_mode = [], cf_skill_fingerprint = None,
     cf_workspace_context_snapshot_hash = None\<rparr>"

definition new_run_manifest :: "string \<Rightarrow> string \<Rightarrow> string \<Rightarrow> run_manifest" where
  "new_run_manifest session_id run_id created_at = \<lparr>rmf_v = 1, rmf_session_id = session_id, rmf_run_id = run_id,
     rmf_parent_run_id = None, rmf_base_checkpoint = None, rmf_run_kind = RunNew, rmf_created_at = created_at,
     rmf_lifecycle_state = LsRunning, rmf_finalized_at = None, rmf_failure_kind = None,
     rmf_interrupted_phase = None, rmf_prompt_snapshot_hash = None, rmf_prompt_snapshot_path = None,
     rmf_resolved_model = None, rmf_fingerprint = blank_fingerprint\<rparr>"

definition save_manifest :: "'st runtime_env \<Rightarrow> store_env \<Rightarrow> string \<Rightarrow> run_manifest \<Rightarrow> disk \<Rightarrow> disk" where
  "save_manifest R SE path m d = snd (write_file (ste_faults SE) (ste_cwd SE) path (re_print_manifest R m) d)"

text \<open>A new run directory with its manifest; the result says whether there is a sink.\<close>

definition open_trace_sink :: "'st runtime_env \<Rightarrow> int \<Rightarrow> string \<Rightarrow> string \<Rightarrow> 'st backed_state
    \<Rightarrow> (control_error + bool) \<times> 'st backed_state" where
  "open_trace_sink R now session_id run_id s = (case re_trace R of
       None \<Rightarrow> (Inr False, s)
     | Some SE \<Rightarrow> (case create_run SE (re_stamp R now) run_id (bs_disk s) of
         (Inl e, d) \<Rightarrow> (Inl (plain_error CcInternalFailure (''failed to create trace: '' @ trace_error_to_string e)),
                       s\<lparr>bs_disk := d\<rparr>)
       | (Inr paths, d) \<Rightarrow>
           (let m = new_run_manifest session_id run_id (he_rfc3339 (re_host R) now);
                d1 = save_manifest R SE (path_join (rp_root paths) ''run.json'') m d
            in (Inr True, s\<lparr>bs_disk := d1,
                  bs_trace_paths := AList.update run_id (rp_trace paths) (bs_trace_paths s)\<rparr>))))"

definition finalize_run_manifest :: "'st runtime_env \<Rightarrow> int \<Rightarrow> string \<Rightarrow> lifecycle_state \<Rightarrow> string option
    \<Rightarrow> 'st backed_state \<Rightarrow> 'st backed_state" where
  "finalize_run_manifest R now run_id lifecycle failure_kind s =
     (case (re_trace R, Option.bind (map_of (bs_trace_paths s) run_id) path_parent) of
        (Some SE, Some run_dir) \<Rightarrow>
          (let path = path_join run_dir ''run.json'';
               fs = fs_of (ste_cwd SE) (fst (bs_disk s))
           in if fs_exists fs path then
                (case load_manifest (re_codec R) fs path of
                   Inl e \<Rightarrow> s
                 | Inr m \<Rightarrow> s\<lparr>bs_disk := save_manifest R SE path
                     (m\<lparr>rmf_lifecycle_state := lifecycle, rmf_finalized_at := Some (he_rfc3339 (re_host R) now),
                        rmf_failure_kind := failure_kind\<rparr>) (bs_disk s)\<rparr>)
              else s)
      | _ \<Rightarrow> s)"

definition control_run :: "string \<Rightarrow> 'st backed_state \<Rightarrow> control_error + string" where
  "control_run session_id s =
     (case Option.bind (map_of (hs_sessions (bs_control s)) session_id) se_active_run of
        None \<Rightarrow> Inl (cc_not_found ''active run not found'') | Some r \<Rightarrow> Inr r)"

definition the_session :: "'st backed_state \<Rightarrow> runtime_session \<Rightarrow> session" where
  "the_session s rs = fst (bs_store s ! rn_session rs)"

definition session_locked :: "'st backed_state \<Rightarrow> runtime_session \<Rightarrow> bool" where
  "session_locked s rs = snd (bs_store s ! rn_session rs)"

definition get_session_history :: "string \<Rightarrow> 'st backed_state \<Rightarrow> message list option" where
  "get_session_history session_id s = (case map_of (bs_sessions s) session_id of
       None \<Rightarrow> None
     | Some rs \<Rightarrow> if session_locked s rs then None else Some (map sm_message (s_history (the_session s rs))))"

section \<open>Starting, resuming and branching\<close>

definition session_config_of :: "'st runtime_env \<Rightarrow> runtime_config \<Rightarrow> runtime_config" where
  "session_config_of R c = c\<lparr>rc_steering_queue_capacity := Some (control_queue_capacity R)\<rparr>"

text \<open>Spawning a runtime and creating its session; what has been spawned stays in the registry.\<close>

definition new_runtime_session :: "'st runtime_env \<Rightarrow> runtime_config \<Rightarrow> string \<Rightarrow> bool \<Rightarrow> 'st backed_state
    \<Rightarrow> (control_error + nat \<times> session) \<times> 'st backed_state" where
  "new_runtime_session R config session_id traced s =
     (case spawn_session (re_build R) (re_config R) session_id (Some config) traced (bs_registry s) of
        (Inl e, g) \<Rightarrow> (Inl (control_failure e), s\<lparr>bs_registry := g\<rparr>)
      | (Inr _, g) \<Rightarrow>
          (let s1 = s\<lparr>bs_registry := g, bs_draws := Suc (bs_draws s)\<rparr>
           in case session_runtime session_id g of
                Inl e \<Rightarrow> (Inl (control_failure e), s1)
              | Inr r \<Rightarrow>
                  (let runtime = rg_runtimes g ! r
                   in case create_session (re_default_model R (ar_config runtime)) (re_capture R (bs_draws s))
                          (re_uuid R (bs_draws s)) runtime session_id None of
                        Inl e \<Rightarrow> (Inl (control_failure e), s1)
                      | Inr session \<Rightarrow> (Inr (r, session), s1))))"

definition install_session :: "string \<Rightarrow> nat \<Rightarrow> session \<Rightarrow> 'st backed_state \<Rightarrow> 'st backed_state" where
  "install_session session_id r session s =
     s\<lparr>bs_registry := snd (on_runtime r (\<lambda>q. ((), update_lifecycle Active q)) (bs_registry s)),
       bs_store := bs_store s @ [(session, False)],
       bs_sessions := AList.update session_id \<lparr>rn_runtime = r, rn_session = length (bs_store s)\<rparr> (bs_sessions s)\<rparr>"

definition backed_start :: "'st runtime_env \<Rightarrow> int \<Rightarrow> start_request \<Rightarrow> 'st backed_state
    \<Rightarrow> (control_error + start_response) \<times> 'st backed_state" where
  "backed_start R now req s = (case merge_config_override R (srq_config_override req) of
       Inl e \<Rightarrow> (Inl e, s)
     | Inr merged \<Rightarrow>
         (let config = session_config_of R (case merged of None \<Rightarrow> re_config R | Some c \<Rightarrow> c)
          in case start_session (re_host R) now req (bs_control s) of
               (Inl e, c) \<Rightarrow> (Inl e, s\<lparr>bs_control := c\<rparr>)
             | (Inr response, c) \<Rightarrow>
                 (let s1 = s\<lparr>bs_control := c\<rparr>;
                      session_id = srs_session_id response; run_id = srs_run_id response;
                      undo = rollback_session session_id run_id (srq_idempotency_key req)
                  in if map_of (bs_sessions s1) session_id \<noteq> None then (Inr response, s1)
                     else (case open_trace_sink R now session_id run_id s1 of
                         (Inl e, s2) \<Rightarrow> (Inl e, undo s2)
                       | (Inr traced, s2) \<Rightarrow> (case new_runtime_session R config session_id traced s2 of
                           (Inl e, s3) \<Rightarrow> (Inl e, undo s3)
                         | (Inr (r, session), s3) \<Rightarrow> (Inr response, install_session session_id r session s3))))))"

text \<open>What a run left in its directory, unless it may not be taken up.\<close>

definition recovered :: "'st runtime_env \<Rightarrow> string \<Rightarrow> 'st backed_state \<Rightarrow> recovery_status +
    session_message list \<times> context_projection_state \<times> token_budget" where
  "recovered R run_dir s =
     (let cwd = (case re_trace R of None \<Rightarrow> [] | Some SE \<Rightarrow> ste_cwd SE);
          a = analyze (re_codec R) (fs_of cwd (fst (bs_disk s))) run_dir None None
      in if \<not> is_safe_to_resume a \<and> \<not> is_safe_to_continue a then Inl (ra_status a)
         else Inr (ra_history a, ra_context_state a, ra_token_budget a))"

definition run_directory :: "'st runtime_env \<Rightarrow> string \<Rightarrow> 'st backed_state \<Rightarrow> string option" where
  "run_directory R run_id s = Option.bind (re_trace R) (\<lambda>SE. find_run_dir SE run_id (bs_disk s))"

definition recovery_debug :: "recovery_status \<Rightarrow> string" where
  "recovery_debug st = (case st of
       CompletedHead \<Rightarrow> ''CompletedHead'' | FailedWithCheckpoint \<Rightarrow> ''FailedWithCheckpoint''
     | InterruptedSafe \<Rightarrow> ''InterruptedSafe'' | InterruptedContextBuild \<Rightarrow> ''InterruptedContextBuild''
     | InterruptedProviderStream \<Rightarrow> ''InterruptedProviderStream'' | InterruptedPolicyEval \<Rightarrow> ''InterruptedPolicyEval''
     | InterruptedPendingApproval \<Rightarrow> ''InterruptedPendingApproval''
     | InterruptedAmbiguousTool \<Rightarrow> ''InterruptedAmbiguousTool'' | InterruptedAmbiguousHook \<Rightarrow> ''InterruptedAmbiguousHook''
     | WorkspaceDrift \<Rightarrow> ''WorkspaceDrift'' | IncompatibleTrace \<Rightarrow> ''IncompatibleTrace''
     | UnfinalizedRunning \<Rightarrow> ''UnfinalizedRunning'' | LegacyNonResumable \<Rightarrow> ''LegacyNonResumable''
     | IncompatibleFingerprint \<Rightarrow> ''IncompatibleFingerprint'')"

text \<open>The state of a session: its history, context state and token budget.\<close>

definition session_data :: "session \<Rightarrow> session_message list \<times> context_projection_state \<times> token_budget" where
  "session_data x = (s_history x, s_context_state x, s_token_budget x)"

definition with_data :: "session_message list \<times> context_projection_state \<times> token_budget \<Rightarrow> session \<Rightarrow> session" where
  "with_data d x = (case d of (history, context_state, budget) \<Rightarrow>
     x\<lparr>s_history := history, s_context_state := context_state, s_token_budget := budget\<rparr>)"

definition resume_data :: "'st runtime_env \<Rightarrow> resume_request \<Rightarrow> 'st backed_state \<Rightarrow> control_error +
    session_message list \<times> context_projection_state \<times> token_budget" where
  "resume_data R req s =
     (case (case map_of (bs_sessions s) (rrq_session_id req) of
          None \<Rightarrow> None
        | Some rs \<Rightarrow> if session_locked s rs then None else Some (session_data (the_session s rs))) of
        Some d \<Rightarrow> Inr d
      | None \<Rightarrow> (case run_directory R (rrq_run_id req) s of
          None \<Rightarrow> Inl (cc_not_found (''run directory not found for run '' @ rrq_run_id req))
        | Some dir \<Rightarrow> (case recovered R dir s of
            Inl st \<Rightarrow> Inl (cc_conflict (''run cannot be resumed due to recovery status '' @ recovery_debug st))
          | Inr d \<Rightarrow> Inr d)))"

text \<open>The part of \<open>resume_session\<close> whose errors roll the session back.\<close>

definition resume_runtime :: "'st runtime_env \<Rightarrow> int \<Rightarrow> resume_request \<Rightarrow> string \<Rightarrow> 'st backed_state
    \<Rightarrow> control_error option \<times> 'st backed_state" where
  "resume_runtime R now req run_id s = (case resume_data R req s of
       Inl e \<Rightarrow> (Some e, s)
     | Inr d \<Rightarrow> (case open_trace_sink R now (rrq_session_id req) run_id s of
         (Inl e, s1) \<Rightarrow> (Some e, s1)
       | (Inr traced, s1) \<Rightarrow>
           (let s2 = s1\<lparr>bs_registry := remove_session (rrq_session_id req) (bs_registry s1)\<rparr>
            in case new_runtime_session R (session_config_of R (re_config R)) (rrq_session_id req) traced s2 of
                 (Inl e, s3) \<Rightarrow> (Some e, s3)
               | (Inr (r, session), s3) \<Rightarrow> (None, install_session (rrq_session_id req) r (with_data d session) s3))))"

definition backed_resume :: "'st runtime_env \<Rightarrow> int \<Rightarrow> resume_request \<Rightarrow> 'st backed_state
    \<Rightarrow> (control_error + resume_response) \<times> 'st backed_state" where
  "backed_resume R now req s =
     (let known = map_of (bs_sessions s) (rrq_session_id req) \<noteq> None;
          s1 = (if known then s else s\<lparr>bs_control :=
              seed_session (re_host R) (rrq_session_id req) (rrq_run_id req) (bs_control s)\<rparr>)
      in case resume_session req (bs_control s1) of
           (Inl e, c) \<Rightarrow>
             (let s2 = s1\<lparr>bs_control := c\<rparr>
              in (Inl e, if known then s2
                    else rollback_session (rrq_session_id req) (rrq_run_id req) (rrq_idempotency_key req) s2))
         | (Inr response, c) \<Rightarrow>
             (case resume_runtime R now req (rrs_run_id response) (s1\<lparr>bs_control := c\<rparr>) of
                (Some e, s2) \<Rightarrow>
                  (Inl e, rollback_session (rrq_session_id req) (rrs_run_id response) (rrq_idempotency_key req) s2)
              | (None, s2) \<Rightarrow> (Inr response, s2)))"

text \<open>
  Where a branch starts from: the directory of the parent run if there is one, else the parent session,
  if the run is its active or last one. A branch from a session that a run holds waits for the run to end.
\<close>

definition branch_data :: "'st runtime_env \<Rightarrow> branch_request \<Rightarrow> 'st backed_state \<Rightarrow> control_error +
    session_message list \<times> context_projection_state \<times> token_budget" where
  "branch_data R req s = (case run_directory R (brq_parent_run_id req) s of
       Some dir \<Rightarrow> (case recovered R dir s of
           Inl st \<Rightarrow> Inl (cc_conflict (''parent run cannot be branched due to recovery status '' @ recovery_debug st))
         | Inr d \<Rightarrow> Inr d)
     | None \<Rightarrow>
         if \<not> (case map_of (hs_sessions (bs_control s)) (brq_parent_session_id req) of
               None \<Rightarrow> False
             | Some se \<Rightarrow> se_active_run se = Some (brq_parent_run_id req) \<or>
                 (se_runs se \<noteq> [] \<and> last (se_runs se) = brq_parent_run_id req))
         then Inl (cc_not_found (''parent run boundary '' @ brq_parent_run_id req @
           '' is not trace-resolvable and does not match the active parent session state''))
         else (case map_of (bs_sessions s) (brq_parent_session_id req) of
             Some rs \<Rightarrow> Inr (session_data (the_session s rs))
           | None \<Rightarrow> Inl (cc_not_found
               (''parent run directory not found and session not active in memory for run '' @ brq_parent_run_id req))))"

definition backed_branch :: "'st runtime_env \<Rightarrow> int \<Rightarrow> branch_request \<Rightarrow> 'st backed_state
    \<Rightarrow> (control_error + branch_response) \<times> 'st backed_state" where
  "backed_branch R now req s = (case branch_session (re_host R) req (bs_control s) of
       (Inl e, c) \<Rightarrow> (Inl e, s\<lparr>bs_control := c\<rparr>)
     | (Inr response, c) \<Rightarrow>
         (let s1 = s\<lparr>bs_control := c\<rparr>;
              session_id = brs_new_session_id response; run_id = brs_new_run_id response;
              undo = rollback_session session_id run_id (brq_idempotency_key req)
          in if map_of (bs_sessions s1) session_id \<noteq> None then (Inr response, s1)
             else (case branch_data R req s1 of
                 Inl e \<Rightarrow> (Inl e, s1)
               | Inr d \<Rightarrow> (case open_trace_sink R now session_id run_id s1 of
                   (Inl e, s2) \<Rightarrow> (Inl e, undo s2)
                 | (Inr traced, s2) \<Rightarrow>
                     (case new_runtime_session R (session_config_of R (re_config R)) session_id traced s2 of
                        (Inl e, s3) \<Rightarrow> (Inl e, undo s3)
                      | (Inr (r, session), s3) \<Rightarrow>
                          (Inr response, install_session session_id r
                             ((with_data d session)\<lparr>s_id := session_id, s_message_namespace := re_uuid R (bs_draws s3)\<rparr>)
                             (s3\<lparr>bs_draws := Suc (bs_draws s3)\<rparr>)))))))"

end
