(* ===== verification/Control_Executions.thy ===== *)
theory Control_Executions
  imports Control_Runtime
begin

text \<open>
  Executions and the other operations of the control host that runs agents
  (\<open>control/host/runtime_backed.rs\<close>): messages, cancellation, the projection of the agent's events,
  approvals through the broker, artifacts through the store.
\<close>

section \<open>Executions\<close>

definition empty_message :: "string \<Rightarrow> bool" where
  "empty_message m \<longleftrightarrow> trim m = []"

definition continue_reply :: "continue_request \<Rightarrow> continue_response" where
  "continue_reply req = \<lparr>crs_session_id = crq_session_id req, crs_run_id = crq_run_id req, crs_acknowledged = True,
     crs_correlation_id = None\<rparr>"

text \<open>The first section of \<open>continue_session\<close>: a reply at once, or an execution to spawn.\<close>

definition claim_execution :: "continue_request \<Rightarrow> 'st backed_state
    \<Rightarrow> (control_error + continue_response) + execution \<times> 'st backed_state" where
  "claim_execution req s =
     (let key = crq_idempotency_key req; request = continue_request_json req
      in case Option.bind key (map_of (bs_continue_idempotency s)) of
           Some (previous, response) \<Rightarrow>
             Inl (if previous \<noteq> request
                  then Inl (cc_conflict ''idempotency key was already used with different input'')
                  else Inr response)
         | None \<Rightarrow> (case control_run (crq_session_id req) s of
             Inl e \<Rightarrow> Inl (Inl e)
           | Inr run_id \<Rightarrow>
               if run_id \<noteq> crq_run_id req then Inl (Inl (cc_conflict ''run is not active for this session''))
               else if map_of (bs_cancellations s) (crq_run_id req) \<noteq> None then
                 Inl (Inl (cc_conflict ''session already has an active execution''))
               else (case map_of (bs_sessions s) (crq_session_id req) of
                   None \<Rightarrow> Inl (Inl (cc_not_found ''runtime session not found''))
                 | Some rs \<Rightarrow>
                     (let token = length (bs_tokens s)
                      in Inr (\<lparr>ex_session = rs, ex_session_id = crq_session_id req, ex_run_id = crq_run_id req,
                               ex_message = crq_message req, ex_token = token, ex_begun = False\<rparr>,
                           s\<lparr>bs_tokens := bs_tokens s @ [False],
                             bs_cancellations := AList.update (crq_run_id req) token (bs_cancellations s),
                             bs_continue_idempotency := (case key of
                               None \<Rightarrow> bs_continue_idempotency s
                             | Some k \<Rightarrow> AList.update k (request, continue_reply req) (bs_continue_idempotency s))\<rparr>)))))"

definition on_control :: "(host_state \<Rightarrow> host_state) \<Rightarrow> 'st backed_state \<Rightarrow> 'st backed_state" where
  "on_control f s = s\<lparr>bs_control := f (bs_control s)\<rparr>"

definition announce_message :: "'st runtime_env \<Rightarrow> int \<Rightarrow> string \<Rightarrow> string \<Rightarrow> host_state \<Rightarrow> host_state" where
  "announce_message R now session_id run_id c = (case next_id ''message'' c of
       (message_id, c1) \<Rightarrow> push_event (re_host R) now session_id run_id (EpMessageQueued message_id) c1)"

definition backed_continue :: "'st runtime_env \<Rightarrow> int \<Rightarrow> continue_request \<Rightarrow> 'st backed_state
    \<Rightarrow> (control_error + continue_response) \<times> 'st backed_state" where
  "backed_continue R now req s =
     (if empty_message (crq_message req) then (Inl (cc_validation ''message must not be empty''), s)
      else (case claim_execution req s of
          Inl reply \<Rightarrow> (reply, s)
        | Inr (ex, s1) \<Rightarrow>
            (Inr (continue_reply req),
             on_control (announce_message R now (crq_session_id req) (crq_run_id req))
               (s1\<lparr>bs_executions := bs_executions s1 @ [ex]\<rparr>))))"

text \<open>An execution takes the lock of its session, which must be free, and appends the message.\<close>

definition execution_begin :: "nat \<Rightarrow> 'st backed_state \<Rightarrow> 'st backed_state option" where
  "execution_begin i s =
     (if i < length (bs_executions s) \<and> \<not> ex_begun (bs_executions s ! i) \<and>
         \<not> session_locked s (ex_session (bs_executions s ! i)) then
        (let ex = bs_executions s ! i; a = rn_session (ex_session ex)
         in Some (s\<lparr>bs_executions := (bs_executions s)[i := ex\<lparr>ex_begun := True\<rparr>],
                    bs_store := (bs_store s)[a := (append_user_message (ex_message ex) (the_session s (ex_session ex)), True)]\<rparr>))
      else None)"

definition store_tool_artifact :: "'st runtime_env \<Rightarrow> string \<Rightarrow> string \<Rightarrow> 'st backed_state
    \<Rightarrow> string option \<times> 'st backed_state" where
  "store_tool_artifact R session_id path s =
     (let cwd = (case re_trace R of None \<Rightarrow> [] | Some SE \<Rightarrow> ste_cwd SE)
      in case (read_to_string cwd (fst (bs_disk s)) path, file_name path) of
           (Inr content, Some name) \<Rightarrow>
             if validate_artifact_display_path name \<noteq> None then (None, s)
             else
               (let logical_id = take 16 (he_sha256 (re_host R) (text_bytes content)) @ ''-'' @ name
                in case sto_put (re_artifacts R) session_id logical_id (text_bytes content) (bs_artifacts s) of
                     (Inl e, st) \<Rightarrow> (None, s\<lparr>bs_artifacts := st\<rparr>)
                   | (Inr uri, st) \<Rightarrow> (Some logical_id, s\<lparr>bs_artifacts := st\<rparr>))
         | _ \<Rightarrow> (None, s))"

definition policy_projection_of :: "string \<Rightarrow> string option \<Rightarrow> string option \<Rightarrow> risk_level option \<Rightarrow> policy_status
    \<Rightarrow> string option \<Rightarrow> string option \<Rightarrow> string \<Rightarrow> policy_projection" where
  "policy_projection_of tool_call_id tool_name input_hash risk decision reason matched_rule source =
     \<lparr>pj_tool_call_id = tool_call_id,
      pj_canonical_tool_id = (case tool_name of None \<Rightarrow> ''unknown'' | Some n \<Rightarrow> n),
      pj_input_hash = (case input_hash of None \<Rightarrow> [] | Some h \<Rightarrow> h),
      pj_risk_level = (case risk of None \<Rightarrow> Low | Some r \<Rightarrow> r), pj_execution_backend = BackendLocal,
      pj_decision = (case decision of Allowed \<Rightarrow> PvAllow | Denied \<Rightarrow> PvDeny | Confirm \<Rightarrow> PvRequiresApproval),
      pj_reason = reason, pj_matched_rule = matched_rule, pj_source = Some source\<rparr>"

definition approval_of_request :: "'st runtime_env \<Rightarrow> string \<Rightarrow> policy_projection option \<Rightarrow> string \<Rightarrow> string \<Rightarrow> json
    \<Rightarrow> risk_level \<Rightarrow> approval_projection" where
  "approval_of_request R session_id policy tool_call_id tool_name input risk =
     \<lparr>ap_approval_id = tool_call_id, ap_tool_call_id = tool_call_id, ap_correlation_id = Some session_id,
      ap_summary = ''Approve '' @ tool_name,
      ap_editable_input_rules = Some (VObject [(''type'', VString ''object'')]),
      ap_original_hash = hash_input input, ap_edited_hash = None, ap_expires_at = None, ap_is_cancelled = False,
      ap_session_grant_terms = Some \<lparr>gt_tool_name = tool_name, gt_input_hash = hash_input input,
        gt_risk_ceiling = risk,
        gt_matched_rule = (case Option.bind policy pj_matched_rule of None \<Rightarrow> ''runtime_policy'' | Some r \<Rightarrow> r),
        gt_policy_source = (case Option.bind policy pj_source of None \<Rightarrow> ''runtime'' | Some p \<Rightarrow> p),
        gt_expires_in_turns = max (rc_max_turns (re_config R)) 1\<rparr>\<rparr>"

text \<open>The payload of an agent's event, with what it adds to the projections of the host.\<close>

definition agent_payload :: "'st runtime_env \<Rightarrow> string \<Rightarrow> agent_event \<Rightarrow> string option \<Rightarrow> host_state
    \<Rightarrow> event_payload \<times> host_state" where
  "agent_payload R session_id ev artifact c = (case ev of
       EvAux (AuxRunStarted m) \<Rightarrow> (EpRunStarted, c)
     | EvText delta \<Rightarrow> (EpAssistantText delta, c)
     | EvToolCallProposed i name input \<Rightarrow> (EpToolCallProposed i name input, c)
     | EvToolResult i out is_error trunc a b d e f g h \<Rightarrow> (EpToolResult i out is_error, c)
     | EvPolicyDecision i name hsh risk mode rule decision reason source \<Rightarrow>
         (EpPolicyDecision i,
          add_policy_projection (policy_projection_of i name hsh risk decision reason rule source) c)
     | EvApprovalRequested i name input risk \<Rightarrow>
         (EpApprovalRequested i,
          add_approval (approval_of_request R session_id (map_of (hs_policy_projections c) i) i name input risk) c)
     | EvArtifactCreated path n mime hsh \<Rightarrow>
         ((case artifact of None \<Rightarrow> EpUnknown | Some i \<Rightarrow> EpArtifactCreated i), c)
     | _ \<Rightarrow> (EpUnknown, c))"

definition project_agent_event :: "'st runtime_env \<Rightarrow> int \<Rightarrow> string \<Rightarrow> string \<Rightarrow> agent_event \<Rightarrow> 'st backed_state
    \<Rightarrow> 'st backed_state" where
  "project_agent_event R now session_id run_id ev s =
     (case (case ev of EvArtifactCreated path n mime hsh \<Rightarrow> store_tool_artifact R session_id path s
            | _ \<Rightarrow> (None, s)) of
        (artifact, s1) \<Rightarrow> (case agent_payload R session_id ev artifact (bs_control s1) of
          (payload, c) \<Rightarrow> s1\<lparr>bs_control := push_event (re_host R) now session_id run_id payload c\<rparr>))"

text \<open>What the agent loop leaves: an error or none, the flush of the trace, the session, the queue, the disk.\<close>

record run_outcome =
  ro_error :: "runtime_error option"
  ro_flush :: "trace_error option"
  ro_session :: session
  ro_queue :: steering_queue
  ro_disk :: disk

definition outcome_error :: "bool \<Rightarrow> run_outcome \<Rightarrow> runtime_error option" where
  "outcome_error traced out = (case ro_error out of
       Some e \<Rightarrow> Some e
     | None \<Rightarrow> if traced then map_option (\<lambda>e. ReHarness (HTrace e)) (ro_flush out) else None)"

definition fail_run :: "'st runtime_env \<Rightarrow> int \<Rightarrow> string \<Rightarrow> string \<Rightarrow> string \<Rightarrow> host_state \<Rightarrow> host_state" where
  "fail_run R now session_id run_id message c =
     (let c1 = (if map_of (hs_run_status c) run_id = None then c else set_status run_id RsFailed c)
      in push_event (re_host R) now session_id run_id (EpRunFailed message) (set_active session_id None c1))"

definition settle_execution :: "'st runtime_env \<Rightarrow> int \<Rightarrow> execution \<Rightarrow> runtime_error option \<Rightarrow> 'st backed_state
    \<Rightarrow> 'st backed_state" where
  "settle_execution R now ex result s =
     (if bs_tokens s ! ex_token ex then finalize_run_manifest R now (ex_run_id ex) LsInterrupted None s
      else (case result of
          None \<Rightarrow> on_control (\<lambda>c. snd (complete_run (re_host R) now (ex_session_id ex) (ex_run_id ex) c))
            (finalize_run_manifest R now (ex_run_id ex) LsCompleted None s)
        | Some e \<Rightarrow> on_control (fail_run R now (ex_session_id ex) (ex_run_id ex) (runtime_error_to_string e))
            (finalize_run_manifest R now (ex_run_id ex) LsFailed (Some (runtime_error_to_string e)) s)))"

definition execution_end :: "'st runtime_env \<Rightarrow> int \<Rightarrow> nat \<Rightarrow> run_outcome \<Rightarrow> 'st backed_state
    \<Rightarrow> 'st backed_state option" where
  "execution_end R now i out s =
     (if i < length (bs_executions s) \<and> ex_begun (bs_executions s ! i) then
        (let ex = bs_executions s ! i; rs = ex_session ex;
             s1 = s\<lparr>bs_executions := take i (bs_executions s) @ drop (Suc i) (bs_executions s),
                    bs_store := (bs_store s)[rn_session rs := (ro_session out, False)],
                    bs_registry := snd (on_runtime (rn_runtime rs) (\<lambda>_. ((), ro_queue out)) (bs_registry s)),
                    bs_disk := ro_disk out,
                    bs_cancellations := AList.delete (ex_run_id ex) (bs_cancellations s)\<rparr>
         in Some (settle_execution R now ex
              (outcome_error (ar_traced (rg_runtimes (bs_registry s) ! rn_runtime rs)) out) s1))
      else None)"

section \<open>Messages and cancellation\<close>

definition map_queue_ack :: "queue_ack \<Rightarrow> control_error + bool" where
  "map_queue_ack ack = (case ack_error ack of None \<Rightarrow> Inr True | Some e \<Rightarrow> Inl e)"

text \<open>The entry under the key is made before the message is in the queue and removed if it is refused.\<close>

definition reserve_submit :: "submit_request \<Rightarrow> submit_response \<Rightarrow> 'st backed_state
    \<Rightarrow> (control_error + submit_response) option \<times> 'st backed_state" where
  "reserve_submit req response s = (case mrq_idempotency_key req of
       None \<Rightarrow> (None, s)
     | Some k \<Rightarrow> (case map_of (bs_submit_idempotency s) k of
         Some (previous, old) \<Rightarrow>
           (Some (if previous \<noteq> submit_request_json req
              then Inl (cc_conflict ''idempotency key was already used with different input'') else Inr old), s)
       | None \<Rightarrow> (None, s\<lparr>bs_submit_idempotency :=
           AList.update k (submit_request_json req, response) (bs_submit_idempotency s)\<rparr>)))"

definition release_submit :: "string option \<Rightarrow> 'st backed_state \<Rightarrow> 'st backed_state" where
  "release_submit key s = (case key of None \<Rightarrow> s
     | Some k \<Rightarrow> s\<lparr>bs_submit_idempotency := AList.delete k (bs_submit_idempotency s)\<rparr>)"

definition enqueue_message_record :: "nat \<Rightarrow> queued_session_message \<Rightarrow> 'st backed_state \<Rightarrow> queue_ack \<times> 'st backed_state" where
  "enqueue_message_record r m s = (case on_runtime r (enqueue m) (bs_registry s) of
       (ack, g) \<Rightarrow> (ack, s\<lparr>bs_registry := g\<rparr>))"

definition runtime_submit :: "'st runtime_env \<Rightarrow> int \<Rightarrow> string \<Rightarrow> runtime_session \<Rightarrow> submit_request \<Rightarrow> 'st backed_state
    \<Rightarrow> (control_error + submit_response) \<times> 'st backed_state" where
  "runtime_submit R now run_id rs req s =
     (let message_id = ''message-'' @ re_uuid R (bs_draws s);
          response = \<lparr>mrs_session_id = mrq_session_id req, mrs_message_id = message_id, mrs_acknowledged = True,
            mrs_correlation_id = None\<rparr>
      in case reserve_submit req response (s\<lparr>bs_draws := Suc (bs_draws s)\<rparr>) of
           (Some reply, s1) \<Rightarrow> (reply, s1)
         | (None, s1) \<Rightarrow>
             (case enqueue_message_record (rn_runtime rs) (queued_message req message_id) s1 of
                (ack, s2) \<Rightarrow> (case map_queue_ack ack of
                    Inl e \<Rightarrow> (Inl e, release_submit (mrq_idempotency_key req) s2)
                  | Inr acknowledged \<Rightarrow>
                      (Inr (response\<lparr>mrs_acknowledged := acknowledged\<rparr>),
                       on_control (push_event (re_host R) now (mrq_session_id req) run_id (EpMessageQueued message_id)) s2))))"

definition backed_submit :: "'st runtime_env \<Rightarrow> int \<Rightarrow> submit_request \<Rightarrow> 'st backed_state
    \<Rightarrow> (control_error + submit_response) \<times> 'st backed_state" where
  "backed_submit R now req s = (case control_run (mrq_session_id req) s of
       Inl e \<Rightarrow> (Inl e, s)
     | Inr run_id \<Rightarrow> (case map_of (bs_sessions s) (mrq_session_id req) of
         None \<Rightarrow> (case submit_message (re_host R) now req (bs_control s) of (r, c) \<Rightarrow> (r, s\<lparr>bs_control := c\<rparr>))
       | Some rs \<Rightarrow> runtime_submit R now run_id rs req s))"

definition backed_cancel :: "'st runtime_env \<Rightarrow> int \<Rightarrow> cancel_request \<Rightarrow> 'st backed_state
    \<Rightarrow> (control_error + cancel_response) \<times> 'st backed_state" where
  "backed_cancel R now req s =
     (let s1 = (case map_of (bs_cancellations s) (xrq_run_id req) of
          None \<Rightarrow> s | Some token \<Rightarrow> s\<lparr>bs_tokens := (bs_tokens s)[token := True]\<rparr>)
      in case cancel_run (re_host R) now req (bs_control s1) of (r, c) \<Rightarrow> (r, s1\<lparr>bs_control := c\<rparr>))"

section \<open>Approvals\<close>

definition backed_pending_approvals :: "string \<Rightarrow> 'st backed_state \<Rightarrow> control_error + approval_projection list" where
  "backed_pending_approvals session_id s = (case inspect_session session_id (bs_control s) of
       Inl e \<Rightarrow> Inl e
     | Inr _ \<Rightarrow> Inr (filter (\<lambda>a. case ap_correlation_id a of None \<Rightarrow> True | Some i \<Rightarrow> i = session_id)
         (list_pending_approvals (bs_control s))))"

text \<open>A tool call that asks for approval registers with the broker, after its event may have been projected.\<close>

definition ask_broker :: "string \<Rightarrow> 'st backed_state \<Rightarrow> 'st backed_state" where
  "ask_broker tool_call_id s = s\<lparr>bs_broker := broker_register tool_call_id (bs_broker s)\<rparr>"

definition backed_respond :: "'st runtime_env \<Rightarrow> int \<Rightarrow> string \<Rightarrow> control_decision \<Rightarrow> 'st backed_state
    \<Rightarrow> (control_error + approval_response) \<times> 'st backed_state" where
  "backed_respond R now approval_id d s =
     (let is_runtime = broker_contains approval_id (bs_broker s)
      in case respond_to_approval (re_host R) now approval_id d (bs_control s) of
           (Inl e, c) \<Rightarrow> (Inl e, s\<lparr>bs_control := c\<rparr>)
         | (Inr response, c) \<Rightarrow>
             (let s1 = s\<lparr>bs_control := c\<rparr>
              in if \<not> is_runtime then (Inr response, s1)
                 else (case broker_respond approval_id d (bs_broker s1) of
                     (Inl e, b) \<Rightarrow> (Inl (control_failure e), s1\<lparr>bs_broker := b\<rparr>)
                   | (Inr _, b) \<Rightarrow> (Inr response, s1\<lparr>bs_broker := b\<rparr>))))"

section \<open>Artifacts\<close>

fun read_all :: "(string \<Rightarrow> string + nat list) \<Rightarrow> string list \<Rightarrow> string + (string \<times> nat list) list" where
  "read_all get [] = Inr []"
| "read_all get (n # ns) = (case get n of
       Inl e \<Rightarrow> Inl e
     | Inr data \<Rightarrow> (case read_all get ns of Inl e \<Rightarrow> Inl e | Inr rest \<Rightarrow> Inr ((n, data) # rest)))"

definition store_failure :: "string \<Rightarrow> control_error" where
  "store_failure e = control_failure (ReOrchestration e)"

definition stored_metadata :: "'st runtime_env \<Rightarrow> string \<Rightarrow> nat list \<Rightarrow> artifact_metadata" where
  "stored_metadata R name data = new_metadata (re_host R) name name data"

definition backed_list_artifacts :: "'st runtime_env \<Rightarrow> string \<Rightarrow> 'st backed_state \<Rightarrow> control_error + artifact_metadata list" where
  "backed_list_artifacts R session_id s = (case inspect_session session_id (bs_control s) of
       Inl e \<Rightarrow> Inl e
     | Inr _ \<Rightarrow> (case sto_list (re_artifacts R) session_id (bs_artifacts s) of
         Inl e \<Rightarrow> Inl (store_failure e)
       | Inr names \<Rightarrow>
           (case read_all (\<lambda>n. sto_get (re_artifacts R) session_id n (bs_artifacts s)) (sort_key utf8_bytes names) of
              Inl e \<Rightarrow> Inl (store_failure e)
            | Inr items \<Rightarrow> Inr (map (\<lambda>(n, data). stored_metadata R n data) items))))"

definition backed_describe_artifact :: "'st runtime_env \<Rightarrow> string \<Rightarrow> string \<Rightarrow> 'st backed_state
    \<Rightarrow> control_error + artifact_metadata" where
  "backed_describe_artifact R session_id artifact_id s =
     (case sto_get (re_artifacts R) session_id artifact_id (bs_artifacts s) of
        Inl e \<Rightarrow> Inl (cc_not_found ''artifact not found'')
      | Inr data \<Rightarrow> Inr (stored_metadata R artifact_id data))"

definition backed_read_range :: "'st runtime_env \<Rightarrow> read_range_request \<Rightarrow> 'st backed_state
    \<Rightarrow> control_error + read_range_response" where
  "backed_read_range R req s =
     (if arq_length req > ho_max_artifact_read_bytes (he_options (re_host R)) then
        Inl (cc_validation ''artifact range exceeds limit'')
      else (case sto_get (re_artifacts R) (arq_session_id req) (arq_artifact_id req) (bs_artifacts s) of
          Inl e \<Rightarrow> Inl (cc_not_found ''artifact not found'')
        | Inr data \<Rightarrow> (case byte_range (arq_offset req) (arq_length req) data of
            Inl e \<Rightarrow> Inl e
          | Inr bytes \<Rightarrow> Inr \<lparr>ars_metadata = stored_metadata R (arq_artifact_id req) data,
              ars_offset = arq_offset req, ars_length = arq_length req, ars_data = bytes\<rparr>)))"

definition backed_create_artifact :: "'st runtime_env \<Rightarrow> int \<Rightarrow> create_artifact_request \<Rightarrow> 'st backed_state
    \<Rightarrow> (control_error + artifact_metadata) \<times> 'st backed_state" where
  "backed_create_artifact R now req s = (case validate_artifact_display_path (car_display_path req) of
       Some e \<Rightarrow> (Inl e, s)
     | None \<Rightarrow> (case inspect_session (car_session_id req) (bs_control s) of
         Inl e \<Rightarrow> (Inl e, s)
       | Inr _ \<Rightarrow> (case sto_list (re_artifacts R) (car_session_id req) (bs_artifacts s) of
           Inl e \<Rightarrow> (Inl (store_failure e), s)
         | Inr names \<Rightarrow>
             if car_display_path req \<in> set names then (Inl (cc_conflict ''artifact already exists''), s)
             else (case sto_put (re_artifacts R) (car_session_id req) (car_display_path req) (car_data req) (bs_artifacts s) of
                 (Inl e, st) \<Rightarrow> (Inl (store_failure e), s\<lparr>bs_artifacts := st\<rparr>)
               | (Inr uri, st) \<Rightarrow>
                   (let s1 = s\<lparr>bs_artifacts := st\<rparr>; metadata = stored_metadata R (car_display_path req) (car_data req)
                    in case event_run (bs_control s1) (car_session_id req) of
                         None \<Rightarrow> (Inl (cc_not_found ''run not found''), s1)
                       | Some run_id \<Rightarrow> (Inr metadata,
                           on_control (push_event (re_host R) now (car_session_id req) run_id
                             (EpArtifactCreated (am_logical_id metadata))) s1))))))"

end
