(* ===== verification/Runtime_Steps.thy ===== *)
theory Runtime_Steps
  imports Control_Executions
begin

text \<open>
  The interleavings of the operations of the host that runs agents: a step relation on its state, the
  interface of a property that every operation keeps, and two such properties: executions belong to
  different runs, and no override reaches the settings that are the host's.
\<close>

section \<open>Steps\<close>

inductive backed_step :: "'st runtime_env \<Rightarrow> 'st backed_state \<Rightarrow> 'st backed_state \<Rightarrow> bool" for R where
  bstep_start: "backed_step R s (snd (backed_start R now rq1 s))"
| bstep_resume: "backed_step R s (snd (backed_resume R now rq2 s))"
| bstep_branch: "backed_step R s (snd (backed_branch R now rq3 s))"
| bstep_continue: "backed_step R s (snd (backed_continue R now rq4 s))"
| bstep_submit: "backed_step R s (snd (backed_submit R now rq5 s))"
| bstep_cancel: "backed_step R s (snd (backed_cancel R now rq6 s))"
| bstep_begin: "execution_begin i s = Some t \<Longrightarrow> backed_step R s t"
| bstep_event: "ex \<in> set (bs_executions s) \<Longrightarrow> ex_begun ex \<Longrightarrow>
    backed_step R s (project_agent_event R now (ex_session_id ex) (ex_run_id ex) ev s)"
| bstep_end: "execution_end R now i out s = Some t \<Longrightarrow> backed_step R s t"
| bstep_ask: "backed_step R s (ask_broker tool_call_id s)"
| bstep_respond: "backed_step R s (snd (backed_respond R now approval_id d s))"
| bstep_artifact: "backed_step R s (snd (backed_create_artifact R now rq7 s))"
| bstep_complete: "backed_step R s (on_control (\<lambda>c. snd (complete_run (re_host R) now session_id run_id c)) s)"

inductive_cases backed_stepE: "backed_step R s t"

definition backed_reachable :: "'st runtime_env \<Rightarrow> 'st backed_state \<Rightarrow> bool" where
  "backed_reachable R s \<longleftrightarrow> (\<exists>d st. (backed_step R)\<^sup>*\<^sup>* (backed_state_default d st) s)"

section \<open>What the operations leave alone\<close>

text \<open>The executions with their tokens.\<close>

definition tasks :: "'st backed_state \<Rightarrow> execution list \<times> (string \<times> nat) list \<times> nat" where
  "tasks s = (bs_executions s, bs_cancellations s, length (bs_tokens s))"

lemma tasks_simps [simp]:
  "tasks (s\<lparr>bs_control := c\<rparr>) = tasks s" "tasks (s\<lparr>bs_disk := d\<rparr>) = tasks s"
  "tasks (s\<lparr>bs_registry := g\<rparr>) = tasks s" "tasks (s\<lparr>bs_draws := n\<rparr>) = tasks s"
  "tasks (s\<lparr>bs_artifacts := st\<rparr>) = tasks s" "tasks (s\<lparr>bs_broker := br\<rparr>) = tasks s"
  "tasks (s\<lparr>bs_trace_paths := ps\<rparr>) = tasks s" "tasks (s\<lparr>bs_submit_idempotency := ids\<rparr>) = tasks s"
  "tasks (on_control f s) = tasks s" "tasks (rollback_session a b k s) = tasks s"
  "tasks (install_session a r x s) = tasks s" "tasks (finalize_run_manifest R now b l fk s) = tasks s"
  "tasks (release_submit k s) = tasks s" "tasks (ask_broker i s) = tasks s"
  by (simp_all add: tasks_def on_control_def rollback_session_def Let_def install_session_def
      finalize_run_manifest_def release_submit_def ask_broker_def split: option.splits sum.splits prod.splits)

lemma trace_sink_tasks: "open_trace_sink R now a b s = (r, t) \<Longrightarrow> tasks t = tasks s"
  by (auto simp: open_trace_sink_def Let_def tasks_def split: option.splits sum.splits prod.splits)

lemma new_runtime_tasks: "new_runtime_session R c a tr s = (r, t) \<Longrightarrow> tasks t = tasks s"
  by (auto simp: new_runtime_session_def Let_def tasks_def split: option.splits sum.splits prod.splits)

lemmas spawn_tasks = trace_sink_tasks new_runtime_tasks

lemma start_tasks [simp]: "tasks (snd (backed_start R now req s)) = tasks s"
  by (auto simp: backed_start_def Let_def dest!: spawn_tasks split: option.splits sum.splits prod.splits)

lemma resume_runtime_tasks: "resume_runtime R now req r s = (e, t) \<Longrightarrow> tasks t = tasks s"
  by (auto simp: resume_runtime_def Let_def dest!: spawn_tasks split: option.splits sum.splits prod.splits)

lemma resume_tasks [simp]: "tasks (snd (backed_resume R now req s)) = tasks s"
  by (auto simp: backed_resume_def Let_def dest!: resume_runtime_tasks split: option.splits sum.splits prod.splits)

lemma branch_tasks [simp]: "tasks (snd (backed_branch R now req s)) = tasks s"
  by (auto simp: backed_branch_def Let_def dest!: spawn_tasks split: option.splits sum.splits prod.splits)

lemma store_artifact_tasks: "store_tool_artifact R a p s = (r, t) \<Longrightarrow> tasks t = tasks s"
  by (auto simp: store_tool_artifact_def Let_def split: option.splits sum.splits prod.splits if_splits)

lemma project_tasks [simp]: "tasks (project_agent_event R now a b ev s) = tasks s"
proof -
  obtain r t where rt: "(case ev of EvArtifactCreated path n mime hsh \<Rightarrow> store_tool_artifact R a path s | _ \<Rightarrow> (None, s)) = (r, t)"
    by (rule prod.exhaust)
  then have "tasks t = tasks s" by (cases ev) (auto dest: store_artifact_tasks)
  with rt show ?thesis by (simp add: project_agent_event_def split: prod.splits)
qed

lemma submit_tasks [simp]: "tasks (snd (backed_submit R now req s)) = tasks s"
  by (auto simp: backed_submit_def runtime_submit_def Let_def reserve_submit_def enqueue_message_record_def
      split: option.splits sum.splits prod.splits)

lemma respond_tasks [simp]: "tasks (snd (backed_respond R now i d s)) = tasks s"
  by (auto simp: backed_respond_def Let_def split: option.splits sum.splits prod.splits)

lemma create_artifact_tasks [simp]: "tasks (snd (backed_create_artifact R now req s)) = tasks s"
  by (auto simp: backed_create_artifact_def Let_def split: option.splits sum.splits prod.splits)

lemma cancel_tasks [simp]: "tasks (snd (backed_cancel R now req s)) = tasks s"
  by (auto simp: backed_cancel_def Let_def tasks_def split: option.splits prod.splits)

lemma settle_tasks [simp]: "tasks (settle_execution R now ex r s) = tasks s"
  by (simp add: settle_execution_def split: option.splits)

section \<open>The interface of an invariant\<close>

locale backed_invariant =
  fixes R :: "'st runtime_env" and J :: "'st backed_state \<Rightarrow> bool"
  assumes initial: "J (backed_state_default d st)"
    and kept: "backed_step R s t \<Longrightarrow> J s \<Longrightarrow> J t"
begin

lemma reached: "backed_reachable R s \<Longrightarrow> J s"
proof -
  have "(backed_step R)\<^sup>*\<^sup>* a b \<Longrightarrow> J a \<Longrightarrow> J b" for a b by (induction rule: rtranclp_induct) (blast intro: kept)+
  then show "backed_reachable R s \<Longrightarrow> J s" using initial by (auto simp: backed_reachable_def)
qed

end

section \<open>Executions\<close>

text \<open>The executions belong to different runs, and the table of cancel tokens lists exactly them.\<close>

definition tasks_ok :: "execution list \<times> (string \<times> nat) list \<times> nat \<Rightarrow> bool" where
  "tasks_ok v = (case v of (es, cs, n) \<Rightarrow>
     cs = map (\<lambda>ex. (ex_run_id ex, ex_token ex)) es \<and> distinct (map fst cs) \<and> (\<forall>(r, m) \<in> set cs. m < n))"

definition executions_ok :: "'st backed_state \<Rightarrow> bool" where
  "executions_ok s \<longleftrightarrow> tasks_ok (tasks s)"

lemma update_fresh: "map_of xs k = None \<Longrightarrow> AList.update k v xs = xs @ [(k, v)]"
  by (induction xs) (auto split: if_splits)

lemma tasks_ok_claim:
  assumes "tasks_ok (es, cs, n)" "map_of cs (ex_run_id ex) = None" "ex_token ex = n"
  shows "tasks_ok (es @ [ex], AList.update (ex_run_id ex) n cs, Suc n)"
  using assms by (auto simp: tasks_ok_def update_fresh less_Suc_eq map_of_eq_None_iff image_image)

lemma map_update_same: "i < length xs \<Longrightarrow> f y = f (xs ! i) \<Longrightarrow> map f (xs[i := y]) = map f xs"
  by (simp add: map_update list_update_same_conv)

lemma tasks_ok_begin:
  assumes "tasks_ok (es, cs, n)" "i < length es"
  shows "tasks_ok (es[i := (es ! i)\<lparr>ex_begun := True\<rparr>], cs, n)"
  using assms by (auto simp: tasks_ok_def map_update_same)

lemma delete_nth:
  assumes "distinct (map fst cs)" "i < length cs"
  shows "AList.delete (fst (cs ! i)) cs = take i cs @ drop (Suc i) cs"
proof -
  obtain xs c ys where cs: "cs = xs @ c # ys" "take i cs = xs" "cs ! i = c" "drop (Suc i) cs = ys"
    using id_take_nth_drop [OF assms(2)] by blast
  have "filter (\<lambda>p. fst c \<noteq> fst p) xs = xs" "filter (\<lambda>p. fst c \<noteq> fst p) ys = ys"
    using assms(1) by (auto simp: cs(1) image_iff intro!: filter_True)
  then show ?thesis unfolding cs(2-4) by (simp add: cs(1) AList.delete_eq case_prod_unfold)
qed

lemma tasks_ok_end:
  assumes "tasks_ok (es, cs, n)" "i < length es"
  shows "tasks_ok (take i es @ drop (Suc i) es, AList.delete (ex_run_id (es ! i)) cs, n)"
proof -
  have cs: "cs = map (\<lambda>ex. (ex_run_id ex, ex_token ex)) es" "distinct (map fst cs)" "\<forall>(r, m) \<in> set cs. m < n"
    using assms(1) unfolding tasks_ok_def prod.case by blast+
  then have del: "AList.delete (ex_run_id (es ! i)) cs = take i cs @ drop (Suc i) cs"
    using delete_nth [of cs i] assms(2) by simp
  moreover have "distinct (map fst (take i cs @ drop (Suc i) cs))"
    unfolding del [symmetric] using cs(2) by (rule AList.distinct_delete)
  ultimately show ?thesis using cs(1,3)
    by (auto simp: tasks_ok_def take_map drop_map dest: in_set_takeD in_set_dropD)
qed

lemma claim_tasks:
  assumes "claim_execution req s = Inr (ex, s1)"
  shows "map_of (bs_cancellations s) (ex_run_id ex) = None" "ex_token ex = length (bs_tokens s)"
    and "bs_executions s1 = bs_executions s" "length (bs_tokens s1) = Suc (length (bs_tokens s))"
    and "bs_cancellations s1 = AList.update (ex_run_id ex) (length (bs_tokens s)) (bs_cancellations s)"
  using assms by (auto simp: claim_execution_def Let_def split: option.splits sum.splits if_splits)

lemma executions_ok_kept:
  assumes "backed_step R s t" "executions_ok s"
  shows "executions_ok t"
  using assms(1)
proof cases
  case (bstep_continue now req)
  have "executions_ok (snd (backed_continue R now req s))"
  proof (cases "claim_execution req s")
    case (Inr p)
    then obtain ex s1 where c: "claim_execution req s = Inr (ex, s1)" by (cases p) simp
    show ?thesis using assms(2) claim_tasks [OF c] tasks_ok_claim [OF _ claim_tasks(1,2) [OF c]]
      by (simp add: backed_continue_def c executions_ok_def tasks_def on_control_def)
  qed (use assms(2) in \<open>simp add: backed_continue_def\<close>)
  with bstep_continue show ?thesis by (simp add: executions_ok_def)
next
  case (bstep_begin i)
  with assms(2) show ?thesis
    by (auto simp: executions_ok_def tasks_def execution_begin_def Let_def tasks_ok_begin split: if_splits)
next
  case (bstep_end now i out)
  then obtain ex r s1 where t: "t = settle_execution R now ex r s1"
    and s1: "tasks s1 = (take i (bs_executions s) @ drop (Suc i) (bs_executions s),
      AList.delete (ex_run_id (bs_executions s ! i)) (bs_cancellations s), length (bs_tokens s))"
    and i: "i < length (bs_executions s)"
    by (auto simp: execution_end_def Let_def tasks_def split: if_splits)
  have "tasks_ok (tasks s1)"
    unfolding s1 by (rule tasks_ok_end [OF _ i]) (use assms(2) in \<open>simp add: executions_ok_def tasks_def\<close>)
  with t show ?thesis by (simp add: executions_ok_def)
qed (use assms(2) in \<open>simp_all add: executions_ok_def\<close>)

interpretation exclusive: backed_invariant R executions_ok
proof unfold_locales
  show "executions_ok (backed_state_default d st)" for d st
    by (simp add: executions_ok_def tasks_def backed_state_default_def tasks_ok_def)
qed (rule executions_ok_kept)

section \<open>Settings of the host\<close>

text \<open>The configurations of the runtimes built so far.\<close>

definition configs :: "'st backed_state \<Rightarrow> runtime_config list" where
  "configs s = map ar_config (rg_runtimes (bs_registry s))"

definition host_settings_kept :: "'st runtime_env \<Rightarrow> runtime_config \<Rightarrow> bool" where
  "host_settings_kept R c \<longleftrightarrow> with_host_settings (re_config R) c = c \<and>
     rc_steering_queue_capacity c = Some (control_queue_capacity R)"

definition settings_ok :: "'st runtime_env \<Rightarrow> 'st backed_state \<Rightarrow> bool" where
  "settings_ok R s \<longleftrightarrow> list_all (host_settings_kept R) (configs s)"

lemma configs_simps [simp]:
  "configs (s\<lparr>bs_control := c\<rparr>) = configs s" "configs (s\<lparr>bs_disk := d\<rparr>) = configs s"
  "configs (s\<lparr>bs_draws := n\<rparr>) = configs s" "configs (s\<lparr>bs_artifacts := st\<rparr>) = configs s"
  "configs (s\<lparr>bs_broker := br\<rparr>) = configs s" "configs (s\<lparr>bs_trace_paths := ps\<rparr>) = configs s"
  "configs (s\<lparr>bs_submit_idempotency := ids\<rparr>) = configs s" "configs (s\<lparr>bs_executions := es\<rparr>) = configs s"
  "configs (s\<lparr>bs_tokens := ts\<rparr>) = configs s" "configs (s\<lparr>bs_cancellations := cs\<rparr>) = configs s"
  "configs (s\<lparr>bs_store := xs\<rparr>) = configs s" "configs (s\<lparr>bs_sessions := ss\<rparr>) = configs s"
  "configs (s\<lparr>bs_continue_idempotency := ci\<rparr>) = configs s"
  by (simp_all add: configs_def)

lemma on_runtime_configs: "on_runtime r f g = (a, g2) \<Longrightarrow> map ar_config (rg_runtimes g2) = map ar_config (rg_runtimes g)"
  by (cases "r < length (rg_runtimes g)")
    (auto simp: on_runtime_def map_update list_update_same_conv list_update_beyond split: prod.splits)

lemma configs_on_runtime [simp]: "configs (s\<lparr>bs_registry := snd (on_runtime r f (bs_registry s))\<rparr>) = configs s"
  using on_runtime_configs [of r f "bs_registry s"] by (cases "on_runtime r f (bs_registry s)") (simp add: configs_def)

lemma configs_remove [simp]: "configs (s\<lparr>bs_registry := remove_session a (bs_registry s)\<rparr>) = configs s"
  by (simp add: configs_def remove_session_def)

lemma configs_helpers [simp]:
  "configs (on_control f s) = configs s" "configs (rollback_session a b k s) = configs s"
  "configs (finalize_run_manifest R now b l fk s) = configs s" "configs (release_submit k s) = configs s"
  "configs (ask_broker i s) = configs s" "configs (settle_execution R now ex r s) = configs s"
  "configs (install_session a rt x s) = configs s"
proof -
  show fin: "configs (finalize_run_manifest R now b l fk s) = configs s" for R :: "'st runtime_env" and now b l fk s
    by (simp add: finalize_run_manifest_def Let_def split: option.splits sum.splits)
  show ctl: "configs (on_control f s) = configs s" for f and s :: "'st backed_state" by (simp add: on_control_def)
  show "configs (settle_execution R now ex r s) = configs s" by (simp add: settle_execution_def fin ctl split: option.splits)
  show "configs (rollback_session a b k s) = configs s"
    by (simp add: rollback_session_def Let_def configs_def remove_session_def)
  show "configs (install_session a rt x s) = configs s"
    using on_runtime_configs [of rt "\<lambda>q. ((), update_lifecycle Active q)" "bs_registry s"]
    by (cases "on_runtime rt (\<lambda>q. ((), update_lifecycle Active q)) (bs_registry s)") (simp add: install_session_def configs_def)
qed (simp_all add: release_submit_def ask_broker_def split: option.splits)

lemma trace_sink_configs: "open_trace_sink R now a b s = (r, t) \<Longrightarrow> configs t = configs s"
  by (auto simp: open_trace_sink_def Let_def split: option.splits sum.splits prod.splits)

text \<open>What may have been built in between: runtimes with the host's settings.\<close>

definition builds :: "'st runtime_env \<Rightarrow> 'st backed_state \<Rightarrow> 'st backed_state \<Rightarrow> bool" where
  "builds R s t \<longleftrightarrow> (\<exists>cs. configs t = configs s @ cs \<and> list_all (host_settings_kept R) cs)"

lemma builds_settings: "builds R s t \<Longrightarrow> settings_ok R s \<Longrightarrow> settings_ok R t"
  by (auto simp: builds_def settings_ok_def)

lemma builds_same: "configs t = configs s \<Longrightarrow> builds R s t"
  by (simp add: builds_def)

lemma builds_configs: "configs s2 = configs s \<Longrightarrow> configs t2 = configs t \<Longrightarrow> builds R s t = builds R s2 t2"
  by (simp add: builds_def)

lemma spawn_builds: "new_runtime_session R (session_config_of R c) a tr s = (r, t) \<Longrightarrow> builds R s t"
proof -
  have "host_settings_kept R (with_host_settings (re_config R) (session_config_of R c))"
    by (simp add: host_settings_kept_def with_host_settings_def session_config_of_def)
  then show "new_runtime_session R (session_config_of R c) a tr s = (r, t) \<Longrightarrow> builds R s t"
    by (auto simp: new_runtime_session_def spawn_session_def builds_def configs_def runtime_new_def Let_def
        split: option.splits sum.splits prod.splits if_splits)
qed

lemma start_builds [simp]: "builds R s (snd (backed_start R now req s))"
  by (auto simp: backed_start_def Let_def builds_def dest!: trace_sink_configs spawn_builds [unfolded builds_def]
      split: option.splits sum.splits prod.splits)

lemma resume_runtime_builds: "resume_runtime R now req r s = (e, t) \<Longrightarrow> builds R s t"
  by (auto simp: resume_runtime_def Let_def builds_def dest!: trace_sink_configs spawn_builds [unfolded builds_def]
      split: option.splits sum.splits prod.splits)

lemma resume_builds [simp]: "builds R s (snd (backed_resume R now req s))"
  by (auto simp: backed_resume_def Let_def builds_def dest!: resume_runtime_builds [unfolded builds_def]
      split: option.splits sum.splits prod.splits)

lemma branch_builds [simp]: "builds R s (snd (backed_branch R now req s))"
  by (auto simp: backed_branch_def Let_def builds_def dest!: trace_sink_configs spawn_builds [unfolded builds_def]
      split: option.splits sum.splits prod.splits)

lemma store_artifact_configs: "store_tool_artifact R a p s = (r, t) \<Longrightarrow> configs t = configs s"
  by (auto simp: store_tool_artifact_def Let_def split: option.splits sum.splits prod.splits if_splits)

lemma project_configs [simp]: "configs (project_agent_event R now a b ev s) = configs s"
proof -
  obtain r t where rt: "(case ev of EvArtifactCreated path n mime hsh \<Rightarrow> store_tool_artifact R a path s | _ \<Rightarrow> (None, s)) = (r, t)"
    by (rule prod.exhaust)
  then have "configs t = configs s" by (cases ev) (auto dest: store_artifact_configs)
  with rt show ?thesis by (simp add: project_agent_event_def split: prod.splits)
qed

lemma continue_configs [simp]: "configs (snd (backed_continue R now req s)) = configs s"
  by (auto simp: backed_continue_def claim_execution_def Let_def split: option.splits sum.splits)

lemma enqueue_configs: "enqueue_message_record r m s = (a, t) \<Longrightarrow> configs t = configs s"
  using on_runtime_configs [of r "enqueue m" "bs_registry s"]
  by (auto simp: enqueue_message_record_def configs_def split: prod.splits)

lemma submit_configs [simp]: "configs (snd (backed_submit R now req s)) = configs s"
  by (auto simp: backed_submit_def runtime_submit_def Let_def reserve_submit_def dest!: enqueue_configs
      split: option.splits sum.splits prod.splits)

lemma respond_configs [simp]: "configs (snd (backed_respond R now i d s)) = configs s"
  by (auto simp: backed_respond_def Let_def split: option.splits sum.splits prod.splits)

lemma create_artifact_configs [simp]: "configs (snd (backed_create_artifact R now req s)) = configs s"
  by (auto simp: backed_create_artifact_def Let_def split: option.splits sum.splits prod.splits)

lemma cancel_configs [simp]: "configs (snd (backed_cancel R now req s)) = configs s"
  by (auto simp: backed_cancel_def Let_def split: option.splits prod.splits)

lemma begin_configs: "execution_begin i s = Some t \<Longrightarrow> configs t = configs s"
  by (auto simp: execution_begin_def Let_def split: if_splits)

lemma registry_configs: "bs_registry u = snd (on_runtime r f (bs_registry s)) \<Longrightarrow> configs u = configs s"
  using on_runtime_configs [of r f "bs_registry s"] by (cases "on_runtime r f (bs_registry s)") (simp add: configs_def)

lemma end_configs:
  assumes "execution_end R now i out s = Some t"
  shows "configs t = configs s"
proof -
  from assms obtain ex r s1 where "t = settle_execution R now ex r s1"
    "bs_registry s1 = snd (on_runtime (rn_runtime (ex_session ex)) (\<lambda>_. ((), ro_queue out)) (bs_registry s))"
    by (auto simp: execution_end_def Let_def split: if_splits)
  then show ?thesis using registry_configs by simp
qed

lemma settings_ok_kept:
  assumes "backed_step R s t" "settings_ok R s"
  shows "settings_ok R t"
proof -
  from assms(1) have "builds R s t"
    by cases (auto intro: builds_same begin_configs end_configs)
  with assms(2) show ?thesis by (rule builds_settings [rotated])
qed

interpretation settings: backed_invariant R "settings_ok R"
proof unfold_locales
  show "settings_ok R (backed_state_default d st)" for d st
    by (simp add: settings_ok_def configs_def backed_state_default_def)
qed (rule settings_ok_kept)

end
