(* ===== verification/Control_Steps.thy ===== *)
theory Control_Steps
  imports Control_Host "HOL-Library.Multiset"
begin

text \<open>
  Concurrent calls on the control host. A call runs its sections one after another and other
  calls may run theirs in between; the host is a step relation over the state and the calls
  that are under way. The interface \<open>host_invariant\<close> states what a property of the state must
  satisfy to hold in every state that any interleaving can reach.
\<close>

section \<open>Calls\<close>

datatype call =
    CallStart start_request
  | CallResume resume_request
  | CallBranch branch_request
  | CallSubmit submit_request
  | CallContinue continue_request
  | CallCancel cancel_request
  | CallComplete string string
  | CallRespond string control_decision
  | CallArtifact create_artifact_request

datatype reply =
    ReplyStart "control_error + start_response"
  | ReplyResume "control_error + resume_response"
  | ReplyBranch "control_error + branch_response"
  | ReplySubmit "control_error + submit_response"
  | ReplyContinue control_error
  | ReplyCancel "control_error + cancel_response"
  | ReplyComplete "control_error + unit"
  | ReplyRespond "control_error + approval_response"
  | ReplyArtifact "control_error + artifact_metadata"

text \<open>A call between two of its sections.\<close>

datatype pending =
    ResumeActivate resume_request nat
  | ResumeCommit resume_request
  | ContinueSubmit continue_request
  | SubmitEnqueue submit_request submission
  | SubmitCommit submit_request submission
  | CancelQueue cancel_request bool "nat option"
  | CompleteQueue string string nat
  | CompleteMark string string

definition submit_first :: "submit_request \<Rightarrow> host_state \<Rightarrow> (reply + pending) \<times> host_state" where
  "submit_first req s = map_prod (map_sum ReplySubmit (SubmitEnqueue req)) id (submit_claim req s)"

fun begin_call :: "host_env \<Rightarrow> int \<Rightarrow> call \<Rightarrow> host_state \<Rightarrow> (reply + pending) \<times> host_state" where
  "begin_call E now (CallStart req) s = map_prod (Inl \<circ> ReplyStart) id (start_session E now req s)"
| "begin_call E now (CallResume req) s = map_prod (map_sum ReplyResume (ResumeActivate req)) id (resume_claim req s)"
| "begin_call E now (CallBranch req) s = map_prod (Inl \<circ> ReplyBranch) id (branch_session E req s)"
| "begin_call E now (CallSubmit req) s = submit_first req s"
| "begin_call E now (CallContinue req) s = (case inspect_session (crq_session_id req) s of
      Inl e \<Rightarrow> (Inl (ReplyContinue e), s)
    | Inr active \<Rightarrow>
        if active \<noteq> Some (crq_run_id req)
        then (Inl (ReplyContinue (cc_conflict ''run is not active for this session'')), s)
        else (Inr (ContinueSubmit req), s))"
| "begin_call E now (CallCancel req) s = (case cancel_mark E now req s of
      (Inl e, s1) \<Rightarrow> (Inl (ReplyCancel (Inl e)), s1)
    | (Inr (cancelled, q), s1) \<Rightarrow> (Inr (CancelQueue req cancelled q), s1))"
| "begin_call E now (CallComplete session_id run_id) s = (case complete_find session_id s of
      Inl e \<Rightarrow> (Inl (ReplyComplete (Inl e)), s)
    | Inr q \<Rightarrow> (Inr (CompleteQueue session_id run_id q), s))"
| "begin_call E now (CallRespond approval_id d) s =
     map_prod (Inl \<circ> ReplyRespond) id (respond_to_approval E now approval_id d s)"
| "begin_call E now (CallArtifact req) s = map_prod (Inl \<circ> ReplyArtifact) id (create_artifact E now req s)"

fun next_section :: "host_env \<Rightarrow> int \<Rightarrow> pending \<Rightarrow> host_state \<Rightarrow> (reply + pending) \<times> host_state" where
  "next_section E now (ResumeActivate req q) s = (Inr (ResumeCommit req), set_lifecycle q Active s)"
| "next_section E now (ResumeCommit req) s = map_prod (Inl \<circ> ReplyResume) id (resume_commit req s)"
| "next_section E now (ContinueSubmit req) s = submit_first (submit_of_continue req) s"
| "next_section E now (SubmitEnqueue req sb) s = (case submit_enqueue req sb s of
      (Some e, s1) \<Rightarrow> (Inl (ReplySubmit (Inl e)), s1)
    | (None, s1) \<Rightarrow> (Inr (SubmitCommit req sb), s1))"
| "next_section E now (SubmitCommit req sb) s = map_prod (Inl \<circ> ReplySubmit) id (submit_commit E now req sb s)"
| "next_section E now (CancelQueue req cancelled q) s =
     (Inl (ReplyCancel (Inr (cancel_reply req cancelled))), cancel_queue cancelled q s)"
| "next_section E now (CompleteQueue session_id run_id q) s =
     (Inr (CompleteMark session_id run_id), set_lifecycle q Completed s)"
| "next_section E now (CompleteMark session_id run_id) s =
     map_prod (Inl \<circ> ReplyComplete) id (complete_mark E now session_id run_id s)"

section \<open>Steps\<close>

definition belongs :: "host_state \<Rightarrow> string \<Rightarrow> string \<Rightarrow> bool" where
  "belongs s session_id run_id \<longleftrightarrow>
     (case map_of (hs_sessions s) session_id of None \<Rightarrow> False | Some se \<Rightarrow> run_id \<in> set (se_runs se))"

text \<open>A call that names the session its run belongs to.\<close>

fun addressed :: "host_state \<Rightarrow> call \<Rightarrow> bool" where
  "addressed s (CallCancel req) = belongs s (xrq_session_id req) (xrq_run_id req)"
| "addressed s (CallComplete session_id run_id) = belongs s session_id run_id"
| "addressed s _ = True"

type_synonym system = "host_state \<times> pending multiset"

definition settle :: "(reply + pending) \<times> host_state \<Rightarrow> pending multiset \<Rightarrow> system" where
  "settle r ps = (snd r, case fst r of Inl _ \<Rightarrow> ps | Inr p \<Rightarrow> add_mset p ps)"

text \<open>\<open>checked\<close> admits only well addressed calls. A policy event of the run may add an approval.\<close>

inductive host_step :: "host_env \<Rightarrow> bool \<Rightarrow> system \<Rightarrow> system \<Rightarrow> bool" for E checked where
  step_call: "checked \<longrightarrow> addressed s c \<Longrightarrow> host_step E checked (s, ps) (settle (begin_call E now c s) ps)"
| step_next: "host_step E checked (s, add_mset p ps) (settle (next_section E now p s) ps)"
| step_approval: "host_step E checked (s, ps) (add_approval a s, ps)"

inductive reachable :: "host_env \<Rightarrow> bool \<Rightarrow> system \<Rightarrow> bool" for E checked where
  reach_start: "reachable E checked (host_state_default, {#})"
| reach_step: "reachable E checked x \<Longrightarrow> host_step E checked x y \<Longrightarrow> reachable E checked y"

section \<open>What a property must satisfy\<close>

text \<open>The fields that only caches, approvals and artifacts use.\<close>

definition same_core :: "host_state \<Rightarrow> host_state \<Rightarrow> bool" where
  "same_core s t \<longleftrightarrow> hs_sessions t = hs_sessions s \<and> hs_run_status t = hs_run_status s \<and>
     hs_events t = hs_events s \<and> hs_next_id t \<ge> hs_next_id s \<and> length (hs_queues t) = length (hs_queues s)"

definition new_session :: "host_env \<Rightarrow> string \<Rightarrow> host_state \<Rightarrow> host_state" where
  "new_session E session_id s = (case next_id ''run'' s of (run_id, s1) \<Rightarrow>
     set_status run_id RsRunning (put_session E session_id run_id (Some run_id) s1))"

definition stop_run :: "run_status \<Rightarrow> string \<Rightarrow> string \<Rightarrow> host_state \<Rightarrow> host_state" where
  "stop_run status session_id run_id s = set_active session_id None (set_status run_id status s)"

definition take_up :: "string \<Rightarrow> string \<Rightarrow> host_state \<Rightarrow> host_state" where
  "take_up session_id run_id s = set_status run_id RsRunning (set_active session_id (Some run_id) s)"

text \<open>A pending completion names a run of its session, if it must.\<close>

fun pending_ok :: "bool \<Rightarrow> host_state \<Rightarrow> pending \<Rightarrow> bool" where
  "pending_ok checked s (CompleteQueue session_id run_id q) = (checked \<longrightarrow> belongs s session_id run_id)"
| "pending_ok checked s (CompleteMark session_id run_id) = (checked \<longrightarrow> belongs s session_id run_id)"
| "pending_ok checked s _ = True"

locale host_property =
  fixes E :: host_env and checked :: bool and I :: "host_state \<Rightarrow> bool"
  assumes core: "I s \<Longrightarrow> same_core s t \<Longrightarrow> I t"
    and create: "I s \<Longrightarrow> map_of (hs_sessions s) session_id = None \<Longrightarrow> I (new_session E session_id s)"
    and stop: "I s \<Longrightarrow> checked \<longrightarrow> belongs s session_id run_id \<Longrightarrow> status \<in> {RsCompleted, RsCancelled} \<Longrightarrow>
      map_of (hs_run_status s) run_id \<noteq> None \<Longrightarrow> I (stop_run status session_id run_id s)"
    and restart: "I s \<Longrightarrow> map_of (hs_sessions s) session_id = Some se \<Longrightarrow> run_id \<in> set (se_runs se) \<Longrightarrow>
      se_active_run se = None \<Longrightarrow> map_of (hs_run_status s) run_id = Some RsCompleted \<Longrightarrow>
      I (take_up session_id run_id s)"
    and publish: "I s \<Longrightarrow> I (push_event E now session_id run_id payload s)"
begin

lemma next_id_keeps: "I s \<Longrightarrow> I (snd (next_id k s))"
  by (erule core) (simp add: next_id_def same_core_def)

lemma remember_keeps: "I s \<Longrightarrow> I (remember key request response s)"
  by (erule core) (simp add: remember_def same_core_def split: option.splits)

lemma on_queue_keeps: "I s \<Longrightarrow> I (snd (on_queue q f s))"
  by (erule core) (simp add: on_queue_def same_core_def split: prod.splits)

lemma set_lifecycle_keeps: "I s \<Longrightarrow> I (set_lifecycle q st s)"
  by (simp add: set_lifecycle_def on_queue_keeps)

lemma start_keeps:
  assumes "I s"
  shows "I (snd (start_session E now req s))"
proof (cases "hs_next_failure s")
  case (Some e)
  have "I (s\<lparr>hs_next_failure := None\<rparr>)" using assms by (rule core) (simp add: same_core_def)
  with Some show ?thesis by (simp add: start_session_def)
next
  case None
  obtain session_id s1 where pick: "(case srq_session_id req of Some i \<Rightarrow> (i, s) | None \<Rightarrow> next_id ''session'' s) = (session_id, s1)"
    by (rule prod.exhaust)
  then have s1: "I s1" using assms next_id_keeps [OF assms, of "''session''"] by (auto split: option.splits)
  have made: "I (new_session E session_id s1)" if "map_of (hs_sessions s1) session_id = None"
    using s1 that by (rule create)
  obtain r where r: "replay start_response_of s (srq_idempotency_key req) (start_request_json req) = r" by simp
  show ?thesis
  proof (cases r)
    case (Inl e)
    with None r assms show ?thesis by (simp add: start_session_def)
  next
    case (Inr cached)
    with None r pick s1 made assms show ?thesis
      by (cases cached) (auto simp: start_session_def Let_def new_session_def remember_keeps publish split: prod.splits)
  qed
qed

lemma branch_keeps:
  assumes "I s"
  shows "I (snd (branch_session E req s))"
proof -
  obtain session_id s1 where pick: "(case brq_new_session_id req of Some i \<Rightarrow> (i, s) | None \<Rightarrow> next_id ''session'' s) = (session_id, s1)"
    by (rule prod.exhaust)
  then have s1: "I s1" using assms next_id_keeps [OF assms, of "''session''"] by (auto split: option.splits)
  have made: "I (new_session E session_id s1)" if "map_of (hs_sessions s1) session_id = None"
    using s1 that by (rule create)
  show ?thesis
    using pick s1 made assms
    by (auto simp: branch_session_def Let_def new_session_def remember_keeps split: prod.splits sum.splits option.splits)
qed

lemma claim_keeps:
  assumes "I s"
  shows "I (snd (resume_claim req s))"
proof (cases "\<exists>se. replay resume_response_of s (rrq_idempotency_key req) (resume_request_json req) = Inr None \<and>
    can_resume req s \<and> map_of (hs_sessions s) (rrq_session_id req) = Some se \<and> se_active_run se = None")
  case True
  then obtain se where se: "replay resume_response_of s (rrq_idempotency_key req) (resume_request_json req) = Inr None"
    "can_resume req s" "map_of (hs_sessions s) (rrq_session_id req) = Some se" "se_active_run se = None" by blast
  then have "I (take_up (rrq_session_id req) (rrq_run_id req) s)"
    by (intro restart [OF assms se(3)]) (simp_all add: can_resume_def)
  with se show ?thesis by (simp add: resume_claim_def take_up_def)
next
  case False
  with assms show ?thesis by (auto simp: resume_claim_def split: sum.splits option.splits)
qed

lemma submit_claim_keeps: "I s \<Longrightarrow> I (snd (submit_claim req s))"
  using next_id_keeps [of s "''message''"]
  by (auto simp: submit_claim_def split: sum.splits option.splits prod.splits)

lemma commit_keeps: "I s \<Longrightarrow> I (snd (submit_commit E now req sb s))"
  by (simp add: submit_commit_def remember_keeps publish)

lemma cancel_keeps:
  assumes "I s" "checked \<longrightarrow> belongs s (xrq_session_id req) (xrq_run_id req)"
  shows "I (snd (cancel_mark E now req s))"
proof (cases "map_of (hs_run_status s) (xrq_run_id req)")
  case None
  with assms(1) show ?thesis by (simp add: cancel_mark_def)
next
  case (Some status)
  let ?stop = "stop_run RsCancelled (xrq_session_id req) (xrq_run_id req) s"
  have "I ?stop" using assms Some by (intro stop) auto
  then have "I (?stop\<lparr>hs_approvals := map (\<lambda>(k, a). (k, cancel_approval (xrq_session_id req) a)) (hs_approvals ?stop)\<rparr>)"
    by (rule core) (simp add: same_core_def)
  with Some assms(1) show ?thesis by (simp add: cancel_mark_def Let_def stop_run_def publish)
qed

lemma complete_keeps:
  assumes "I s" "checked \<longrightarrow> belongs s session_id run_id"
  shows "I (snd (complete_mark E now session_id run_id s))"
proof (cases "map_of (hs_run_status s) run_id")
  case (Some status)
  with assms have "I (stop_run RsCompleted session_id run_id s)" by (intro stop) auto
  with Some show ?thesis by (simp add: complete_mark_def stop_run_def publish)
qed (simp add: complete_mark_def assms(1))

lemma respond_keeps:
  assumes "I s"
  shows "I (snd (respond_to_approval E now approval_id d s))"
  using assms by (rule core)
    (auto simp: respond_to_approval_def same_core_def Let_def split: option.splits sum.splits)

lemma artifact_keeps:
  assumes "I s"
  shows "I (snd (create_artifact E now req s))"
proof -
  have bump: "I (s\<lparr>hs_next_id := n, hs_artifacts := x\<rparr>)" if "n \<ge> hs_next_id s" for x n
    using assms by (rule core) (use that in \<open>simp add: same_core_def\<close>)
  show ?thesis
    using assms
    by (auto simp: create_artifact_def next_id_def Let_def bump publish split: option.splits)
qed

lemma approval_keeps: "I s \<Longrightarrow> I (add_approval a s)"
  by (erule core) (simp add: add_approval_def same_core_def)

lemma begin_keeps:
  assumes "I s" "checked \<longrightarrow> addressed s c"
  shows "I (snd (begin_call E now c s))"
proof (cases c)
  case (CallContinue req)
  with assms(1) show ?thesis by (auto split: sum.splits)
next
  case (CallCancel req)
  with assms have "I (snd (cancel_mark E now req s))" by (intro cancel_keeps) auto
  with CallCancel show ?thesis by (auto split: sum.splits prod.splits)
next
  case (CallComplete session_id run_id)
  with assms(1) show ?thesis by (auto split: sum.splits)
qed (use assms(1) in \<open>simp_all add: start_keeps branch_keeps claim_keeps submit_first_def submit_claim_keeps
      respond_keeps artifact_keeps\<close>)

lemma next_keeps:
  assumes "I s" "pending_ok checked s p"
  shows "I (snd (next_section E now p s))"
proof (cases p)
  case (SubmitEnqueue req sb)
  have "I (snd (submit_enqueue req sb s))"
    using on_queue_keeps [OF assms(1), of "sb_queue sb" "enqueue (queued_message req (sb_message_id sb))"]
    by (auto simp: submit_enqueue_def split: prod.split)
  with SubmitEnqueue show ?thesis by (auto split: prod.splits option.splits)
qed (use assms in \<open>simp_all add: set_lifecycle_keeps resume_commit_def remember_keeps submit_first_def
      submit_claim_keeps commit_keeps cancel_queue_def complete_keeps split: option.splits\<close>)

end

section \<open>Sessions keep their runs\<close>

definition gains :: "host_state \<Rightarrow> host_state \<Rightarrow> bool" where
  "gains s t \<longleftrightarrow> (\<forall>session_id run_id. belongs s session_id run_id \<longrightarrow> belongs t session_id run_id)"

lemma gains_refl [simp]: "gains s s"
  by (simp add: gains_def)

lemma gains_trans: "gains s t \<Longrightarrow> gains t u \<Longrightarrow> gains s u"
  by (simp add: gains_def)

lemma sessions_simps [simp]:
  "hs_sessions (set_status r st s) = hs_sessions s"
  "hs_sessions (push_event E now sid r p s) = hs_sessions s"
  "map_of (hs_sessions (set_active sid a s)) = (map_of (hs_sessions s))(sid := map_option (se_active_run_update (\<lambda>_. a)) (map_of (hs_sessions s) sid))"
  "map_of (hs_sessions (new_session E sid s)) = (map_of (hs_sessions s))(sid \<mapsto> \<lparr>se_runs = [fst (next_id ''run'' s)], se_active_run = Some (fst (next_id ''run'' s)), se_queue = length (hs_queues s)\<rparr>)"
  by (auto simp: set_status_def push_event_def Let_def set_active_def AList.map_of_map_entry new_session_def next_id_def
      put_session_def update_conv' fun_eq_iff split: option.splits)

lemma belongs_simps [simp]:
  "belongs (push_event E now sid r p s) = belongs s"
  "belongs (stop_run st sid r s) = belongs s"
  "belongs (take_up sid r s) = belongs s"
  "same_core s t \<Longrightarrow> belongs t = belongs s"
  "belongs (new_session E sid s) x r \<longleftrightarrow> (if x = sid then r = fst (next_id ''run'' s) else belongs s x r)"
  by (auto simp: belongs_def stop_run_def take_up_def same_core_def fun_eq_iff split: option.splits)

lemma belongs_session: "belongs s session_id run_id \<Longrightarrow> map_of (hs_sessions s) session_id \<noteq> None"
  by (auto simp: belongs_def split: option.splits)

interpretation grow: host_property E False "gains s" for E s
  by unfold_locales (auto simp: gains_def dest: belongs_session)

lemma pending_ok_gains: "pending_ok checked s p \<Longrightarrow> gains s t \<Longrightarrow> pending_ok checked t p"
  by (cases p) (auto simp: gains_def)

lemma submit_first_pending: "fst (submit_first req s) = Inr p \<Longrightarrow> pending_ok checked t p"
  by (cases "fst (submit_claim req s)") (auto simp: submit_first_def)

lemma begin_pending_ok:
  assumes "checked \<longrightarrow> addressed s c" "fst (begin_call E now c s) = Inr p"
  shows "pending_ok checked (snd (begin_call E now c s)) p"
proof (cases c)
  case (CallResume req)
  with assms show ?thesis by (cases "fst (resume_claim req s)") auto
next
  case (CallSubmit req)
  with assms submit_first_pending show ?thesis by simp
qed (use assms in \<open>auto split: sum.splits prod.splits if_splits\<close>)

lemma next_pending_ok:
  assumes "pending_ok checked s q" "fst (next_section E now q s) = Inr p"
  shows "pending_ok checked (snd (next_section E now q s)) p"
proof (cases q)
  case (ContinueSubmit req)
  with assms submit_first_pending show ?thesis by simp
next
  case (CompleteQueue session_id run_id i)
  with assms show ?thesis by (auto simp: belongs_def set_lifecycle_def on_queue_def)
qed (use assms in \<open>auto simp: belongs_def split: sum.splits prod.splits if_splits option.splits\<close>)

section \<open>Every reachable state\<close>

locale host_invariant = host_property +
  assumes initial: "I host_state_default"
begin

lemma step_keeps:
  assumes "host_step E checked x y" "I (fst x)" "\<forall>p \<in># snd x. pending_ok checked (fst x) p"
  shows "I (fst y) \<and> (\<forall>p \<in># snd y. pending_ok checked (fst y) p)"
  using assms
proof cases
  case (step_call s c ps now)
  have grow: "gains s (snd (begin_call E now c s))" by (rule grow.begin_keeps) simp_all
  have "\<forall>p \<in># ps. pending_ok checked (snd (begin_call E now c s)) p"
    using assms(3) step_call(1) pending_ok_gains [OF _ grow] by simp
  with begin_pending_ok [OF step_call(3)] begin_keeps [OF _ step_call(3)] assms(2) step_call(1,2) show ?thesis
    by (auto simp: settle_def split: sum.splits)
next
  case (step_next s p ps now)
  have p: "pending_ok checked s p" using assms(3) step_next(1) by simp
  have grow: "gains s (snd (next_section E now p s))"
    by (rule grow.next_keeps) (cases p; simp)+
  have "\<forall>p' \<in># ps. pending_ok checked (snd (next_section E now p s)) p'"
    using assms(3) step_next(1) pending_ok_gains [OF _ grow] by simp
  with next_pending_ok [OF p] next_keeps [OF _ p] assms(2) step_next(1,2) show ?thesis
    by (auto simp: settle_def split: sum.splits)
next
  case (step_approval s ps a)
  have "pending_ok checked (add_approval a s) p = pending_ok checked s p" for p
    by (cases p) (simp_all add: belongs_def add_approval_def)
  with approval_keeps assms(2,3) step_approval show ?thesis by simp
qed

lemma reachable_ok:
  assumes "reachable E checked x"
  shows "I (fst x) \<and> (\<forall>p \<in># snd x. pending_ok checked (fst x) p)"
  using assms
proof induction
  case reach_start
  show ?case by (simp add: initial)
next
  case (reach_step x y)
  then show ?case using step_keeps by blast
qed

lemmas reachable_inv = conjunct1 [OF reachable_ok]

end

end
