(* ===== verification/Control_Invariants.thy ===== *)
theory Control_Invariants
  imports Control_Steps
begin

text \<open>
  Three instances of the host's interface: every session owns its run and its queue; in a host
  whose clients address their calls, a session has an active run exactly while that run is
  running; the events of a stream are numbered without gaps.
\<close>

section \<open>Ownership\<close>

definition run_text :: "nat \<Rightarrow> string" where
  "run_text n = ''run-'' @ dec n"

lemma run_text_inj [simp]: "run_text m = run_text n \<longleftrightarrow> m = n"
  by (auto simp: run_text_def dest: dec_inj)

lemma next_run: "fst (next_id ''run'' s) = run_text (hs_next_id s)" "hs_next_id (snd (next_id k s)) = Suc (hs_next_id s)"
  by (simp_all add: next_id_def run_text_def)

definition owns_run :: "host_state \<Rightarrow> session_entry \<Rightarrow> nat \<Rightarrow> bool" where
  "owns_run s se n \<longleftrightarrow> se_runs se = [run_text n] \<and> n < hs_next_id s \<and> se_active_run se \<in> {None, Some (run_text n)} \<and>
     se_queue se < length (hs_queues s)"

definition sessions_ok :: "host_state \<Rightarrow> bool" where
  "sessions_ok s \<longleftrightarrow>
     (\<forall>session_id se. map_of (hs_sessions s) session_id = Some se \<longrightarrow> (\<exists>n. owns_run s se n)) \<and>
     (\<forall>a b se se'. map_of (hs_sessions s) a = Some se \<longrightarrow> map_of (hs_sessions s) b = Some se' \<longrightarrow> a \<noteq> b \<longrightarrow>
        se_runs se \<noteq> se_runs se' \<and> se_queue se \<noteq> se_queue se')"

lemma sessions_okI:
  assumes "\<And>session_id se. map_of (hs_sessions s) session_id = Some se \<Longrightarrow> \<exists>n. owns_run s se n"
    and "\<And>a b se se'. map_of (hs_sessions s) a = Some se \<Longrightarrow> map_of (hs_sessions s) b = Some se' \<Longrightarrow> a \<noteq> b \<Longrightarrow>
      se_runs se \<noteq> se_runs se' \<and> se_queue se \<noteq> se_queue se'"
  shows "sessions_ok s"
  using assms unfolding sessions_ok_def by blast

lemma sessions_okD:
  assumes "sessions_ok s" "map_of (hs_sessions s) a = Some se"
  shows "\<exists>n. owns_run s se n"
    and "map_of (hs_sessions s) b = Some se' \<Longrightarrow> a \<noteq> b \<Longrightarrow> se_runs se \<noteq> se_runs se' \<and> se_queue se \<noteq> se_queue se'"
  using assms unfolding sessions_ok_def by blast+

text \<open>Updates of the active run within the session's own.\<close>

lemma sessions_ok_active:
  assumes ok: "sessions_ok s" and t: "map_of (hs_sessions t) = (map_of (hs_sessions s))(sid := map_option (se_active_run_update (\<lambda>_. a)) (map_of (hs_sessions s) sid))"
    and same: "hs_next_id t \<ge> hs_next_id s" "length (hs_queues t) = length (hs_queues s)"
    and a: "\<And>r. a = Some r \<Longrightarrow> belongs s sid r"
  shows "sessions_ok t"
proof (rule sessions_okI)
  fix x se
  assume x: "map_of (hs_sessions t) x = Some se"
  show "\<exists>n. owns_run t se n"
  proof (cases "x = sid")
    case True
    with x t obtain old where old: "map_of (hs_sessions s) sid = Some old" "se = old\<lparr>se_active_run := a\<rparr>" by auto
    from sessions_okD(1) [OF ok old(1)] obtain n where "owns_run s old n" by blast
    moreover have "a \<in> {None, Some (run_text n)}" using a old(1) calculation
      by (cases a) (auto simp: belongs_def owns_run_def)
    ultimately show ?thesis using old(2) same by (auto simp: owns_run_def intro!: exI [of _ n])
  next
    case False
    with x t have "map_of (hs_sessions s) x = Some se" by simp
    from sessions_okD(1) [OF ok this] same show ?thesis by (auto simp: owns_run_def)
  qed
next
  fix x y se se'
  assume "map_of (hs_sessions t) x = Some se" "map_of (hs_sessions t) y = Some se'" "x \<noteq> y"
  then show "se_runs se \<noteq> se_runs se' \<and> se_queue se \<noteq> se_queue se'"
    using sessions_okD(2) [OF ok] by (auto simp: t split: if_splits)
qed

lemma core_fields [simp]:
  "hs_next_id (set_status r st s) = hs_next_id s" "hs_queues (set_status r st s) = hs_queues s"
  "hs_next_id (set_active sid a s) = hs_next_id s" "hs_queues (set_active sid a s) = hs_queues s"
  "hs_next_id (push_event E now sid r p s) = hs_next_id s" "hs_queues (push_event E now sid r p s) = hs_queues s"
  "hs_next_id (new_session E sid s) = Suc (hs_next_id s)" "length (hs_queues (new_session E sid s)) = Suc (length (hs_queues s))"
  by (simp_all add: set_status_def set_active_def push_event_def Let_def new_session_def next_id_def put_session_def)

lemma sessions_ok_new:
  assumes ok: "sessions_ok s" and free: "map_of (hs_sessions s) sid = None"
  shows "sessions_ok (new_session E sid s)"
proof (rule sessions_okI)
  fix x se
  assume x: "map_of (hs_sessions (new_session E sid s)) x = Some se"
  show "\<exists>n. owns_run (new_session E sid s) se n"
  proof (cases "x = sid")
    case True
    with x show ?thesis by (auto simp: owns_run_def next_run)
  next
    case False
    with x have "map_of (hs_sessions s) x = Some se" by simp
    from sessions_okD(1) [OF ok this] show ?thesis by (auto simp: owns_run_def intro: less_SucI)
  qed
next
  have old: "se_runs se \<noteq> [run_text (hs_next_id s)] \<and> se_queue se \<noteq> length (hs_queues s)"
    if "map_of (hs_sessions s) x = Some se" for x se
    using sessions_okD(1) [OF ok that] by (auto simp: owns_run_def)
  fix x y se se'
  assume "map_of (hs_sessions (new_session E sid s)) x = Some se"
    "map_of (hs_sessions (new_session E sid s)) y = Some se'" "x \<noteq> y"
  then show "se_runs se \<noteq> se_runs se' \<and> se_queue se \<noteq> se_queue se'"
    using sessions_okD(2) [OF ok, of x se y se'] old [of x se] old [of y se'] by (auto simp: next_run split: if_splits)
qed

lemma sessions_ok_same:
  assumes ok: "sessions_ok s" and same: "hs_sessions t = hs_sessions s" "hs_next_id t \<ge> hs_next_id s"
    "length (hs_queues t) = length (hs_queues s)"
  shows "sessions_ok t"
proof (rule sessions_okI)
  fix x se
  assume "map_of (hs_sessions t) x = Some se"
  then have "map_of (hs_sessions s) x = Some se" by (simp add: same)
  from sessions_okD(1) [OF ok this] obtain n where "owns_run s se n" by blast
  then show "\<exists>n. owns_run t se n" using same by (auto simp: owns_run_def intro!: exI [of _ n])
next
  fix a b se se'
  assume "map_of (hs_sessions t) a = Some se" "map_of (hs_sessions t) b = Some se'" "a \<noteq> b"
  then show "se_runs se \<noteq> se_runs se' \<and> se_queue se \<noteq> se_queue se'"
    using sessions_okD(2) [OF ok] by (simp add: same)
qed

lemma sessions_ok_core: "sessions_ok s \<Longrightarrow> same_core s t \<Longrightarrow> sessions_ok t"
  by (erule sessions_ok_same) (simp_all add: same_core_def)

interpretation ownership: host_invariant E False sessions_ok for E
proof
  fix s t
  assume "sessions_ok s" "same_core s t"
  then show "sessions_ok t" by (rule sessions_ok_core)
next
  fix s session_id
  assume "sessions_ok s" "map_of (hs_sessions s) session_id = None"
  then show "sessions_ok (new_session E session_id s)" by (rule sessions_ok_new)
next
  fix s session_id run_id status
  assume "sessions_ok s"
  then show "sessions_ok (stop_run status session_id run_id s)"
    by (rule sessions_ok_active [where a = None and sid = session_id]) (simp_all add: stop_run_def)
next
  fix s session_id se run_id
  assume ok: "sessions_ok s" and run: "map_of (hs_sessions s) session_id = Some se" "run_id \<in> set (se_runs se)"
  from ok show "sessions_ok (take_up session_id run_id s)"
    by (rule sessions_ok_active [where a = "Some run_id" and sid = session_id])
      (use run in \<open>simp_all add: take_up_def belongs_def\<close>)
next
  fix s now session_id run_id payload
  assume "sessions_ok s"
  then show "sessions_ok (push_event E now session_id run_id payload s)"
    by (rule sessions_ok_same) simp_all
qed (simp add: sessions_ok_def host_state_default_def)

lemma belongs_unique:
  assumes "sessions_ok s" "belongs s a r" "belongs s b r"
  shows "a = b"
proof (rule ccontr)
  assume "a \<noteq> b"
  from assms(2) obtain se where se: "map_of (hs_sessions s) a = Some se" "r \<in> set (se_runs se)"
    by (auto simp: belongs_def split: option.splits)
  from assms(3) obtain se' where se': "map_of (hs_sessions s) b = Some se'" "r \<in> set (se_runs se')"
    by (auto simp: belongs_def split: option.splits)
  from sessions_okD(1) [OF assms(1) se(1)] obtain n where "se_runs se = [run_text n]" by (auto simp: owns_run_def)
  moreover from sessions_okD(1) [OF assms(1) se'(1)] obtain m where "se_runs se' = [run_text m]"
    by (auto simp: owns_run_def)
  ultimately have "se_runs se = se_runs se'" using se(2) se'(2) by simp
  with sessions_okD(2) [OF assms(1) se(1) se'(1) \<open>a \<noteq> b\<close>] show False by simp
qed

lemma belongs_one:
  assumes "sessions_ok s" "belongs s a r" "belongs s a r'"
  shows "r = r'"
proof -
  from assms(2,3) obtain se where se: "map_of (hs_sessions s) a = Some se" "r \<in> set (se_runs se)" "r' \<in> set (se_runs se)"
    by (auto simp: belongs_def split: option.splits)
  from sessions_okD(1) [OF assms(1) se(1)] se(2,3) show ?thesis by (auto simp: owns_run_def)
qed

section \<open>Active runs\<close>

definition active_run :: "host_state \<Rightarrow> string \<Rightarrow> string option" where
  "active_run s session_id = Option.bind (map_of (hs_sessions s) session_id) se_active_run"

definition running_ok :: "host_state \<Rightarrow> bool" where
  "running_ok s \<longleftrightarrow> sessions_ok s \<and>
     (\<forall>session_id run_id. belongs s session_id run_id \<longrightarrow>
        (map_of (hs_run_status s) run_id = Some RsRunning \<longleftrightarrow> active_run s session_id = Some run_id))"

lemma active_run_simps [simp]:
  "active_run (set_status r st s) = active_run s"
  "active_run (push_event E now sid r p s) = active_run s"
  "active_run (set_active sid a s) = (if map_of (hs_sessions s) sid = None then active_run s else (active_run s)(sid := a))"
  "active_run (new_session E sid s) = (active_run s)(sid \<mapsto> fst (next_id ''run'' s))"
  by (auto simp: active_run_def fun_eq_iff)

lemma status_simps [simp]:
  "map_of (hs_run_status (set_status r st s)) = (map_of (hs_run_status s))(r \<mapsto> st)"
  "hs_run_status (set_active sid a s) = hs_run_status s"
  "hs_run_status (push_event E now sid r p s) = hs_run_status s"
  "map_of (hs_run_status (new_session E sid s)) = (map_of (hs_run_status s))(fst (next_id ''run'' s) \<mapsto> RsRunning)"
  by (auto simp: set_status_def set_active_def push_event_def Let_def new_session_def next_id_def put_session_def
      update_conv')

lemma belongs_old: "sessions_ok s \<Longrightarrow> belongs s x r \<Longrightarrow> r \<noteq> fst (next_id ''run'' s)"
  by (auto simp: belongs_def next_run owns_run_def dest!: sessions_okD(1) split: option.splits)

lemma running_stop:
  assumes "running_ok s" "belongs s sid r" "st \<in> {RsCompleted, RsCancelled}"
  shows "running_ok (stop_run st sid r s)"
proof -
  have ok: "sessions_ok s" using assms(1) by (simp add: running_ok_def)
  have "sessions_ok (stop_run st sid r s)"
    using ok by (rule sessions_ok_active [where a = None and sid = sid]) (simp_all add: stop_run_def)
  moreover have "map_of (hs_run_status (stop_run st sid r s)) r' = Some RsRunning \<longleftrightarrow>
      active_run (stop_run st sid r s) x = Some r'" if x: "belongs s x r'" for x r'
  proof (cases "r' = r")
    case True
    with belongs_unique [OF ok x] assms(2) have "x = sid" by simp
    with True assms(2,3) belongs_session [OF assms(2)] show ?thesis by (auto simp: stop_run_def)
  next
    case False
    have "map_of (hs_run_status s) r' = Some RsRunning \<longleftrightarrow> active_run s x = Some r'"
      using assms(1) x by (simp add: running_ok_def)
    moreover have "x \<noteq> sid" using belongs_one [OF ok assms(2), of r'] x False by blast
    ultimately show ?thesis using False by (auto simp: stop_run_def)
  qed
  ultimately show ?thesis by (simp add: running_ok_def)
qed

lemma running_take_up:
  assumes "running_ok s" "belongs s sid r"
  shows "running_ok (take_up sid r s)"
proof -
  have ok: "sessions_ok s" using assms(1) by (simp add: running_ok_def)
  have "sessions_ok (take_up sid r s)"
    using ok by (rule sessions_ok_active [where a = "Some r" and sid = sid]) (use assms(2) in \<open>simp_all add: take_up_def\<close>)
  moreover have "map_of (hs_run_status (take_up sid r s)) r' = Some RsRunning \<longleftrightarrow>
      active_run (take_up sid r s) x = Some r'" if x: "belongs s x r'" for x r'
  proof (cases "r' = r")
    case True
    with belongs_unique [OF ok x] assms(2) have "x = sid" by simp
    with True belongs_session [OF assms(2)] show ?thesis by (auto simp: take_up_def)
  next
    case False
    have "map_of (hs_run_status s) r' = Some RsRunning \<longleftrightarrow> active_run s x = Some r'"
      using assms(1) x by (simp add: running_ok_def)
    moreover have "x \<noteq> sid" using belongs_one [OF ok assms(2), of r'] x False by blast
    ultimately show ?thesis using False by (auto simp: take_up_def)
  qed
  ultimately show ?thesis by (simp add: running_ok_def)
qed

interpretation running: host_invariant E True running_ok for E
proof
  fix s t
  assume "running_ok s" "same_core s t"
  then show "running_ok t"
    using sessions_ok_core [of s t]
    by (simp add: running_ok_def active_run_def) (simp add: same_core_def)
next
  fix s session_id
  assume s: "running_ok s" "map_of (hs_sessions s) session_id = None"
  then have "sessions_ok (new_session E session_id s)" by (simp add: running_ok_def sessions_ok_new)
  with s belongs_old [of s] show "running_ok (new_session E session_id s)"
    by (auto simp: running_ok_def dest: belongs_session)
next
  fix s session_id run_id status
  assume "running_ok s" "True \<longrightarrow> belongs s session_id run_id" "status \<in> {RsCompleted, RsCancelled}"
  then show "running_ok (stop_run status session_id run_id s)" by (simp add: running_stop)
next
  fix s session_id se run_id
  assume "running_ok s" "map_of (hs_sessions s) session_id = Some se" "run_id \<in> set (se_runs se)"
  then show "running_ok (take_up session_id run_id s)" by (intro running_take_up) (simp_all add: belongs_def)
next
  fix s now session_id run_id payload
  assume "running_ok s"
  then show "running_ok (push_event E now session_id run_id payload s)"
    by (simp add: running_ok_def ownership.publish)
qed (simp add: running_ok_def sessions_ok_def host_state_default_def belongs_def)

section \<open>Event streams\<close>

definition numbered :: "control_event list \<Rightarrow> bool" where
  "numbered es \<longleftrightarrow> successively (\<lambda>a b. ev_sequence_number b = saturating_add (ev_sequence_number a) 1) es"

definition events_ok :: "host_env \<Rightarrow> host_state \<Rightarrow> bool" where
  "events_ok E s \<longleftrightarrow> (\<forall>session_id es. map_of (hs_events s) session_id = Some es \<longrightarrow> numbered es \<and>
     length es \<le> ho_event_retention (he_options E) \<and> (\<forall>e \<in> set es. ev_session_id e = session_id))"

lemma numbered_retain: "numbered es \<Longrightarrow> numbered (retain n es)"
  unfolding numbered_def retain_def
  by (subst (asm) append_take_drop_id [symmetric, of _ "length es - n"], subst (asm) successively_append_iff) simp

lemma numbered_snoc: "numbered es \<Longrightarrow> ev_sequence_number e = next_sequence es \<Longrightarrow> numbered (es @ [e])"
  by (auto simp: numbered_def next_sequence_def successively_append_iff)

interpretation streams: host_invariant E False "events_ok E" for E
proof
  fix s now session_id run_id payload
  assume ok: "events_ok E s"
  let ?e = "\<lparr>ev_schema_version = 1, ev_sequence_number = next_sequence (session_events s session_id), ev_run_id = run_id,
    ev_session_id = session_id, ev_timestamp = he_rfc3339 E now, ev_payload = payload\<rparr>"
  have es: "numbered (session_events s session_id)" "\<forall>e \<in> set (session_events s session_id). ev_session_id e = session_id"
    using ok by (cases "map_of (hs_events s) session_id"; auto simp: events_ok_def session_events_def numbered_def)+
  let ?new = "retain (ho_event_retention (he_options E)) (session_events s session_id @ [?e])"
  have "numbered (session_events s session_id @ [?e])" using es(1) by (rule numbered_snoc) simp
  then have "numbered ?new" by (rule numbered_retain)
  moreover have "length ?new \<le> ho_event_retention (he_options E)" by (simp add: retain_def)
  moreover have "\<forall>e \<in> set ?new. ev_session_id e = session_id"
    using es(2) by (auto simp: retain_def dest!: in_set_dropD)
  ultimately show "events_ok E (push_event E now session_id run_id payload s)"
    using ok by (auto simp: events_ok_def push_event_def Let_def update_conv')
qed (auto simp: events_ok_def same_core_def new_session_def next_id_def put_session_def set_status_def stop_run_def
    set_active_def take_up_def host_state_default_def)

end
