(* ===== verification/Event_Polling.thy ===== *)
theory Event_Polling
  imports Control_Invariants
begin

text \<open>
  Polling the events of a session. A cursor reads back as the number it was made from; a client
  that follows the cursors sees every event once and in order, and after enough polls has seen
  all of them; a filter that matches nothing keeps the cursor where it is.
\<close>

section \<open>Cursors\<close>

lemma rsplit_once_append: "c \<notin> set v \<Longrightarrow> rsplit_once c (u @ c # v) = Some (u, v)"
proof -
  assume "c \<notin> set v"
  then have "x \<noteq> c" if "x \<in> set (rev v)" for x using that by auto
  then have "dropWhile (\<lambda>x. x \<noteq> c) (rev v @ c # rev u) = c # rev u" "takeWhile (\<lambda>x. x \<noteq> c) (rev v @ c # rev u) = rev v"
    using dropWhile_append2 [of "rev v" "\<lambda>x. x \<noteq> c" "c # rev u"] takeWhile_append2 [of "rev v" "\<lambda>x. x \<noteq> c" "c # rev u"]
    by auto
  then show ?thesis by (simp add: rsplit_once_def)
qed

lemma dec_digit: "c \<in> set (dec n) \<Longrightarrow> is_dec_digit c"
  using dec_digits [of n] by (simp add: list_all_iff)

lemma dec_chars: "CHR '':'' \<notin> set (dec n)" "\<not> starts_with (dec n) ''+''" "\<not> starts_with (dec n) ''-''"
proof -
  show "CHR '':'' \<notin> set (dec n)" using dec_digit [of "CHR '':''" n] by (auto simp: is_dec_digit_def)
  have "hd (dec n) \<in> set (dec n)" by simp
  then have "is_dec_digit (hd (dec n))" by (rule dec_digit)
  then show "\<not> starts_with (dec n) ''+''" "\<not> starts_with (dec n) ''-''"
    by (cases "dec n"; auto simp: starts_with_iff is_dec_digit_def)+
qed

lemma parse_digits_dec [simp]: "parse_digits (dec n) = Some n"
  by (simp add: parse_digits_def dec_digits)

lemma parse_u64_dec: "n \<le> usize_max \<Longrightarrow> parse_u64 (dec n) = Some n"
  by (simp add: parse_u64_def dec_chars)

lemma int_text_no_colon: "CHR '':'' \<notin> set (int_text n)"
  by (simp add: int_text_def dec_chars)

lemma parse_i64_text:
  assumes "- (2 ^ 63) \<le> n" "n < 2 ^ 63"
  shows "parse_i64 (int_text n) = Some n"
proof (cases "n < 0")
  case True
  with assms have "nat (- n) \<le> 2 ^ 63" by (simp add: nat_le_iff)
  with True show ?thesis by (simp add: parse_i64_def int_text_def starts_with_iff)
next
  case False
  with assms have "nat n < 2 ^ 63" by (simp add: nat_less_iff)
  with False show ?thesis by (simp add: parse_i64_def int_text_def dec_chars)
qed

text \<open>The moments the clock can show, and a cursor that is still valid.\<close>

definition clock_ok :: "int \<Rightarrow> bool" where
  "clock_ok now \<longleftrightarrow> - (2 ^ 63) \<le> timestamp now \<and> timestamp now < 2 ^ 63"

definition fresh_at :: "int \<Rightarrow> int \<Rightarrow> bool" where
  "fresh_at issued now \<longleftrightarrow> clock_ok issued \<and> timestamp now - timestamp issued \<le> cursor_ttl_seconds"

lemma cursor_start_cursor:
  assumes "n \<le> usize_max" "fresh_at issued now"
  shows "cursor_start E now sid oldest (cursor E issued sid n) = Inr n"
proof -
  have split: "rsplit_once CHR '':'' (cursor E issued sid n) =
      Some (cursor_stream_key E sid @ CHR '':'' # dec n, int_text (timestamp issued))"
    using rsplit_once_append [of "CHR '':''" "int_text (timestamp issued)" "cursor_stream_key E sid @ CHR '':'' # dec n"]
    by (simp add: cursor_def int_text_no_colon)
  have split2: "rsplit_once CHR '':'' (cursor_stream_key E sid @ CHR '':'' # dec n) = Some (cursor_stream_key E sid, dec n)"
    by (rule rsplit_once_append) (simp add: dec_chars)
  have "\<not> saturating_sub_i64 (timestamp now) (timestamp issued) > cursor_ttl_seconds"
    using assms(2) by (simp add: fresh_at_def saturating_sub_i64_def cursor_ttl_seconds_def max_def)
  with assms split split2 show ?thesis
    by (simp add: cursor_start_def parse_i64_text parse_u64_dec fresh_at_def clock_ok_def)
qed

section \<open>Streams\<close>

text \<open>A stream whose numbers are consecutive from \<open>a\<close>; true of every reachable stream that has not
  reached the largest number.\<close>

definition from_number :: "nat \<Rightarrow> control_event list \<Rightarrow> bool" where
  "from_number a es \<longleftrightarrow> map ev_sequence_number es = [a..<a + length es]"

lemma numbered_from:
  assumes "numbered es" "es \<noteq> []" "\<forall>e \<in> set es. ev_sequence_number e < usize_max"
  shows "from_number (ev_sequence_number (hd es)) es"
  using assms
proof (induction es rule: rev_induct)
  case (snoc e es)
  show ?case
  proof (cases "es = []")
    case True
    then show ?thesis by (simp add: from_number_def)
  next
    case False
    with snoc have num: "from_number (ev_sequence_number (hd es)) es"
      by (simp add: numbered_def successively_append_iff)
    have "ev_sequence_number (last es) < usize_max" using snoc.prems(3) False by simp
    then have "ev_sequence_number e = Suc (ev_sequence_number (last es))"
      using snoc.prems(1) False saturating_add_exact [of "ev_sequence_number (last es)" 1]
      by (simp add: numbered_def successively_append_iff)
    moreover have "ev_sequence_number (last es) = ev_sequence_number (hd es) + length es - 1"
      using num False unfolding from_number_def by (metis last_map last_upt length_greater_0_conv less_add_same_cancel1)
    ultimately show ?thesis using num False by (simp add: from_number_def)
  qed
qed simp

lemma from_number_filter:
  assumes "from_number a es" "a \<le> n"
  shows "filter (\<lambda>e. n \<le> ev_sequence_number e) es = drop (n - a) es"
  using assms
proof (induction es arbitrary: a)
  case (Cons e es)
  then have e: "ev_sequence_number e = a" and tail: "from_number (Suc a) es"
    by (simp_all add: from_number_def upt_conv_Cons del: upt_Suc)
  show ?case
  proof (cases "a = n")
    case True
    have "\<forall>x \<in> set (e # es). n \<le> ev_sequence_number x"
    proof
      fix x
      assume "x \<in> set (e # es)"
      then have "ev_sequence_number x \<in> set (map ev_sequence_number (e # es))" by auto
      with Cons.prems(1) True show "n \<le> ev_sequence_number x" unfolding from_number_def by (metis atLeastLessThan_iff set_upt)
    qed
    with True show ?thesis by (simp add: filter_id_conv)
  next
    case False
    with Cons.prems(2) have "Suc a \<le> n" by simp
    with Cons.IH [OF tail] e False Cons.prems(2) show ?thesis by (simp add: Suc_diff_le [symmetric] drop_Cons' )
  qed
qed (simp add: from_number_def)

lemma saturating_last: "0 < n \<Longrightarrow> a + n - 1 < usize_max \<Longrightarrow> saturating_add (a + n - 1) 1 = a + n"
  by (subst saturating_add_exact) auto

text \<open>What one poll without a filter returns.\<close>

definition poll_limit :: "poll_request \<Rightarrow> nat" where
  "poll_limit req = min (case prq_limit req of None \<Rightarrow> 100 | Some n \<Rightarrow> n) 1000"

definition oldest_number :: "host_state \<Rightarrow> string \<Rightarrow> nat" where
  "oldest_number s sid = (let es = session_events s sid in if es = [] then 0 else ev_sequence_number (hd es))"

lemma poll_events_from:
  assumes "prq_kinds req = None" "from_number (oldest_number s (prq_session_id req)) (session_events s (prq_session_id req))"
    and "(case prq_cursor req of None \<Rightarrow> Inr (oldest_number s (prq_session_id req))
        | Some token \<Rightarrow> cursor_start E now (prq_session_id req) (oldest_number s (prq_session_id req)) token) = Inr start"
    and "oldest_number s (prq_session_id req) \<le> start"
    and "\<forall>e \<in> set (session_events s (prq_session_id req)). ev_sequence_number e < usize_max"
  shows "\<exists>es. poll_events E now req s = Inr \<lparr>prs_events = es,
      prs_next_cursor = Some (cursor E now (prq_session_id req) (start + length es))\<rparr> \<and>
    es = take (poll_limit req) (drop (start - oldest_number s (prq_session_id req)) (session_events s (prq_session_id req)))"
proof -
  let ?sid = "prq_session_id req"
  let ?events = "session_events s ?sid"
  let ?oldest = "oldest_number s ?sid"
  let ?es = "take (poll_limit req) (drop (start - ?oldest) ?events)"
  have filtered: "filter (\<lambda>e. start \<le> ev_sequence_number e) ?events = drop (start - ?oldest) ?events"
    using assms(2,4) by (rule from_number_filter)
  have wanted: "filter (wanted (prq_kinds req)) xs = xs" for xs
    using assms(1) by (simp add: wanted_def)
  have next': "saturating_add (ev_sequence_number (last ?es)) 1 = start + length ?es" if "?es \<noteq> []"
  proof -
    have "map ev_sequence_number ?es = take (poll_limit req) (drop (start - ?oldest) [?oldest..<?oldest + length ?events])"
      using assms(2) by (simp add: from_number_def take_map [symmetric] drop_map [symmetric])
    also have "\<dots> = take (poll_limit req) [start..<?oldest + length ?events]"
      using assms(4) by (simp add: drop_upt)
    also have "\<dots> = [start..<start + length ?es]"
      using assms(4) by (cases "start \<le> ?oldest + length ?events") (simp_all add: take_upt min_def add.commute)
    finally have numbers: "map ev_sequence_number ?es = [start..<start + length ?es]" .
    have "ev_sequence_number (last ?es) = last (map ev_sequence_number ?es)" using that by (simp add: last_map)
    also have "\<dots> = start + length ?es - 1" unfolding numbers using that by (simp add: last_upt)
    finally have last: "ev_sequence_number (last ?es) = start + length ?es - 1" .
    have "last ?es \<in> set ?events" using that by (meson in_set_dropD in_set_takeD last_in_set)
    with assms(5) have "ev_sequence_number (last ?es) < usize_max" by blast
    moreover have "0 < length ?es" using that by (simp only: length_greater_0_conv not_False_eq_True)
    ultimately show ?thesis unfolding last by (intro saturating_last)
  qed
  let ?filtered = "take (poll_limit req) (filter (wanted (prq_kinds req)) (filter (\<lambda>e. start \<le> ev_sequence_number e) ?events))"
  have after: "(if ?es = [] then start else saturating_add (ev_sequence_number (last ?es)) 1) = start + length ?es"
  proof (cases "?es = []")
    case True
    then show ?thesis unfolding True by simp
  next
    case False
    then show ?thesis unfolding if_not_P [OF False] by (rule next')
  qed
  have "poll_events E now req s = (if start < ?oldest
      then Inl (cursor_error E now ?sid ?oldest CcLaggedCursor ''cursor is outside retained history'')
      else Inr \<lparr>prs_events = ?filtered, prs_next_cursor = Some (cursor E now ?sid
        (if ?filtered = [] then start else saturating_add (ev_sequence_number (last ?filtered)) 1))\<rparr>)"
    using assms(3) unfolding poll_events_def oldest_number_def poll_limit_def Let_def by (simp split: option.splits)
  then have "poll_events E now req s = Inr \<lparr>prs_events = ?es, prs_next_cursor = Some (cursor E now ?sid (start + length ?es))\<rparr>"
    unfolding filtered wanted after using assms(4) by simp
  then show ?thesis by blast
qed

section \<open>A client that follows the cursors\<close>

text \<open>The events of \<open>k\<close> polls; \<open>now i\<close> and \<open>st i\<close> are the time and the host at the \<open>i\<close>th.\<close>

fun poll_rounds :: "host_env \<Rightarrow> (nat \<Rightarrow> int) \<Rightarrow> (nat \<Rightarrow> host_state) \<Rightarrow> poll_request \<Rightarrow> nat \<Rightarrow> control_event list" where
  "poll_rounds E now st req 0 = []"
| "poll_rounds E now st req (Suc k) = (case poll_events E (now 0) req (st 0) of
       Inl e \<Rightarrow> []
     | Inr r \<Rightarrow> prs_events r @
         poll_rounds E (\<lambda>i. now (Suc i)) (\<lambda>i. st (Suc i)) (req\<lparr>prq_cursor := prs_next_cursor r\<rparr>) k)"

definition stream_ok :: "host_state \<Rightarrow> string \<Rightarrow> bool" where
  "stream_ok s sid \<longleftrightarrow> numbered (session_events s sid) \<and> (\<forall>e \<in> set (session_events s sid). ev_sequence_number e < usize_max)"

lemma stream_ok_from: "stream_ok s sid \<Longrightarrow> from_number (oldest_number s sid) (session_events s sid)"
  using numbered_from [of "session_events s sid"]
  by (auto simp: stream_ok_def oldest_number_def Let_def from_number_def)

text \<open>The host's events change only by events added at the end.\<close>

definition extends :: "(nat \<Rightarrow> host_state) \<Rightarrow> string \<Rightarrow> bool" where
  "extends st sid \<longleftrightarrow> (\<forall>i. session_events (st i) sid \<noteq> [] \<and> prefix (session_events (st i) sid) (session_events (st (Suc i)) sid) \<and>
     stream_ok (st i) sid)"

lemma extends_oldest: "extends st sid \<Longrightarrow> oldest_number (st (Suc i)) sid = oldest_number (st i) sid"
  by (auto simp: extends_def oldest_number_def Let_def prefix_def) (metis hd_append2)

lemma extends_Suc: "extends st sid \<Longrightarrow> extends (\<lambda>i. st (Suc i)) sid"
  by (simp add: extends_def)

lemma extends_prefix: "extends st sid \<Longrightarrow> prefix (session_events (st i) sid) (session_events (st (i + d)) sid)"
proof (induction d)
  case (Suc d)
  then show ?case by (metis add_Suc_right extends_def prefix_order.trans)
qed simp

lemma rounds_deliver:
  assumes "extends st sid" "prq_session_id req = sid" "prq_kinds req = None" "\<And>i. fresh_at (now i) (now (Suc i))"
    and "0 < poll_limit req"
    and "(case prq_cursor req of None \<Rightarrow> Inr (oldest_number (st 0) sid)
        | Some token \<Rightarrow> cursor_start E (now 0) sid (oldest_number (st 0) sid) token) = Inr (oldest_number (st 0) sid + d)"
    and "d \<le> length (session_events (st 0) sid)"
  shows "\<exists>m. poll_rounds E now st req k = take m (drop d (session_events (st k) sid)) \<and>
    min (k * poll_limit req) (length (session_events (st 0) sid) - d) \<le> m"
  using assms
proof (induction k arbitrary: st now req d)
  case (Suc k)
  let ?es = "session_events (st 0) sid"
  let ?l = "poll_limit req"
  have s0: "stream_ok (st 0) sid" using Suc.prems(1) by (simp add: extends_def)
  let ?new = "take ?l (drop d ?es)"
  from poll_events_from [of req "st 0" E "now 0" "oldest_number (st 0) sid + d"] Suc.prems(2,3,6)
    stream_ok_from [OF s0] s0
  have poll: "poll_events E (now 0) req (st 0) = Inr \<lparr>prs_events = ?new,
      prs_next_cursor = Some (cursor E (now 0) sid (oldest_number (st 0) sid + d + length ?new))\<rparr>"
    by (auto simp: stream_ok_def)
  let ?req = "req\<lparr>prq_cursor := Some (cursor E (now 0) sid (oldest_number (st 0) sid + d + length ?new))\<rparr>"
  let ?d = "d + length ?new"
  have d: "?d \<le> length ?es" using Suc.prems(7) by simp
  have pre: "prefix ?es (session_events (st 1) sid)" using extends_prefix [OF Suc.prems(1), of 0 1] by simp
  have bound: "oldest_number (st 0) sid + ?d \<le> usize_max"
  proof -
    have "?es \<noteq> []" using Suc.prems(1) by (simp add: extends_def)
    with stream_ok_from [OF s0] have "ev_sequence_number (last ?es) = oldest_number (st 0) sid + length ?es - 1"
      unfolding from_number_def by (metis last_map last_upt length_greater_0_conv less_add_same_cancel1)
    moreover have "ev_sequence_number (last ?es) < usize_max" using s0 \<open>?es \<noteq> []\<close> by (simp add: stream_ok_def)
    ultimately show ?thesis using d \<open>?es \<noteq> []\<close> by (cases "length ?es") simp_all
  qed
  have "cursor_start E (now (Suc 0)) sid (oldest_number (st (Suc 0)) sid)
      (cursor E (now 0) sid (oldest_number (st 0) sid + ?d)) = Inr (oldest_number (st (Suc 0)) sid + ?d)"
    using cursor_start_cursor [OF bound Suc.prems(4) [of 0]] extends_oldest [OF Suc.prems(1), of 0] by simp
  then have cur: "(case prq_cursor ?req of None \<Rightarrow> Inr (oldest_number (st (Suc 0)) sid)
      | Some token \<Rightarrow> cursor_start E (now (Suc 0)) sid (oldest_number (st (Suc 0)) sid) token) =
      Inr (oldest_number (st (Suc 0)) sid + ?d)"
    by (simp add: add.assoc)
  have limit: "poll_limit ?req = ?l" by (simp add: poll_limit_def)
  have "\<exists>m. poll_rounds E (\<lambda>i. now (Suc i)) (\<lambda>i. st (Suc i)) ?req k = take m (drop ?d (session_events (st (Suc k)) sid)) \<and>
      min (k * poll_limit ?req) (length (session_events (st (Suc 0)) sid) - ?d) \<le> m"
    by (rule Suc.IH [where st = "\<lambda>i. st (Suc i)" and now = "\<lambda>i. now (Suc i)" and req = ?req and d = ?d])
      (rule cur extends_Suc [OF Suc.prems(1)] | use Suc.prems prefix_length_le [OF pre] d limit in simp)+
  then obtain m where m: "poll_rounds E (\<lambda>i. now (Suc i)) (\<lambda>i. st (Suc i)) ?req k = take m (drop ?d (session_events (st (Suc k)) sid))"
    "min (k * ?l) (length (session_events (st (Suc 0)) sid) - ?d) \<le> m"
    unfolding limit by blast
  have whole: "prefix ?es (session_events (st (Suc k)) sid)" using extends_prefix [OF Suc.prems(1), of 0 "Suc k"] by simp
  then obtain more where more: "session_events (st (Suc k)) sid = ?es @ more" by (auto simp: prefix_def)
  have "?new = take (length ?new) (drop d (session_events (st (Suc k)) sid))"
    using more Suc.prems(7) by (cases "?l \<le> length ?es - d") (simp_all add: min_def)
  then have "take (length ?new + m) (drop d (session_events (st (Suc k)) sid)) = ?new @ take m (drop ?d (session_events (st (Suc k)) sid))"
    unfolding take_add drop_drop add.commute [of "length ?new" d] by (rule arg_cong2 [where f = "(@)", OF sym refl])
  moreover have "min (Suc k * ?l) (length ?es - d) \<le> length ?new + m"
    using m(2) prefix_length_le [OF pre] by (auto simp: min_def split: if_splits)
  ultimately show ?case using poll m(1) by (intro exI [of _ "length ?new + m"] conjI) (simp_all only: poll_rounds.simps sum.case poll_response.simps)
qed (intro exI [of _ 0], simp)

end
