(* ===== verification/Control_Properties.thy ===== *)
theory Control_Properties
  imports Event_Polling "HOL-Library.Code_Target_Nat"
begin

text \<open>
  The properties of the control host. A schedule lists which call begins and which pending call
  runs its next section; playing a schedule gives a reachable state and the replies.
\<close>

section \<open>Schedules\<close>

fun play :: "host_env \<Rightarrow> int \<Rightarrow> (call + nat) list \<Rightarrow> host_state \<Rightarrow> pending list \<Rightarrow> reply list
    \<Rightarrow> host_state \<times> pending list \<times> reply list" where
  "play E now [] s ps rs = (s, ps, rs)"
| "play E now (Inl c # xs) s ps rs = (case begin_call E now c s of
       (Inl r, s1) \<Rightarrow> play E now xs s1 ps (rs @ [r])
     | (Inr p, s1) \<Rightarrow> play E now xs s1 (ps @ [p]) rs)"
| "play E now (Inr i # xs) s ps rs =
     (if i < length ps then (case next_section E now (ps ! i) s of
          (Inl r, s1) \<Rightarrow> play E now xs s1 (take i ps @ drop (Suc i) ps) (rs @ [r])
        | (Inr p, s1) \<Rightarrow> play E now xs s1 (take i ps @ p # drop (Suc i) ps) rs)
      else play E now xs s ps rs)"

lemma mset_at: "i < length ps \<Longrightarrow> mset ps = add_mset (ps ! i) (mset (take i ps @ drop (Suc i) ps))"
  by (subst id_take_nth_drop [of i ps]) simp_all

lemma play_reachable:
  assumes "reachable E False (s, mset ps)" "play E now xs s ps rs = (t, qs, us)"
  shows "reachable E False (t, mset qs)"
  using assms
proof (induction E now xs s ps rs rule: play.induct)
  case (2 E now c xs s ps rs)
  have step: "reachable E False (settle (begin_call E now c s) (mset ps))"
    using 2(3) by (rule reach_step) (rule step_call, simp)
  obtain o' s1 where o: "begin_call E now c s = (o', s1)" by (rule prod.exhaust)
  show ?case
  proof (cases o')
    case (Inl r)
    with 2(1) o step 2(4) show ?thesis by (simp add: settle_def)
  next
    case (Inr p)
    with 2(2) o step 2(4) show ?thesis by (simp add: settle_def)
  qed
next
  case (3 E now i xs s ps rs)
  show ?case
  proof (cases "i < length ps")
    case True
    have step: "reachable E False (settle (next_section E now (ps ! i) s) (mset (take i ps @ drop (Suc i) ps)))"
      using 3(4) unfolding mset_at [OF True] by (rule reach_step) (rule step_next)
    obtain o' s1 where o: "next_section E now (ps ! i) s = (o', s1)" by (rule prod.exhaust)
    show ?thesis
    proof (cases o')
      case (Inl r)
      with 3(1) True o step 3(5) show ?thesis by (simp add: settle_def)
    next
      case (Inr p)
      with 3(2) True o step 3(5) show ?thesis by (simp add: settle_def)
    qed
  next
    case False
    with 3 show ?thesis by simp
  qed
qed simp

lemma played_reachable: "play E now xs host_state_default [] [] = (t, qs, us) \<Longrightarrow> reachable E False (t, mset qs)"
  by (rule play_reachable [where s = host_state_default and ps = "[]"]) (simp_all add: reach_start)

text \<open>A host with room for two messages and three events.\<close>

definition sample_host :: host_env where
  "sample_host = \<lparr>he_options = \<lparr>ho_queue_capacity = 2, ho_event_retention = 3, ho_max_artifact_read_bytes = 4\<rparr>,
     he_sha256 = \<lambda>_. ''k'', he_rfc3339 = \<lambda>_. [], he_parse_rfc3339 = \<lambda>_. None\<rparr>"

definition start_named :: "string \<Rightarrow> call" where
  "start_named sid = CallStart \<lparr>srq_session_id = Some sid, srq_idempotency_key = None, srq_config_override = None\<rparr>"

definition played :: "(call + nat) list \<Rightarrow> host_state \<times> pending list \<times> reply list" where
  "played xs = play sample_host 0 xs host_state_default [] []"

lemma played_state: "reachable sample_host False (fst (played xs), mset (fst (snd (played xs))))"
proof -
  obtain t qs us where t: "played xs = (t, qs, us)" by (metis prod.exhaust)
  from played_reachable [OF t [unfolded played_def]] t show ?thesis by simp
qed

section \<open>Runs\<close>

text \<open>C17: In every state that any interleaving of calls can reach, a session owns exactly one run and
  one queue, shares neither with another session, and has no run but its own as the active one.\<close>

theorem sessions_own_their_runs:
  assumes "reachable E False (s, ps)" "map_of (hs_sessions s) a = Some se"
  shows "(\<exists>r. se_runs se = [r] \<and> se_active_run se \<in> {None, Some r}) \<and> se_queue se < length (hs_queues s) \<and>
    (\<forall>b se'. b \<noteq> a \<longrightarrow> map_of (hs_sessions s) b = Some se' \<longrightarrow> se_runs se' \<noteq> se_runs se \<and> se_queue se' \<noteq> se_queue se)"
proof -
  have ok: "sessions_ok s" using ownership.reachable_inv [OF assms(1)] by simp
  from sessions_okD(1) [OF this assms(2)] sessions_okD(2) [OF ok _ assms(2)] show ?thesis
    by (auto simp: owns_run_def)
qed

theorem sessions_own_their_runs_witness:
  "\<exists>se. map_of (hs_sessions (fst (played [Inl (start_named ''a'')]))) ''a'' = Some se \<and> se_queue se < 1"
proof -
  have "map_of (hs_sessions (fst (played [Inl (start_named ''a'')]))) ''a'' =
      Some \<lparr>se_runs = [''run-1''], se_active_run = Some ''run-1'', se_queue = 0\<rparr>"
    by code_simp
  moreover have "length (hs_queues (fst (played [Inl (start_named ''a'')]))) = 1" by code_simp
  ultimately show ?thesis using sessions_own_their_runs [OF played_state] by (metis (no_types, lifting))
qed

text \<open>C16: When every cancellation and completion names the session its run belongs to, a run is running
  exactly while it is the active run of its session, whatever the interleaving.\<close>

theorem active_run_is_running:
  assumes "reachable E True (s, ps)" "belongs s session_id run_id"
  shows "inspect_run run_id s = Inr RsRunning \<longleftrightarrow> inspect_session session_id s = Inr (Some run_id)"
proof -
  have "running_ok s" using running.reachable_inv [OF assms(1)] by simp
  then have "map_of (hs_run_status s) run_id = Some RsRunning \<longleftrightarrow> active_run s session_id = Some run_id"
    using assms(2) by (simp add: running_ok_def)
  then show ?thesis
    by (cases "map_of (hs_run_status s) run_id"; cases "map_of (hs_sessions s) session_id")
      (simp_all add: inspect_run_def inspect_session_def active_run_def)
qed

theorem active_run_is_running_witness:
  "inspect_session ''a'' (fst (played [Inl (start_named ''a'')])) = Inr (Some ''run-1'')"
proof -
  let ?s = "fst (played [Inl (start_named ''a'')])"
  have "reachable sample_host True (settle (begin_call sample_host 0 (start_named ''a'') host_state_default) {#})"
    by (rule reach_step [OF reach_start]) (rule step_call, simp add: start_named_def)
  moreover have "settle (begin_call sample_host 0 (start_named ''a'') host_state_default) {#} = (?s, {#})"
    by (cases "start_session sample_host 0 \<lparr>srq_session_id = Some ''a'', srq_idempotency_key = None,
      srq_config_override = None\<rparr> host_state_default") (simp add: settle_def played_def start_named_def)
  moreover have "belongs ?s ''a'' ''run-1''" "inspect_run ''run-1'' ?s = Inr RsRunning" by code_simp+
  ultimately show ?thesis using active_run_is_running [of sample_host ?s "{#}" "''a''" "''run-1''"] by simp
qed


section \<open>Idempotency\<close>

lemma submit_json_inj: "submit_request_json a = submit_request_json b \<Longrightarrow> mrq_idempotency_key a = mrq_idempotency_key b \<Longrightarrow> a = b"
  by (cases a; cases b) (simp add: submit_request_json_def)

lemma submit_remembered:
  assumes "submit_message E now req s = (Inr r, s1)" "mrq_idempotency_key req = Some k"
  shows "map_of (hs_idempotency s1) k = Some (submit_request_json req, submit_response_json r) \<or>
    replay submit_response_of s (Some k) (submit_request_json req) = Inr (Some r) \<and> s1 = s"
  using assms
  by (auto simp: submit_message_def submit_claim_def submit_commit_def remember_def update_conv' submit_reply_def
      split: sum.splits option.splits prod.splits)

text \<open>A submission that is repeated with its idempotency key is answered with the first answer and
  changes nothing, as long as the host remembers the key; another request under the same key is a
  conflict and changes nothing either.\<close>

theorem repeated_submission_replays:
  assumes "submit_message E now req s = (Inr r, s1)" "mrq_idempotency_key req = Some k"
    and "map_of (hs_idempotency t) k = map_of (hs_idempotency s1) k"
  shows "submit_message E later req t = (Inr r, t) \<and>
    (\<forall>other. mrq_idempotency_key other = Some k \<longrightarrow> other \<noteq> req \<longrightarrow>
       submit_message E later other t = (Inl (cc_conflict ''idempotency key was already used with different input''), t))"
proof -
  have "\<exists>j. map_of (hs_idempotency t) k = Some (submit_request_json req, j) \<and> submit_response_of j = Some r"
    using submit_remembered [OF assms(1,2)] assms(3) by (auto simp: replay_def split: option.splits if_splits)
  with assms(2) submit_json_inj [of _ req] show ?thesis
    by (auto simp: submit_message_def submit_claim_def replay_def split: option.splits)
qed

definition keyed_submit :: submit_request where
  "keyed_submit = \<lparr>mrq_session_id = ''a'', mrq_message = ''m'', mrq_idempotency_key = Some ''k''\<rparr>"

theorem repeated_submission_replays_witness:
  "case submit_message sample_host 0 keyed_submit (fst (played [Inl (start_named ''a'')])) of
     (r, s1) \<Rightarrow> submit_message sample_host 5 keyed_submit s1 = (r, s1)"
proof -
  let ?s = "fst (played [Inl (start_named ''a'')])"
  have "\<not> isl (fst (submit_message sample_host 0 keyed_submit ?s))" by code_simp
  then obtain r s1 where r: "submit_message sample_host 0 keyed_submit ?s = (Inr r, s1)"
    by (metis isl_def obj_sumE prod.collapse)
  from repeated_submission_replays [OF r, of "''k''" s1 5] r show ?thesis by (simp add: keyed_submit_def)
qed

text \<open>Two submissions with the same key that overlap are both acknowledged, with different message
  identifiers, but only the first message is in the queue; the host announces both.\<close>

theorem overlapping_submissions_acknowledge_lost_message:
  "case played [Inl (start_named ''a''), Inl (CallSubmit keyed_submit), Inl (CallSubmit keyed_submit),
       Inr 0, Inr 1, Inr 0, Inr 0] of
     (s, ps, rs) \<Rightarrow> ps = [] \<and>
       map (\<lambda>r. case r of ReplySubmit (Inr x) \<Rightarrow> Some (mrs_message_id x, mrs_acknowledged x) | _ \<Rightarrow> None) (tl rs) =
         [Some (''message-2'', True), Some (''message-3'', True)] \<and>
       map qm_id (qs_messages (sq_state (hs_queues s ! 0))) = [''message-2''] \<and>
       map ev_payload (session_events s ''a'') = [EpSessionStarted, EpMessageQueued ''message-2'', EpMessageQueued ''message-3'']"
  by code_simp

section \<open>Events\<close>

text \<open>C18: A client that polls without a filter and follows the cursors receives the events of its
  session in order, each once, and after enough polls every event that was there when it began,
  provided the host keeps them and no cursor expires.\<close>

theorem polling_delivers_every_event:
  assumes "\<And>i. reachable E False (st i, ps i)" "\<And>i. prefix (session_events (st i) sid) (session_events (st (Suc i)) sid)"
    and "session_events (st 0) sid \<noteq> []" "\<And>i e. e \<in> set (session_events (st i) sid) \<Longrightarrow> ev_sequence_number e < usize_max"
    and "\<And>i. fresh_at (now i) (now (Suc i))"
    and "prq_session_id req = sid" "prq_kinds req = None" "prq_cursor req = None" "0 < poll_limit req"
    and "length (session_events (st 0) sid) \<le> k * poll_limit req"
  shows "prefix (session_events (st 0) sid) (poll_rounds E now st req k) \<and>
    prefix (poll_rounds E now st req k) (session_events (st k) sid)"
proof -
  have ok: "numbered (session_events (st i) sid)" for i
    using streams.reachable_inv [OF assms(1), of i]
    by (auto simp: events_ok_def session_events_def numbered_def split: option.splits)
  have some: "session_events (st i) sid \<noteq> []" for i
  proof (induction i)
    case (Suc i)
    with assms(2) [of i] show ?case by auto
  qed (rule assms(3))
  have ext: "extends st sid" using assms(2,4) ok some by (simp add: extends_def stream_ok_def)
  have "\<exists>m. poll_rounds E now st req k = take m (drop 0 (session_events (st k) sid)) \<and>
      min (k * poll_limit req) (length (session_events (st 0) sid) - 0) \<le> m"
    using ext assms(6,7,5,9) by (rule rounds_deliver) (simp_all add: assms(8))
  then obtain m where m: "poll_rounds E now st req k = take m (session_events (st k) sid)" "length (session_events (st 0) sid) \<le> m"
    using assms(10) by (auto simp: min_def split: if_splits)
  have "prefix (session_events (st 0) sid) (session_events (st k) sid)" using extends_prefix [OF ext, of 0 k] by simp
  then have "prefix (session_events (st 0) sid) (take m (session_events (st k) sid))"
    using m(2) by (auto simp: prefix_def)
  with m(1) show ?thesis by (simp add: take_is_prefix)
qed

definition sample_poll :: poll_request where
  "sample_poll = \<lparr>prq_session_id = ''a'', prq_cursor = None, prq_limit = Some 1, prq_kinds = None\<rparr>"

definition polled_host :: host_state where
  "polled_host = fst (played [Inl (start_named ''a''), Inl (CallSubmit keyed_submit), Inr 0, Inr 0])"

theorem polling_delivers_every_event_witness:
  "prefix (session_events polled_host ''a'') (poll_rounds sample_host (\<lambda>_. 0) (\<lambda>_. polled_host) sample_poll 2)"
proof -
  let ?ps = "mset (fst (snd (played [Inl (start_named ''a''), Inl (CallSubmit keyed_submit), Inr 0, Inr 0])))"
  have reach: "reachable sample_host False (polled_host, ?ps)" unfolding polled_host_def by (rule played_state)
  have all: "list_all (\<lambda>e. ev_sequence_number e < usize_max) (session_events polled_host ''a'')" by code_simp
  have len: "length (session_events polled_host ''a'') = 2" by code_simp
  show ?thesis
    by (rule conjunct1, rule polling_delivers_every_event [where st = "\<lambda>_. polled_host" and ps = "\<lambda>_. ?ps" and sid = "''a''"])
      (use reach all len in \<open>auto simp: list_all_iff fresh_at_def clock_ok_def timestamp_def cursor_ttl_seconds_def
        sample_poll_def poll_limit_def\<close>)
qed

text \<open>The cursor of a filtered poll stays behind when nothing matches: the client is then told that
  it lagged although no event it asked for was ever lost.\<close>

theorem filtered_poll_falls_behind:
  "let req = \<lparr>prq_session_id = ''a'', prq_cursor = None, prq_limit = None, prq_kinds = Some [''run_completed'']\<rparr>;
       submit = [Inl (CallSubmit \<lparr>mrq_session_id = ''a'', mrq_message = ''m'', mrq_idempotency_key = None\<rparr>), Inr 0, Inr 0];
       art = [Inl (CallArtifact \<lparr>car_session_id = ''a'', car_display_path = ''f'', car_data = []\<rparr>)];
       s = fst (played [Inl (start_named ''a'')]);
       t = fst (played (Inl (start_named ''a'') # submit @ submit @ art))
   in case poll_events sample_host 0 req s of
        Inl e \<Rightarrow> False
      | Inr r \<Rightarrow> prs_events r = [] \<and> list_all (\<lambda>e. \<not> wanted (prq_kinds req) e) (session_events t ''a'') \<and>
          (case poll_events sample_host 0 (req\<lparr>prq_cursor := prs_next_cursor r\<rparr>) t of
             Inl e \<Rightarrow> ce_code e = CcLaggedCursor | Inr _ \<Rightarrow> False)"
  by code_simp

section \<open>Approvals\<close>

lemma answered_simps [simp]:
  "hs_answered_approvals (set_status r st s) = hs_answered_approvals s"
  "hs_answered_approvals (set_active sid a s) = hs_answered_approvals s"
  "hs_answered_approvals (put_session E sid r a s) = hs_answered_approvals s"
  "hs_answered_approvals (push_event E now sid r p s) = hs_answered_approvals s"
  "hs_answered_approvals (remember k req resp s) = hs_answered_approvals s"
  "hs_answered_approvals (snd (on_queue q f s)) = hs_answered_approvals s"
  "hs_answered_approvals (set_lifecycle q l s) = hs_answered_approvals s"
  "hs_answered_approvals (add_approval ap s) = hs_answered_approvals s"
  "hs_answered_approvals (snd (next_id kd s)) = hs_answered_approvals s"
  by (simp_all add: set_status_def set_active_def put_session_def push_event_def Let_def remember_def on_queue_def
      set_lifecycle_def add_approval_def next_id_def split: option.splits prod.splits)

lemma next_id_answered: "next_id p s = (i, t) \<Longrightarrow> hs_answered_approvals t = hs_answered_approvals s"
  using answered_simps(9) [of p s] by simp

lemma submit_first_answered [simp]: "hs_answered_approvals (snd (submit_first req s)) = hs_answered_approvals s"
  by (auto simp: submit_first_def submit_claim_def dest: next_id_answered split: sum.splits option.splits prod.splits)

lemma begin_answered:
  assumes "map_of (hs_answered_approvals s) k = Some r"
  shows "map_of (hs_answered_approvals (snd (begin_call E now c s))) k = Some r"
proof (cases c)
  case (CallStart req)
  with assms show ?thesis
    by (auto simp: start_session_def Let_def dest!: next_id_answered split: option.splits sum.splits prod.splits)
next
  case (CallBranch req)
  with assms show ?thesis
    by (auto simp: branch_session_def Let_def dest!: next_id_answered split: option.splits sum.splits prod.splits)
next
  case (CallResume req)
  with assms show ?thesis by (auto simp: resume_claim_def split: option.splits sum.splits)
next
  case (CallContinue req)
  with assms show ?thesis by (auto split: sum.splits)
next
  case (CallCancel req)
  with assms show ?thesis by (auto simp: cancel_mark_def Let_def split: option.splits)
next
  case (CallComplete session_id run_id)
  with assms show ?thesis by (auto split: sum.splits)
next
  case (CallRespond approval_id d)
  with assms show ?thesis
    by (auto simp: respond_to_approval_def Let_def update_conv' split: option.splits sum.splits)
next
  case (CallArtifact req)
  with assms show ?thesis
    by (auto simp: create_artifact_def Let_def dest!: next_id_answered split: option.splits prod.splits)
qed (use assms in simp)

lemma next_answered: "hs_answered_approvals (snd (next_section E now p s)) = hs_answered_approvals s"
proof (cases p)
  case (SubmitEnqueue req sb)
  have "hs_answered_approvals (snd (submit_enqueue req sb s)) = hs_answered_approvals s"
    by (simp add: submit_enqueue_def on_queue_def split: prod.splits)
  with SubmitEnqueue show ?thesis by (auto split: prod.splits option.splits)
qed (simp_all add: resume_commit_def submit_commit_def cancel_queue_def complete_mark_def split: option.splits)

lemma answered_stays:
  assumes "(host_step E checked)\<^sup>*\<^sup>* x y" "map_of (hs_answered_approvals (fst x)) k = Some r"
  shows "map_of (hs_answered_approvals (fst y)) k = Some r"
  using assms
proof induction
  case (step y z)
  from step(2) show ?case
  proof cases
    case (step_call s c ps now)
    then show ?thesis using begin_answered step by (simp add: settle_def)
  qed (use step in \<open>simp_all add: settle_def next_answered\<close>)
qed simp

text \<open>C23: An approval that has been answered is never answered again: in every later state a further
  answer is refused and changes nothing.\<close>

theorem approval_answered_once:
  assumes "respond_to_approval E now approval_id d s = (Inr r, t)" "(host_step E checked)\<^sup>*\<^sup>* (t, ps) (u, qs)"
  shows "respond_to_approval E later approval_id d2 u = (Inl (cc_conflict ''approval already answered''), u)"
proof -
  have "map_of (hs_answered_approvals t) approval_id = Some r"
    using assms(1) by (auto simp: respond_to_approval_def Let_def update_conv' split: if_splits option.splits sum.splits)
  with answered_stays [OF assms(2)] show ?thesis by (simp add: respond_to_approval_def)
qed

definition sample_approval :: approval_projection where
  "sample_approval = \<lparr>ap_approval_id = ''p'', ap_tool_call_id = ''p'', ap_correlation_id = Some ''a'', ap_summary = [],
     ap_editable_input_rules = Some (VObject [(''type'', VString ''object'')]), ap_original_hash = ''h'',
     ap_edited_hash = None, ap_expires_at = None, ap_is_cancelled = False, ap_session_grant_terms = None\<rparr>"

theorem approval_answered_once_witness:
  "fst (respond_to_approval sample_host 0 ''p'' CdDeny
     (snd (respond_to_approval sample_host 0 ''p'' CdApprove (add_approval sample_approval host_state_default)))) =
   Inl (cc_conflict ''approval already answered'')"
proof -
  let ?s = "add_approval sample_approval host_state_default"
  have "\<not> isl (fst (respond_to_approval sample_host 0 ''p'' CdApprove ?s))" by code_simp
  then obtain r t where r: "respond_to_approval sample_host 0 ''p'' CdApprove ?s = (Inr r, t)"
    by (metis isl_def obj_sumE prod.collapse)
  from approval_answered_once [OF r rtranclp.rtrancl_refl, of 0 CdDeny] r show ?thesis by simp
qed

text \<open>An answer that is refused uses the approval up: after an edit with an input that is not an
  object, the approval can no longer be approved, denied or edited.\<close>

theorem refused_edit_uses_up_approval:
  "case respond_to_approval sample_host 0 ''p'' (CdEdit (VString [])) (add_approval sample_approval host_state_default) of
     (r, t) \<Rightarrow> r = Inl (cc_validation ''edited input violates editable input rules'') \<and>
       fst (respond_to_approval sample_host 0 ''p'' CdApprove t) = Inl (cc_not_found ''approval not found'')"
  by code_simp

end
