(* ===== verification/Runtime_Properties.thy ===== *)
theory Runtime_Properties
  imports Runtime_Steps Control_Properties
begin

text \<open>
  The properties of the host that runs agents: executions, settings, repeated requests, and what a
  request that fails leaves behind.
\<close>

section \<open>A sample host\<close>

text \<open>A host with a workspace \<open>/w\<close> and run directories below \<open>/t\<close>, whose manifests decode to a running one.\<close>

definition sample_codec_of :: run_codec where
  "sample_codec_of = \<lparr>rcd_trace = \<lparr>tcd_parse = (\<lambda>_. Inr (VObject [(''v'', json_nat 1)])), tcd_print = (\<lambda>_. []),
       tcd_convert = Inr, tcd_event_json = (\<lambda>_. VNull), tcd_event_of = (\<lambda>_. None), tcd_snapshot_json = (\<lambda>_. VNull),
       tcd_snapshot_of = (\<lambda>_. None), tcd_time_of = Some, tcd_reason = (\<lambda>_. [])\<rparr>,
     rcd_manifest_of = (\<lambda>_. Inr (new_run_manifest ''a'' ''run-1'' [])), rcd_prompt_of = (\<lambda>_. Inl [])\<rparr>"

definition sample_workspace :: workspace_snapshot where
  "sample_workspace = \<lparr>ws_workspace_root = ''/w'', ws_git_sha = None, ws_git_dirty = None, ws_untracked_count = None,
     ws_content_hash = ''h'', ws_captured_at = []\<rparr>"

definition sample_runtime :: "faults \<Rightarrow> memory_store runtime_env" where
  "sample_runtime F = \<lparr>re_host = sample_host, re_config = runtime_config_default ''/w'', re_to_json = (\<lambda>_. VObject []),
     re_of_json = (\<lambda>_. Inr (runtime_config_default ''/elsewhere'')), re_build = (\<lambda>_. None), re_default_model = (\<lambda>_. ''m''),
     re_capture = (\<lambda>_. Inr sample_workspace), re_uuid = (\<lambda>n. ''u'' @ dec n),
     re_trace = Some \<lparr>ste_cwd = [], ste_faults = F, ste_base = ''/t''\<rparr>, re_stamp = (\<lambda>now. dec (nat now)),
     re_print_manifest = (\<lambda>_. ''{}''), re_codec = sample_codec_of, re_artifacts = memory_ops\<rparr>"

definition fresh_runtime :: "disk \<Rightarrow> memory_store backed_state" where
  "fresh_runtime d = backed_state_default d []"

definition empty_disk :: disk where
  "empty_disk = ([([''t''], EDir)], 0)"

definition no_faults :: faults where
  "no_faults = (\<lambda>_. None)"

definition start_call :: "string \<Rightarrow> start_request" where
  "start_call sid = \<lparr>srq_session_id = Some sid, srq_idempotency_key = Some (''start-'' @ sid), srq_config_override = None\<rparr>"

definition started :: "memory_store backed_state" where
  "started = snd (backed_start (sample_runtime no_faults) 1 (start_call ''a'') (fresh_runtime empty_disk))"

section \<open>Executions\<close>

lemma claim_run: "claim_execution req s = Inr (ex, s1) \<Longrightarrow> ex_run_id ex = crq_run_id req"
  by (auto simp: claim_execution_def Let_def split: option.splits sum.splits if_splits)

lemma busy_run_refused:
  assumes "map_of (bs_cancellations s) (crq_run_id req) \<noteq> None"
  shows "snd (backed_continue R now req s) = s"
proof (cases "claim_execution req s")
  case (Inr p)
  then obtain ex s1 where "claim_execution req s = Inr (ex, s1)" by (cases p) simp
  with assms show ?thesis using claim_tasks(1) claim_run by metis
qed (simp add: backed_continue_def)


lemma started_reachable: "backed_reachable (sample_runtime no_faults) started"
proof -
  have "backed_step (sample_runtime no_faults) (fresh_runtime empty_disk) started"
    unfolding started_def by (rule bstep_start)
  then show ?thesis unfolding backed_reachable_def fresh_runtime_def by blast
qed

definition go_on :: "string \<Rightarrow> string option \<Rightarrow> continue_request" where
  "go_on message key = \<lparr>crq_session_id = ''a'', crq_run_id = ''run-1'', crq_message = message, crq_idempotency_key = key\<rparr>"

definition going_on :: "memory_store backed_state" where
  "going_on = snd (backed_continue (sample_runtime no_faults) 2 (go_on ''m'' None) started)"



definition override_call :: start_request where
  "override_call = \<lparr>srq_session_id = None, srq_idempotency_key = None,
     srq_config_override = Some (VObject [(''workspace_root'', VString ''/elsewhere'')])\<rparr>"


section \<open>Repeated requests\<close>

text \<open>A message that is sent again with its idempotency key is answered with the first answer, starts no further
  execution and changes nothing, as long as the host remembers the key.\<close>

theorem repeated_continue_replays:
  assumes "backed_continue R now req s = (Inr r, t)" "crq_idempotency_key req = Some k"
    and "map_of (bs_continue_idempotency u) k = map_of (bs_continue_idempotency t) k"
  shows "backed_continue R later req u = (Inr r, u)"
proof -
  have "\<not> empty_message (crq_message req)" using assms(1) by (auto simp: backed_continue_def split: if_splits)
  moreover have "map_of (bs_continue_idempotency t) k = Some (continue_request_json req, r)"
    using assms(1,2)
    by (auto simp: backed_continue_def claim_execution_def Let_def on_control_def update_conv'
        split: if_splits option.splits sum.splits)
  ultimately show ?thesis using assms(2,3) by (simp add: backed_continue_def claim_execution_def Let_def)
qed

theorem repeated_continue_replays_witness:
  "case backed_continue (sample_runtime no_faults) 2 (go_on ''m'' (Some ''k'')) started of
     (r, t) \<Rightarrow> backed_continue (sample_runtime no_faults) 3 (go_on ''m'' (Some ''k'')) t = (r, t)"
proof -
  have "\<not> isl (fst (backed_continue (sample_runtime no_faults) 2 (go_on ''m'' (Some ''k'')) started))" by code_simp
  then obtain r t where r: "backed_continue (sample_runtime no_faults) 2 (go_on ''m'' (Some ''k'')) started = (Inr r, t)"
    by (metis isl_def obj_sumE prod.collapse)
  from repeated_continue_replays [OF r, of "''k''" t 3] r show ?thesis by (simp add: go_on_def)
qed

section \<open>Requests that fail\<close>

lemma trace_sink_frame:
  "open_trace_sink R now a b s = (r, t) \<Longrightarrow> bs_control t = bs_control s \<and> bs_sessions t = bs_sessions s \<and> bs_store t = bs_store s"
  by (auto simp: open_trace_sink_def Let_def split: option.splits sum.splits prod.splits)

lemma new_runtime_frame:
  "new_runtime_session R c a tr s = (r, t) \<Longrightarrow>
     bs_control t = bs_control s \<and> bs_sessions t = bs_sessions s \<and> bs_store t = bs_store s"
  by (auto simp: new_runtime_session_def Let_def split: option.splits sum.splits prod.splits)

lemma delete_fresh: "map_of xs k = None \<Longrightarrow> AList.delete k (AList.update k v xs) = xs"
  by (induction xs) (auto split: if_splits)

lemma start_session_failed:
  "start_session E now req c = (Inl e, c2) \<Longrightarrow> hs_sessions c2 = hs_sessions c \<and> hs_idempotency c2 = hs_idempotency c"
  by (auto simp: start_session_def next_id_def Let_def split: option.splits sum.splits prod.splits if_splits)

lemma start_session_done:
  assumes "start_session E now req c = (Inr response, c2)"
    and "\<forall>k. srq_idempotency_key req = Some k \<longrightarrow> map_of (hs_idempotency c) k = None"
  shows "\<exists>x. hs_sessions c2 = AList.update (srs_session_id response) x (hs_sessions c)"
    and "map_of (hs_sessions c) (srs_session_id response) = None"
    and "hs_idempotency c2 = (case srq_idempotency_key req of None \<Rightarrow> hs_idempotency c
          | Some k \<Rightarrow> AList.update k (start_request_json req, start_response_json response) (hs_idempotency c))"
proof -
  have "replay start_response_of c (srq_idempotency_key req) (start_request_json req) = Inr None"
    using assms(2) by (cases "srq_idempotency_key req") (auto simp: replay_def)
  with assms(1) show "\<exists>x. hs_sessions c2 = AList.update (srs_session_id response) x (hs_sessions c)"
    "map_of (hs_sessions c) (srs_session_id response) = None"
    "hs_idempotency c2 = (case srq_idempotency_key req of None \<Rightarrow> hs_idempotency c
          | Some k \<Rightarrow> AList.update k (start_request_json req, start_response_json response) (hs_idempotency c))"
    by (auto simp: start_session_def next_id_def Let_def remember_def push_event_def set_status_def put_session_def
        split: option.splits if_splits)
qed

lemma rollback_fields:
  "hs_sessions (bs_control (rollback_session a b k s)) = AList.delete a (hs_sessions (bs_control s))"
  "hs_idempotency (bs_control (rollback_session a b k s)) =
     (case k of None \<Rightarrow> hs_idempotency (bs_control s) | Some i \<Rightarrow> AList.delete i (hs_idempotency (bs_control s)))"
  "bs_sessions (rollback_session a b k s) = bs_sessions s" "bs_store (rollback_session a b k s) = bs_store s"
  by (simp_all add: rollback_session_def Let_def)


definition disk_full :: faults where
  "disk_full = (\<lambda>_. Some (''No space left on device (os error 28)'', None))"


lemma resume_runtime_frame:
  "resume_runtime R now req r s = (Some e, t) \<Longrightarrow> bs_control t = bs_control s \<and> bs_sessions t = bs_sessions s"
  by (auto simp: resume_runtime_def Let_def dest!: trace_sink_frame new_runtime_frame split: sum.splits prod.splits)


text \<open>The session of \<open>going_on\<close> once its run has ended well.\<close>

definition well_ended :: run_outcome where
  "well_ended = \<lparr>ro_error = None, ro_flush = None, ro_session = the_session going_on (ex_session (bs_executions going_on ! 0)),
     ro_queue = active_with_capacity 2, ro_disk = bs_disk going_on\<rparr>"

definition finished :: "memory_store backed_state" where
  "finished = the (Option.bind (execution_begin 0 going_on) (execution_end (sample_runtime no_faults) 3 0 well_ended))"

definition resume_call :: resume_request where
  "resume_call = \<lparr>rrq_session_id = ''a'', rrq_run_id = ''run-1'', rrq_idempotency_key = None\<rparr>"


text \<open>A branch from a session whose run is still going on fails when runs are traced, but leaves the new session
  behind: its run counts as running and messages to it are acknowledged, though no runtime will read them.\<close>

theorem failed_branch_leaves_session:
  "case backed_branch (sample_runtime no_faults) 5 \<lparr>brq_parent_session_id = ''a'', brq_parent_run_id = ''run-1'',
       brq_new_session_id = Some ''b'', brq_idempotency_key = None\<rparr> going_on of
     (r, t) \<Rightarrow> r = Inl (cc_conflict ''parent run cannot be branched due to recovery status LegacyNonResumable'') \<and>
       map_of (bs_sessions t) ''b'' = None \<and> inspect_run ''run-3'' (bs_control t) = Inr RsRunning \<and>
       (case fst (backed_submit (sample_runtime no_faults) 6
           \<lparr>mrq_session_id = ''b'', mrq_message = ''m'', mrq_idempotency_key = None\<rparr> t) of
          Inl e \<Rightarrow> False | Inr response \<Rightarrow> mrs_acknowledged response)"
  by code_simp

text \<open>After a restart the host numbers runs from the beginning again, and looks for the directory of a run by its
  number alone: what it finds for the run of a new session is the directory of an old one.\<close>

theorem restart_finds_older_run:
  "case backed_start (sample_runtime no_faults) 2 (start_call ''b'') (fresh_runtime (bs_disk started)) of
     (r, t) \<Rightarrow> inspect_session ''b'' (bs_control t) = Inr (Some ''run-1'') \<and>
       map_of (bs_trace_paths started) ''run-1'' = Some ''/t/1-run-1/trace.jsonl'' \<and>
       map_of (bs_trace_paths t) ''run-1'' = Some ''/t/2-run-1/trace.jsonl'' \<and>
       run_directory (sample_runtime no_faults) ''run-1'' t = Some ''/t/1-run-1''"
  by code_simp

section \<open>Approvals\<close>

text \<open>An answer that arrives after the approval was announced but before the tool call has registered with the broker
  is confirmed and lost: the call then waits, and no further answer reaches it.\<close>

theorem answer_before_registration_lost:
  assumes "backed_respond R now i d s = (Inr r, t)" "\<not> broker_contains i (bs_broker s)"
  shows "fst (backed_respond R later i d2 (ask_broker i t)) = Inl (cc_conflict ''approval already answered'') \<and>
    broker_contains i (bs_broker (snd (backed_respond R later i d2 (ask_broker i t))))"
proof -
  have "map_of (hs_answered_approvals (bs_control t)) i = Some r"
    using assms by (auto simp: backed_respond_def Let_def respond_to_approval_def update_conv'
        split: sum.splits option.splits prod.splits if_splits)
  then show ?thesis
    by (simp add: backed_respond_def Let_def respond_to_approval_def ask_broker_def broker_contains_def broker_register_def)
qed

theorem answer_before_registration_lost_witness:
  "case backed_respond (sample_runtime no_faults) 2 ''p'' CdApprove (on_control (add_approval sample_approval) started) of
     (r, t) \<Rightarrow> \<not> isl r \<and> fst (backed_respond (sample_runtime no_faults) 3 ''p'' CdApprove (ask_broker ''p'' t)) =
       Inl (cc_conflict ''approval already answered'')"
proof -
  let ?s = "on_control (add_approval sample_approval) started"
  have ok: "\<not> isl (fst (backed_respond (sample_runtime no_faults) 2 ''p'' CdApprove ?s))" by code_simp
  then obtain r t where r: "backed_respond (sample_runtime no_faults) 2 ''p'' CdApprove ?s = (Inr r, t)"
    by (metis isl_def obj_sumE prod.collapse)
  have "\<not> broker_contains ''p'' (bs_broker ?s)" by code_simp
  from answer_before_registration_lost [OF r this, of 3 CdApprove] r show ?thesis by simp
qed

end
