(* ===== verification/Spec2Isabelle.thy ===== *)
theory Spec2Isabelle
  imports Loop_Failures Loop_Safety Executor_Properties Canonical_Text Schema_Spec Policy_Engine
    Steering_Queue Loop_Context Crash_Properties Client_Events Patch_Policy
    Artifact_Store Runtime_Properties
begin

text \<open>
  A verification development for the core of the Gestalt agent harness (\<open>src/crates/gestalt-core\<close>
  and the parts of \<open>src/crates/gestalt-runtime\<close> that decide what an agent may do).

  \<^bold>\<open>The program.\<close> A session holds a history of messages. A run of the agent loop (\<open>agent.rs\<close>)
  repeats turns: it drains the steering queue (\<open>session_queue.rs\<close>), prepares a context, sends a
  request to a model provider, assembles the streamed answer (\<open>turn.rs\<close>), validates the tool calls
  the model proposed (\<open>tool_validation.rs\<close>), and hands them to the executor (\<open>executor.rs\<close>). The
  executor asks the policy engine (\<open>policy/engine.rs\<close>), the user's approval provider
  (\<open>approval.rs\<close>) and the hooks, runs the tools one by one or in parallel, and returns one result
  for each call, which the loop appends to the history.

  \<^bold>\<open>Where each part is modelled.\<close>
  \<^item> \<open>Prelude\<close>: strings, byte slices, byte order, folds that may fail, decimal rendering;
    \<open>Json\<close>: the values of \<open>serde_json\<close>.
  \<^item> \<open>Tool_Identity\<close>: \<open>tool_identity.rs\<close>; \<open>Tool_Names\<close>: \<open>tool_name_mapping.rs\<close>, the names a catalogue
    gets for one provider and the mapping back.
  \<^item> \<open>Approval\<close>: \<open>approval.rs\<close> (canonical input text, FNV-1a hash, session grants);
    \<open>Canonical_Text\<close>: the proof that the canonical text determines the input.
  \<^item> \<open>Tool_Validation\<close>: \<open>tool_validation.rs\<close>; \<open>Schema_Spec\<close>: the declarative schema semantics it
    decides.
  \<^item> \<open>Core_Types\<close>: \<open>tool.rs\<close>, \<open>tool_descriptor.rs\<close>, \<open>message.rs\<close>, \<open>context.rs\<close>, \<open>policy.rs\<close> and the other types
    the components exchange; \<open>Events\<close>: \<open>event.rs\<close>.
  \<^item> \<open>Session\<close>: \<open>session.rs\<close> and \<open>context_state.rs\<close> (history, checkpoints, token budget, projection);
    \<open>Turn\<close>: \<open>turn.rs\<close>; \<open>Tool_Runtime\<close>: the network audit and artifact names of \<open>tool.rs\<close>.
  \<^item> \<open>Effects\<close>: the execution environment. A program of type \<open>('s, 'a) act\<close> takes the caller's state
    and a world and returns an error or a value with both updated. The world supplies the answers of the
    trait objects (policy engine, approval provider, hooks, tools, schedule) as streams that any
    run may choose freely, and records every call in a trace.
  \<^item> \<open>Executor\<close>, \<open>Executor_Batch\<close>: \<open>executor.rs\<close>; \<open>Executor_Safety\<close>: the authorisation invariant;
    \<open>Failures\<close>: which errors a program can end with; \<open>Executor_Properties\<close>: the properties.
  \<^item> \<open>Agent_Loop\<close>: \<open>agent.rs\<close>; \<open>Loop_Safety\<close> and \<open>Loop_Failures\<close>: its invariants and errors.
  \<^item> \<open>Steering_Queue\<close>: the runtime's \<open>session_queue.rs\<close>; \<open>Policy_Engine\<close>: the runtime's
    \<open>policy/engine.rs\<close> and the wrapper of \<open>policy/mod.rs\<close>.
  \<^item> The context pipeline of the runtime (\<open>src/crates/gestalt-runtime/src/context\<close>): \<open>Context_Types\<close>, the
    requests, plans, manifests, snapshots and cache plans of \<open>context.rs\<close>; \<open>Context_Accounting\<close>, the
    token estimates and limits (\<open>accounting.rs\<close>, \<open>assembler.rs\<close>), with the floating-point ratios as their
    bits; \<open>Tool_Exchanges\<close> and \<open>Tool_Clearing\<close>, which results are replaced by tombstones
    (\<open>tool_exchanges.rs\<close>, \<open>tool_clearing.rs\<close>); \<open>Compaction_Plan\<close>, the range to compact (\<open>compaction.rs\<close>);
    \<open>Paths\<close>, the operations of \<open>std::path\<close> and a file system as a parameter; \<open>Projection\<close>, checkpoints
    and the projected history (\<open>projection.rs\<close>, \<open>mod.rs\<close>); \<open>Assembler\<close>, the prompt (\<open>assembler.rs\<close>,
    \<open>default_prompt.rs\<close>); \<open>Checkpoint_Validation\<close> (\<open>checkpoint_validation.rs\<close>); \<open>Compactor\<close>, the call that
    summarises history (\<open>src/crates/gestalt-runtime/src/compaction.rs\<close>); \<open>Context_Pipeline\<close>, planning,
    patches, manifests and artifacts (\<open>mod.rs\<close>, \<open>trace/context_artifacts.rs\<close>); \<open>Context_Preparation\<close>,
    \<open>prepare_context\<close> itself; \<open>Preparation_Properties\<close>, what a prepared context guarantees.
  \<^item> \<open>Loop_Context\<close>: the agent loop over the runtime's pipeline, with an interface for invariants of
    the session that every operation of the loop keeps.

  \<^item> The trace of a run (\<open>src/crates/gestalt-runtime/src/trace\<close>): \<open>Trace_Redaction\<close>, what the sink removes
    from an event; \<open>Trace_Store\<close>, envelopes, the sink and the reader (\<open>mod.rs\<close>, \<open>event.rs\<close>);
    \<open>Trace_Properties\<close>; \<open>Client_Events\<close>, the projection for clients; \<open>Resume\<close>, the manifest of a run and
    the analysis that says whether it can be taken up again (\<open>run_manifest.rs\<close>, \<open>resume.rs\<close>);
    \<open>Crash_Safety\<close> and \<open>Crash_Properties\<close>, the executor, the sink and the analysis together: what a
    crash at any moment of a run leaves in the trace, and what the analysis makes of it.

  \<^item> The tools that write files (\<open>src/crates/gestalt-runtime/src/tools\<close>): \<open>File_Tree\<close>, the part of \<open>std::fs\<close>
    they use, over a tree of directories, files and symbolic links in which any change may fail;
    \<open>Tool_Paths\<close>, the paths they accept (\<open>path.rs\<close>); \<open>Patch_Document\<close>, the patch language, and \<open>Patch_Tool\<close>, the
    tools (\<open>patch.rs\<close>, \<open>write.rs\<close>, \<open>common.rs\<close>); \<open>Workspace_Safety\<close> and \<open>Patch_Safety\<close>, where an accepted path leads
    and the interface of a property of trees that the tools keep; \<open>Patch_Properties\<close>; \<open>Patch_Policy\<close>, the
    policy engine and the patch tool together.

  \<^item> The control interface (\<open>src/crates/gestalt-runtime/src/control\<close>), through which clients start, steer,
    cancel and watch runs: \<open>Control_Types\<close>, its requests and events (\<open>contract.rs\<close>); \<open>Control_Host\<close>, the
    host in memory (\<open>host.rs\<close>), each operation cut where it gives up a lock; \<open>Control_Steps\<close>, the
    interleavings of such sections as a step relation, and the interface of a property of host states
    that every section keeps; \<open>Control_Invariants\<close>, three such properties; \<open>Event_Polling\<close>, a client that
    polls and follows the cursors; \<open>Control_Properties\<close>. \<open>Artifact_Store\<close>: the stores of
    \<open>artifact_store.rs\<close> and the interface of a store that keeps sessions apart. \<open>Runtime_Sessions\<close>: the
    configuration, sessions, registry and run directories of the runtime (\<open>config.rs\<close>, \<open>runtime.rs\<close>,
    \<open>orchestration.rs\<close>, \<open>activation.rs\<close>); \<open>Control_Runtime\<close> and \<open>Control_Executions\<close>, the host that runs
    agents (\<open>host/runtime_backed.rs\<close>); \<open>Runtime_Steps\<close>, its operations as a step relation with the
    interface of an invariant; \<open>Runtime_Properties\<close>.
  \<^bold>\<open>What the lemmas show.\<close> The locales state the interfaces. \<open>Effects\<close> and \<open>Executor_Safety\<close> give
  rules for weakest preconditions with an invariant over the trace, \<open>failure_bound\<close> those for the
  errors a program can return. They are interpreted on the executor and on the loop, and the
  properties at the end of this theory follow: every tool run was authorised, every conversation
  added is well-formed, every failure was reported by a collaborator, and a run always returns.

  The lemmas on the context pipeline follow its stages: what clearing may touch and when it stops,
  the largest range compaction may take, what the projection of a history covers, what an
  accepted checkpoint has, and from these that a prepared request fits and that the context
  state stays consistent with the history over a whole run.

  The lemmas on the trace say that no text with a secret is written, that a written trace reads
  back, that every tool that ran had been announced before, so that a crash in the middle of a
  tool makes the run unusable for resumption, and that a resumed session starts from the last
  checkpoint.

  The lemmas on the file tools say that a path they accept leads into the workspace and keeps
  leading there while the tool works, so that nothing outside changes, whatever fails; and which
  trees and documents defeat the checks.

  The lemmas on the control host hold in every state that any interleaving of calls reaches: runs
  and queues belong to one session each, the active run is the one that runs, events are
  numbered without gaps, so a client that polls gets all of them. Where a call may break such a
  property, a schedule shows it. For the host that runs agents: executions belong to different
  runs, no override reaches the host's own settings, a start that fails leaves nothing behind; and
  what a failed resume, a failed branch, a restart and an early answer do leave behind.

  \<^bold>\<open>Bounds and fuel.\<close> The turn loop recurses on the number of turns left, which the code bounds by
  \<open>max_turns\<close>; the retry loop recurses on the retries left; the loops that trim and adjust a
  compaction range recurse on its end; all are total. Words have the
  code's width: \<open>usize\<close>, \<open>u64\<close> and \<open>i64\<close> are 64 bits wide and \<open>u32\<close> is 32. Token counts are natural
  numbers with the code's saturating operations; the plain sums of token estimates are not cut
  at the width of \<open>usize\<close>. Searches for a free name
  end because the names tried are pairwise distinct (\<open>Tool_Names\<close>).

  \<^bold>\<open>Not modelled.\<close> Providers, MCP clients, hook bodies and tool bodies are parameters of the
  world. Rendering for terminals (\<open>gestalt-cli\<close>, \<open>gestalt-tui\<close>), configuration files (\<open>gestalt-app\<close>) and the
  creation of files are input and output; the file system of the modelled code is a map from paths to
  contents or errors. SHA-256, JSON parsing and writing, serde's encodings and time are parameters. The content
  of the context report (\<open>context/report.rs\<close>) is a parameter of the pipeline; only its name and whether
  it could be written matter. The fields that only tracing reads (spans, log lines) are left out.
\<close>

section \<open>A sample loop\<close>

text \<open>A loop whose collaborators report no error: no hooks, no queue, an empty context, and a
  provider that answers every request with a text and the end of the turn.\<close>

definition sample_loop :: agent_loop where
  "sample_loop = \<lparr>al_env = sample_env, al_max_turns = 2, al_is_cancelled = (\<lambda>_. False),
     al_provider_id = ''p'', al_default_model = ''m'', al_adapt_tools = adapt_tools (\<lambda>_. []),
     al_count_request_tokens = (\<lambda>_ _. Inr 0),
     al_stream = (\<lambda>_ _. Inr [Inr (EvText ''done''), Inr (EvStop EndTurn)]),
     al_descriptors = (\<lambda>_. [t_descriptor sample_tool]),
     al_prepare = (\<lambda>_ _. ([], Inr \<lparr>pcx_packet = sample_packet, pcx_manifest = sample_manifest, pcx_state_delta = delta_default\<rparr>)),
     al_queue_drain = None, al_run_id = None, al_artifacts_dir = None, al_parse = (\<lambda>_. Inr (VObject [])),
     al_request_hash = (\<lambda>_. []), al_retention_fingerprint = (\<lambda>_. [])\<rparr>"

lemma sample_loop_quiet: "\<not> run_failure_origin sample_loop e"
  using sample_env_quiet [of e]
  by (simp add: run_failure_origin_def hook_origin_def provider_origin_def al_hooks_def sample_loop_def)
    (simp add: sample_env_def registry_new_def)

lemma quiet_run_returns:
  assumes "\<And>e. \<not> run_failure_origin L e"
  shows "\<exists>r s' w'. run L s w = (Inr (r, s'), w')"
proof -
  have "wp (run L s) (\<lambda>_ _. True) (run_blamed L) w" by (rule run_bounded) simp
  then show ?thesis using assms
    by (auto simp: wp_def run_blamed_def split: prod.splits sum.splits)
qed

lemma sample_run: "\<exists>r s' w'. run sample_loop sample_session start = (Inr (r, s'), w')"
  by (rule quiet_run_returns) (rule sample_loop_quiet)

section \<open>Properties of a run\<close>


text \<open>C2: a run that returns has added a well-formed conversation to the session's history: steering
  messages of the user and exchanges, each an assistant message followed by the results of
  exactly its tool calls, in the order of the calls, before anything else is said.\<close>

theorem run_adds_conversation:
  assumes "run L s w = (Inr (result, s'), w')"
  shows "\<exists>ms. conversation ms \<and> messages_of s' = messages_of s @ ms"
  using wp_InrD [OF wp_run assms] by (auto simp: run_post_def evolves_def)

theorem run_adds_conversation_witness:
  "\<exists>r s' w'. run sample_loop sample_session start = (Inr (r, s'), w') \<and>
     (\<exists>ms. conversation ms \<and> messages_of s' = messages_of sample_session @ ms)"
  using sample_run run_adds_conversation by blast

text \<open>C3: a run that returns leaves a well-formed history well-formed, keeps what was in it, and does
  not change the session's identity, configuration, tool context, mode or snapshot.\<close>

theorem run_preserves_session:
  assumes "run L s w = (Inr (result, s'), w')" "history_wf s"
  shows "history_wf s' \<and> (\<exists>added. s_history s' = s_history s @ added) \<and> s_id s' = s_id s \<and>
    s_message_namespace s' = s_message_namespace s \<and> s_config s' = s_config s \<and>
    s_tool_ctx s' = s_tool_ctx s \<and> s_mode s' = s_mode s \<and> s_snapshot s' = s_snapshot s"
  using wp_InrD [OF wp_run assms(1)] assms(2) by (auto simp: run_post_def evolves_def)

theorem run_preserves_session_witness:
  "\<exists>r s' w'. run sample_loop sample_session start = (Inr (r, s'), w') \<and> history_wf s'"
proof -
  have "history_wf sample_session" unfolding sample_session_def by (rule history_wf_new)
  then show ?thesis using sample_run run_preserves_session by blast
qed

text \<open>C4: a run that returns has taken at most \<open>max_turns\<close> turns, and its reason to stop is never the
  provider's \<open>ToolUse\<close>.\<close>

theorem run_turns_bounded:
  assumes "run L s w = (Inr (result, s'), w')"
  shows "rr_turns result \<le> unat (al_max_turns L) \<and> rr_stop_reason result \<noteq> ToolUse"
  using wp_InrD [OF wp_run assms] by (simp add: run_post_def)

theorem run_turns_bounded_witness:
  "\<exists>r s' w'. run sample_loop sample_session start = (Inr (r, s'), w') \<and> rr_turns r \<le> 2"
proof -
  have "unat (al_max_turns sample_loop) = 2" by (simp add: sample_loop_def)
  then show ?thesis using sample_run run_turns_bounded by metis
qed

text \<open>C5: a run fails only with an error that something outside the loop reported: an error of the
  event sink, the policy engine, the approval provider, the context pipeline, the steering
  queue or the provider, a hook that panicked or was cancelled, the cancel token, an
  unrecoverable error event or a malformed tool call in the stream.\<close>

theorem run_failure_reported:
  assumes "run L s w = (Inl e, w')"
  shows "run_failure_origin L e"
proof -
  have "wp (run L s) (\<lambda>_ _. True) (run_blamed L) w" by (rule run_bounded) simp
  from wp_InlD [OF this assms] show ?thesis by (simp add: run_blamed_def)
qed

definition cancelled_loop :: agent_loop where
  "cancelled_loop = sample_loop\<lparr>al_is_cancelled := (\<lambda>_. True)\<rparr>"

lemma cancelled_run: "\<exists>e w'. run cancelled_loop sample_session start = (Inl e, w')"
  by (subst run_def, subst run_loop.simps)
    (simp add: cancelled_loop_def sample_loop_def sample_env_def registry_new_def session_start_hooks_def
      emit_checkpoint_def al_emit_def al_hooks_def emit_def emit_fn_def then_act_def bind_act_def ret_def
      note_effect_def ask_def fail_def)

theorem run_failure_reported_witness: "\<exists>e. run_failure_origin cancelled_loop e"
  using cancelled_run run_failure_reported by blast



end
